(* ===== verification/Prelude.thy ===== *)
theory Prelude
  imports Complex_Main "HOL-Library.AList" "HOL-Library.Sublist" "HOL-Library.Log_Nat"
begin

text \<open>
  Shared vocabulary of the development: the lemma collections the component theories
  use, Go's machine integers (64-bit two's complement, kept as an integer with the
  wrap-around written out), IEEE double-precision numbers as exact rationals with the
  rounding written out, instants and durations in nanoseconds, and association lists as
  Go maps.  A Go map is iterated in an order the runtime chooses; here the order of the
  association list is that order, and every theorem is stated for an arbitrary list.
\<close>

named_theorems go_defs \<open>definitions of the Go standard library's string and path functions\<close>
named_theorems svc_defs \<open>operations of the service layer\<close>
named_theorems http_defs \<open>handlers and error writers of the API layer\<close>

type_synonym bytes = string
type_synonym time = int
type_synonym duration = int
type_synonym int64 = int

section \<open>Machine integers\<close>

definition wrap64 :: "int \<Rightarrow> int64" where
  "wrap64 x = (x + 2 ^ 63) mod 2 ^ 64 - 2 ^ 63"

definition in_int64 :: "int \<Rightarrow> bool" where
  "in_int64 x \<longleftrightarrow> - (2 ^ 63) \<le> x \<and> x < 2 ^ 63"

definition shl64 :: "int64 \<Rightarrow> nat \<Rightarrow> int64" where
  "shl64 x n = wrap64 (x * 2 ^ n)"

text \<open>Integer division of Go truncates towards zero.\<close>

definition quot64 :: "int64 \<Rightarrow> int64 \<Rightarrow> int64" where
  "quot64 a b = sgn a * sgn b * (\<bar>a\<bar> div \<bar>b\<bar>)"

definition rem64 :: "int64 \<Rightarrow> int64 \<Rightarrow> int64" where
  "rem64 a b = a - quot64 a b * b"

section \<open>Time\<close>

abbreviation nanos_per_second :: int where
  "nanos_per_second \<equiv> 1000000000"

abbreviation seconds :: "int \<Rightarrow> duration" where
  "seconds n \<equiv> n * nanos_per_second"

text \<open>\<open>Time.Unix\<close> rounds towards the past; \<open>time.Unix(s, 0)\<close> is its section.\<close>

definition time_Unix :: "time \<Rightarrow> int" where
  "time_Unix t = t div nanos_per_second"

definition unix_Time :: "int \<Rightarrow> time" where
  "unix_Time s = s * nanos_per_second"

text \<open>\<open>Time.Sub\<close> saturates at the ends of the range of a 64-bit duration.\<close>

definition time_Sub :: "time \<Rightarrow> time \<Rightarrow> duration" where
  "time_Sub t u = max (- (2 ^ 63)) (min (2 ^ 63 - 1) (t - u))"

section \<open>Double-precision numbers\<close>

datatype float64 = NaN | Inf bool | Fin rat

fun flt :: "float64 \<Rightarrow> float64 \<Rightarrow> bool" where
  "flt (Fin a) (Fin b) = (a < b)"
| "flt (Fin a) (Inf b) = b"
| "flt (Inf a) (Fin b) = (\<not> a)"
| "flt (Inf a) (Inf b) = (\<not> a \<and> b)"
| "flt _ _ = False"

fun fle :: "float64 \<Rightarrow> float64 \<Rightarrow> bool" where
  "fle (Fin a) (Fin b) = (a \<le> b)"
| "fle (Fin a) (Inf b) = b"
| "fle (Inf a) (Fin b) = (\<not> a)"
| "fle (Inf a) (Inf b) = (a = b \<or> b)"
| "fle _ _ = False"

text \<open>The double nearest to one tenth, the constant \<open>0.1\<close> of the source.\<close>

definition double_tenth :: rat where
  "double_tenth = 3602879701896397 / 36028797018963968"

text \<open>Rounding to nearest, ties to even, with \<open>prec\<close> significant bits, least exponent \<open>emin\<close> and
  overflow from \<open>2 ^ emax\<close>.\<close>

definition pow2 :: "int \<Rightarrow> rat" where
  "pow2 e = (if 0 \<le> e then 2 ^ nat e else 1 / 2 ^ nat (- e))"

definition round_half_even :: "rat \<Rightarrow> int" where
  "round_half_even q =
     (let f = \<lfloor>q\<rfloor>; r = q - of_int f in
      if r < 1 / 2 then f else if r > 1 / 2 then f + 1 else if even f then f else f + 1)"

definition floor_log2 :: "rat \<Rightarrow> int" where
  "floor_log2 x =
     (let (n, d) = quotient_of x; k = bitlen n - bitlen d in if pow2 k \<le> x then k else k - 1)"

definition round_float :: "int \<Rightarrow> int \<Rightarrow> int \<Rightarrow> rat \<Rightarrow> float64" where
  "round_float prec emin emax x =
     (if x = 0 then Fin 0
      else let e = max emin (floor_log2 \<bar>x\<bar> - (prec - 1));
               y = of_int (round_half_even (x / pow2 e)) * pow2 e
           in if pow2 emax \<le> \<bar>y\<bar> then Inf (0 < x) else Fin y)"

definition round_double :: "rat \<Rightarrow> float64" where
  "round_double = round_float 53 (- 1074) 1024"

text \<open>A double stored in a single-precision column and read back.\<close>

fun to_single :: "float64 \<Rightarrow> float64" where
  "to_single (Fin x) = round_float 24 (- 149) 128 x"
| "to_single y = y"

section \<open>Generic lemmas\<close>

lemma wrap64_id [simp]: "in_int64 x \<Longrightarrow> wrap64 x = x"
  by (simp add: wrap64_def in_int64_def)

lemma wrap64_range: "in_int64 (wrap64 x)"
proof -
  have "0 \<le> (x + 2 ^ 63) mod 2 ^ 64" and "(x + 2 ^ 63) mod 2 ^ 64 < 2 ^ 64"
    by simp_all
  then show ?thesis by (simp add: wrap64_def in_int64_def)
qed

lemma time_Unix_unix_Time [simp]: "time_Unix (unix_Time s) = s"
  by (simp add: time_Unix_def unix_Time_def)

lemma time_Unix_bounds:
  "unix_Time (time_Unix t) \<le> t" "t < unix_Time (time_Unix t) + nanos_per_second"
  by (simp_all add: time_Unix_def unix_Time_def)

lemma time_Unix_mono: "t \<le> u \<Longrightarrow> time_Unix t \<le> time_Unix u"
  by (simp add: time_Unix_def zdiv_mono1)

text \<open>Association lists as Go maps: assignment and deletion, seen through \<open>map_of\<close>.\<close>

lemma map_of_assign [simp]: "map_of (AList.update k v al) = (map_of al)(k \<mapsto> v)"
  by (rule update_conv')

lemma map_of_remove [simp]: "map_of (AList.delete k al) = (map_of al)(k := None)"
  by (rule delete_conv')

lemma distinct_keys_update [simp]:
  "distinct (map fst al) \<Longrightarrow> distinct (map fst (AList.update k v al))"
  by (rule distinct_update)

lemma distinct_keys_delete [simp]:
  "distinct (map fst al) \<Longrightarrow> distinct (map fst (AList.delete k al))"
  by (rule distinct_delete)

lemma map_of_mem_iff:
  "distinct (map fst al) \<Longrightarrow> map_of al k = Some v \<longleftrightarrow> (k, v) \<in> set al"
  by (auto dest: map_of_SomeD)

lemma values_map_of:
  "distinct (map fst al) \<Longrightarrow> snd ` set al = ran (map_of al)"
  by (force simp: ran_def map_of_mem_iff image_iff)

end
