(* ===== verification/Go_Strings.thy ===== *)
theory Go_Strings
  imports Prelude
begin

text \<open>
  The functions of Go's packages \<open>strings\<close>, \<open>path\<close> and \<open>fmt\<close> that the program calls.
  A Go string is a sequence of bytes, and so is a \<open>string\<close> here.  White space is what
  \<open>unicode.IsSpace\<close> accepts, given as the UTF-8 encodings of those code points.
\<close>

section \<open>Definitions\<close>

definition strings_HasPrefix :: "string \<Rightarrow> string \<Rightarrow> bool" where
  "strings_HasPrefix s p = prefix p s"

definition strings_HasSuffix :: "string \<Rightarrow> string \<Rightarrow> bool" where
  "strings_HasSuffix s p = suffix p s"

definition strings_TrimPrefix :: "string \<Rightarrow> string \<Rightarrow> string" where
  "strings_TrimPrefix s p = (if strings_HasPrefix s p then drop (length p) s else s)"

text \<open>White space: the ASCII blanks, then U+0085, U+00A0, U+1680, U+2000 to U+200A, U+2028,
  U+2029, U+202F, U+205F and U+3000 in UTF-8.\<close>

definition space_seqs :: "string list" where
  "space_seqs =
     [[CHR 0x20], [CHR 0x09], [CHR 0x0A], [CHR 0x0B], [CHR 0x0C], [CHR 0x0D],
      [CHR 0xC2, CHR 0x85], [CHR 0xC2, CHR 0xA0], [CHR 0xE1, CHR 0x9A, CHR 0x80],
      [CHR 0xE2, CHR 0x80, CHR 0x80], [CHR 0xE2, CHR 0x80, CHR 0x81],
      [CHR 0xE2, CHR 0x80, CHR 0x82], [CHR 0xE2, CHR 0x80, CHR 0x83],
      [CHR 0xE2, CHR 0x80, CHR 0x84], [CHR 0xE2, CHR 0x80, CHR 0x85],
      [CHR 0xE2, CHR 0x80, CHR 0x86], [CHR 0xE2, CHR 0x80, CHR 0x87],
      [CHR 0xE2, CHR 0x80, CHR 0x88], [CHR 0xE2, CHR 0x80, CHR 0x89],
      [CHR 0xE2, CHR 0x80, CHR 0x8A], [CHR 0xE2, CHR 0x80, CHR 0xA8],
      [CHR 0xE2, CHR 0x80, CHR 0xA9], [CHR 0xE2, CHR 0x80, CHR 0xAF],
      [CHR 0xE2, CHR 0x81, CHR 0x9F], [CHR 0xE3, CHR 0x80, CHR 0x80]]"

text \<open>\<open>lead_len seqs s\<close>: the length of the first of \<open>seqs\<close> that starts \<open>s\<close>, 0 for none.\<close>

fun lead_len :: "string list \<Rightarrow> string \<Rightarrow> nat" where
  "lead_len [] s = 0"
| "lead_len (q # qs) s = (if prefix q s then length q else lead_len qs s)"

function trim_lead :: "string list \<Rightarrow> string \<Rightarrow> string" where
  "trim_lead seqs s =
     (let n = lead_len seqs s in if n = 0 \<or> s = [] then s else trim_lead seqs (drop n s))"
  by pat_completeness auto
termination
  by (relation "measure (\<lambda>(seqs, s). length s)") (auto simp: Let_def)

definition strings_TrimSpace :: "string \<Rightarrow> string" where
  "strings_TrimSpace s = rev (trim_lead (map rev space_seqs) (rev (trim_lead space_seqs s)))"

definition strings_Trim :: "string \<Rightarrow> string \<Rightarrow> string" where
  \<comment> \<open>for a cutset of ASCII characters\<close>
  "strings_Trim s cutset =
     rev (dropWhile (\<lambda>c. c \<in> set cutset) (rev (dropWhile (\<lambda>c. c \<in> set cutset) s)))"

definition strings_TrimRight :: "string \<Rightarrow> string \<Rightarrow> string" where
  "strings_TrimRight s cutset = rev (dropWhile (\<lambda>c. c \<in> set cutset) (rev s))"

text \<open>\<open>strings.Split\<close> with a separator of one byte; \<open>strings.Join\<close>.\<close>

fun split_on :: "char \<Rightarrow> string \<Rightarrow> string list" where
  "split_on c [] = [[]]"
| "split_on c (x # xs) =
     (if x = c then [] # split_on c xs
      else (case split_on c xs of [] \<Rightarrow> [[x]] | y # ys \<Rightarrow> (x # y) # ys))"

fun strings_Join :: "string list \<Rightarrow> string \<Rightarrow> string" where
  "strings_Join [] sep = []"
| "strings_Join [x] sep = x"
| "strings_Join (x # y # zs) sep = x @ sep @ strings_Join (y # zs) sep"

text \<open>\<open>strings.SplitN(s, c, n)\<close> for \<open>n > 0\<close>: at most \<open>n\<close> parts, the last one unsplit.\<close>

fun split_n :: "nat \<Rightarrow> char \<Rightarrow> string \<Rightarrow> string list" where
  "split_n 0 c s = []"
| "split_n (Suc 0) c s = [s]"
| "split_n (Suc (Suc n)) c s =
     (let a = takeWhile (\<lambda>x. x \<noteq> c) s in
      if a = s then [s] else a # split_n (Suc n) c (drop (Suc (length a)) s))"

text \<open>\<open>strings.Fields\<close>: the maximal runs without white space.\<close>

function fields_aux :: "string \<Rightarrow> string \<Rightarrow> string list" where
  "fields_aux cur [] = (if cur = [] then [] else [rev cur])"
| "fields_aux cur (x # xs) =
     (let n = lead_len space_seqs (x # xs) in
      if n = 0 then fields_aux (x # cur) xs
      else (if cur = [] then [] else [rev cur]) @ fields_aux [] (drop n (x # xs)))"
  by pat_completeness auto
termination
  by (relation "measure (\<lambda>(cur, s). length s)") (auto simp: Let_def)

definition strings_Fields :: "string \<Rightarrow> string list" where
  "strings_Fields s = fields_aux [] s"

fun strings_Index :: "string \<Rightarrow> string \<Rightarrow> nat option" where
  "strings_Index [] sub = (if sub = [] then Some 0 else None)"
| "strings_Index (x # xs) sub =
     (if prefix sub (x # xs) then Some 0 else map_option Suc (strings_Index xs sub))"

text \<open>\<open>strings.LastIndex\<close> of one byte, and \<open>strings.Cut\<close> around the first occurrence of one.\<close>

fun last_index :: "char \<Rightarrow> string \<Rightarrow> nat option" where
  "last_index c [] = None"
| "last_index c (x # xs) =
     (case last_index c xs of Some i \<Rightarrow> Some (Suc i) | None \<Rightarrow> if x = c then Some 0 else None)"

definition strings_Cut :: "string \<Rightarrow> char \<Rightarrow> string \<times> string \<times> bool" where
  "strings_Cut s c =
     (let a = takeWhile (\<lambda>x. x \<noteq> c) s in
      if a = s then (s, [], False) else (a, drop (Suc (length a)) s, True))"

definition strings_ContainsAny :: "string \<Rightarrow> string \<Rightarrow> bool" where
  "strings_ContainsAny s cs = list_ex (\<lambda>x. x \<in> set cs) s"

text \<open>\<open>strings.ReplaceAll\<close> for a non-empty \<open>old\<close>: left to right, without overlap.\<close>

function strings_ReplaceAll :: "string \<Rightarrow> string \<Rightarrow> string \<Rightarrow> string" where
  "strings_ReplaceAll [] old new = []"
| "strings_ReplaceAll (x # xs) old new =
     (if old \<noteq> [] \<and> prefix old (x # xs)
      then new @ strings_ReplaceAll (drop (length old) (x # xs)) old new
      else x # strings_ReplaceAll xs old new)"
  by pat_completeness auto
termination
  by (relation "measure (\<lambda>(s, old, new). length s)") auto

text \<open>The verb \<open>%d\<close> of \<open>fmt\<close>.\<close>

definition digit_char :: "nat \<Rightarrow> char" where
  "digit_char d = char_of (48 + d)"

fun show_nat :: "nat \<Rightarrow> string" where
  "show_nat n = (if n < 10 then [digit_char n] else show_nat (n div 10) @ [digit_char (n mod 10)])"

definition show_int :: "int \<Rightarrow> string" where
  "show_int i = (if i < 0 then CHR ''-'' # show_nat (nat (- i)) else show_nat (nat i))"

section \<open>Paths\<close>

text \<open>
  \<open>path.Clean\<close> (which is \<open>filepath.Clean\<close> on the platforms the service runs on): drop empty
  and \<open>.\<close> elements, let \<open>..\<close> remove the element before it, drop \<open>..\<close> at the root, and
  answer \<open>.\<close> for nothing.
\<close>

fun clean_elems :: "bool \<Rightarrow> string list \<Rightarrow> string list \<Rightarrow> string list" where
  "clean_elems rooted out [] = rev out"
| "clean_elems rooted out (c # cs) =
     (if c = [] \<or> c = ''.'' then clean_elems rooted out cs
      else if c = ''..'' then
        (case out of
           [] \<Rightarrow> if rooted then clean_elems rooted [] cs else clean_elems rooted [''..''] cs
         | t # ts \<Rightarrow> if t = ''..'' then clean_elems rooted (''..'' # out) cs
                    else clean_elems rooted ts cs)
      else clean_elems rooted (c # out) cs)"

definition path_IsAbs :: "string \<Rightarrow> bool" where
  "path_IsAbs s = strings_HasPrefix s ''/''"

definition path_Clean :: "string \<Rightarrow> string" where
  "path_Clean s =
     (let rooted = path_IsAbs s;
          out = strings_Join (clean_elems rooted [] (split_on (CHR ''/'') s)) ''/''
      in if rooted then CHR ''/'' # out else if out = [] then ''.'' else out)"

definition path_Join :: "string list \<Rightarrow> string" where
  "path_Join es =
     (let es' = dropWhile (\<lambda>e. e = []) es in
      if es' = [] then []
      else path_Clean (strings_Join (filter (\<lambda>e. e \<noteq> []) es') ''/''))"

lemmas go_string_defs [go_defs] =
  strings_HasPrefix_def strings_HasSuffix_def strings_TrimPrefix_def strings_Cut_def
  strings_ContainsAny_def strings_Trim_def strings_TrimRight_def strings_TrimSpace_def
  strings_Fields_def path_IsAbs_def path_Clean_def path_Join_def

declare show_nat.simps [simp del] trim_lead.simps [simp del]

section \<open>Splitting and joining\<close>

lemma split_on_not_Nil [simp]: "split_on c s \<noteq> []"
  by (induction s) (auto split: list.splits)

lemma split_on_no_sep: "x \<in> set (split_on c s) \<Longrightarrow> c \<notin> set x"
  by (induction s arbitrary: x) (auto split: list.splits if_splits)

lemma split_on_free [simp]: "c \<notin> set s \<Longrightarrow> split_on c s = [s]"
  by (induction s) auto

lemma split_on_append: "c \<notin> set a \<Longrightarrow> split_on c (a @ c # s) = a # split_on c s"
  by (induction a) auto

lemma strings_Join_Cons: "xs \<noteq> [] \<Longrightarrow> strings_Join (x # xs) sep = x @ sep @ strings_Join xs sep"
  by (cases xs) auto

lemma join_split [simp]: "strings_Join (split_on c s) [c] = s"
proof (induction s)
  case Nil
  then show ?case by simp
next
  case (Cons x s)
  obtain y ys where "split_on c s = y # ys"
    by (cases "split_on c s") auto
  with Cons.IH show ?case
    by (cases ys) auto
qed

lemma split_join:
  assumes "xs \<noteq> []" and "\<forall>x \<in> set xs. c \<notin> set x"
  shows "split_on c (strings_Join xs [c]) = xs"
  using assms
proof (induction xs)
  case Nil
  then show ?case by simp
next
  case (Cons x xs)
  then show ?case
    by (cases xs) (auto simp: split_on_append)
qed

section \<open>Cleaned paths\<close>

text \<open>An element of a cleaned rooted path names a proper entry.\<close>

definition proper_elem :: "string \<Rightarrow> bool" where
  "proper_elem c \<longleftrightarrow> c \<noteq> [] \<and> c \<noteq> ''.'' \<and> c \<noteq> ''..'' \<and> CHR ''/'' \<notin> set c"

text \<open>One step of the cleaning loop, by the kind of the element.\<close>

lemma clean_elems_skip: "c = [] \<or> c = ''.'' \<Longrightarrow> clean_elems r out (c # cs) = clean_elems r out cs"
  by simp

lemma clean_elems_up:
  "clean_elems r out (''..'' # cs) =
     clean_elems r (if out = [] then (if r then [] else [''..''])
                    else if hd out = ''..'' then ''..'' # out else tl out) cs"
  by (cases out) simp_all

lemma clean_elems_push:
  "c \<noteq> [] \<Longrightarrow> c \<noteq> ''.'' \<Longrightarrow> c \<noteq> ''..'' \<Longrightarrow>
     clean_elems r out (c # cs) = clean_elems r (c # out) cs"
  by simp

declare clean_elems.simps(2) [simp del]

text \<open>A property of elements that holds of what is on the stack, of what is pushed and, for a
  path without a root, of \<open>..\<close>, holds of every element of the result.\<close>

lemma clean_elems_all:
  assumes "\<forall>c \<in> set out. P c"
    and "\<And>c. c \<in> set cs \<Longrightarrow> c \<noteq> [] \<Longrightarrow> c \<noteq> ''.'' \<Longrightarrow> c \<noteq> ''..'' \<Longrightarrow> P c"
    and "r \<and> \<not> P ''..'' \<or> P ''..''"
  shows "\<forall>c \<in> set (clean_elems r out cs). P c"
  using assms(1,2)
proof (induction cs arbitrary: out)
  case Nil
  then show ?case by simp
next
  case (Cons c cs)
  note IH = Cons.IH [OF _ Cons.prems(2)]
  consider "c = [] \<or> c = ''.''" | "c = ''..''" | "c \<noteq> []" "c \<noteq> ''.''" "c \<noteq> ''..''"
    by blast
  then show ?case
  proof cases
    case 1
    show ?thesis
      unfolding clean_elems_skip [OF 1] using Cons.prems(1) by (rule IH) simp_all
  next
    case 2
    have hd: "hd out \<noteq> ''..''" if "\<not> P ''..''" "out \<noteq> []"
      using that Cons.prems(1) hd_in_set [of out] by metis
    show ?thesis
      unfolding 2 clean_elems_up
    proof (rule IH)
      show "\<forall>a \<in> set (if out = [] then (if r then [] else [''..''])
          else if hd out = ''..'' then ''..'' # out else tl out). P a"
        using Cons.prems(1) assms(3) hd by (auto dest: list.set_sel(2) simp del: char.inject)
    qed simp_all
  next
    case 3
    show ?thesis
      unfolding clean_elems_push [OF 3]
      using Cons.prems(1) Cons.prems(2) [OF _ 3] by (intro IH) simp_all
  qed
qed

lemma clean_elems_proper:
  assumes "\<forall>c \<in> set cs. CHR ''/'' \<notin> set c"
  shows "\<forall>c \<in> set (clean_elems True [] cs). proper_elem c"
  using assms by (intro clean_elems_all) (simp_all add: proper_elem_def)

lemma clean_elems_no_slash:
  assumes "\<forall>c \<in> set cs. CHR ''/'' \<notin> set c"
  shows "\<forall>c \<in> set (clean_elems r [] cs). CHR ''/'' \<notin> set c"
  using assms by (intro clean_elems_all) simp_all

lemma clean_elems_id:
  "\<forall>c \<in> set cs. proper_elem c \<Longrightarrow> clean_elems r out cs = rev out @ cs"
  by (induction cs arbitrary: out) (simp_all add: proper_elem_def clean_elems_push)

text \<open>The elements of a path, and the path of its elements.\<close>

definition path_elems :: "string \<Rightarrow> string list" where
  "path_elems s = clean_elems (path_IsAbs s) [] (split_on (CHR ''/'') s)"

lemma path_elems_abs_proper: "path_IsAbs s \<Longrightarrow> c \<in> set (path_elems s) \<Longrightarrow> proper_elem c"
  using clean_elems_proper [of "split_on (CHR ''/'') s"]
  by (auto simp: path_elems_def dest: split_on_no_sep)

lemma path_Clean_abs:
  "path_IsAbs s \<Longrightarrow> path_Clean s = CHR ''/'' # strings_Join (path_elems s) ''/''"
  by (simp add: path_Clean_def path_elems_def)

lemma path_IsAbs_Cons [simp]: "path_IsAbs (CHR ''/'' # s)"
  by (simp add: path_IsAbs_def strings_HasPrefix_def)

lemma path_elems_rooted:
  assumes "\<forall>c \<in> set cs. proper_elem c"
  shows "path_elems (CHR ''/'' # strings_Join cs ''/'') = cs"
proof (cases "cs = []")
  case True
  then show ?thesis by (simp add: path_elems_def clean_elems_skip)
next
  case False
  have "split_on (CHR ''/'') (strings_Join cs ''/'') = cs"
    using False assms by (intro split_join) (auto simp: proper_elem_def)
  then show ?thesis
    using assms by (simp add: path_elems_def clean_elems_id clean_elems_skip)
qed

lemma path_Clean_idem_abs:
  assumes "path_IsAbs s"
  shows "path_Clean (path_Clean s) = path_Clean s"
  using assms path_elems_rooted [of "path_elems s"] path_elems_abs_proper
  by (simp add: path_Clean_abs)

end
