(* ===== verification/Domain.thy ===== *)
theory Domain
  imports Go_Strings
begin

text \<open>
  The types of \<open>internal/domain\<close> and the error values of the program.

  A Go pointer to an \<open>Environment\<close> is an address of the heap of environments, a list the
  program only appends to and updates in place: the stores and the services share these
  objects, so an assignment to a field through one pointer is seen through every other.
  Snapshots and skills are not written after they are shared, so they are values.

  An error is one of the sentinels declared with \<open>errors.New\<close>, a sentinel or a context
  wrapped around another error by \<open>fmt.Errorf\<close>, or an error of a library.
\<close>

section \<open>internal/domain\<close>

definition NetworkNone :: string where
  "NetworkNone = ''none''"

definition NetworkEgressLimited :: string where
  "NetworkEgressLimited = ''egress-limited''"

definition NetworkFull :: string where
  "NetworkFull = ''full''"

definition NetworkPolicy_Valid :: "string \<Rightarrow> bool" where
  "NetworkPolicy_Valid n \<longleftrightarrow> n = NetworkNone \<or> n = NetworkEgressLimited \<or> n = NetworkFull"

definition StatusCreating :: string where
  "StatusCreating = ''creating''"

definition StatusRunning :: string where
  "StatusRunning = ''running''"

definition StatusStopping :: string where
  "StatusStopping = ''stopping''"

definition StatusStopped :: string where
  "StatusStopped = ''stopped''"

definition StatusDestroyed :: string where
  "StatusDestroyed = ''destroyed''"

text \<open>\<open>map[string]string\<close>: \<open>None\<close> is the nil map.\<close>

type_synonym string_map = "(string \<times> string) list option"

record EnvironmentSpec =
  Image :: string
  CPU :: float64
  MemoryMB :: int64
  DiskMB :: int64
  NetworkPolicy :: string
  EnvVars :: string_map

record Environment =
  env_ID :: string
  env_TenantID :: string
  env_UserID :: string
  env_Spec :: EnvironmentSpec
  env_Status :: string
  env_ContainerID :: string
  env_CreatedAt :: time
  env_LastUsedAt :: time
  env_ExpiresAt :: time

record ExecRequest =
  er_Command :: "string list"
  er_WorkingDir :: string
  er_TimeoutSeconds :: int64
  er_CaptureOutput :: bool

record ExecEvent =
  ev_Stream :: string
  ev_Data :: bytes

record FileInfo =
  fi_Name :: string
  fi_Path :: string
  fi_Size :: int64
  fi_IsDir :: bool
  fi_ModTime :: string

record WSInputMessage =
  wi_Type :: string
  wi_Data :: string
  wi_Cols :: nat
  wi_Rows :: nat

record WSOutputMessage =
  wo_Stream :: string
  wo_Data :: string

record Snapshot =
  snap_ID :: string
  snap_TenantID :: string
  snap_UserID :: string
  snap_EnvironmentID :: string
  snap_ImageID :: string
  snap_Label :: string
  snap_Size :: int64
  snap_CreatedAt :: time

definition Snapshot_ImageRef :: "Snapshot \<Rightarrow> string" where
  "Snapshot_ImageRef s = ''haas-snapshots:'' @ snap_ID s"

record Skill =
  skill_ID :: string
  skill_TenantID :: string
  skill_UserID :: string
  skill_Name :: string
  skill_SizeBytes :: int64
  skill_CreatedAt :: time
  skill_UpdatedAt :: time

definition Skill_InstallDir :: "Skill \<Rightarrow> string \<Rightarrow> string" where
  "Skill_InstallDir s baseDir = path_Join [baseDir, skill_Name s]"

record InstalledSkill =
  is_Name :: string
  is_Description :: string
  is_Path :: string

section \<open>Errors\<close>

datatype sentinel =
    ErrNotFound
  | ErrImageRequired | ErrImageNotAllowed | ErrInvalidCPU | ErrInvalidMemory | ErrInvalidNetwork
  | ErrGetEnvironment | ErrListEnvironments | ErrCreateEnvironment | ErrCreateContainer
  | ErrStartContainer | ErrDeleteEnvironment | ErrGetSnapshot
  | ErrEnvironmentNotRunning | ErrCreateSnapshot | ErrStoreSnapshot | ErrListSnapshots
  | ErrDeleteSnapshot
  | ErrPathRequired | ErrInvalidPath | ErrReadRequestBody | ErrListFiles | ErrReadFile
  | ErrWriteFile
  | ErrSkillNameRequired | ErrInvalidSkillName | ErrInvalidSkillArchive | ErrSkillMissingManifest
  | ErrSkillTooLarge | ErrListSkills | ErrStoreSkill | ErrDeleteSkill | ErrInstallSkill
  | ErrCommandRequired | ErrExecFailed

text \<open>\<open>Wrapped s e\<close> is \<open>fmt.Errorf("%w: %v", s, e)\<close>: \<open>e\<close> is only printed.  \<open>Context m e\<close> is
  \<open>fmt.Errorf(m + ": %w", e)\<close>.  \<open>Opaque\<close> is an error of a library, \<open>Quoted m x\<close> a message with
  a quoted operand.\<close>

datatype goerr =
    Sentinel sentinel
  | ImageNotAllowedError string
  | Wrapped sentinel goerr
  | Context string goerr
  | Opaque string
  | Quoted string string

primrec errors_Is :: "goerr \<Rightarrow> sentinel \<Rightarrow> bool" where
  "errors_Is (Sentinel s) t = (s = t)"
| "errors_Is (ImageNotAllowedError img) t = (t = ErrImageNotAllowed)"
| "errors_Is (Wrapped s e) t = (s = t)"
| "errors_Is (Context m e) t = errors_Is e t"
| "errors_Is (Opaque m) t = False"
| "errors_Is (Quoted m x) t = False"

text \<open>The messages the API layer prints.\<close>

definition ImageNotAllowedError_Error :: "string \<Rightarrow> string" where
  "ImageNotAllowedError_Error img = ''image not allowed: '' @ img"

section \<open>The heap of environments\<close>

type_synonym heap = "Environment list"

definition new_env :: "Environment \<Rightarrow> heap \<Rightarrow> nat \<times> heap" where
  "new_env e h = (length h, h @ [e])"

text \<open>The new heap still holds every old object at its address, unchanged.\<close>

definition heap_ext :: "heap \<Rightarrow> heap \<Rightarrow> bool" where
  "heap_ext h h' \<longleftrightarrow> prefix h h'"

lemmas status_defs = StatusCreating_def StatusRunning_def StatusStopping_def StatusStopped_def
  StatusDestroyed_def
lemmas network_defs = NetworkNone_def NetworkEgressLimited_def NetworkFull_def

lemma heap_ext_refl [simp, intro!]: "heap_ext h h"
  by (simp add: heap_ext_def)

lemma heap_ext_append [simp, intro!]: "heap_ext h (h @ xs)"
  by (simp add: heap_ext_def)

lemma heap_ext_trans: "heap_ext a b \<Longrightarrow> heap_ext b c \<Longrightarrow> heap_ext a c"
  by (auto simp: heap_ext_def intro: prefix_order.trans)

lemma heap_ext_length: "heap_ext h h' \<Longrightarrow> length h \<le> length h'"
  by (simp add: heap_ext_def prefix_length_le)

lemma heap_ext_nth: "heap_ext h h' \<Longrightarrow> p < length h \<Longrightarrow> h' ! p = h ! p"
  by (auto simp: heap_ext_def prefix_def nth_append)

lemma status_distinct [simp]:
  "StatusRunning \<noteq> StatusStopped" "StatusRunning \<noteq> StatusDestroyed"
  "StatusCreating \<noteq> StatusStopped" "StatusCreating \<noteq> StatusDestroyed"
  "StatusCreating \<noteq> StatusRunning" "StatusRunning \<noteq> StatusCreating"
  by (simp_all add: status_defs)

end
