(* ===== verification/Engine.thy ===== *)
theory Engine
  imports Domain
begin

text \<open>
  \<open>internal/engine\<close> up to the Docker client: the interface \<open>engine.Engine\<close> as a record of its
  methods over an engine state, the translation of an environment's specification into the
  limits of a container (\<open>security.go\<close>, \<open>network.go\<close>, \<open>containerConfig\<close>), the parsers of the
  outputs of \<open>find\<close> and \<open>ls\<close>, \<open>splitPath\<close>, the demultiplexer of Docker's stream format, and
  the engine \<open>MockEngine\<close> of the tests.

  A reader is the sequence of bytes it delivers and the error, if any, that it ends with.
  Methods that take a context ignore cancellation here: a cancelled call is a failing call.
\<close>

section \<open>The interface\<close>

record reader =
  rd_data :: bytes
  rd_err :: "goerr option"

text \<open>What \<open>Exec\<close> answers: the stream, and the exec ID when the reader can tell it.\<close>

record exec_reader =
  xr_reader :: reader
  xr_execID :: "string option"

text \<open>A terminal session.  What its reader delivers, and when, is not the session's state: it is
  given as events where sessions are run.\<close>

record 'e InteractiveSession =
  ses_Write :: "bytes \<Rightarrow> 'e \<Rightarrow> (goerr + nat) \<times> 'e"
  ses_Resize :: "nat \<Rightarrow> nat \<Rightarrow> 'e \<Rightarrow> goerr option \<times> 'e"
  ses_Close :: "'e \<Rightarrow> goerr option \<times> 'e"
  ses_ExecID :: string

record 'e Engine =
  eng_CreateContainer :: "Environment \<Rightarrow> 'e \<Rightarrow> (goerr + string) \<times> 'e"
  eng_StartContainer :: "string \<Rightarrow> 'e \<Rightarrow> goerr option \<times> 'e"
  eng_StopContainer :: "string \<Rightarrow> 'e \<Rightarrow> goerr option \<times> 'e"
  eng_Exec :: "string \<Rightarrow> ExecRequest \<Rightarrow> 'e \<Rightarrow> (goerr + exec_reader) \<times> 'e"
  eng_ExecInteractive :: "string \<Rightarrow> ExecRequest \<Rightarrow> 'e \<Rightarrow> (goerr + 'e InteractiveSession) \<times> 'e"
  eng_ExecExitCode :: "string \<Rightarrow> 'e \<Rightarrow> (goerr + int) \<times> 'e"
  eng_ListFiles :: "string \<Rightarrow> string \<Rightarrow> 'e \<Rightarrow> (goerr + FileInfo list) \<times> 'e"
  eng_ReadFile :: "string \<Rightarrow> string \<Rightarrow> 'e \<Rightarrow> (goerr + reader) \<times> 'e"
  eng_WriteFile :: "string \<Rightarrow> string \<Rightarrow> bytes \<Rightarrow> 'e \<Rightarrow> goerr option \<times> 'e"
  eng_ExtractArchive :: "string \<Rightarrow> string \<Rightarrow> bytes \<Rightarrow> 'e \<Rightarrow> goerr option \<times> 'e"
  eng_SnapshotContainer :: "string \<Rightarrow> string \<Rightarrow> 'e \<Rightarrow> (goerr + string) \<times> 'e"
  eng_DeleteSnapshotImage :: "string \<Rightarrow> 'e \<Rightarrow> goerr option \<times> 'e"

section \<open>Limits of a container\<close>

definition networkMode :: "string \<Rightarrow> string" where
  "networkMode policy =
     (if policy = NetworkNone then ''none''
      else if policy = NetworkEgressLimited then ''bridge''
      else if policy = NetworkFull then ''bridge''
      else ''none'')"

record HostConfig =
  hc_Privileged :: bool
  hc_CapDrop :: "string list"
  hc_CapAdd :: "string list"
  hc_SecurityOpt :: "string list"
  hc_NanoCPUs :: "int64 option"
  hc_Memory :: int64
  hc_MemorySwap :: int64
  hc_PidsLimit :: int64
  hc_StorageOpt :: "(string \<times> string) list"
  hc_NetworkMode :: string

definition pidsLimit :: "int64 \<Rightarrow> int64" where
  "pidsLimit n = n"

definition formatDiskSize :: "int64 \<Rightarrow> string" where
  "formatDiskSize mb =
     (let gb = quot64 mb 1024 in
      if gb > 0 \<and> rem64 mb 1024 = 0 then show_int gb @ ''g'' else show_int mb @ ''m'')"

text \<open>\<open>int64(spec.CPU * 1e9)\<close>: the product is rounded to a double, the conversion truncates
  towards zero; outside the range of \<open>int64\<close> its value is not specified by the language, which
  is \<open>None\<close>.\<close>

fun fmul :: "float64 \<Rightarrow> rat \<Rightarrow> float64" where
  "fmul (Fin x) y = round_double (x * y)"
| "fmul (Inf s) y = (if y = 0 then NaN else Inf (s = (0 < y)))"
| "fmul NaN y = NaN"

definition truncate_rat :: "rat \<Rightarrow> int" where
  "truncate_rat x = (if 0 \<le> x then \<lfloor>x\<rfloor> else \<lceil>x\<rceil>)"

fun float_to_int64 :: "float64 \<Rightarrow> int64 option" where
  "float_to_int64 (Fin x) = (if in_int64 (truncate_rat x) then Some (truncate_rat x) else None)"
| "float_to_int64 _ = None"

definition securityHostConfig :: "EnvironmentSpec \<Rightarrow> HostConfig" where
  "securityHostConfig spec = \<lparr>
     hc_Privileged = False,
     hc_CapDrop = [''ALL''],
     hc_CapAdd = (if NetworkPolicy spec \<noteq> NetworkNone then [''NET_BIND_SERVICE''] else []),
     hc_SecurityOpt = [''no-new-privileges''],
     hc_NanoCPUs = float_to_int64 (fmul (CPU spec) 1000000000),
     hc_Memory = wrap64 (wrap64 (MemoryMB spec * 1024) * 1024),
     hc_MemorySwap = wrap64 (wrap64 (MemoryMB spec * 1024) * 1024),
     hc_PidsLimit = pidsLimit 256,
     hc_StorageOpt = (if DiskMB spec > 0 then [(''size'', formatDiskSize (DiskMB spec))] else []),
     hc_NetworkMode = []\<rparr>"

definition defaultWorkspaceDir :: string where
  "defaultWorkspaceDir = ''/workspace''"

record ContainerConfig =
  cc_Image :: string
  cc_Env :: "string list"
  cc_WorkingDir :: string
  cc_Labels :: "(string \<times> string) list"
  cc_Cmd :: "string list"

definition containerConfig :: "Environment \<Rightarrow> ContainerConfig" where
  "containerConfig env = \<lparr>
     cc_Image = Image (env_Spec env),
     cc_Env = map (\<lambda>(k, v). k @ ''='' @ v) (case EnvVars (env_Spec env) of None \<Rightarrow> [] | Some m \<Rightarrow> m),
     cc_WorkingDir = defaultWorkspaceDir,
     cc_Labels = [(''haas.environment.id'', env_ID env), (''haas.managed'', ''true'')],
     cc_Cmd = [''sleep'', ''infinity'']\<rparr>"

section \<open>Listings\<close>

text \<open>\<open>fmt.Sscanf(s, "%d", &size)\<close> on a variable that holds 0: leading white space, a sign, the
  longest run of decimal digits; the variable keeps its value when there is none or when the
  number is out of range.\<close>

definition is_digit :: "char \<Rightarrow> bool" where
  "is_digit c \<longleftrightarrow> 48 \<le> (of_char c :: nat) \<and> (of_char c :: nat) \<le> 57"

definition read_nat :: "string \<Rightarrow> nat" where
  "read_nat ds = foldl (\<lambda>n c. 10 * n + (of_char c - 48)) 0 ds"

definition Sscanf_d :: "string \<Rightarrow> int64" where
  "Sscanf_d s =
     (let t = trim_lead space_seqs s;
          neg = (t \<noteq> [] \<and> hd t = CHR ''-'');
          u = (if t \<noteq> [] \<and> (hd t = CHR ''-'' \<or> hd t = CHR ''+'') then tl t else t);
          ds = takeWhile is_digit u;
          v = (if neg then - int (read_nat ds) else int (read_nat ds))
      in if ds = [] \<or> \<not> in_int64 v then 0 else v)"

definition join_base :: "string \<Rightarrow> string \<Rightarrow> string" where
  "join_base basePath name =
     (if strings_HasSuffix basePath ''/'' then basePath else basePath @ ''/'') @ name"

definition parse_find_line :: "string \<Rightarrow> string \<Rightarrow> FileInfo option" where
  "parse_find_line basePath line =
     (if line = [] then None
      else let parts = split_n 4 (CHR 0x09) line in
        if length parts < 4 then None
        else let name = parts ! 0 in
          if name = [] \<or> name = ''.'' then None
          else Some \<lparr>fi_Name = name, fi_Path = join_base basePath name, fi_Size = Sscanf_d (parts ! 1),
                 fi_IsDir = (parts ! 3 = ''d''), fi_ModTime = parts ! 2\<rparr>)"

definition parseFileList :: "string \<Rightarrow> string \<Rightarrow> FileInfo list" where
  "parseFileList basePath output =
     List.map_filter (parse_find_line basePath) (split_on (CHR 0x0A) (strings_TrimSpace output))"

definition parse_ls_line :: "string \<Rightarrow> string \<Rightarrow> FileInfo option" where
  "parse_ls_line basePath line =
     (if line = [] \<or> strings_HasPrefix line ''total'' then None
      else let fields = strings_Fields line in
        if length fields < 9 then None
        else let name = strings_Join (drop 8 fields) '' '' in
          if name = ''.'' \<or> name = ''..'' then None
          else Some \<lparr>fi_Name = name, fi_Path = join_base basePath name, fi_Size = Sscanf_d (fields ! 4),
                 fi_IsDir = (hd (fields ! 0) = CHR ''d''),
                 fi_ModTime = fields ! 5 @ '' '' @ fields ! 6 @ '' '' @ fields ! 7\<rparr>)"

definition parseLSOutput :: "string \<Rightarrow> string \<Rightarrow> FileInfo list" where
  "parseLSOutput basePath output =
     List.map_filter (parse_ls_line basePath) (split_on (CHR 0x0A) (strings_TrimSpace output))"

definition splitPath :: "string \<Rightarrow> string \<times> string" where
  "splitPath path =
     (case last_index (CHR ''/'') path of
        None \<Rightarrow> (''/'', path)
      | Some idx \<Rightarrow> (if take idx path = [] then ''/'' else take idx path, drop (Suc idx) path))"

section \<open>Docker's stream format\<close>

definition io_EOF :: goerr where
  "io_EOF = Opaque ''EOF''"

definition io_ErrUnexpectedEOF :: goerr where
  "io_ErrUnexpectedEOF = Opaque ''unexpected EOF''"

text \<open>\<open>io.ReadFull\<close> of \<open>n\<close> bytes.\<close>

definition io_ReadFull :: "nat \<Rightarrow> reader \<Rightarrow> goerr + bytes \<times> reader" where
  "io_ReadFull n r =
     (if n \<le> length (rd_data r)
      then Inr (take n (rd_data r), r\<lparr>rd_data := drop n (rd_data r)\<rparr>)
      else case rd_err r of
             Some e \<Rightarrow> Inl e
           | None \<Rightarrow> Inl (if rd_data r = [] then io_EOF else io_ErrUnexpectedEOF))"

lemma io_ReadFull_length:
  "io_ReadFull n r = Inr (b, r') \<Longrightarrow> n \<le> length (rd_data r) \<and> length (rd_data r') = length (rd_data r) - n"
  by (auto simp: io_ReadFull_def split: if_splits option.splits)

definition uint32_BE :: "bytes \<Rightarrow> nat" where
  "uint32_BE b = foldl (\<lambda>n c. 256 * n + of_char c) 0 b"

text \<open>The handler threads a state and may stop the loop with an error.\<close>

function DemuxDockerStream ::
  "(string \<Rightarrow> bytes \<Rightarrow> 'h \<Rightarrow> goerr option \<times> 'h) \<Rightarrow> reader \<Rightarrow> 'h \<Rightarrow> goerr option \<times> 'h" where
  "DemuxDockerStream handler r st =
     (case io_ReadFull 8 r of
        Inl e \<Rightarrow> (if e = io_EOF then None else Some e, st)
      | Inr (header, r1) \<Rightarrow>
          let streamType = (if (of_char (header ! 0) :: nat) = 2 then ''stderr'' else ''stdout'');
              size = uint32_BE (drop 4 header)
          in (case io_ReadFull size r1 of
                Inl e \<Rightarrow> (Some e, st)
              | Inr (payload, r2) \<Rightarrow>
                  (case handler streamType payload st of
                     (Some e, st') \<Rightarrow> (Some e, st')
                   | (None, st') \<Rightarrow> DemuxDockerStream handler r2 st')))"
  by pat_completeness auto
termination
  by (relation "measure (\<lambda>(handler, r, st). length (rd_data r))")
    (auto dest!: io_ReadFull_length)

section \<open>The engine of the tests\<close>

text \<open>Each method calls the function the test installed, if any, else answers a default.
  An installed function may keep state of its own, \<open>me_user\<close>.\<close>

record 'u MockEngine =
  me_CreateContainerFn :: "(Environment \<Rightarrow> 'u \<Rightarrow> (goerr + string) \<times> 'u) option"
  me_StartContainerFn :: "(string \<Rightarrow> 'u \<Rightarrow> goerr option \<times> 'u) option"
  me_StopContainerFn :: "(string \<Rightarrow> 'u \<Rightarrow> goerr option \<times> 'u) option"
  me_ExecFn :: "(string \<Rightarrow> ExecRequest \<Rightarrow> 'u \<Rightarrow> (goerr + exec_reader) \<times> 'u) option"
  me_ExecInteractiveFn :: "(string \<Rightarrow> ExecRequest \<Rightarrow> 'u \<Rightarrow> (goerr + 'u InteractiveSession) \<times> 'u) option"
  me_ExecExitCodeFn :: "(string \<Rightarrow> 'u \<Rightarrow> (goerr + int) \<times> 'u) option"
  me_ListFilesFn :: "(string \<Rightarrow> string \<Rightarrow> 'u \<Rightarrow> (goerr + FileInfo list) \<times> 'u) option"
  me_ReadFileFn :: "(string \<Rightarrow> string \<Rightarrow> 'u \<Rightarrow> (goerr + reader) \<times> 'u) option"
  me_WriteFileFn :: "(string \<Rightarrow> string \<Rightarrow> bytes \<Rightarrow> 'u \<Rightarrow> goerr option \<times> 'u) option"
  me_ExtractArchiveFn :: "(string \<Rightarrow> string \<Rightarrow> bytes \<Rightarrow> 'u \<Rightarrow> goerr option \<times> 'u) option"
  me_SnapshotContainerFn :: "(string \<Rightarrow> string \<Rightarrow> 'u \<Rightarrow> (goerr + string) \<times> 'u) option"
  me_DeleteSnapshotImageFn :: "(string \<Rightarrow> 'u \<Rightarrow> goerr option \<times> 'u) option"
  me_ExtractedArchives :: "string list"
  me_user :: 'u

definition run_mock :: "('u \<Rightarrow> 'r \<times> 'u) option \<Rightarrow> 'r \<Rightarrow> 'u MockEngine \<Rightarrow> 'r \<times> 'u MockEngine" where
  "run_mock f def m =
     (case f of None \<Rightarrow> (def, m) | Some g \<Rightarrow> (case g (me_user m) of (r, u) \<Rightarrow> (r, m\<lparr>me_user := u\<rparr>)))"

definition MockEngine_CreateContainer :: "Environment \<Rightarrow> 'u MockEngine \<Rightarrow> (goerr + string) \<times> 'u MockEngine" where
  "MockEngine_CreateContainer env m =
     run_mock (map_option (\<lambda>f. f env) (me_CreateContainerFn m)) (Inr ''mock-container-id'') m"

definition MockEngine_StartContainer :: "string \<Rightarrow> 'u MockEngine \<Rightarrow> goerr option \<times> 'u MockEngine" where
  "MockEngine_StartContainer cid m = run_mock (map_option (\<lambda>f. f cid) (me_StartContainerFn m)) None m"

definition MockEngine_StopContainer :: "string \<Rightarrow> 'u MockEngine \<Rightarrow> goerr option \<times> 'u MockEngine" where
  "MockEngine_StopContainer cid m = run_mock (map_option (\<lambda>f. f cid) (me_StopContainerFn m)) None m"

definition MockEngine_Exec :: "string \<Rightarrow> ExecRequest \<Rightarrow> 'u MockEngine \<Rightarrow> (goerr + exec_reader) \<times> 'u MockEngine" where
  "MockEngine_Exec cid req m =
     run_mock (map_option (\<lambda>f. f cid req) (me_ExecFn m))
       (Inr \<lparr>xr_reader = \<lparr>rd_data = [], rd_err = None\<rparr>, xr_execID = None\<rparr>) m"

text \<open>The session without effects, and a session of the test as one of the engine.\<close>

definition mockInteractiveSession :: "'e InteractiveSession" where
  "mockInteractiveSession = \<lparr>ses_Write = (\<lambda>p e. (Inr (length p), e)), ses_Resize = (\<lambda>_ _ e. (None, e)),
     ses_Close = (\<lambda>e. (None, e)), ses_ExecID = ''mock-exec-id''\<rparr>"

definition on_user :: "('u \<Rightarrow> 'r \<times> 'u) \<Rightarrow> 'u MockEngine \<Rightarrow> 'r \<times> 'u MockEngine" where
  "on_user f m = (case f (me_user m) of (r, u) \<Rightarrow> (r, m\<lparr>me_user := u\<rparr>))"

definition lift_session :: "'u InteractiveSession \<Rightarrow> 'u MockEngine InteractiveSession" where
  "lift_session ses = \<lparr>ses_Write = (\<lambda>p. on_user (ses_Write ses p)),
     ses_Resize = (\<lambda>cols rows. on_user (ses_Resize ses cols rows)),
     ses_Close = on_user (ses_Close ses), ses_ExecID = ses_ExecID ses\<rparr>"

definition MockEngine_ExecInteractive ::
  "string \<Rightarrow> ExecRequest \<Rightarrow> 'u MockEngine \<Rightarrow> (goerr + 'u MockEngine InteractiveSession) \<times> 'u MockEngine" where
  "MockEngine_ExecInteractive cid req m =
     (case me_ExecInteractiveFn m of
        None \<Rightarrow> (Inr mockInteractiveSession, m)
      | Some f \<Rightarrow> (case on_user (f cid req) m of (r, m') \<Rightarrow> (map_sum id lift_session r, m')))"

definition MockEngine_ExecExitCode :: "string \<Rightarrow> 'u MockEngine \<Rightarrow> (goerr + int) \<times> 'u MockEngine" where
  "MockEngine_ExecExitCode xid m = run_mock (map_option (\<lambda>f. f xid) (me_ExecExitCodeFn m)) (Inr 0) m"

definition MockEngine_ListFiles :: "string \<Rightarrow> string \<Rightarrow> 'u MockEngine \<Rightarrow> (goerr + FileInfo list) \<times> 'u MockEngine" where
  "MockEngine_ListFiles cid path m = run_mock (map_option (\<lambda>f. f cid path) (me_ListFilesFn m)) (Inr []) m"

definition MockEngine_ReadFile :: "string \<Rightarrow> string \<Rightarrow> 'u MockEngine \<Rightarrow> (goerr + reader) \<times> 'u MockEngine" where
  "MockEngine_ReadFile cid path m =
     run_mock (map_option (\<lambda>f. f cid path) (me_ReadFileFn m)) (Inr \<lparr>rd_data = [], rd_err = None\<rparr>) m"

definition MockEngine_WriteFile :: "string \<Rightarrow> string \<Rightarrow> bytes \<Rightarrow> 'u MockEngine \<Rightarrow> goerr option \<times> 'u MockEngine" where
  "MockEngine_WriteFile cid path content m =
     run_mock (map_option (\<lambda>f. f cid path content) (me_WriteFileFn m)) None m"

definition MockEngine_ExtractArchive :: "string \<Rightarrow> string \<Rightarrow> bytes \<Rightarrow> 'u MockEngine \<Rightarrow> goerr option \<times> 'u MockEngine" where
  "MockEngine_ExtractArchive cid destDir tarStream m0 =
     (let m = m0\<lparr>me_ExtractedArchives := me_ExtractedArchives m0 @ [destDir]\<rparr> in
      run_mock (map_option (\<lambda>f. f cid destDir tarStream) (me_ExtractArchiveFn m)) None m)"

definition MockEngine_SnapshotContainer :: "string \<Rightarrow> string \<Rightarrow> 'u MockEngine \<Rightarrow> (goerr + string) \<times> 'u MockEngine" where
  "MockEngine_SnapshotContainer cid sid m =
     run_mock (map_option (\<lambda>f. f cid sid) (me_SnapshotContainerFn m)) (Inr ''mock-snapshot-image-id'') m"

definition MockEngine_DeleteSnapshotImage :: "string \<Rightarrow> 'u MockEngine \<Rightarrow> goerr option \<times> 'u MockEngine" where
  "MockEngine_DeleteSnapshotImage img m = run_mock (map_option (\<lambda>f. f img) (me_DeleteSnapshotImageFn m)) None m"

definition mock_engine :: "'u MockEngine Engine" where
  "mock_engine = \<lparr>eng_CreateContainer = MockEngine_CreateContainer, eng_StartContainer = MockEngine_StartContainer,
     eng_StopContainer = MockEngine_StopContainer, eng_Exec = MockEngine_Exec,
     eng_ExecInteractive = MockEngine_ExecInteractive, eng_ExecExitCode = MockEngine_ExecExitCode, eng_ListFiles = MockEngine_ListFiles,
     eng_ReadFile = MockEngine_ReadFile, eng_WriteFile = MockEngine_WriteFile,
     eng_ExtractArchive = MockEngine_ExtractArchive, eng_SnapshotContainer = MockEngine_SnapshotContainer,
     eng_DeleteSnapshotImage = MockEngine_DeleteSnapshotImage\<rparr>"

declare DemuxDockerStream.simps [simp del]

section \<open>Rounding\<close>

lemma round_half_even_bounds: "\<lfloor>q\<rfloor> \<le> round_half_even q" "round_half_even q \<le> \<lceil>q\<rceil>"
proof -
  show "\<lfloor>q\<rfloor> \<le> round_half_even q"
    by (simp add: round_half_even_def Let_def)
  show "round_half_even q \<le> \<lceil>q\<rceil>"
  proof (cases "q = of_int \<lfloor>q\<rfloor>")
    case True
    then have "\<lceil>q\<rceil> = \<lfloor>q\<rfloor>" by (metis ceiling_of_int)
    moreover have "q - of_int \<lfloor>q\<rfloor> = 0" using True by simp
    ultimately show ?thesis by (simp add: round_half_even_def Let_def)
  next
    case False
    then have "of_int \<lfloor>q\<rfloor> < q" by (metis of_int_floor_le order_le_less)
    then have "\<lfloor>q\<rfloor> + 1 \<le> \<lceil>q\<rceil>" by linarith
    then show ?thesis by (simp add: round_half_even_def Let_def)
  qed
qed

lemma pow2_add: "pow2 (a + b) = pow2 a * pow2 b"
proof -
  have p: "pow2 e = 2 powi e" for e
    by (simp add: pow2_def power_int_def field_simps)
  show ?thesis by (simp add: p power_int_add)
qed

lemma pow2_eq_powi: "pow2 e = 2 powi e"
  by (simp add: pow2_def power_int_def field_simps)

lemma pow2_pos [simp]: "0 < pow2 e"
  by (simp add: pow2_def)

lemma pow2_less_iff: "pow2 a < pow2 b \<longleftrightarrow> a < b"
  unfolding pow2_eq_powi
  by (metis linorder_not_less one_less_numeral_iff power_int_increasing power_int_strict_increasing
      rel_simps(9) less_imp_le order_less_irrefl semiring_norm(76))

lemma floor_log2_le:
  assumes "0 < x"
  shows "pow2 (floor_log2 x) \<le> x"
proof -
  obtain n d where q: "quotient_of x = (n, d)" by fastforce
  have d: "0 < d" and x: "x = of_int n / of_int d"
    using quotient_of_denom_pos [OF q] quotient_of_div [OF q] by simp_all
  have n: "0 < n"
    using assms d x by (simp add: zero_less_divide_iff)
  let ?k = "bitlen n - bitlen d"
  have bn: "2 ^ nat (bitlen n - 1) \<le> n" and bd: "d < 2 ^ nat (bitlen d)"
    using bitlen_bounds [OF n] bitlen_bounds [OF d] by simp_all
  have "pow2 (?k - 1) * pow2 (bitlen d) = pow2 (bitlen n - 1)"
    by (simp add: pow2_add [symmetric])
  also have "\<dots> = of_int (2 ^ nat (bitlen n - 1))"
    using n by (simp add: pow2_def bitlen_alt_def)
  also have "\<dots> \<le> of_int n"
    using bn by (simp only: of_int_le_iff)
  finally have *: "pow2 (?k - 1) * pow2 (bitlen d) \<le> of_int n" .
  have "of_int d \<le> (of_int (2 ^ nat (bitlen d)) :: rat)"
    using bd by (simp only: of_int_le_iff less_imp_le)
  then have "of_int d \<le> pow2 (bitlen d)"
    by (simp add: pow2_def bitlen_nonneg)
  then have "pow2 (?k - 1) * of_int d \<le> of_int n"
    using * by (meson mult_left_mono order_trans pow2_pos less_imp_le)
  then have "pow2 (?k - 1) \<le> x"
    using d by (simp add: x le_divide_eq)
  then show ?thesis
    by (simp add: floor_log2_def q Let_def)
qed

text \<open>A double next to a positive number below \<open>2 ^ 53\<close> stays between the integers around it.\<close>

lemma round_double_between:
  assumes "of_int a \<le> x" and "x \<le> of_int b" and "0 < a" and "b < 2 ^ 53"
  shows "\<exists>y. round_double x = Fin y \<and> of_int a \<le> y \<and> y \<le> of_int b \<and> \<bar>y - x\<bar> \<le> 1"
proof -
  have x: "0 < x" using assms(1,3) by (meson less_le_trans of_int_0_less_iff)
  define e where "e = max (- 1074) (floor_log2 x - 52)"
  have "pow2 (floor_log2 x) < pow2 53"
    using floor_log2_le [OF x] assms(2,4)
    by (simp add: pow2_def)
  then have "e \<le> 0" by (simp add: pow2_less_iff e_def)
  then obtain m where e: "e = - int m" by (metis minus_minus neg_0_le_iff_le nonneg_int_cases)
  have p: "pow2 e = 1 / 2 ^ m" by (simp add: pow2_def e)
  define r where "r = round_half_even (x / pow2 e)"
  have lo: "\<lfloor>x * 2 ^ m\<rfloor> \<le> r" and hi: "r \<le> \<lceil>x * 2 ^ m\<rceil>"
    using round_half_even_bounds [of "x * 2 ^ m"] by (simp_all add: r_def p)
  let ?y = "of_int r * pow2 e"
  have "a * 2 ^ m \<le> \<lfloor>x * 2 ^ m\<rfloor>"
    using assms(1) by (simp add: le_floor_iff)
  then have "of_int (a * 2 ^ m) \<le> (of_int r :: rat)" using lo by (simp only: of_int_le_iff)
  then have ya: "of_int a \<le> ?y" by (simp add: p field_simps)
  have "\<lceil>x * 2 ^ m\<rceil> \<le> b * 2 ^ m"
    using assms(2) by (simp add: ceiling_le_iff)
  then have "(of_int r :: rat) \<le> of_int (b * 2 ^ m)" using hi by (simp only: of_int_le_iff)
  then have yb: "?y \<le> of_int b" by (simp add: p field_simps)
  have "\<bar>of_int r - x * 2 ^ m\<bar> \<le> 1"
    using lo hi by linarith
  then have "\<bar>?y - x\<bar> \<le> 1 / 2 ^ m"
    by (simp add: p field_simps abs_le_iff)
  also have "(1 :: rat) / 2 ^ m \<le> 1" by simp
  finally have yx: "\<bar>?y - x\<bar> \<le> 1" .
  have "of_int b < pow2 1024"
    using assms(4) by (simp add: pow2_def)
  then have "\<bar>?y\<bar> < pow2 1024"
    using ya yb assms(3) by linarith
  then have "round_double x = Fin ?y"
    using x by (simp add: round_double_def round_float_def Let_def e_def [symmetric] r_def [symmetric])
  with ya yb yx show ?thesis by blast
qed

lemma NanoCPUs_range:
  assumes "double_tenth \<le> q" and "q \<le> 4"
  shows "\<exists>n. float_to_int64 (fmul (Fin q) 1000000000) = Some n \<and> 100000000 \<le> n \<and> n \<le> 4000000000 \<and>
    \<bar>of_int n - q * 1000000000\<bar> < 2"
proof -
  have "of_int 100000000 \<le> q * 1000000000" and "q * 1000000000 \<le> of_int 4000000000"
    using assms by (simp_all add: double_tenth_def)
  from round_double_between [OF this] obtain y where
    y: "round_double (q * 1000000000) = Fin y" "of_int 100000000 \<le> y" "y \<le> of_int 4000000000"
      "\<bar>y - q * 1000000000\<bar> \<le> 1" by auto
  have n: "100000000 \<le> \<lfloor>y\<rfloor>" "\<lfloor>y\<rfloor> \<le> 4000000000" "\<bar>of_int \<lfloor>y\<rfloor> - q * 1000000000\<bar> < 2"
    using y(2-4) by (linarith, linarith, linarith)
  have "0 \<le> y" using y(2) by simp
  then have "float_to_int64 (fmul (Fin q) 1000000000) = Some \<lfloor>y\<rfloor>"
    using y n by (simp add: truncate_rat_def in_int64_def)
  with n show ?thesis by blast
qed

section \<open>Decimal numbers\<close>

lemma of_digit_char: "d < 10 \<Longrightarrow> of_char (digit_char d) = (48 + d :: nat)"
  by (simp add: digit_char_def)

lemma read_nat_snoc: "read_nat (ds @ [c]) = 10 * read_nat ds + (of_char c - 48)"
  by (simp add: read_nat_def)

lemma read_show_nat [simp]: "read_nat (show_nat n) = n"
proof (induction n rule: show_nat.induct)
  case (1 n)
  show ?case
  proof (cases "n < 10")
    case True
    then show ?thesis by (simp add: show_nat.simps [of n] read_nat_def of_digit_char)
  next
    case False
    with 1 show ?thesis by (simp add: show_nat.simps [of n] read_nat_snoc of_digit_char)
  qed
qed

lemma digits_show_nat: "c \<in> set (show_nat n) \<Longrightarrow> is_digit c"
proof (induction n rule: show_nat.induct)
  case (1 n)
  then show ?case
    by (cases "n < 10") (auto simp: show_nat.simps [of n] is_digit_def of_digit_char)
qed

lemma show_nat_not_Nil [simp]: "show_nat n \<noteq> []"
  by (simp add: show_nat.simps [of n])

text \<open>How Docker reads the \<open>size\<close> option: a number and a binary unit, here in megabytes.\<close>

definition size_in_MB :: "string \<Rightarrow> nat option" where
  "size_in_MB s =
     (if s = [] then None
      else if last s = CHR ''g'' then Some (1024 * read_nat (butlast s))
      else if last s = CHR ''m'' then Some (read_nat (butlast s))
      else None)"

lemma size_formatDiskSize:
  assumes "0 < mb"
  shows "size_in_MB (formatDiskSize mb) = Some (nat mb)"
proof -
  have q: "quot64 mb 1024 = mb div 1024" and r: "rem64 mb 1024 = mb mod 1024"
    using assms by (simp_all add: quot64_def rem64_def minus_div_mult_eq_mod)
  show ?thesis
  proof (cases "0 < mb div 1024 \<and> mb mod 1024 = 0")
    case True
    then have "1024 * (mb div 1024) = mb"
      using mult_div_mod_eq [of 1024 mb] by linarith
    with True show ?thesis
      by (simp add: formatDiskSize_def q r size_in_MB_def show_int_def nat_mult_distrib [symmetric])
  next
    case False
    with assms show ?thesis
      by (auto simp: formatDiskSize_def q r size_in_MB_def show_int_def)
  qed
qed

section \<open>Frames\<close>

definition be_bytes :: "nat \<Rightarrow> bytes" where
  "be_bytes n = [char_of (n div 2 ^ 24 mod 256), char_of (n div 2 ^ 16 mod 256),
     char_of (n div 2 ^ 8 mod 256), char_of (n mod 256)]"

text \<open>A frame as the Docker daemon writes it: stream number and payload.\<close>

definition frame :: "nat \<times> bytes \<Rightarrow> bytes" where
  "frame f = [char_of (fst f), CHR 0x00, CHR 0x00, CHR 0x00] @ be_bytes (length (snd f)) @ snd f"

definition stream_name :: "nat \<Rightarrow> string" where
  "stream_name t = (if t = 2 then ''stderr'' else ''stdout'')"

fun deliver :: "(string \<Rightarrow> bytes \<Rightarrow> 'h \<Rightarrow> goerr option \<times> 'h) \<Rightarrow> (nat \<times> bytes) list \<Rightarrow> 'h \<Rightarrow> goerr option \<times> 'h" where
  "deliver handler [] st = (None, st)"
| "deliver handler ((t, d) # fs) st =
     (case handler (stream_name t) d st of
        (Some e, st') \<Rightarrow> (Some e, st') | (None, st') \<Rightarrow> deliver handler fs st')"

definition frame_ok :: "nat \<times> bytes \<Rightarrow> bool" where
  "frame_ok f \<longleftrightarrow> fst f < 256 \<and> length (snd f) < 2 ^ 32"

lemma uint32_BE_be_bytes:
  assumes "n < 2 ^ 32"
  shows "uint32_BE (be_bytes n) = n"
proof -
  have d: "n div 2 ^ 16 = n div 256 div 256" "n div 2 ^ 24 = n div 256 div 256 div 256" "n div 2 ^ 8 = n div 256"
    by (simp_all add: div_mult2_eq [symmetric])
  have m: "256 * (x div 256) + x mod 256 = x" for x :: nat
    by simp
  have "n div 256 div 256 div 256 < 256"
    using assms by (simp add: div_mult2_eq [symmetric] less_mult_imp_div_less)
  then show ?thesis
    by (simp only: uint32_BE_def be_bytes_def d foldl.simps of_char_of mod_mod_trivial mod_less mult_0_right
        add_0 m)
qed

lemma be_bytes_length [simp]: "length (be_bytes n) = 4"
  by (simp add: be_bytes_def)

lemma demux_frame:
  assumes "frame_ok (t, d)"
  shows "DemuxDockerStream handler \<lparr>rd_data = frame (t, d) @ rest, rd_err = er\<rparr> st =
    (case handler (stream_name t) d st of
       (Some e, st') \<Rightarrow> (Some e, st')
     | (None, st') \<Rightarrow> DemuxDockerStream handler \<lparr>rd_data = rest, rd_err = er\<rparr> st')"
proof -
  let ?h = "[char_of t, CHR 0x00, CHR 0x00, CHR 0x00] @ be_bytes (length d)"
  have fr: "frame (t, d) @ rest = ?h @ d @ rest" by (simp add: frame_def)
  have 1: "io_ReadFull 8 \<lparr>rd_data = frame (t, d) @ rest, rd_err = er\<rparr> =
      Inr (?h, \<lparr>rd_data = d @ rest, rd_err = er\<rparr>)"
    unfolding fr by (simp add: io_ReadFull_def)
  have 2: "io_ReadFull (length d) \<lparr>rd_data = d @ rest, rd_err = er\<rparr> = Inr (d, \<lparr>rd_data = rest, rd_err = er\<rparr>)"
    by (simp add: io_ReadFull_def)
  have 3: "uint32_BE (drop 4 ?h) = length d" and 4: "of_char (?h ! 0) = t"
    using assms by (simp_all add: frame_ok_def uint32_BE_be_bytes)
  show ?thesis
    by (subst DemuxDockerStream.simps) (simp only: 1 2 3 4 sum.case prod.case Let_def stream_name_def)
qed

lemma demux_frames:
  assumes "\<forall>f \<in> set fs. frame_ok f"
  shows "DemuxDockerStream handler \<lparr>rd_data = concat (map frame fs) @ rest, rd_err = er\<rparr> st =
    (case deliver handler fs st of
       (Some e, st') \<Rightarrow> (Some e, st')
     | (None, st') \<Rightarrow> DemuxDockerStream handler \<lparr>rd_data = rest, rd_err = er\<rparr> st')"
  using assms
proof (induction fs arbitrary: st)
  case Nil
  then show ?case by simp
next
  case (Cons f fs)
  obtain t d where f: "f = (t, d)" by fastforce
  have ok: "frame_ok (t, d)" using Cons.prems by (simp add: f)
  show ?case
    using Cons demux_frame [OF ok, of handler "concat (map frame fs) @ rest" er st]
    by (auto simp: f split: prod.splits option.splits)
qed

lemma demux_end: "DemuxDockerStream handler \<lparr>rd_data = [], rd_err = None\<rparr> st = (None, st)"
  by (subst DemuxDockerStream.simps) (simp add: io_ReadFull_def)

lemma demux_cut_frame:
  assumes "frame_ok f" and "0 < k" and "k < length (frame f)"
  shows "\<exists>e. DemuxDockerStream handler \<lparr>rd_data = take k (frame f), rd_err = None\<rparr> st = (Some e, st)"
proof -
  obtain t d where f: "f = (t, d)" by fastforce
  let ?h = "[char_of t, CHR 0x00, CHR 0x00, CHR 0x00] @ be_bytes (length d)"
  have fr: "frame f = ?h @ d" and len: "length ?h = 8" by (simp_all add: frame_def f)
  show ?thesis
  proof (cases "k < 8")
    case True
    then have "io_ReadFull 8 \<lparr>rd_data = take k (frame f), rd_err = None\<rparr> = Inl io_ErrUnexpectedEOF"
      using assms(2,3) by (auto simp: io_ReadFull_def)
    then show ?thesis
      by (subst DemuxDockerStream.simps) (simp add: io_ErrUnexpectedEOF_def io_EOF_def)
  next
    case False
    have tk: "take k (frame f) = ?h @ take (k - 8) d"
      using False len unfolding fr by (subst take_append) simp
    have 1: "io_ReadFull 8 \<lparr>rd_data = take k (frame f), rd_err = None\<rparr> = Inr (?h, \<lparr>rd_data = take (k - 8) d, rd_err = None\<rparr>)"
      unfolding tk by (simp add: io_ReadFull_def)
    have 3: "uint32_BE (drop 4 ?h) = length d"
      using assms(1) by (simp add: f frame_ok_def uint32_BE_be_bytes)
    have "k - 8 < length d"
      using assms(3) False unfolding fr by simp
    then have "\<exists>e. io_ReadFull (length d) \<lparr>rd_data = take (k - 8) d, rd_err = None\<rparr> = Inl e"
      by (simp add: io_ReadFull_def)
    then show ?thesis
      by (subst DemuxDockerStream.simps) (auto simp only: 1 3 sum.case prod.case Let_def)
  qed
qed

section \<open>Paths and listings\<close>

lemma last_index_Some:
  "last_index c s = Some i \<Longrightarrow> i < length s \<and> s = take i s @ c # drop (Suc i) s \<and> c \<notin> set (drop (Suc i) s)"
proof (induction s arbitrary: i)
  case Nil
  then show ?case by simp
next
  case (Cons x s)
  show ?case
  proof (cases "last_index c s")
    case None
    then have "c \<notin> set s"
      by (induction s) (auto split: option.splits if_splits)
    with None Cons.prems show ?thesis by (auto split: if_splits)
  next
    case (Some j)
    with Cons show ?thesis by auto
  qed
qed

lemma last_index_None: "last_index c s = None \<longleftrightarrow> c \<notin> set s"
  by (induction s) (auto split: option.splits)

lemma splitPath_rejoin:
  assumes "path_IsAbs p" and "\<not> strings_HasPrefix p ''//''" and "splitPath p = (dir, file)"
  shows "p = (if dir = ''/'' then ''/'' else dir @ ''/'') @ file \<and> CHR ''/'' \<notin> set file"
proof -
  have "CHR ''/'' \<in> set p"
    using assms(1) by (cases p) (auto simp: path_IsAbs_def strings_HasPrefix_def)
  then obtain i where i: "last_index (CHR ''/'') p = Some i"
    using last_index_None [of "CHR ''/''" p] by auto
  have eq: "p = take i p @ CHR ''/'' # drop (Suc i) p" and no: "CHR ''/'' \<notin> set (drop (Suc i) p)"
    using last_index_Some [OF i] by auto
  have f: "file = drop (Suc i) p" and d: "dir = (if take i p = [] then ''/'' else take i p)"
    using assms(3) i by (auto simp: splitPath_def)
  have "take i p \<noteq> ''/''"
  proof
    assume "take i p = ''/''"
    with eq have "p = ''//'' @ drop (Suc i) p" by simp
    then show False
      using assms(2) by (metis strings_HasPrefix_def prefixI)
  qed
  with eq no show ?thesis
    by (cases "take i p = []") (simp_all add: f d)
qed

text \<open>A listing line gives the file its path under the directory that was asked for.\<close>

lemma parse_find_line_ok:
  assumes "parse_find_line basePath line = Some fi"
  shows "fi_Path fi = join_base basePath (fi_Name fi)" and "fi_Name fi \<noteq> []" and "fi_Name fi \<noteq> ''.''"
  using assms by (auto simp: parse_find_line_def Let_def split: if_splits)

definition is_lower :: "char \<Rightarrow> bool" where
  "is_lower c \<longleftrightarrow> 97 \<le> (of_char c :: nat) \<and> (of_char c :: nat) \<le> 122"

lemma lead_len_zero:
  assumes "list_all (\<lambda>q. q \<noteq> [] \<and> \<not> P (hd q)) seqs" and "P (hd s)" and "s \<noteq> []"
  shows "lead_len seqs s = 0"
proof -
  have "\<not> prefix q s" if "q \<in> set seqs" for q
    using assms that by (cases q; cases s) (auto simp: list_all_iff)
  then show ?thesis by (induction seqs) auto
qed

lemma not_space:
  "list_all (\<lambda>q. q \<noteq> [] \<and> \<not> is_digit (hd q)) space_seqs"
  "list_all (\<lambda>q. q \<noteq> [] \<and> \<not> is_lower (hd q)) (map rev space_seqs)"
  "list_all (\<lambda>q. q \<noteq> [] \<and> \<not> is_lower (hd q)) space_seqs"
  by (simp_all add: space_seqs_def is_digit_def is_lower_def)

lemma cut:
  assumes "c \<notin> set a"
  shows "takeWhile (\<lambda>x. x \<noteq> c) (a @ c # b) = a" "drop (Suc (length a)) (a @ c # b) = b" "a @ c # b \<noteq> a"
  using assms by (induction a) auto

lemma find_line:
  assumes "name \<noteq> []" "name \<noteq> ''.''" "CHR 0x09 \<notin> set name" "CHR 0x09 \<notin> set mtime" "in_int64 (int sz)"
  shows "parse_find_line basePath (name @ CHR 0x09 # show_nat sz @ CHR 0x09 # mtime @ CHR 0x09 # ty) =
    Some \<lparr>fi_Name = name, fi_Path = join_base basePath name, fi_Size = int sz, fi_IsDir = (ty = ''d''),
      fi_ModTime = mtime\<rparr>"
proof -
  have nt: "CHR 0x09 \<notin> set (show_nat sz)"
    using digits_show_nat [of "CHR 0x09" sz] by (auto simp: is_digit_def)
  have sp: "split_n 4 (CHR 0x09) (name @ CHR 0x09 # show_nat sz @ CHR 0x09 # mtime @ CHR 0x09 # ty) =
      [name, show_nat sz, mtime, ty]"
    using cut [OF assms(3)] cut [OF nt] cut [OF assms(4)] by (simp add: numeral_eq_Suc Let_def)
  have hd: "is_digit (hd (show_nat sz))"
    using digits_show_nat show_nat_not_Nil by (metis hd_in_set)
  have "lead_len space_seqs (show_nat sz) = 0"
    using lead_len_zero [OF not_space(1) hd] by simp
  then have "trim_lead space_seqs (show_nat sz) = show_nat sz"
    by (simp add: trim_lead.simps)
  moreover have "takeWhile is_digit (show_nat sz) = show_nat sz"
    using digits_show_nat by (simp add: takeWhile_eq_all_conv)
  moreover have "hd (show_nat sz) \<noteq> CHR ''-''" "hd (show_nat sz) \<noteq> CHR ''+''"
    using hd by (auto simp: is_digit_def)
  ultimately have "Sscanf_d (show_nat sz) = int sz"
    using assms(5) by (simp add: Sscanf_d_def Let_def del: takeWhile_eq_all_conv)
  with sp assms(1,2) show ?thesis
    by (simp add: parse_find_line_def Let_def)
qed

text \<open>The output of \<open>find -printf '%f\t%s\t%T@\t%y\n'\<close>: name, size, time, type of each file.\<close>

type_synonym find_entry = "string \<times> nat \<times> string \<times> string"

fun find_text :: "find_entry \<Rightarrow> string" where
  "find_text (name, sz, mtime, ty) = name @ CHR 0x09 # show_nat sz @ CHR 0x09 # mtime @ CHR 0x09 # ty"

definition find_output :: "find_entry list \<Rightarrow> string" where
  "find_output es = strings_Join (map find_text es) [CHR 0x0A] @ [CHR 0x0A]"

fun plain_entry :: "find_entry \<Rightarrow> bool" where
  "plain_entry (name, sz, mtime, ty) \<longleftrightarrow> name \<noteq> [] \<and> name \<noteq> ''.'' \<and>
     CHR 0x09 \<notin> set name \<and> CHR 0x0A \<notin> set name \<and> CHR 0x09 \<notin> set mtime \<and> CHR 0x0A \<notin> set mtime \<and>
     in_int64 (int sz) \<and> length ty = 1 \<and> list_all is_lower ty"

fun found :: "string \<Rightarrow> find_entry \<Rightarrow> FileInfo" where
  "found basePath (name, sz, mtime, ty) =
     \<lparr>fi_Name = name, fi_Path = join_base basePath name, fi_Size = int sz, fi_IsDir = (ty = ''d''), fi_ModTime = mtime\<rparr>"

lemma trim_lead_none: "lead_len seqs s = 0 \<Longrightarrow> trim_lead seqs s = s"
  by (simp add: trim_lead.simps)

lemma TrimSpace_line_end:
  assumes "s = t @ [c]" and "is_lower c" and "lead_len space_seqs (s @ [CHR 0x0A]) = 0"
  shows "strings_TrimSpace (s @ [CHR 0x0A]) = s"
proof -
  have "lead_len (map rev space_seqs) (rev s) = 0"
    using lead_len_zero [OF not_space(2), of "rev s"] assms(2) by (simp add: assms(1))
  then have 1: "trim_lead (map rev space_seqs) (rev s) = rev s"
    by (rule trim_lead_none)
  have "lead_len (map rev space_seqs) (CHR 0x0A # rev s) = 1"
    by (simp add: space_seqs_def)
  then have "trim_lead (map rev space_seqs) (CHR 0x0A # rev s) = rev s"
    by (subst trim_lead.simps) (simp add: 1)
  then show ?thesis
    by (simp add: strings_TrimSpace_def trim_lead_none [OF assms(3)])
qed

lemma find_text_ok:
  assumes "plain_entry e"
  shows "parse_find_line basePath (find_text e) = Some (found basePath e)" and "CHR 0x0A \<notin> set (find_text e)"
    and "\<exists>t c. find_text e = t @ [c] \<and> is_lower c"
proof -
  obtain name sz mtime ty where e: "e = (name, sz, mtime, ty)" by (cases e)
  show "parse_find_line basePath (find_text e) = Some (found basePath e)"
    using assms find_line [of name mtime sz basePath ty] by (simp add: e)
  have "CHR 0x0A \<notin> set (show_nat sz)"
    using digits_show_nat [of "CHR 0x0A" sz] by (auto simp: is_digit_def)
  moreover obtain c where "ty = [c]" "is_lower c"
    using assms by (cases ty) (auto simp: e)
  ultimately show "CHR 0x0A \<notin> set (find_text e)" and "\<exists>t c. find_text e = t @ [c] \<and> is_lower c"
    using assms by (auto simp: e is_lower_def)
qed

lemma Join_last:
  "xs \<noteq> [] \<Longrightarrow> \<exists>t. strings_Join xs sep = t @ last xs"
  by (induction xs sep rule: strings_Join.induct) auto

lemma find_roundtrip:
  assumes "es \<noteq> []" and "\<forall>e \<in> set es. plain_entry e" and "lead_len space_seqs (find_output es) = 0"
  shows "parseFileList basePath (find_output es) = map (found basePath) es"
proof -
  have "plain_entry (last es)" using assms(1,2) by simp
  then obtain t c where tc: "find_text (last es) = t @ [c]" "is_lower c"
    using find_text_ok(3) by blast
  obtain u where "strings_Join (map find_text es) [CHR 0x0A] = u @ find_text (last es)"
    using Join_last [of "map find_text es"] assms(1) by (auto simp: last_map)
  then have "strings_Join (map find_text es) [CHR 0x0A] = (u @ t) @ [c]"
    by (simp add: tc)
  from TrimSpace_line_end [OF this tc(2)] assms(3)
  have "strings_TrimSpace (find_output es) = strings_Join (map find_text es) [CHR 0x0A]"
    by (simp add: find_output_def)
  moreover have "split_on (CHR 0x0A) (strings_Join (map find_text es) [CHR 0x0A]) = map find_text es"
    using assms(1,2) find_text_ok(2) by (intro split_join) auto
  moreover have "List.map_filter (parse_find_line basePath) (map find_text es) = map (found basePath) es"
    using assms(2) by (induction es) (simp_all add: List.map_filter_simps find_text_ok(1))
  ultimately show ?thesis by (simp add: parseFileList_def)
qed

section \<open>Properties\<close>

text \<open>C19: a container made for a specification within the limits the service enforces is never
  privileged, drops every capability and gets back none without a network and only
  \<open>NET_BIND_SERVICE\<close> with one, cannot gain privileges, has at most 256 processes, exactly
  the memory that was asked for in bytes and no swap beyond it (the 64-bit products do not wrap),
  a CPU quota that is representable, between a tenth of a CPU and four and within two billionths
  of what was asked, and the \<open>none\<close> network mode exactly when the policy is \<open>none\<close>.\<close>

theorem host_config_confined:
  assumes "CPU spec = Fin q" and "double_tenth \<le> q" and "q \<le> 4"
    and "128 \<le> MemoryMB spec" and "MemoryMB spec \<le> 8192" and "NetworkPolicy_Valid (NetworkPolicy spec)"
  shows "let hc = securityHostConfig spec in
    \<not> hc_Privileged hc \<and> hc_CapDrop hc = [''ALL''] \<and>
    hc_CapAdd hc = (if NetworkPolicy spec = NetworkNone then [] else [''NET_BIND_SERVICE'']) \<and>
    hc_SecurityOpt hc = [''no-new-privileges''] \<and> hc_PidsLimit hc = 256 \<and>
    hc_Memory hc = MemoryMB spec * 2 ^ 20 \<and> hc_MemorySwap hc = hc_Memory hc \<and>
    (\<exists>n. hc_NanoCPUs hc = Some n \<and> 10 ^ 8 \<le> n \<and> n \<le> 4 * 10 ^ 9 \<and> \<bar>of_int n - q * 10 ^ 9\<bar> < 2) \<and>
    (networkMode (NetworkPolicy spec) = ''none'' \<longleftrightarrow> NetworkPolicy spec = NetworkNone)"
proof -
  have "in_int64 (MemoryMB spec * 1024)" "in_int64 (MemoryMB spec * 1024 * 1024)"
    using assms(4,5) by (simp_all add: in_int64_def)
  moreover have "networkMode (NetworkPolicy spec) = ''none'' \<longleftrightarrow> NetworkPolicy spec = NetworkNone"
    using assms(6) by (auto simp: networkMode_def NetworkPolicy_Valid_def network_defs)
  ultimately show ?thesis
    using NanoCPUs_range [OF assms(2,3)] assms(1)
    by (auto simp: securityHostConfig_def Let_def pidsLimit_def)
qed

definition example_spec :: EnvironmentSpec where
  "example_spec = \<lparr>Image = ''alpine:3'', CPU = Fin (3 / 2), MemoryMB = 2048, DiskMB = 4096,
     NetworkPolicy = NetworkEgressLimited, EnvVars = None\<rparr>"

theorem host_config_confined_witness:
  "hc_Memory (securityHostConfig example_spec) = 2048 * 2 ^ 20 \<and>
   hc_CapAdd (securityHostConfig example_spec) = [''NET_BIND_SERVICE''] \<and>
   hc_CapAdd (securityHostConfig (example_spec\<lparr>NetworkPolicy := NetworkNone\<rparr>)) = [] \<and>
   (\<exists>n. hc_NanoCPUs (securityHostConfig example_spec) = Some n \<and> n \<le> 4 * 10 ^ 9)"
  using host_config_confined [of example_spec "3 / 2"] host_config_confined [of "example_spec\<lparr>NetworkPolicy := NetworkNone\<rparr>" "3 / 2"]
  by (auto simp: example_spec_def double_tenth_def NetworkPolicy_Valid_def network_defs Let_def)

text \<open>The disk quota handed to Docker, a decimal number with the unit \<open>g\<close> or \<open>m\<close>, reads back
  as exactly the number of megabytes of the specification.\<close>

theorem disk_size_exact: "0 < mb \<Longrightarrow> size_in_MB (formatDiskSize mb) = Some (nat mb)"
  by (rule size_formatDiskSize)

theorem disk_size_exact_witness: "size_in_MB (formatDiskSize 4096) = Some 4096 \<and> size_in_MB (formatDiskSize 1500) = Some 1500"
  using disk_size_exact [of 4096] disk_size_exact [of 1500] by simp

text \<open>C20: on a complete stream of frames the demultiplexer hands the handler exactly the payloads,
  in order, each with the name of its stream, stops at the first error of the handler with that
  error, and otherwise ends without one.\<close>

theorem demux_roundtrip:
  assumes "\<forall>f \<in> set fs. frame_ok f"
  shows "DemuxDockerStream handler \<lparr>rd_data = concat (map frame fs), rd_err = None\<rparr> st = deliver handler fs st"
  using demux_frames [OF assms, of handler "[]" None st]
  by (simp add: demux_end split: prod.splits option.splits)

definition collect :: "string \<Rightarrow> bytes \<Rightarrow> (string \<times> bytes) list \<Rightarrow> goerr option \<times> (string \<times> bytes) list" where
  "collect stream payload out = (None, out @ [(stream, payload)])"

theorem demux_roundtrip_witness:
  "DemuxDockerStream collect \<lparr>rd_data = concat (map frame [(1, ''ab''), (2, ''''), (2, ''c'')]), rd_err = None\<rparr> [] =
     (None, [(''stdout'', ''ab''), (''stderr'', ''''), (''stderr'', ''c'')])"
  using demux_roundtrip [of "[(1, ''ab''), (2, ''''), (2, ''c'')]" collect "[]"]
  by (simp add: frame_ok_def collect_def stream_name_def)

text \<open>A stream that is cut inside a frame, in its header or in its payload, is reported as an
  error after the complete frames were delivered; the handler never sees a part of a payload.\<close>

theorem demux_truncated:
  assumes "\<forall>f \<in> set fs. frame_ok f" and "frame_ok f" and "0 < k" and "k < length (frame f)"
    and "deliver handler fs st = (None, st')"
  shows "\<exists>e. DemuxDockerStream handler \<lparr>rd_data = concat (map frame fs) @ take k (frame f), rd_err = None\<rparr> st =
    (Some e, st')"
  using demux_frames [OF assms(1), of handler "take k (frame f)" None st] demux_cut_frame [OF assms(2-4), of handler st'] assms(5)
  by simp

theorem demux_truncated_witness:
  "\<exists>e. DemuxDockerStream collect \<lparr>rd_data = concat (map frame [(1, ''ab'')]) @ take 9 (frame (2, ''xyz'')), rd_err = None\<rparr> [] =
     (Some e, [(''stdout'', ''ab'')])"
  using demux_truncated [of "[(1, ''ab'')]" "(2, ''xyz'')" 9 collect "[]" "[(''stdout'', ''ab'')]"]
  by (simp add: frame_ok_def collect_def stream_name_def frame_def)

text \<open>C24: what \<open>find\<close> prints for a directory is a line for the directory itself and one for each
  thing in it.  As long as no name has a tab or a newline in it (and the text does not start with
  white space), the parser answers one entry per line, in order, with the name, the size, the time
  and the kind the line states and the path of the name under the directory; so the first entry is
  the directory, listed as something below itself.\<close>

theorem find_listing:
  assumes "plain_entry (dir, sz, mtime, ''d'')" and "\<forall>e \<in> set es. plain_entry e" and "CHR ''/'' \<notin> set dir"
    and "lead_len space_seqs (find_output ((dir, sz, mtime, ''d'') # es)) = 0"
  shows "parseFileList (parent @ ''/'' @ dir) (find_output ((dir, sz, mtime, ''d'') # es)) =
    \<lparr>fi_Name = dir, fi_Path = parent @ ''/'' @ dir @ ''/'' @ dir, fi_Size = int sz, fi_IsDir = True, fi_ModTime = mtime\<rparr> #
    map (\<lambda>(name, size, time, kind). \<lparr>fi_Name = name, fi_Path = parent @ ''/'' @ dir @ ''/'' @ name, fi_Size = int size,
      fi_IsDir = (kind = ''d''), fi_ModTime = time\<rparr>) es"
proof -
  have "dir \<noteq> []" using assms(1) by simp
  then obtain t c where tc: "dir = t @ [c]" by (cases dir rule: rev_cases) auto
  then have "\<not> strings_HasSuffix (parent @ ''/'' @ dir) ''/''"
    using assms(3) by (auto simp: strings_HasSuffix_def suffix_def)
  then have j: "join_base (parent @ ''/'' @ dir) name = parent @ ''/'' @ dir @ ''/'' @ name" for name
    by (simp add: join_base_def)
  have "map (found (parent @ ''/'' @ dir)) es =
      map (\<lambda>(name, size, time, kind). \<lparr>fi_Name = name, fi_Path = parent @ ''/'' @ dir @ ''/'' @ name, fi_Size = int size,
        fi_IsDir = (kind = ''d''), fi_ModTime = time\<rparr>) es"
    unfolding j [symmetric] by (auto simp del: append_Cons)
  then show ?thesis
    using find_roundtrip [of "(dir, sz, mtime, ''d'') # es" "parent @ ''/'' @ dir"] assms(1,2,4) j [of dir]
    by (simp del: append_Cons append_assoc)
qed

definition example_listing :: "find_entry list" where
  "example_listing = [(''main.go'', 120, ''1700000001.0'', ''f''), (''doc'', 4096, ''1700000002.0'', ''d'')]"

theorem find_listing_witness:
  "map (\<lambda>f. (fi_Path f, fi_IsDir f)) (parseFileList ''/workspace'' (find_output ((''workspace'', 4096, ''1700000000.5'', ''d'') # example_listing))) =
     [(''/workspace/workspace'', True), (''/workspace/main.go'', False), (''/workspace/doc'', True)]"
proof -
  let ?d = "(''workspace'', 4096, ''1700000000.5'', ''d'')"
  have "lead_len space_seqs (find_output (?d # example_listing)) = 0"
    by (rule lead_len_zero [OF not_space(3)]) (simp_all add: example_listing_def find_output_def is_lower_def)
  moreover have "\<forall>e \<in> set example_listing. plain_entry e" "plain_entry ?d"
    by (simp_all add: example_listing_def in_int64_def is_lower_def)
  moreover note find_listing [of "''workspace''" 4096 "''1700000000.5''" example_listing "[]"]
  ultimately show ?thesis
    by (simp add: example_listing_def)
qed

end
