(* ===== verification/HTTP.thy ===== *)
theory HTTP
  imports Engine
begin

text \<open>
  Requests, responses and the helpers of \<open>internal/api\<close> around them: \<open>errors.go\<close>, \<open>request.go\<close> and
  \<open>middleware.go\<close>.  A response body is the value that is encoded; the encoding itself is
  \<open>encoding/json\<close>'s.  A handler that panics answers nothing by itself (\<open>Panicked\<close>).  The decoder of
  \<open>encoding/json\<close> is an argument of \<open>decodeJSON\<close>: from a reader it gives an error, or a value
  and whether more content follows.  Log lines are not modelled.
\<close>

section \<open>Requests and responses\<close>

record request =
  rq_Method :: string
  rq_Path :: string
  rq_Header :: "string \<Rightarrow> string"
  rq_Query :: "string \<Rightarrow> string list"
  rq_Body :: reader
  rq_Writes :: "nat option"
  rq_ctx_request_id :: "string option"
  rq_ctx_tenant_id :: "string option"
  rq_ctx_user_id :: "string option"

text \<open>\<open>rq_Writes\<close> is how many writes of a streamed response the connection takes before it fails
  (\<open>None\<close>: all); the last three fields are the values of the request's context.\<close>

definition Query_Get :: "request \<Rightarrow> string \<Rightarrow> string" where
  "Query_Get r key = (case rq_Query r key of [] \<Rightarrow> [] | v # _ \<Rightarrow> v)"

record ErrorResponse =
  er_Error :: string
  er_Code :: int
  er_Detail :: string

record CreateEnvironmentResponse =
  cr_ID :: string
  cr_Status :: string
  cr_Image :: string

datatype json =
    JError ErrorResponse
  | JStatus string
  | JCreated CreateEnvironmentResponse
  | JEnvironment Environment
  | JEnvironments "Environment list"
  | JSnapshot Snapshot
  | JSnapshots "Snapshot list"
  | JSkill Skill
  | JSkills "Skill list"
  | JInstalled "InstalledSkill list"
  | JFiles "FileInfo list"

datatype body = NoBody | JSON json | Raw bytes | Events "ExecEvent list" | Messages "bytes list"

record response =
  rs_Status :: int
  rs_Header :: "(string \<times> string) list"
  rs_Body :: body

datatype outcome = Response response | Panicked

type_synonym 'w handler = "request \<Rightarrow> 'w \<Rightarrow> outcome \<times> 'w"

section \<open>Writing\<close>

definition writeJSON :: "int \<Rightarrow> json \<Rightarrow> response" where
  "writeJSON code data =
     \<lparr>rs_Status = code, rs_Header = [(''Content-Type'', ''application/json'')], rs_Body = JSON data\<rparr>"

definition writeError :: "int \<Rightarrow> string \<Rightarrow> response" where
  "writeError code msg = writeJSON code (JError \<lparr>er_Error = msg, er_Code = code, er_Detail = []\<rparr>)"

definition writeErrorDetail :: "int \<Rightarrow> string \<Rightarrow> string \<Rightarrow> response" where
  "writeErrorDetail code msg detail = writeJSON code (JError \<lparr>er_Error = msg, er_Code = code, er_Detail = detail\<rparr>)"

text \<open>\<open>w.WriteHeader(code)\<close> alone.\<close>

definition WriteHeader :: "int \<Rightarrow> response" where
  "WriteHeader code = \<lparr>rs_Status = code, rs_Header = [], rs_Body = NoBody\<rparr>"

section \<open>Reading\<close>

definition maxBodySize :: int64 where
  "maxBodySize = 2 ^ 20"

text \<open>\<open>http.MaxBytesReader\<close>: at most \<open>n\<close> bytes, then an error if there were more.\<close>

definition MaxBytesReader :: "reader \<Rightarrow> int64 \<Rightarrow> reader" where
  "MaxBytesReader r n =
     (if int (length (rd_data r)) > n
      then \<lparr>rd_data = take (nat n) (rd_data r), rd_err = Some (Opaque ''http: request body too large'')\<rparr>
      else r)"

type_synonym 'a json_decoder = "reader \<Rightarrow> goerr + 'a \<times> bool"

definition decodeJSON :: "'a json_decoder \<Rightarrow> request \<Rightarrow> goerr + 'a" where
  "decodeJSON decode r =
     (case decode (MaxBytesReader (rq_Body r) maxBodySize) of
        Inl err \<Rightarrow> Inl (Context ''invalid JSON'' err)
      | Inr (dst, trailing) \<Rightarrow>
          if trailing then Inl (Opaque ''unexpected trailing content in request body'') else Inr dst)"

text \<open>\<open>io.ReadAll\<close> of a reader.\<close>

definition io_ReadAll :: "reader \<Rightarrow> goerr + bytes" where
  "io_ReadAll r = (case rd_err r of Some e \<Rightarrow> Inl e | None \<Rightarrow> Inr (rd_data r))"

definition readBodyMax :: "request \<Rightarrow> int64 \<Rightarrow> goerr + bytes" where
  "readBodyMax r limit = io_ReadAll (MaxBytesReader (rq_Body r) limit)"

definition readBody :: "request \<Rightarrow> goerr + bytes" where
  "readBody r = readBodyMax r maxBodySize"

section \<open>Middleware\<close>

text \<open>A header that was set on the writer before the handler ran; the handler may replace it.\<close>

definition with_header :: "string \<Rightarrow> string \<Rightarrow> outcome \<Rightarrow> outcome" where
  "with_header k v out =
     (case out of
        Response rs \<Rightarrow> Response (if k \<in> set (map fst (rs_Header rs)) then rs
                       else rs\<lparr>rs_Header := (k, v) # rs_Header rs\<rparr>)
      | Panicked \<Rightarrow> Panicked)"

definition RequestIDMiddleware :: "string \<Rightarrow> 'w handler \<Rightarrow> 'w handler" where
  "RequestIDMiddleware uuid next r w =
     (let i = (if rq_Header r ''X-Request-ID'' = [] then uuid else rq_Header r ''X-Request-ID'');
          (out, w') = next (r\<lparr>rq_ctx_request_id := Some i\<rparr>) w
      in (with_header ''X-Request-ID'' i out, w'))"

text \<open>The writer that remembers the status for the log.\<close>

record statusWriter =
  sw_status :: int
  sw_response :: "response option"

definition statusWriter_WriteHeader :: "statusWriter \<Rightarrow> response \<Rightarrow> statusWriter" where
  "statusWriter_WriteHeader sw rs = sw\<lparr>sw_status := rs_Status rs, sw_response := Some rs\<rparr>"

definition LoggingMiddleware :: "'w handler \<Rightarrow> 'w handler" where
  "LoggingMiddleware next r w =
     (case next r w of
        (Response rs, w') \<Rightarrow>
          (case sw_response (statusWriter_WriteHeader \<lparr>sw_status = 200, sw_response = None\<rparr> rs) of
             Some rs' \<Rightarrow> (Response rs', w') | None \<Rightarrow> (Response (WriteHeader 200), w'))
      | (Panicked, w') \<Rightarrow> (Panicked, w'))"

definition RecoveryMiddleware :: "'w handler \<Rightarrow> 'w handler" where
  "RecoveryMiddleware next r w =
     (case next r w of
        (Panicked, w') \<Rightarrow> (Response (writeError 500 ''internal server error''), w')
      | (Response rs, w') \<Rightarrow> (Response rs, w'))"

section \<open>Lemmas\<close>

lemma status_write [simp]:
  "rs_Status (writeJSON c d) = c" "rs_Status (writeError c m) = c" "rs_Status (WriteHeader c) = c"
  by (simp_all add: writeJSON_def writeError_def WriteHeader_def)

lemma body_write [simp]:
  "rs_Body (writeJSON c d) = JSON d" "rs_Body (WriteHeader c) = NoBody"
  "rs_Body (writeError c m) = JSON (JError \<lparr>er_Error = m, er_Code = c, er_Detail = []\<rparr>)"
  by (simp_all add: writeJSON_def writeError_def WriteHeader_def)

lemma LoggingMiddleware_id [simp]: "LoggingMiddleware next = next"
  by (auto simp: fun_eq_iff LoggingMiddleware_def statusWriter_WriteHeader_def split: prod.splits outcome.splits)

text \<open>Only a body within the limit reaches a decoder whole.\<close>

lemma MaxBytesReader_whole: "int (length (rd_data r)) \<le> n \<Longrightarrow> MaxBytesReader r n = r"
  by (simp add: MaxBytesReader_def)

lemma MaxBytesReader_length: "0 \<le> n \<Longrightarrow> int (length (rd_data (MaxBytesReader r n))) \<le> n"
  by (simp add: MaxBytesReader_def)

lemma readBodyMax_ok:
  "0 \<le> n \<Longrightarrow> readBodyMax r n = Inr d \<longleftrightarrow>
    rd_data (rq_Body r) = d \<and> rd_err (rq_Body r) = None \<and> int (length d) \<le> n"
  by (auto simp: readBodyMax_def io_ReadAll_def MaxBytesReader_def split: option.splits if_splits)

text \<open>The outer middleware always answers: a panic becomes a 500.\<close>

lemma Recovery_responds: "\<exists>rs w'. RecoveryMiddleware next r w = (Response rs, w')"
  by (auto simp: RecoveryMiddleware_def split: prod.splits outcome.splits)

end
