(* ===== verification/Auth.thy ===== *)
theory Auth
  imports HTTP
begin

text \<open>
  \<open>internal/auth/auth.go\<close>: API keys, tenants and end users.  SHA-256 and the UUID library are an
  argument, a record of the three functions the code calls: the hex SHA-256 of a string,
  \<open>uuid.NewSHA1(namespace, data).String()\<close> and \<open>uuid.Parse\<close>, which \<open>MustParse\<close> turns into a panic
  when it fails.
\<close>

section \<open>Operations\<close>

record hashing =
  sha256_hex :: "string \<Rightarrow> string"
  uuid_NewSHA1 :: "string \<Rightarrow> string \<Rightarrow> string"
  uuid_Parse :: "string \<Rightarrow> string option"

definition haasNamespace :: string where
  "haasNamespace = ''f47ac10b-58cc-4372-a567-0e02b2c3d479''"

record Entry =
  ent_KeyHash :: string
  ent_UserID :: string

record Manager =
  hashToUser :: "(string \<times> string) list"

definition HashKey :: "hashing \<Rightarrow> string \<Rightarrow> string" where
  "HashKey H key = sha256_hex H key"

definition deriveUserID :: "hashing \<Rightarrow> string \<Rightarrow> string" where
  "deriveUserID H keyHash = uuid_NewSHA1 H haasNamespace keyHash"

definition deriveEndUserID :: "hashing \<Rightarrow> string \<Rightarrow> string \<Rightarrow> string option" where
  "deriveEndUserID H tenantID externalUserID =
     (case uuid_Parse H tenantID of
        None \<Rightarrow> None
      | Some tenantUUID \<Rightarrow> Some (uuid_NewSHA1 H tenantUUID externalUserID))"

fun New_loop :: "hashing \<Rightarrow> string list \<Rightarrow> (string \<times> string) list \<Rightarrow> (string \<times> string) list" where
  "New_loop H [] m = m"
| "New_loop H (k # keys) m =
     (if k = [] then New_loop H keys m
      else let h = HashKey H k in New_loop H keys (AList.update h (deriveUserID H h) m))"

definition New :: "hashing \<Rightarrow> string list \<Rightarrow> Manager" where
  "New H keys = \<lparr>hashToUser = New_loop H keys []\<rparr>"

fun UserID_loop :: "string \<Rightarrow> (string \<times> string) list \<Rightarrow> string option" where
  "UserID_loop candidate [] = None"
| "UserID_loop candidate ((storedHash, userID) # m) =
     (if storedHash = candidate then Some userID else UserID_loop candidate m)"

definition Manager_UserID :: "hashing \<Rightarrow> Manager \<Rightarrow> string \<Rightarrow> string option" where
  "Manager_UserID H m rawKey = UserID_loop (HashKey H rawKey) (hashToUser m)"

definition Entries :: "Manager \<Rightarrow> Entry list" where
  "Entries m = map (\<lambda>(h, u). \<lparr>ent_KeyHash = h, ent_UserID = u\<rparr>) (hashToUser m)"

definition unauthorized :: response where
  "unauthorized = \<lparr>rs_Status = 401, rs_Header = [(''Content-Type'', ''application/json'')],
     rs_Body = JSON (JError \<lparr>er_Error = ''invalid or missing API key'', er_Code = 401, er_Detail = []\<rparr>)\<rparr>"

definition Middleware :: "hashing \<Rightarrow> Manager \<Rightarrow> 'w handler \<Rightarrow> 'w handler" where
  "Middleware H m next r w =
     (let token = strings_TrimPrefix (rq_Header r ''Authorization'') ''Bearer '' in
      case Manager_UserID H m token of
        None \<Rightarrow> (Response unauthorized, w)
      | Some tenantID \<Rightarrow>
          let externalUserID = strings_TrimSpace (rq_Header r ''X-Haas-User-ID'') in
          (case (if externalUserID \<noteq> [] then deriveEndUserID H tenantID externalUserID else Some tenantID) of
             None \<Rightarrow> (Panicked, w)
           | Some effectiveUserID \<Rightarrow>
               next (r\<lparr>rq_ctx_tenant_id := Some tenantID, rq_ctx_user_id := Some effectiveUserID\<rparr>) w))"

definition UserIDFromContext :: "request \<Rightarrow> string" where
  "UserIDFromContext r = (case rq_ctx_user_id r of None \<Rightarrow> [] | Some v \<Rightarrow> v)"

definition TenantIDFromContext :: "request \<Rightarrow> string" where
  "TenantIDFromContext r = (case rq_ctx_tenant_id r of None \<Rightarrow> [] | Some v \<Rightarrow> v)"

section \<open>Lemmas\<close>

lemma UserID_loop_map_of: "UserID_loop c m = map_of m c"
  by (induction c m rule: UserID_loop.induct) auto

lemma New_loop_map_of:
  "map_of (New_loop H keys m) h =
    (if \<exists>k \<in> set keys. k \<noteq> [] \<and> HashKey H k = h then Some (deriveUserID H h) else map_of m h)"
  by (induction H keys m rule: New_loop.induct) (auto simp: Let_def update_conv')

lemma New_loop_distinct: "distinct (map fst m) \<Longrightarrow> distinct (map fst (New_loop H keys m))"
  by (induction H keys m rule: New_loop.induct) (simp_all add: Let_def distinct_update)

lemma Manager_UserID_New:
  "Manager_UserID H (New H keys) key =
    (if \<exists>k \<in> set keys. k \<noteq> [] \<and> HashKey H k = HashKey H key then Some (deriveUserID H (HashKey H key)) else None)"
  by (auto simp: Manager_UserID_def New_def UserID_loop_map_of New_loop_map_of)

lemma Entries_New:
  "distinct (map ent_KeyHash (Entries (New H keys)))"
  "set (Entries (New H keys)) =
    (\<lambda>k. \<lparr>ent_KeyHash = HashKey H k, ent_UserID = deriveUserID H (HashKey H k)\<rparr>) ` {k \<in> set keys. k \<noteq> []}"
proof -
  let ?m = "New_loop H keys []"
  have d: "distinct (map fst ?m)" by (rule New_loop_distinct) simp
  then show "distinct (map ent_KeyHash (Entries (New H keys)))"
    by (simp add: Entries_def New_def comp_def case_prod_unfold)
  have "(h, u) \<in> set ?m \<longleftrightarrow> (\<exists>k \<in> set keys. k \<noteq> [] \<and> HashKey H k = h) \<and> u = deriveUserID H h" for h u
    using New_loop_map_of [of H keys "[]" h] map_of_eq_Some_iff [OF d, of h u] by (auto split: if_splits)
  then have "set ?m = (\<lambda>k. (HashKey H k, deriveUserID H (HashKey H k))) ` {k \<in> set keys. k \<noteq> []}"
    by auto
  then show "set (Entries (New H keys)) =
    (\<lambda>k. \<lparr>ent_KeyHash = HashKey H k, ent_UserID = deriveUserID H (HashKey H k)\<rparr>) ` {k \<in> set keys. k \<noteq> []}"
    by (simp add: Entries_def New_def image_image)
qed

text \<open>What the code relies on of the UUID library: a generated UUID is not empty and parses, and
  what parsing answers is the same UUID.\<close>

definition uuid_ok :: "hashing \<Rightarrow> bool" where
  "uuid_ok H \<longleftrightarrow> (\<forall>ns d. uuid_NewSHA1 H ns d \<noteq> [] \<and> uuid_Parse H (uuid_NewSHA1 H ns d) = Some (uuid_NewSHA1 H ns d))"

text \<open>Who a request speaks for.\<close>

definition caller :: "hashing \<Rightarrow> string list \<Rightarrow> request \<Rightarrow> (string \<times> string) option" where
  "caller H keys r =
     (let token = strings_TrimPrefix (rq_Header r ''Authorization'') ''Bearer '';
          ext = strings_TrimSpace (rq_Header r ''X-Haas-User-ID'');
          tenant = deriveUserID H (HashKey H token)
      in if \<exists>k \<in> set keys. k \<noteq> [] \<and> HashKey H k = HashKey H token
         then Some (tenant, if ext = [] then tenant else uuid_NewSHA1 H tenant ext) else None)"

lemma Middleware_caller:
  assumes "uuid_ok H"
  shows "Middleware H (New H keys) next r w =
    (case caller H keys r of
       None \<Rightarrow> (Response unauthorized, w)
     | Some (tenant, user) \<Rightarrow> next (r\<lparr>rq_ctx_tenant_id := Some tenant, rq_ctx_user_id := Some user\<rparr>) w)"
proof -
  have "uuid_Parse H (deriveUserID H x) = Some (deriveUserID H x)" for x
    using assms by (simp add: uuid_ok_def deriveUserID_def)
  then show ?thesis
    by (auto simp: Middleware_def caller_def Manager_UserID_New deriveEndUserID_def Let_def)
qed

lemma caller_not_empty:
  assumes "uuid_ok H" and "caller H keys r = Some (tenant, user)"
  shows "tenant \<noteq> []" and "user \<noteq> []"
  using assms by (auto simp: caller_def uuid_ok_def deriveUserID_def Let_def split: if_splits)

text \<open>The UUIDs that are derived for a request: the tenant's from the key hash, and the end user's
  from the tenant's.\<close>

definition derivations :: "hashing \<Rightarrow> request \<Rightarrow> (string \<times> string) set" where
  "derivations H r =
     (let h = HashKey H (strings_TrimPrefix (rq_Header r ''Authorization'') ''Bearer '');
          ext = strings_TrimSpace (rq_Header r ''X-Haas-User-ID'')
      in insert (haasNamespace, h) (if ext = [] then {} else {(deriveUserID H h, ext)}))"

lemma caller_user:
  assumes "caller H keys r = Some (t, u)"
  shows "\<exists>ns x. (ns, x) \<in> derivations H r \<and> u = uuid_NewSHA1 H ns x \<and>
    (ns, x) = (if strings_TrimSpace (rq_Header r ''X-Haas-User-ID'') = []
       then (haasNamespace, HashKey H (strings_TrimPrefix (rq_Header r ''Authorization'') ''Bearer ''))
       else (t, strings_TrimSpace (rq_Header r ''X-Haas-User-ID'')))"
    and "t = uuid_NewSHA1 H haasNamespace (HashKey H (strings_TrimPrefix (rq_Header r ''Authorization'') ''Bearer ''))"
    and "(haasNamespace, HashKey H (strings_TrimPrefix (rq_Header r ''Authorization'') ''Bearer '')) \<in> derivations H r"
    and "\<exists>k \<in> set keys. k \<noteq> [] \<and> HashKey H k = HashKey H (strings_TrimPrefix (rq_Header r ''Authorization'') ''Bearer '')"
  using assms by (auto simp: caller_def derivations_def deriveUserID_def Let_def split: if_splits)

lemma caller_same_user:
  assumes "caller H keys r1 = Some (t1, u)" and "caller H keys r2 = Some (t2, u)"
    and "inj_on (\<lambda>(ns, x). uuid_NewSHA1 H ns x) (derivations H r1 \<union> derivations H r2)"
    and "haasNamespace \<noteq> t1" and "haasNamespace \<noteq> t2"
  shows "t1 = t2" and "HashKey H (strings_TrimPrefix (rq_Header r1 ''Authorization'') ''Bearer '') =
      HashKey H (strings_TrimPrefix (rq_Header r2 ''Authorization'') ''Bearer '')"
    and "strings_TrimSpace (rq_Header r1 ''X-Haas-User-ID'') = strings_TrimSpace (rq_Header r2 ''X-Haas-User-ID'')"
proof -
  let ?f = "\<lambda>(ns, x). uuid_NewSHA1 H ns x"
  have inj: "p = q" if "p \<in> derivations H r1 \<union> derivations H r2" "q \<in> derivations H r1 \<union> derivations H r2" "?f p = ?f q" for p q
    using assms(3) that by (auto dest: inj_onD)
  note c1 = caller_user [OF assms(1)] and c2 = caller_user [OF assms(2)]
  obtain ns1 x1 where d1: "(ns1, x1) \<in> derivations H r1" "u = uuid_NewSHA1 H ns1 x1"
      "(ns1, x1) = (if strings_TrimSpace (rq_Header r1 ''X-Haas-User-ID'') = []
       then (haasNamespace, HashKey H (strings_TrimPrefix (rq_Header r1 ''Authorization'') ''Bearer ''))
       else (t1, strings_TrimSpace (rq_Header r1 ''X-Haas-User-ID'')))" using c1(1) by blast
  obtain ns2 x2 where d2: "(ns2, x2) \<in> derivations H r2" "u = uuid_NewSHA1 H ns2 x2"
      "(ns2, x2) = (if strings_TrimSpace (rq_Header r2 ''X-Haas-User-ID'') = []
       then (haasNamespace, HashKey H (strings_TrimPrefix (rq_Header r2 ''Authorization'') ''Bearer ''))
       else (t2, strings_TrimSpace (rq_Header r2 ''X-Haas-User-ID'')))" using c2(1) by blast
  have eq: "(ns1, x1) = (ns2, x2)" using inj [of "(ns1, x1)" "(ns2, x2)"] d1(1,2) d2(1,2) by auto
  then have "t1 = t2 \<or> HashKey H (strings_TrimPrefix (rq_Header r1 ''Authorization'') ''Bearer '') =
      HashKey H (strings_TrimPrefix (rq_Header r2 ''Authorization'') ''Bearer '')"
    using d1(3) d2(3) assms(4,5) by (auto split: if_splits)
  then show t: "t1 = t2" using c1(2) c2(2) by auto
  show "HashKey H (strings_TrimPrefix (rq_Header r1 ''Authorization'') ''Bearer '') =
      HashKey H (strings_TrimPrefix (rq_Header r2 ''Authorization'') ''Bearer '')"
    using inj [of "(haasNamespace, HashKey H (strings_TrimPrefix (rq_Header r1 ''Authorization'') ''Bearer ''))"
        "(haasNamespace, HashKey H (strings_TrimPrefix (rq_Header r2 ''Authorization'') ''Bearer ''))"]
      c1(2,3) c2(2,3) t by auto
  show "strings_TrimSpace (rq_Header r1 ''X-Haas-User-ID'') = strings_TrimSpace (rq_Header r2 ''X-Haas-User-ID'')"
    using eq d1(3) d2(3) assms(4,5) t by (auto split: if_splits)
qed

lemma caller_same:
  assumes "caller H keys r1 = Some (t1, u1)" and "caller H keys r2 = Some (t2, u2)"
    and "HashKey H (strings_TrimPrefix (rq_Header r1 ''Authorization'') ''Bearer '') =
      HashKey H (strings_TrimPrefix (rq_Header r2 ''Authorization'') ''Bearer '')"
  shows "t1 = t2"
    and "strings_TrimSpace (rq_Header r1 ''X-Haas-User-ID'') = strings_TrimSpace (rq_Header r2 ''X-Haas-User-ID'') \<Longrightarrow> u1 = u2"
  using assms by (auto simp: caller_def Let_def split: if_splits)

lemma caller_tenant_hash:
  assumes "caller H keys r1 = Some (t, u1)" and "caller H keys r2 = Some (t, u2)"
    and "inj_on (\<lambda>(ns, x). uuid_NewSHA1 H ns x) (derivations H r1 \<union> derivations H r2)"
  shows "HashKey H (strings_TrimPrefix (rq_Header r1 ''Authorization'') ''Bearer '') =
    HashKey H (strings_TrimPrefix (rq_Header r2 ''Authorization'') ''Bearer '')"
  using inj_onD [OF assms(3), OF _ UnI1 [OF caller_user(3) [OF assms(1)]] UnI2 [OF caller_user(3) [OF assms(2)]]]
    caller_user(2) [OF assms(1)] caller_user(2) [OF assms(2)] by simp

text \<open>A handler that shows the request it is given: what the middleware lets through, and with which
  identity.\<close>

definition observer :: "request option handler" where
  "observer r w = (Panicked, Some r)"

lemma Middleware_observed:
  assumes "uuid_ok H" and "snd (Middleware H (New H keys) observer r None) = Some s"
  shows "caller H keys r = Some (TenantIDFromContext s, UserIDFromContext s)"
    and "Middleware H (New H keys) next r w = next s w"
  using assms(2)
  by (auto simp: Middleware_caller [OF assms(1)] observer_def TenantIDFromContext_def UserIDFromContext_def split: option.splits prod.splits)

end
