(* ===== verification/Store_Interface.thy ===== *)
theory Store_Interface
  imports Domain
begin

text \<open>
  The interface \<open>store.Store\<close> (\<open>internal/store/store.go\<close>): a Go interface value is a record
  of its methods.  A method works on the heap of environments together with the store's own
  state, takes the instant \<open>time.Now()\<close> returns where the code reads the clock, and answers
  a result and the new state.

  What a store promises is stated against an abstract state, three finite maps, in the
  locale \<open>store\<close>: \<open>\<alpha>\<close> reads the abstract state off a concrete one, \<open>inv\<close> is the
  representation invariant, \<open>healthy\<close> says that no failure of the backend is pending, and
  \<open>tn\<close>, \<open>cn\<close>, \<open>vn\<close> say how the store rounds instants and CPU shares and how it normalises
  environment variables.
  The two stores of the program interpret the locale in their own theories.
\<close>

section \<open>The interface\<close>

type_synonym 's mem = "heap \<times> 's"

record 's Store =
  sto_Create :: "nat \<Rightarrow> 's mem \<Rightarrow> goerr option \<times> 's mem"
  sto_Get :: "string \<Rightarrow> string \<Rightarrow> 's mem \<Rightarrow> (goerr + nat) \<times> 's mem"
  sto_Update :: "nat \<Rightarrow> 's mem \<Rightarrow> goerr option \<times> 's mem"
  sto_Delete :: "string \<Rightarrow> string \<Rightarrow> 's mem \<Rightarrow> goerr option \<times> 's mem"
  sto_List :: "string \<Rightarrow> 's mem \<Rightarrow> (goerr + nat list) \<times> 's mem"
  sto_ListExpired :: "time \<Rightarrow> 's mem \<Rightarrow> (goerr + nat list) \<times> 's mem"
  sto_BootstrapUser :: "time \<Rightarrow> string \<Rightarrow> string \<Rightarrow> 's mem \<Rightarrow> goerr option \<times> 's mem"
  sto_ListByTenant :: "string \<Rightarrow> 's mem \<Rightarrow> (goerr + nat list) \<times> 's mem"
  sto_CreateSnapshot :: "Snapshot \<Rightarrow> 's mem \<Rightarrow> goerr option \<times> 's mem"
  sto_GetSnapshot :: "string \<Rightarrow> string \<Rightarrow> 's mem \<Rightarrow> (goerr + Snapshot) \<times> 's mem"
  sto_ListSnapshots :: "string \<Rightarrow> 's mem \<Rightarrow> (goerr + Snapshot list) \<times> 's mem"
  sto_DeleteSnapshot :: "string \<Rightarrow> string \<Rightarrow> 's mem \<Rightarrow> goerr option \<times> 's mem"
  sto_ListSnapshotsByTenant :: "string \<Rightarrow> 's mem \<Rightarrow> (goerr + Snapshot list) \<times> 's mem"
  sto_UpsertSkill :: "Skill \<Rightarrow> bytes \<Rightarrow> 's mem \<Rightarrow> (goerr option \<times> Skill) \<times> 's mem"
  sto_GetSkill :: "string \<Rightarrow> string \<Rightarrow> 's mem \<Rightarrow> (goerr + Skill) \<times> 's mem"
  sto_GetSkillArchive :: "string \<Rightarrow> string \<Rightarrow> 's mem \<Rightarrow> (goerr + bytes) \<times> 's mem"
  sto_ListSkills :: "string \<Rightarrow> 's mem \<Rightarrow> (goerr + Skill list) \<times> 's mem"
  sto_DeleteSkill :: "string \<Rightarrow> string \<Rightarrow> 's mem \<Rightarrow> goerr option \<times> 's mem"
  sto_ListSkillsByTenant :: "string \<Rightarrow> 's mem \<Rightarrow> (goerr + Skill list) \<times> 's mem"

section \<open>The abstract state\<close>

record abs_store =
  a_envs :: "string \<rightharpoonup> Environment"
  a_snaps :: "string \<rightharpoonup> Snapshot"
  a_skills :: "string \<rightharpoonup> Skill \<times> bytes"

text \<open>Scoping: an empty user ID is the administrative bypass of the reaper.\<close>

definition scoped :: "string \<Rightarrow> string \<Rightarrow> bool" where
  "scoped userID owner \<longleftrightarrow> userID = [] \<or> owner = userID"

definition norm_env ::
  "(time \<Rightarrow> time) \<Rightarrow> (float64 \<Rightarrow> float64) \<Rightarrow> (string_map \<Rightarrow> string_map) \<Rightarrow> Environment \<Rightarrow> Environment" where
  "norm_env tn cn vn e = e\<lparr>
     env_Spec := (env_Spec e)\<lparr>CPU := cn (CPU (env_Spec e)), EnvVars := vn (EnvVars (env_Spec e))\<rparr>,
     env_CreatedAt := tn (env_CreatedAt e),
     env_LastUsedAt := tn (env_LastUsedAt e),
     env_ExpiresAt := tn (env_ExpiresAt e)\<rparr>"

definition norm_snap :: "(time \<Rightarrow> time) \<Rightarrow> Snapshot \<Rightarrow> Snapshot" where
  "norm_snap tn s = s\<lparr>snap_CreatedAt := tn (snap_CreatedAt s)\<rparr>"

definition norm_skill :: "(time \<Rightarrow> time) \<Rightarrow> Skill \<Rightarrow> Skill" where
  "norm_skill tn k = k\<lparr>skill_CreatedAt := tn (skill_CreatedAt k),
     skill_UpdatedAt := tn (skill_UpdatedAt k)\<rparr>"

text \<open>What an update must not change: the fields that identify an environment and those the
  database keeps from the insertion.\<close>

definition same_identity :: "Environment \<Rightarrow> Environment \<Rightarrow> bool" where
  "same_identity a b \<longleftrightarrow> env_ID a = env_ID b \<and> env_UserID a = env_UserID b \<and>
     env_TenantID a = env_TenantID b \<and> env_CreatedAt a = env_CreatedAt b \<and>
     Image (env_Spec a) = Image (env_Spec b) \<and>
     NetworkPolicy (env_Spec a) = NetworkPolicy (env_Spec b)"

definition same_skill :: "Skill \<Rightarrow> Skill \<Rightarrow> bool" where
  "same_skill a b \<longleftrightarrow> skill_UserID a = skill_UserID b \<and> skill_Name a = skill_Name b"

definition owned_env :: "('k \<rightharpoonup> Environment) \<Rightarrow> 'k \<Rightarrow> string \<Rightarrow> bool" where
  "owned_env M i u \<longleftrightarrow> (case M i of None \<Rightarrow> False | Some e \<Rightarrow> scoped u (env_UserID e))"

definition owned_snap :: "('k \<rightharpoonup> Snapshot) \<Rightarrow> 'k \<Rightarrow> string \<Rightarrow> bool" where
  "owned_snap M i u \<longleftrightarrow> (case M i of None \<Rightarrow> False | Some e \<Rightarrow> scoped u (snap_UserID e))"

definition owned_skill :: "('k \<rightharpoonup> Skill \<times> bytes) \<Rightarrow> 'k \<Rightarrow> string \<Rightarrow> bool" where
  "owned_skill M i u \<longleftrightarrow> (case M i of None \<Rightarrow> False | Some (k, _) \<Rightarrow> scoped u (skill_UserID k))"

text \<open>Only entries for the owner and name of \<open>k\<close> differ.\<close>

definition skill_diff :: "Skill \<Rightarrow> ('k \<rightharpoonup> Skill \<times> bytes) \<Rightarrow> ('k \<rightharpoonup> Skill \<times> bytes) \<Rightarrow> bool" where
  "skill_diff k M M' \<longleftrightarrow> (\<forall>i. M' i \<noteq> M i \<longrightarrow>
     (\<exists>k1 a1. M' i = Some (k1, a1) \<and> same_skill k1 k) \<and> (\<forall>k0 a0. M i = Some (k0, a0) \<longrightarrow> same_skill k0 k))"

text \<open>How a method may fail: with \<open>ErrNotFound\<close> exactly when the record is absent or belongs to
  someone else, or with a backend error when one was pending.\<close>

definition fails_with :: "bool \<Rightarrow> bool \<Rightarrow> goerr \<Rightarrow> bool" where
  "fails_with absent sick e \<longleftrightarrow>
     e = Sentinel ErrNotFound \<and> absent \<or> \<not> errors_Is e ErrNotFound \<and> sick"

section \<open>The contract\<close>

locale store_base =
  fixes S :: "'s Store"
    and \<alpha> :: "'s mem \<Rightarrow> abs_store"
    and inv :: "'s mem \<Rightarrow> bool"
    and healthy :: "'s \<Rightarrow> bool"
    and tn :: "time \<Rightarrow> time"
    and cn :: "'s \<Rightarrow> float64 \<Rightarrow> float64"
    and vn :: "'s \<Rightarrow> string_map \<Rightarrow> string_map"
    and expired :: "'s \<Rightarrow> time \<Rightarrow> Environment \<Rightarrow> bool"
begin

definition nenv :: "'s \<Rightarrow> Environment \<Rightarrow> Environment" where
  "nenv s = norm_env tn (cn s) (vn s)"

text \<open>No method changes the configuration of the store or makes it sick.\<close>

definition stable :: "'s \<Rightarrow> 's \<Rightarrow> bool" where
  "stable s s' \<longleftrightarrow> cn s' = cn s \<and> vn s' = vn s \<and> expired s' = expired s \<and> (healthy s \<longrightarrow> healthy s')"

text \<open>A method that leaves the abstract state and the old objects alone.\<close>

definition reads :: "'s mem \<Rightarrow> 's mem \<Rightarrow> bool" where
  "reads m m' \<longleftrightarrow> inv m' \<and> \<alpha> m' = \<alpha> m \<and> heap_ext (fst m) (fst m') \<and> stable (snd m) (snd m')"

text \<open>A method that changes the abstract state to \<open>A\<close> and no object.\<close>

definition writes :: "'s mem \<Rightarrow> abs_store \<Rightarrow> 's mem \<Rightarrow> bool" where
  "writes m A m' \<longleftrightarrow> inv m' \<and> \<alpha> m' = A \<and> fst m' = fst m \<and> stable (snd m) (snd m')"

text \<open>A method that failed in the backend, before or after its change to \<open>A\<close> took effect.\<close>

definition crashes :: "'s mem \<Rightarrow> abs_store \<Rightarrow> 's mem \<Rightarrow> bool" where
  "crashes m A m' \<longleftrightarrow> \<not> healthy (snd m) \<and> (writes m (\<alpha> m) m' \<or> writes m A m')"

lemma stable_refl [simp, intro!]: "stable s s"
  by (simp add: stable_def)

lemma stable_trans: "stable a b \<Longrightarrow> stable b c \<Longrightarrow> stable a c"
  by (simp add: stable_def)

lemma stable_nenv: "stable s s' \<Longrightarrow> nenv s' = nenv s"
  by (simp add: stable_def nenv_def)

lemma nenv_fields [simp]:
  "env_ID (nenv s e) = env_ID e" "env_UserID (nenv s e) = env_UserID e"
  "env_TenantID (nenv s e) = env_TenantID e" "env_Status (nenv s e) = env_Status e"
  "env_ContainerID (nenv s e) = env_ContainerID e"
  "Image (env_Spec (nenv s e)) = Image (env_Spec e)"
  "NetworkPolicy (env_Spec (nenv s e)) = NetworkPolicy (env_Spec e)"
  "env_CreatedAt (nenv s e) = tn (env_CreatedAt e)"
  by (simp_all add: nenv_def norm_env_def)

lemma writes_same: "writes m (\<alpha> m) m' \<Longrightarrow> reads m m'"
  by (simp add: reads_def writes_def)

lemma reads_refl [simp, intro]: "inv m \<Longrightarrow> reads m m"
  by (simp add: reads_def)

lemma reads_trans: "reads a b \<Longrightarrow> reads b c \<Longrightarrow> reads a c"
  by (auto simp: reads_def intro: heap_ext_trans stable_trans)

end

locale env_store = store_base +
  assumes env_key: "inv m \<Longrightarrow> a_envs (\<alpha> m) i = Some e \<Longrightarrow> env_ID e = i"
    and alloc: "inv (h, s) \<Longrightarrow> reads (h, s) (h @ [e], s)"
    and assign: "inv (h, s) \<Longrightarrow> p < length h \<Longrightarrow> same_identity e (h ! p) \<Longrightarrow>
      inv (h[p := e], s) \<and>
      (\<alpha> (h[p := e], s) = \<alpha> (h, s) \<or>
       a_envs (\<alpha> (h, s)) (env_ID e) = Some (h ! p) \<and>
       \<alpha> (h[p := e], s) = (\<alpha> (h, s))\<lparr>a_envs := (a_envs (\<alpha> (h, s)))(env_ID e \<mapsto> nenv s e)\<rparr>)"
    and Create_ok: "inv m \<Longrightarrow> p < length (fst m) \<Longrightarrow> a_envs (\<alpha> m) (env_ID (fst m ! p)) = None \<Longrightarrow>
      sto_Create S p m = (None, m') \<Longrightarrow>
      writes m ((\<alpha> m)\<lparr>a_envs := (a_envs (\<alpha> m))(env_ID (fst m ! p) \<mapsto> nenv (snd m) (fst m ! p))\<rparr>) m'"
    and Create_err: "inv m \<Longrightarrow> p < length (fst m) \<Longrightarrow> a_envs (\<alpha> m) (env_ID (fst m ! p)) = None \<Longrightarrow>
      sto_Create S p m = (Some er, m') \<Longrightarrow>
      crashes m ((\<alpha> m)\<lparr>a_envs := (a_envs (\<alpha> m))(env_ID (fst m ! p) \<mapsto> nenv (snd m) (fst m ! p))\<rparr>) m'"
    and Get_ok: "inv m \<Longrightarrow> sto_Get S i u m = (Inr p, m') \<Longrightarrow>
      reads m m' \<and> p < length (fst m') \<and> a_envs (\<alpha> m) i = Some (fst m' ! p) \<and>
      scoped u (env_UserID (fst m' ! p))"
    and Get_err: "inv m \<Longrightarrow> sto_Get S i u m = (Inl er, m') \<Longrightarrow>
      reads m m' \<and> fails_with (\<not> owned_env (a_envs (\<alpha> m)) i u) (\<not> healthy (snd m)) er"
    and Update_ok: "inv m \<Longrightarrow> p < length (fst m) \<Longrightarrow> sto_Update S p m = (None, m') \<Longrightarrow>
      \<exists>old. a_envs (\<alpha> m) (env_ID (fst m ! p)) = Some old \<and> env_UserID old = env_UserID (fst m ! p) \<and>
        (same_identity old (nenv (snd m) (fst m ! p)) \<longrightarrow>
         writes m ((\<alpha> m)\<lparr>a_envs := (a_envs (\<alpha> m))(env_ID (fst m ! p) \<mapsto> nenv (snd m) (fst m ! p))\<rparr>) m')"
    and Update_err: "inv m \<Longrightarrow> p < length (fst m) \<Longrightarrow> sto_Update S p m = (Some er, m') \<Longrightarrow>
      er = Sentinel ErrNotFound \<and> writes m (\<alpha> m) m' \<and>
      (\<forall>old. a_envs (\<alpha> m) (env_ID (fst m ! p)) = Some old \<longrightarrow> env_UserID old \<noteq> env_UserID (fst m ! p)) \<or>
      \<not> errors_Is er ErrNotFound \<and> \<not> healthy (snd m) \<and>
      (case a_envs (\<alpha> m) (env_ID (fst m ! p)) of
         None \<Rightarrow> writes m (\<alpha> m) m'
       | Some old \<Rightarrow>
           (env_UserID old \<noteq> env_UserID (fst m ! p) \<longrightarrow> writes m (\<alpha> m) m') \<and>
           (same_identity old (nenv (snd m) (fst m ! p)) \<longrightarrow>
            crashes m ((\<alpha> m)\<lparr>a_envs := (a_envs (\<alpha> m))(env_ID (fst m ! p) \<mapsto> nenv (snd m) (fst m ! p))\<rparr>) m'))"
    and Delete_ok: "inv m \<Longrightarrow> sto_Delete S i u m = (None, m') \<Longrightarrow>
      owned_env (a_envs (\<alpha> m)) i u \<and> writes m ((\<alpha> m)\<lparr>a_envs := (a_envs (\<alpha> m))(i := None)\<rparr>) m'"
    and Delete_err: "inv m \<Longrightarrow> sto_Delete S i u m = (Some er, m') \<Longrightarrow>
      er = Sentinel ErrNotFound \<and> writes m (\<alpha> m) m' \<and> \<not> owned_env (a_envs (\<alpha> m)) i u \<or>
      \<not> errors_Is er ErrNotFound \<and>
      crashes m (if owned_env (a_envs (\<alpha> m)) i u then (\<alpha> m)\<lparr>a_envs := (a_envs (\<alpha> m))(i := None)\<rparr> else \<alpha> m) m'"
    and List_ok: "inv m \<Longrightarrow> sto_List S u m = (Inr ps, m') \<Longrightarrow>
      reads m m' \<and> set ps \<subseteq> {..<length (fst m')} \<and> distinct (map (\<lambda>p. env_ID (fst m' ! p)) ps) \<and>
      (\<lambda>p. fst m' ! p) ` set ps = {e \<in> ran (a_envs (\<alpha> m)). scoped u (env_UserID e)}"
    and List_err: "inv m \<Longrightarrow> sto_List S u m = (Inl er, m') \<Longrightarrow> reads m m' \<and> \<not> healthy (snd m)"
    and ListByTenant_ok: "inv m \<Longrightarrow> sto_ListByTenant S t m = (Inr ps, m') \<Longrightarrow>
      reads m m' \<and> set ps \<subseteq> {..<length (fst m')} \<and> distinct (map (\<lambda>p. env_ID (fst m' ! p)) ps) \<and>
      (\<lambda>p. fst m' ! p) ` set ps = {e \<in> ran (a_envs (\<alpha> m)). env_TenantID e = t}"
    and ListByTenant_err: "inv m \<Longrightarrow> sto_ListByTenant S t m = (Inl er, m') \<Longrightarrow>
      reads m m' \<and> \<not> healthy (snd m)"
    and ListExpired_ok: "inv m \<Longrightarrow> sto_ListExpired S now m = (Inr ps, m') \<Longrightarrow>
      reads m m' \<and> set ps \<subseteq> {..<length (fst m')} \<and> distinct (map (\<lambda>p. env_ID (fst m' ! p)) ps) \<and>
      (\<lambda>p. fst m' ! p) ` set ps = {e \<in> ran (a_envs (\<alpha> m)). expired (snd m) now e}"
    and ListExpired_err: "inv m \<Longrightarrow> sto_ListExpired S now m = (Inl er, m') \<Longrightarrow>
      reads m m' \<and> \<not> healthy (snd m)"
    and created_norm: "inv m \<Longrightarrow> a_envs (\<alpha> m) i = Some e \<Longrightarrow> tn (env_CreatedAt e) = env_CreatedAt e"

locale snap_store = store_base +
  assumes snap_key: "inv m \<Longrightarrow> a_snaps (\<alpha> m) i = Some x \<Longrightarrow> snap_ID x = i"
    and CreateSnapshot_ok: "inv m \<Longrightarrow> a_snaps (\<alpha> m) (snap_ID x) = None \<Longrightarrow>
      sto_CreateSnapshot S x m = (None, m') \<Longrightarrow>
      writes m ((\<alpha> m)\<lparr>a_snaps := (a_snaps (\<alpha> m))(snap_ID x \<mapsto> norm_snap tn x)\<rparr>) m'"
    and CreateSnapshot_err: "inv m \<Longrightarrow> a_snaps (\<alpha> m) (snap_ID x) = None \<Longrightarrow>
      sto_CreateSnapshot S x m = (Some e, m') \<Longrightarrow>
      crashes m ((\<alpha> m)\<lparr>a_snaps := (a_snaps (\<alpha> m))(snap_ID x \<mapsto> norm_snap tn x)\<rparr>) m'"
    and GetSnapshot_ok: "inv m \<Longrightarrow> sto_GetSnapshot S i u m = (Inr x, m') \<Longrightarrow>
      writes m (\<alpha> m) m' \<and> a_snaps (\<alpha> m) i = Some x \<and> scoped u (snap_UserID x)"
    and GetSnapshot_err: "inv m \<Longrightarrow> sto_GetSnapshot S i u m = (Inl e, m') \<Longrightarrow>
      writes m (\<alpha> m) m' \<and> fails_with (\<not> owned_snap (a_snaps (\<alpha> m)) i u) (\<not> healthy (snd m)) e"
    and ListSnapshots_ok: "inv m \<Longrightarrow> sto_ListSnapshots S u m = (Inr xs, m') \<Longrightarrow>
      writes m (\<alpha> m) m' \<and> distinct xs \<and>
      set xs = {x \<in> ran (a_snaps (\<alpha> m)). scoped u (snap_UserID x)}"
    and ListSnapshots_err: "inv m \<Longrightarrow> sto_ListSnapshots S u m = (Inl e, m') \<Longrightarrow>
      writes m (\<alpha> m) m' \<and> \<not> healthy (snd m)"
    and ListSnapshotsByTenant_ok: "inv m \<Longrightarrow> sto_ListSnapshotsByTenant S t m = (Inr xs, m') \<Longrightarrow>
      writes m (\<alpha> m) m' \<and> distinct xs \<and>
      set xs = {x \<in> ran (a_snaps (\<alpha> m)). snap_TenantID x = t}"
    and ListSnapshotsByTenant_err: "inv m \<Longrightarrow> sto_ListSnapshotsByTenant S t m = (Inl e, m') \<Longrightarrow>
      writes m (\<alpha> m) m' \<and> \<not> healthy (snd m)"
    and DeleteSnapshot_ok: "inv m \<Longrightarrow> sto_DeleteSnapshot S i u m = (None, m') \<Longrightarrow>
      owned_snap (a_snaps (\<alpha> m)) i u \<and> writes m ((\<alpha> m)\<lparr>a_snaps := (a_snaps (\<alpha> m))(i := None)\<rparr>) m'"
    and DeleteSnapshot_err: "inv m \<Longrightarrow> sto_DeleteSnapshot S i u m = (Some e, m') \<Longrightarrow>
      e = Sentinel ErrNotFound \<and> writes m (\<alpha> m) m' \<and> \<not> owned_snap (a_snaps (\<alpha> m)) i u \<or>
      \<not> errors_Is e ErrNotFound \<and>
      crashes m (if owned_snap (a_snaps (\<alpha> m)) i u then (\<alpha> m)\<lparr>a_snaps := (a_snaps (\<alpha> m))(i := None)\<rparr> else \<alpha> m) m'"

locale skill_store = store_base +
  assumes skill_key: "inv m \<Longrightarrow> a_skills (\<alpha> m) i = Some (k, a) \<Longrightarrow> skill_ID k = i"
    and skill_unique: "inv m \<Longrightarrow> a_skills (\<alpha> m) i = Some (k, a) \<Longrightarrow>
      a_skills (\<alpha> m) j = Some (k', a') \<Longrightarrow> same_skill k k' \<Longrightarrow> i = j"
    and UpsertSkill_new: "inv m \<Longrightarrow> a_skills (\<alpha> m) (skill_ID k) = None \<Longrightarrow>
      (\<forall>i k0 a0. a_skills (\<alpha> m) i = Some (k0, a0) \<longrightarrow> \<not> same_skill k0 k) \<Longrightarrow>
      sto_UpsertSkill S k a m = ((None, k'), m') \<Longrightarrow>
      writes m ((\<alpha> m)\<lparr>a_skills := (a_skills (\<alpha> m))(skill_ID k \<mapsto> (norm_skill tn k, a))\<rparr>) m' \<and>
      k' = k\<lparr>skill_CreatedAt := tn (skill_CreatedAt k)\<rparr>"
    and UpsertSkill_old: "inv m \<Longrightarrow> a_skills (\<alpha> m) (skill_ID k) = None \<Longrightarrow>
      a_skills (\<alpha> m) i = Some (k0, a0) \<Longrightarrow> same_skill k0 k \<Longrightarrow>
      sto_UpsertSkill S k a m = ((None, k'), m') \<Longrightarrow>
      writes m ((\<alpha> m)\<lparr>a_skills := (a_skills (\<alpha> m))(i \<mapsto>
        (k0\<lparr>skill_SizeBytes := skill_SizeBytes k, skill_UpdatedAt := tn (skill_UpdatedAt k)\<rparr>, a))\<rparr>) m' \<and>
      k' = k\<lparr>skill_ID := i, skill_CreatedAt := skill_CreatedAt k0\<rparr>"
    and UpsertSkill_err: "inv m \<Longrightarrow> a_skills (\<alpha> m) (skill_ID k) = None \<Longrightarrow>
      sto_UpsertSkill S k a m = ((Some e, k'), m') \<Longrightarrow>
      writes m (\<alpha> m') m' \<and> a_envs (\<alpha> m') = a_envs (\<alpha> m) \<and> a_snaps (\<alpha> m') = a_snaps (\<alpha> m) \<and>
      skill_diff k (a_skills (\<alpha> m)) (a_skills (\<alpha> m')) \<and> \<not> healthy (snd m)"
    and GetSkill_ok: "inv m \<Longrightarrow> sto_GetSkill S i u m = (Inr k, m') \<Longrightarrow>
      writes m (\<alpha> m) m' \<and> (\<exists>a. a_skills (\<alpha> m) i = Some (k, a)) \<and> scoped u (skill_UserID k)"
    and GetSkill_err: "inv m \<Longrightarrow> sto_GetSkill S i u m = (Inl e, m') \<Longrightarrow>
      writes m (\<alpha> m) m' \<and> fails_with (\<not> owned_skill (a_skills (\<alpha> m)) i u) (\<not> healthy (snd m)) e"
    and GetSkillArchive_ok: "inv m \<Longrightarrow> sto_GetSkillArchive S i u m = (Inr a, m') \<Longrightarrow>
      writes m (\<alpha> m) m' \<and> (\<exists>k. a_skills (\<alpha> m) i = Some (k, a) \<and> scoped u (skill_UserID k))"
    and GetSkillArchive_err: "inv m \<Longrightarrow> sto_GetSkillArchive S i u m = (Inl e, m') \<Longrightarrow>
      writes m (\<alpha> m) m' \<and> fails_with (\<not> owned_skill (a_skills (\<alpha> m)) i u) (\<not> healthy (snd m)) e"
    and ListSkills_ok: "inv m \<Longrightarrow> sto_ListSkills S u m = (Inr ks, m') \<Longrightarrow>
      writes m (\<alpha> m) m' \<and> distinct (map skill_ID ks) \<and>
      set ks = {k \<in> fst ` ran (a_skills (\<alpha> m)). scoped u (skill_UserID k)}"
    and ListSkills_err: "inv m \<Longrightarrow> sto_ListSkills S u m = (Inl e, m') \<Longrightarrow>
      writes m (\<alpha> m) m' \<and> \<not> healthy (snd m)"
    and ListSkillsByTenant_ok: "inv m \<Longrightarrow> sto_ListSkillsByTenant S t m = (Inr ks, m') \<Longrightarrow>
      writes m (\<alpha> m) m' \<and> distinct (map skill_ID ks) \<and>
      set ks = {k \<in> fst ` ran (a_skills (\<alpha> m)). skill_TenantID k = t}"
    and ListSkillsByTenant_err: "inv m \<Longrightarrow> sto_ListSkillsByTenant S t m = (Inl e, m') \<Longrightarrow>
      writes m (\<alpha> m) m' \<and> \<not> healthy (snd m)"
    and DeleteSkill_ok: "inv m \<Longrightarrow> sto_DeleteSkill S i u m = (None, m') \<Longrightarrow>
      owned_skill (a_skills (\<alpha> m)) i u \<and> writes m ((\<alpha> m)\<lparr>a_skills := (a_skills (\<alpha> m))(i := None)\<rparr>) m'"
    and DeleteSkill_err: "inv m \<Longrightarrow> sto_DeleteSkill S i u m = (Some e, m') \<Longrightarrow>
      e = Sentinel ErrNotFound \<and> writes m (\<alpha> m) m' \<and> \<not> owned_skill (a_skills (\<alpha> m)) i u \<or>
      \<not> errors_Is e ErrNotFound \<and>
      crashes m (if owned_skill (a_skills (\<alpha> m)) i u then (\<alpha> m)\<lparr>a_skills := (a_skills (\<alpha> m))(i := None)\<rparr> else \<alpha> m) m'"

locale store = env_store + snap_store + skill_store

section \<open>Lemmas\<close>

lemma owned_env_Some [simp]: "M i = Some e \<Longrightarrow> owned_env M i u \<longleftrightarrow> scoped u (env_UserID e)"
  by (simp add: owned_env_def)

lemma owned_env_None [simp]: "M i = None \<Longrightarrow> \<not> owned_env M i u"
  by (simp add: owned_env_def)

lemma owned_snap_Some [simp]: "M i = Some e \<Longrightarrow> owned_snap M i u \<longleftrightarrow> scoped u (snap_UserID e)"
  by (simp add: owned_snap_def)

lemma owned_skill_Some [simp]: "M i = Some (k, a) \<Longrightarrow> owned_skill M i u \<longleftrightarrow> scoped u (skill_UserID k)"
  by (simp add: owned_skill_def)

lemma scoped_self [simp]: "scoped u u"
  by (simp add: scoped_def)

lemma scoped_admin [simp]: "scoped [] v"
  by (simp add: scoped_def)

lemma norm_snap_fields [simp]:
  "snap_ID (norm_snap tn s) = snap_ID s" "snap_UserID (norm_snap tn s) = snap_UserID s"
  "snap_TenantID (norm_snap tn s) = snap_TenantID s"
  by (simp_all add: norm_snap_def)

lemma norm_skill_fields [simp]:
  "skill_ID (norm_skill tn k) = skill_ID k" "skill_UserID (norm_skill tn k) = skill_UserID k"
  "skill_Name (norm_skill tn k) = skill_Name k" "skill_TenantID (norm_skill tn k) = skill_TenantID k"
  by (simp_all add: norm_skill_def)

text \<open>A store that rounds nothing.\<close>

lemma norm_id [simp]:
  "norm_env id id id e = e" "norm_snap id x = x" "norm_skill id k = k"
  by (simp_all add: norm_env_def norm_snap_def norm_skill_def)

lemma fails_with_NotFound [simp]: "fails_with a b (Sentinel ErrNotFound) \<longleftrightarrow> a"
  by (simp add: fails_with_def)

lemmas contract_defs = store_base.reads_def store_base.writes_def store_base.crashes_def
  store_base.stable_def store_base.nenv_def

end
