(* ===== verification/World.thy ===== *)
theory World
  imports Store_Interface Engine
begin

text \<open>
  What the services share: a world of the heap with the store's state and the engine's state,
  calls of the store and of the engine, and pointers to environments.  The interface values
  \<open>store.Store\<close> and \<open>engine.Engine\<close> a service holds are the arguments \<open>S\<close> and \<open>E\<close> of its
  operations; \<open>time.Now()\<close> and \<open>uuid.New().String()\<close> are arguments where the code calls them.
  Log messages are not modelled.
\<close>

record ('s, 'e) world =
  w_mem :: "'s mem"
  w_eng :: 'e

definition on_store :: "('s mem \<Rightarrow> 'r \<times> 's mem) \<Rightarrow> ('s, 'e) world \<Rightarrow> 'r \<times> ('s, 'e) world" where
  "on_store f w = (case f (w_mem w) of (r, m) \<Rightarrow> (r, w\<lparr>w_mem := m\<rparr>))"

definition on_engine :: "('e \<Rightarrow> 'r \<times> 'e) \<Rightarrow> ('s, 'e) world \<Rightarrow> 'r \<times> ('s, 'e) world" where
  "on_engine f w = (case f (w_eng w) of (r, e) \<Rightarrow> (r, w\<lparr>w_eng := e\<rparr>))"

definition deref :: "nat \<Rightarrow> ('s, 'e) world \<Rightarrow> Environment" where
  "deref p w = fst (w_mem w) ! p"

definition assign_env :: "nat \<Rightarrow> Environment \<Rightarrow> ('s, 'e) world \<Rightarrow> ('s, 'e) world" where
  "assign_env p e w = w\<lparr>w_mem := ((fst (w_mem w))[p := e], snd (w_mem w))\<rparr>"

definition alloc_env :: "Environment \<Rightarrow> ('s, 'e) world \<Rightarrow> nat \<times> ('s, 'e) world" where
  "alloc_env e w = (case new_env e (fst (w_mem w)) of (p, h) \<Rightarrow> (p, w\<lparr>w_mem := (h, snd (w_mem w))\<rparr>))"

text \<open>\<open>prefix + strings.ReplaceAll(uuid, "-", "")[:12]\<close>.\<close>

definition new_ID :: "string \<Rightarrow> string \<Rightarrow> string" where
  "new_ID pre uuid = pre @ take 12 (strings_ReplaceAll uuid ''-'' [])"

text \<open>A lookup error of the store as the services report it.\<close>

definition lookup_error :: "sentinel \<Rightarrow> goerr \<Rightarrow> goerr" where
  "lookup_error s e = (if errors_Is e ErrNotFound then Sentinel ErrNotFound else Wrapped s e)"

lemmas world_defs = on_store_def on_engine_def deref_def assign_env_def alloc_env_def new_env_def

section \<open>Pointers and the store's contract\<close>

lemma on_engine_mem: "on_engine f w = (r, w') \<Longrightarrow> w_mem w' = w_mem w"
  by (auto simp: on_engine_def split: prod.splits)

lemma on_store_result: "on_store f w = (r, w') \<Longrightarrow> f (w_mem w) = (r, w_mem w') \<and> w_eng w' = w_eng w"
  by (auto simp: on_store_def split: prod.splits)

lemma on_engine_result: "on_engine f w = (r, w') \<Longrightarrow> f (w_eng w) = (r, w_eng w') \<and> w_mem w' = w_mem w"
  by (auto simp: on_engine_def split: prod.splits)

end
