(* ===== verification/Store_Clients.thy ===== *)
theory Store_Clients
  imports World
begin

text \<open>
  What a client of the store may rely on, proved once from the contract: how each method behaves
  on a healthy store, and the frame property of the methods a user's request calls: whatever a
  method answers, it leaves the records of every other user alone.
\<close>

definition others :: "string \<Rightarrow> abs_store \<Rightarrow> abs_store" where
  "others u A = \<lparr>
     a_envs = (\<lambda>i. case a_envs A i of None \<Rightarrow> None | Some e \<Rightarrow> if env_UserID e = u then None else Some e),
     a_snaps = (\<lambda>i. case a_snaps A i of None \<Rightarrow> None | Some x \<Rightarrow> if snap_UserID x = u then None else Some x),
     a_skills = (\<lambda>i. case a_skills A i of None \<Rightarrow> None | Some (k, a) \<Rightarrow> if skill_UserID k = u then None else Some (k, a))\<rparr>"

lemma others_env:
  assumes "\<And>e. M i = Some e \<Longrightarrow> env_UserID e = u" and "\<And>e. v = Some e \<Longrightarrow> env_UserID e = u" and "M = a_envs A"
  shows "others u (A\<lparr>a_envs := M(i := v)\<rparr>) = others u A"
  using assms by (auto simp: others_def fun_eq_iff split: option.splits)

lemma others_snap:
  assumes "\<And>x. M i = Some x \<Longrightarrow> snap_UserID x = u" and "\<And>x. v = Some x \<Longrightarrow> snap_UserID x = u" and "M = a_snaps A"
  shows "others u (A\<lparr>a_snaps := M(i := v)\<rparr>) = others u A"
  using assms by (auto simp: others_def fun_eq_iff split: option.splits)

lemma others_skill:
  assumes "\<And>k a. M i = Some (k, a) \<Longrightarrow> skill_UserID k = u" and "\<And>k a. v = Some (k, a) \<Longrightarrow> skill_UserID k = u"
    and "M = a_skills A"
  shows "others u (A\<lparr>a_skills := M(i := v)\<rparr>) = others u A"
  using assms by (auto simp: others_def fun_eq_iff split: option.splits)

lemma others_skill_diff:
  assumes "skill_diff k (a_skills A) (a_skills B)" and "a_envs B = a_envs A" and "a_snaps B = a_snaps A"
    and "skill_UserID k = u"
  shows "others u B = others u A"
proof -
  have "(case a_skills B i of None \<Rightarrow> None | Some (k, a) \<Rightarrow> if skill_UserID k = u then None else Some (k, a)) =
      (case a_skills A i of None \<Rightarrow> None | Some (k, a) \<Rightarrow> if skill_UserID k = u then None else Some (k, a))" for i
    using assms(1,4) unfolding skill_diff_def
    by (cases "a_skills B i = a_skills A i") (auto simp: same_skill_def split: option.splits dest!: spec [of _ i])
  then show ?thesis by (simp add: others_def assms(2,3))
qed

lemma same_identity_refl [simp]: "same_identity e e"
  by (simp add: same_identity_def)

lemma same_identity_trans: "same_identity a b \<Longrightarrow> same_identity b c \<Longrightarrow> same_identity a c"
  by (simp add: same_identity_def)

lemma deref_mem: "w_mem w' = w_mem w \<Longrightarrow> deref p w' = deref p w"
  by (simp add: deref_def)


text \<open>The clients of the contract: their lemmas are proved here and in the theories of the services,
  and interpreted for both stores once the services are known.\<close>

locale store_client = store

context store_client
begin

definition keeps :: "string \<Rightarrow> 'a mem \<Rightarrow> 'a mem \<Rightarrow> bool" where
  "keeps u m m' \<longleftrightarrow> inv m' \<and> others u (\<alpha> m') = others u (\<alpha> m) \<and> stable (snd m) (snd m') \<and>
     length (fst m) \<le> length (fst m')"

text \<open>A pointer to a record that agrees with what the store holds under its ID.\<close>

definition held :: "nat \<Rightarrow> 'a mem \<Rightarrow> bool" where
  "held p m \<longleftrightarrow> p < length (fst m) \<and>
     (\<forall>old. a_envs (\<alpha> m) (env_ID (fst m ! p)) = Some old \<longrightarrow> same_identity old (nenv (snd m) (fst m ! p)))"

lemma keeps_refl: "inv m \<Longrightarrow> keeps u m m"
  by (simp add: keeps_def)

lemma keeps_trans: "keeps u a b \<Longrightarrow> keeps u b c \<Longrightarrow> keeps u a c"
  by (auto simp: keeps_def intro: stable_trans)

lemma keeps_inv: "keeps u a b \<Longrightarrow> inv b"
  by (simp add: keeps_def)

lemma reads_keeps: "reads m m' \<Longrightarrow> keeps u m m'"
  by (simp add: reads_def keeps_def heap_ext_length)

lemma writes_keeps: "writes m A m' \<Longrightarrow> others u A = others u (\<alpha> m) \<Longrightarrow> keeps u m m'"
  by (simp add: writes_def keeps_def)

lemma crashes_keeps: "crashes m A m' \<Longrightarrow> others u A = others u (\<alpha> m) \<Longrightarrow> keeps u m m'"
  by (auto simp: crashes_def intro: writes_keeps)

lemma same_identity_nenv: "same_identity a b \<Longrightarrow> same_identity (nenv s a) (nenv s b)"
  by (simp add: same_identity_def)

lemma alloc_keeps: "inv (h, s) \<Longrightarrow> keeps u (h, s) (h @ [e], s)"
  by (intro reads_keeps alloc)

lemma Get_keeps: "inv m \<Longrightarrow> sto_Get S i u m = (r, m') \<Longrightarrow> keeps v m m'"
  by (cases r) (auto dest: Get_ok Get_err intro: reads_keeps)

lemma Get_held:
  assumes "inv m" and "sto_Get S i u m = (Inr p, m')"
  shows "held p m' \<and> env_ID (fst m' ! p) = i \<and> scoped u (env_UserID (fst m' ! p)) \<and>
    a_envs (\<alpha> m') i = Some (fst m' ! p)"
proof -
  have g: "reads m m'" "p < length (fst m')" "a_envs (\<alpha> m) i = Some (fst m' ! p)"
    "scoped u (env_UserID (fst m' ! p))"
    using Get_ok [OF assms] by auto
  then have e: "a_envs (\<alpha> m') i = Some (fst m' ! p)" and "inv m'"
    by (simp_all add: reads_def)
  have "env_ID (fst m' ! p) = i" using env_key [OF \<open>inv m'\<close> e] .
  moreover have "same_identity (fst m' ! p) (nenv (snd m') (fst m' ! p))"
    using created_norm [OF \<open>inv m'\<close> e] by (simp add: same_identity_def)
  ultimately show ?thesis using e g(2,4) by (simp add: held_def)
qed

lemma Delete_keeps:
  assumes "inv m" and "u \<noteq> []" and "sto_Delete S i u m = (r, m')"
  shows "keeps u m m'"
proof -
  let ?A = "(\<alpha> m)\<lparr>a_envs := (a_envs (\<alpha> m))(i := None)\<rparr>"
  have A: "owned_env (a_envs (\<alpha> m)) i u \<Longrightarrow> others u ?A = others u (\<alpha> m)"
    using assms(2) by (intro others_env) (auto simp: scoped_def)
  show ?thesis
  proof (cases r)
    case None
    then have "sto_Delete S i u m = (None, m')" using assms(3) by simp
    from Delete_ok [OF assms(1) this] A show ?thesis by (auto intro: writes_keeps)
  next
    case (Some e)
    then have e: "sto_Delete S i u m = (Some e, m')" using assms(3) by simp
    show ?thesis
      using Delete_err [OF assms(1) e] A
      by (cases "owned_env (a_envs (\<alpha> m)) i u") (auto intro: writes_keeps crashes_keeps)
  qed
qed

lemma Create_keeps:
  assumes "inv m" and "p < length (fst m)" and "a_envs (\<alpha> m) (env_ID (fst m ! p)) = None"
    and "env_UserID (fst m ! p) = u" and "sto_Create S p m = (r, m')"
  shows "keeps u m m'"
proof -
  let ?A = "(\<alpha> m)\<lparr>a_envs := (a_envs (\<alpha> m))(env_ID (fst m ! p) \<mapsto> nenv (snd m) (fst m ! p))\<rparr>"
  have "others u ?A = others u (\<alpha> m)"
    using assms(3,4) by (intro others_env) auto
  then show ?thesis
    using assms(5) Create_ok [OF assms(1-3), of m'] Create_err [OF assms(1-3), of _ m']
    by (cases r) (auto intro: writes_keeps crashes_keeps)
qed

lemma Create_held:
  assumes "inv m" and "p < length (fst m)" and "a_envs (\<alpha> m) (env_ID (fst m ! p)) = None"
    and "sto_Create S p m = (None, m')"
  shows "held p m' \<and> fst m' = fst m"
  using Create_ok [OF assms] assms(2)
  by (auto simp: held_def writes_def stable_nenv)

lemma assign_held:
  assumes "inv (h, s)" and "held p (h, s)" and "same_identity e (h ! p)"
  shows "keeps (env_UserID e) (h, s) (h[p := e], s)" and "held p (h[p := e], s)"
proof -
  have p: "p < length h" using assms(2) by (simp add: held_def)
  have id: "env_ID e = env_ID (h ! p)" "env_UserID (h ! p) = env_UserID e"
    using assms(3) by (auto simp: same_identity_def)
  let ?A = "(\<alpha> (h, s))\<lparr>a_envs := (a_envs (\<alpha> (h, s)))(env_ID e \<mapsto> nenv s e)\<rparr>"
  have al: "inv (h[p := e], s)" "\<alpha> (h[p := e], s) = \<alpha> (h, s) \<or>
      a_envs (\<alpha> (h, s)) (env_ID e) = Some (h ! p) \<and> \<alpha> (h[p := e], s) = ?A"
    using assign [OF assms(1) p assms(3)] by auto
  have "a_envs (\<alpha> (h, s)) (env_ID e) = Some (h ! p) \<Longrightarrow> others (env_UserID e) ?A = others (env_UserID e) (\<alpha> (h, s))"
    using id by (intro others_env) auto
  with al show "keeps (env_UserID e) (h, s) (h[p := e], s)"
    by (auto simp: keeps_def)
  have "same_identity old (nenv s (h ! p)) \<Longrightarrow> same_identity old (nenv s e)" for old
    using assms(3) by (simp add: same_identity_def)
  with al(2) assms(2) p show "held p (h[p := e], s)"
    by (auto simp: held_def id)
qed

lemma Update_keeps:
  assumes "inv m" and "held p m" and "sto_Update S p m = (r, m')"
  shows "keeps (env_UserID (fst m ! p)) m m'"
proof -
  let ?e = "fst m ! p"
  let ?A = "(\<alpha> m)\<lparr>a_envs := (a_envs (\<alpha> m))(env_ID ?e \<mapsto> nenv (snd m) ?e)\<rparr>"
  have p: "p < length (fst m)" using assms(2) by (simp add: held_def)
  have same: "same_identity old (nenv (snd m) ?e)" if "a_envs (\<alpha> m) (env_ID ?e) = Some old" for old
    using that assms(2) by (simp add: held_def)
  have A: "others (env_UserID ?e) ?A = others (env_UserID ?e) (\<alpha> m)"
    using same by (intro others_env) (auto simp: same_identity_def)
  show ?thesis
  proof (cases r)
    case None
    with assms(3) have "sto_Update S p m = (None, m')" by simp
    from Update_ok [OF assms(1) p this] same A show ?thesis by (auto intro: writes_keeps)
  next
    case (Some er)
    with assms(3) have "sto_Update S p m = (Some er, m')" by simp
    from Update_err [OF assms(1) p this] same A show ?thesis
      by (cases "a_envs (\<alpha> m) (env_ID ?e)") (auto intro: writes_keeps crashes_keeps)
  qed
qed

lemma Update_held:
  assumes "inv m" and "held p m" and "sto_Update S p m = (r, m')"
  shows "fst m' = fst m"
proof -
  have p: "p < length (fst m)" and
    same: "a_envs (\<alpha> m) (env_ID (fst m ! p)) = Some old \<Longrightarrow> same_identity old (nenv (snd m) (fst m ! p))" for old
    using assms(2) by (simp_all add: held_def)
  show ?thesis
    using assms(3) same Update_ok [OF assms(1) p, of m'] Update_err [OF assms(1) p, of _ m']
    by (cases r; cases "a_envs (\<alpha> m) (env_ID (fst m ! p))") (auto simp: writes_def crashes_def)
qed

lemma CreateSnapshot_keeps:
  assumes "inv m" and "a_snaps (\<alpha> m) (snap_ID x) = None" and "snap_UserID x = u"
    and "sto_CreateSnapshot S x m = (r, m')"
  shows "keeps u m m'"
proof -
  have "others u ((\<alpha> m)\<lparr>a_snaps := (a_snaps (\<alpha> m))(snap_ID x \<mapsto> norm_snap tn x)\<rparr>) = others u (\<alpha> m)"
    using assms(2,3) by (intro others_snap) auto
  then show ?thesis
    using CreateSnapshot_ok [OF assms(1,2), of m'] CreateSnapshot_err [OF assms(1,2), of _ m'] assms(4)
    by (cases r) (auto intro: writes_keeps crashes_keeps)
qed

lemma DeleteSnapshot_keeps:
  assumes "inv m" and "u \<noteq> []" and "sto_DeleteSnapshot S i u m = (r, m')"
  shows "keeps u m m'"
proof -
  have A: "others u ((\<alpha> m)\<lparr>a_snaps := (a_snaps (\<alpha> m))(i := None)\<rparr>) = others u (\<alpha> m)"
    if "owned_snap (a_snaps (\<alpha> m)) i u"
    using that assms(2) by (intro others_snap) (auto simp: scoped_def)
  show ?thesis
    using DeleteSnapshot_ok [OF assms(1), of i u m'] DeleteSnapshot_err [OF assms(1), of i u _ m'] A assms(3)
    by (cases r; cases "owned_snap (a_snaps (\<alpha> m)) i u") (auto intro: writes_keeps crashes_keeps)
qed

lemma DeleteSkill_keeps:
  assumes "inv m" and "u \<noteq> []" and "sto_DeleteSkill S i u m = (r, m')"
  shows "keeps u m m'"
proof -
  have A: "others u ((\<alpha> m)\<lparr>a_skills := (a_skills (\<alpha> m))(i := None)\<rparr>) = others u (\<alpha> m)"
    if "owned_skill (a_skills (\<alpha> m)) i u"
    using that assms(2) by (intro others_skill) (auto simp: scoped_def)
  show ?thesis
    using DeleteSkill_ok [OF assms(1), of i u m'] DeleteSkill_err [OF assms(1), of i u _ m'] A assms(3)
    by (cases r; cases "owned_skill (a_skills (\<alpha> m)) i u") (auto intro: writes_keeps crashes_keeps)
qed

lemma UpsertSkill_keeps:
  assumes "inv m" and "a_skills (\<alpha> m) (skill_ID k) = None" and "skill_UserID k = u"
    and "sto_UpsertSkill S k a m = ((r, k'), m')"
  shows "keeps u m m'"
proof (cases r)
  case (Some e)
  with assms(4) have "sto_UpsertSkill S k a m = ((Some e, k'), m')" by simp
  from UpsertSkill_err [OF assms(1,2) this] others_skill_diff [OF _ _ _ assms(3)] show ?thesis
    by (auto simp: keeps_def writes_def)
next
  case None
  with assms(4) have up: "sto_UpsertSkill S k a m = ((None, k'), m')" by simp
  show ?thesis
  proof (cases "\<exists>i k0 a0. a_skills (\<alpha> m) i = Some (k0, a0) \<and> same_skill k0 k")
    case True
    then obtain i k0 a0 where i: "a_skills (\<alpha> m) i = Some (k0, a0)" "same_skill k0 k" by blast
    with assms(3) have "others u ((\<alpha> m)\<lparr>a_skills := (a_skills (\<alpha> m))(i \<mapsto>
        (k0\<lparr>skill_SizeBytes := skill_SizeBytes k, skill_UpdatedAt := tn (skill_UpdatedAt k)\<rparr>, a))\<rparr>) = others u (\<alpha> m)"
      by (intro others_skill) (auto simp: same_skill_def)
    with UpsertSkill_old [OF assms(1,2) i up] show ?thesis by (auto intro: writes_keeps)
  next
    case False
    have "others u ((\<alpha> m)\<lparr>a_skills := (a_skills (\<alpha> m))(skill_ID k \<mapsto> (norm_skill tn k, a))\<rparr>) = others u (\<alpha> m)"
      using assms(2,3) by (intro others_skill) auto
    with UpsertSkill_new [OF assms(1,2) _ up] False show ?thesis by (auto intro: writes_keeps)
  qed
qed

text \<open>The methods that only read.\<close>

lemma GetSnapshot_writes: "inv m \<Longrightarrow> sto_GetSnapshot S i u m = (r, m') \<Longrightarrow> writes m (\<alpha> m) m'"
  by (cases r) (auto dest: GetSnapshot_ok GetSnapshot_err)

lemma ListSnapshots_writes: "inv m \<Longrightarrow> sto_ListSnapshots S u m = (r, m') \<Longrightarrow> writes m (\<alpha> m) m'"
  by (cases r) (auto dest: ListSnapshots_ok ListSnapshots_err)

lemma ListSnapshotsByTenant_writes: "inv m \<Longrightarrow> sto_ListSnapshotsByTenant S t m = (r, m') \<Longrightarrow> writes m (\<alpha> m) m'"
  by (cases r) (auto dest: ListSnapshotsByTenant_ok ListSnapshotsByTenant_err)

lemma GetSkill_writes: "inv m \<Longrightarrow> sto_GetSkill S i u m = (r, m') \<Longrightarrow> writes m (\<alpha> m) m'"
  by (cases r) (auto dest: GetSkill_ok GetSkill_err)

lemma GetSkillArchive_writes: "inv m \<Longrightarrow> sto_GetSkillArchive S i u m = (r, m') \<Longrightarrow> writes m (\<alpha> m) m'"
  by (cases r) (auto dest: GetSkillArchive_ok GetSkillArchive_err)

lemma ListSkills_writes: "inv m \<Longrightarrow> sto_ListSkills S u m = (r, m') \<Longrightarrow> writes m (\<alpha> m) m'"
  by (cases r) (auto dest: ListSkills_ok ListSkills_err)

lemma ListSkillsByTenant_writes: "inv m \<Longrightarrow> sto_ListSkillsByTenant S t m = (r, m') \<Longrightarrow> writes m (\<alpha> m) m'"
  by (cases r) (auto dest: ListSkillsByTenant_ok ListSkillsByTenant_err)

lemma List_reads: "inv m \<Longrightarrow> sto_List S u m = (r, m') \<Longrightarrow> reads m m'"
  by (cases r) (auto dest: List_ok List_err)

lemma ListByTenant_reads: "inv m \<Longrightarrow> sto_ListByTenant S t m = (r, m') \<Longrightarrow> reads m m'"
  by (cases r) (auto dest: ListByTenant_ok ListByTenant_err)

lemma ListExpired_reads: "inv m \<Longrightarrow> sto_ListExpired S now m = (r, m') \<Longrightarrow> reads m m'"
  by (cases r) (auto dest: ListExpired_ok ListExpired_err)

text \<open>A store that is not sick.\<close>

lemma Get_healthy:
  assumes "inv m" and "healthy (snd m)" and "a_envs (\<alpha> m) i = Some e" and "scoped u (env_UserID e)"
  shows "\<exists>p m'. sto_Get S i u m = (Inr p, m') \<and> reads m m' \<and> p < length (fst m') \<and> fst m' ! p = e"
proof -
  obtain r m' where r: "sto_Get S i u m = (r, m')" by (meson surj_pair)
  show ?thesis
    using r assms Get_ok [OF assms(1), of i u _ m'] Get_err [OF assms(1), of i u _ m']
    by (cases r) (auto simp: fails_with_def owned_env_def)
qed

lemma Get_foreign:
  assumes "inv m" and "healthy (snd m)" and "\<not> owned_env (a_envs (\<alpha> m)) i u"
  shows "\<exists>m'. sto_Get S i u m = (Inl (Sentinel ErrNotFound), m') \<and> reads m m'"
proof -
  obtain r m' where r: "sto_Get S i u m = (r, m')" by (meson surj_pair)
  show ?thesis
    using r assms Get_ok [OF assms(1), of i u _ m'] Get_err [OF assms(1), of i u _ m']
    by (cases r) (auto simp: fails_with_def owned_env_def)
qed

lemma Delete_healthy:
  assumes "inv m" and "healthy (snd m)" and "owned_env (a_envs (\<alpha> m)) i u"
  shows "\<exists>m'. sto_Delete S i u m = (None, m') \<and> writes m ((\<alpha> m)\<lparr>a_envs := (a_envs (\<alpha> m))(i := None)\<rparr>) m'"
proof -
  obtain r m' where r: "sto_Delete S i u m = (r, m')" by (meson surj_pair)
  show ?thesis
    using r assms Delete_ok [OF assms(1), of i u m'] Delete_err [OF assms(1), of i u _ m']
    by (cases r) (auto simp: crashes_def)
qed

lemma Create_healthy:
  assumes "inv m" and "healthy (snd m)" and "p < length (fst m)" and "a_envs (\<alpha> m) (env_ID (fst m ! p)) = None"
  shows "\<exists>m'. sto_Create S p m = (None, m') \<and>
    writes m ((\<alpha> m)\<lparr>a_envs := (a_envs (\<alpha> m))(env_ID (fst m ! p) \<mapsto> nenv (snd m) (fst m ! p))\<rparr>) m'"
proof -
  obtain r m' where r: "sto_Create S p m = (r, m')" by (meson surj_pair)
  show ?thesis
    using r assms(2) Create_ok [OF assms(1,3,4), of m'] Create_err [OF assms(1,3,4), of _ m']
    by (cases r) (auto simp: crashes_def)
qed

lemma Update_healthy:
  assumes "inv m" and "healthy (snd m)" and "held p m"
    and "a_envs (\<alpha> m) (env_ID (fst m ! p)) = Some old"
  shows "\<exists>m'. sto_Update S p m = (None, m') \<and>
    writes m ((\<alpha> m)\<lparr>a_envs := (a_envs (\<alpha> m))(env_ID (fst m ! p) \<mapsto> nenv (snd m) (fst m ! p))\<rparr>) m'"
proof -
  obtain r m' where r: "sto_Update S p m = (r, m')" by (meson surj_pair)
  have p: "p < length (fst m)" and same: "same_identity old (nenv (snd m) (fst m ! p))"
    using assms(3,4) by (simp_all add: held_def)
  then have "env_UserID old = env_UserID (fst m ! p)" by (simp add: same_identity_def)
  with same show ?thesis
    using r assms(2,4) Update_ok [OF assms(1) p, of m'] Update_err [OF assms(1) p, of _ m']
    by (cases r) (auto simp: crashes_def)
qed

lemma writes_held: "writes m (\<alpha> m) m' \<Longrightarrow> held p m \<Longrightarrow> held p m'"
  by (auto simp: writes_def held_def dest: stable_nenv)

lemma writes_trans: "writes m (\<alpha> m) m' \<Longrightarrow> writes m' A m'' \<Longrightarrow> writes m A m''"
  by (auto simp: writes_def intro: stable_trans)

lemma writes_refl: "inv m \<Longrightarrow> writes m (\<alpha> m) m"
  by (simp add: writes_def)

lemma healthy_writes: "writes m A m' \<Longrightarrow> healthy (snd m) \<Longrightarrow> healthy (snd m')"
  by (simp add: writes_def stable_def)

lemma assign_world:
  assumes "inv (w_mem w)" and "held p (w_mem w)" and "same_identity e (deref p w)"
  shows "keeps (env_UserID e) (w_mem w) (w_mem (assign_env p e w))" "held p (w_mem (assign_env p e w))"
    "inv (w_mem (assign_env p e w))" "deref p (assign_env p e w) = e" "w_eng (assign_env p e w) = w_eng w"
    "snd (w_mem (assign_env p e w)) = snd (w_mem w)"
proof -
  show k: "keeps (env_UserID e) (w_mem w) (w_mem (assign_env p e w))" and "held p (w_mem (assign_env p e w))"
    using assign_held [of "fst (w_mem w)" "snd (w_mem w)" p e] assms by (simp_all add: assign_env_def deref_def)
  show "inv (w_mem (assign_env p e w))" using k by (rule keeps_inv)
  show "deref p (assign_env p e w) = e" "w_eng (assign_env p e w) = w_eng w"
    "snd (w_mem (assign_env p e w)) = snd (w_mem w)"
    using assms(2) by (simp_all add: assign_env_def deref_def held_def)
qed

lemma assign_abs:
  assumes "inv (w_mem w)" and "held p (w_mem w)" and "same_identity e (deref p w)"
    and "a_envs (\<alpha> (w_mem w)) (env_ID e) = Some old"
  shows "\<exists>v. \<alpha> (w_mem (assign_env p e w)) =
    (\<alpha> (w_mem w))\<lparr>a_envs := (a_envs (\<alpha> (w_mem w)))(env_ID e \<mapsto> v)\<rparr>"
proof -
  have "p < length (fst (w_mem w))" using assms(2) by (simp add: held_def)
  then have "\<alpha> (w_mem (assign_env p e w)) = \<alpha> (w_mem w) \<or>
      \<alpha> (w_mem (assign_env p e w)) =
        (\<alpha> (w_mem w))\<lparr>a_envs := (a_envs (\<alpha> (w_mem w)))(env_ID e \<mapsto> nenv (snd (w_mem w)) e)\<rparr>"
    using assign [of "fst (w_mem w)" "snd (w_mem w)" p e] assms(1,3) by (auto simp: assign_env_def deref_def)
  moreover have "\<alpha> (w_mem w) = (\<alpha> (w_mem w))\<lparr>a_envs := (a_envs (\<alpha> (w_mem w)))(env_ID e \<mapsto> old)\<rparr>"
    using assms(4) by (cases "\<alpha> (w_mem w)") (auto simp: fun_eq_iff)
  ultimately show ?thesis by metis
qed

text \<open>Marking an environment as used: an assignment through the pointer and an update.\<close>

lemma touch_world:
  fixes now :: time
  assumes "inv (w_mem w)" and "held p (w_mem w)"
  defines "e \<equiv> (deref p w)\<lparr>env_LastUsedAt := now\<rparr>"
  shows "keeps (env_UserID (deref p w)) (w_mem w) (w_mem (snd (on_store (sto_Update S p) (assign_env p e w))))"
    "w_eng (snd (on_store (sto_Update S p) (assign_env p e w))) = w_eng w"
    "healthy (snd (w_mem w)) \<Longrightarrow> a_envs (\<alpha> (w_mem w)) (env_ID (deref p w)) = Some old \<Longrightarrow>
      \<alpha> (w_mem (snd (on_store (sto_Update S p) (assign_env p e w)))) =
      (\<alpha> (w_mem w))\<lparr>a_envs := (a_envs (\<alpha> (w_mem w)))(env_ID (deref p w) \<mapsto> nenv (snd (w_mem w)) e)\<rparr>"
proof -
  have s: "same_identity e (deref p w)" by (simp add: e_def same_identity_def)
  note as = assign_world [OF assms(1,2) s]
  obtain r w1 where r: "on_store (sto_Update S p) (assign_env p e w) = (r, w1)" by (meson surj_pair)
  have u: "sto_Update S p (w_mem (assign_env p e w)) = (r, w_mem w1)" "w_eng w1 = w_eng w"
    using on_store_result [OF r] as(5) by simp_all
  have id: "fst (w_mem (assign_env p e w)) ! p = e" using as(4) by (simp add: deref_def)
  have "keeps (env_UserID e) (w_mem (assign_env p e w)) (w_mem w1)"
    using Update_keeps [OF as(3,2) u(1)] id by simp
  with as(1) show "keeps (env_UserID (deref p w)) (w_mem w) (w_mem (snd (on_store (sto_Update S p) (assign_env p e w))))"
    unfolding r by (simp add: e_def) (metis keeps_trans)
  show "w_eng (snd (on_store (sto_Update S p) (assign_env p e w))) = w_eng w" by (simp add: r u(2))
  show "\<alpha> (w_mem (snd (on_store (sto_Update S p) (assign_env p e w)))) =
      (\<alpha> (w_mem w))\<lparr>a_envs := (a_envs (\<alpha> (w_mem w)))(env_ID (deref p w) \<mapsto> nenv (snd (w_mem w)) e)\<rparr>"
    if h: "healthy (snd (w_mem w))" and old: "a_envs (\<alpha> (w_mem w)) (env_ID (deref p w)) = Some old"
  proof -
    have i: "env_ID e = env_ID (deref p w)" by (simp add: e_def)
    obtain v where v: "\<alpha> (w_mem (assign_env p e w)) = (\<alpha> (w_mem w))\<lparr>a_envs := (a_envs (\<alpha> (w_mem w)))(env_ID e \<mapsto> v)\<rparr>"
      using assign_abs [OF assms(1,2) s] old i by metis
    have "healthy (snd (w_mem (assign_env p e w)))" using h as(6) by simp
    from Update_healthy [OF as(3) this as(2), of v] v u(1) show ?thesis
      by (auto simp: writes_def r id i as(6))
  qed
qed

end

end
