(* ===== verification/UTF8.thy ===== *)
theory UTF8
  imports Go_Strings
begin

text \<open>
  UTF-8 as \<open>unicode/utf8\<close> reads it.  Go strings are bytes, JSON texts are not: \<open>encoding/json\<close> writes
  the replacement character for every byte that does not belong to an encoded character.
  \<open>to_valid\<close> is what becomes of a string on this way.
\<close>

section \<open>Decoding one character\<close>

definition cont_byte :: "char \<Rightarrow> bool" where
  "cont_byte c \<longleftrightarrow> 0x80 \<le> (of_char c :: nat) \<and> (of_char c :: nat) \<le> 0xBF"

text \<open>The second byte is restricted for four first bytes, which excludes overlong forms, surrogates and
  what lies beyond U+10FFFF.\<close>

definition second_byte :: "nat \<Rightarrow> char \<Rightarrow> bool" where
  "second_byte n c \<longleftrightarrow>
     (if n = 0xE0 then 0xA0 else if n = 0xF0 then 0x90 else 0x80) \<le> (of_char c :: nat) \<and>
     (of_char c :: nat) \<le> (if n = 0xED then 0x9F else if n = 0xF4 then 0x8F else 0xBF)"

text \<open>The size \<open>utf8.DecodeRune\<close> answers for a character at the front, 0 where it answers \<open>RuneError\<close>
  for an invalid byte.\<close>

definition utf8_width :: "string \<Rightarrow> nat" where
  "utf8_width s =
     (case s of
        [] \<Rightarrow> 0
      | a # r \<Rightarrow>
          let n = of_char a :: nat in
          if n < 0x80 then 1
          else if n < 0xC2 \<or> 0xF4 < n then 0
          else (case r of
                  [] \<Rightarrow> 0
                | c # r1 \<Rightarrow>
                    if \<not> second_byte n c then 0
                    else if n < 0xE0 then 2
                    else (case r1 of
                            [] \<Rightarrow> 0
                          | d # r2 \<Rightarrow>
                              if \<not> cont_byte d then 0
                              else if n < 0xF0 then 3
                              else (case r2 of [] \<Rightarrow> 0 | e # _ \<Rightarrow> if cont_byte e then 4 else 0))))"

lemma utf8_width_Nil [simp]: "utf8_width [] = 0"
  by (simp add: utf8_width_def)

lemma utf8_width_ascii [simp]: "(of_char c :: nat) < 0x80 \<Longrightarrow> utf8_width (c # r) = 1"
  by (simp add: utf8_width_def)

lemma utf8_width_one: "utf8_width (c # r) = 1 \<longleftrightarrow> (of_char c :: nat) < 0x80"
  by (auto simp: utf8_width_def Let_def split: list.splits if_splits)

lemma utf8_width_le: "utf8_width s \<le> length s"
  by (auto simp: utf8_width_def Let_def split: list.splits if_splits)

lemma utf8_width_cases:
  assumes "0 < utf8_width s"
  obtains (one) a r where "s = a # r" "(of_char a :: nat) < 0x80" "utf8_width s = 1"
  | (two) a c r where "s = a # c # r" "0xC2 \<le> (of_char a :: nat)" "(of_char a :: nat) < 0xE0" "second_byte (of_char a) c"
      "utf8_width s = 2"
  | (three) a c d r where "s = a # c # d # r" "0xE0 \<le> (of_char a :: nat)" "(of_char a :: nat) < 0xF0"
      "second_byte (of_char a) c" "cont_byte d" "utf8_width s = 3"
  | (four) a c d e r where "s = a # c # d # e # r" "0xF0 \<le> (of_char a :: nat)" "(of_char a :: nat) \<le> 0xF4"
      "second_byte (of_char a) c" "cont_byte d" "cont_byte e" "utf8_width s = 4"
proof -
  obtain a r where s: "s = a # r" using assms by (cases s) auto
  show thesis
  proof (cases "(of_char a :: nat) < 0x80")
    case True
    with s one show ?thesis by simp
  next
    case False
    with assms s have n: "0xC2 \<le> (of_char a :: nat)" "(of_char a :: nat) \<le> 0xF4"
      by (auto simp: utf8_width_def Let_def split: if_splits)
    with assms s False obtain c r1 where c: "r = c # r1" "second_byte (of_char a) c"
      by (cases r) (auto simp: utf8_width_def Let_def split: if_splits)
    show ?thesis
    proof (cases "(of_char a :: nat) < 0xE0")
      case True
      with s c n False show ?thesis by (intro two [of a c r1]) (simp_all add: utf8_width_def)
    next
      case e: False
      with assms s c n False obtain d r2 where d: "r1 = d # r2" "cont_byte d"
        by (cases r1) (auto simp: utf8_width_def Let_def split: if_splits)
      show ?thesis
      proof (cases "(of_char a :: nat) < 0xF0")
        case True
        with s c d n e False show ?thesis by (intro three [of a c d r2]) (simp_all add: utf8_width_def)
      next
        case f: False
        with assms s c d n e False obtain e' r3 where "r2 = e' # r3" "cont_byte e'"
          by (cases r2) (auto simp: utf8_width_def Let_def split: if_splits)
        with s c d n e f False show ?thesis by (intro four [of a c d e' r3]) (simp_all add: utf8_width_def)
      qed
    qed
  qed
qed

lemma utf8_width_take:
  assumes "0 < utf8_width s"
  shows "utf8_width (take (utf8_width s) s @ t) = utf8_width s"
  using assms by (cases rule: utf8_width_cases) (simp_all add: utf8_width_def)

lemma utf8_width_append: "0 < utf8_width s \<Longrightarrow> utf8_width (s @ t) = utf8_width s"
  using utf8_width_take [of s "drop (utf8_width s) s @ t"] by (metis append.assoc append_take_drop_id)

section \<open>Repairing a string\<close>

definition replacement :: string where
  "replacement = [CHR 0xEF, CHR 0xBF, CHR 0xBD]"

function to_valid :: "string \<Rightarrow> string" where
  "to_valid [] = []"
| "to_valid (c # r) =
     (let w = utf8_width (c # r) in
      if w = 0 then replacement @ to_valid r else take w (c # r) @ to_valid (drop w (c # r)))"
  by pat_completeness auto
termination
  by (relation "measure length") auto

declare to_valid.simps(2) [simp del]

text \<open>A string is valid when nothing has to be repaired.\<close>

definition utf8 :: "string \<Rightarrow> bool" where
  "utf8 s \<longleftrightarrow> to_valid s = s"

lemma to_valid_step:
  "utf8_width (c # r) = 0 \<Longrightarrow> to_valid (c # r) = replacement @ to_valid r"
  "0 < utf8_width s \<Longrightarrow> to_valid s = take (utf8_width s) s @ to_valid (drop (utf8_width s) s)"
  by (simp add: to_valid.simps) (cases s; simp add: to_valid.simps Let_def)

lemma to_valid_ascii [simp]: "(of_char c :: nat) < 0x80 \<Longrightarrow> to_valid (c # r) = c # to_valid r"
  by (simp add: to_valid_step(2))

lemma to_valid_all_ascii: "\<forall>c \<in> set s. (of_char c :: nat) < 0x80 \<Longrightarrow> to_valid s = s"
  by (induction s) simp_all

lemma to_valid_Nil_iff [simp]: "to_valid s = [] \<longleftrightarrow> s = []"
proof (cases s)
  case (Cons c r)
  then show ?thesis
    by (cases "utf8_width s = 0") (auto simp: to_valid_step replacement_def)
qed simp

text \<open>An invalid byte becomes three, so repairing shows in the length.\<close>

lemma length_to_valid: "length s \<le> length (to_valid s)"
proof (induction s rule: to_valid.induct)
  case (2 c r)
  let ?w = "utf8_width (c # r)"
  show ?case
  proof (cases "?w = 0")
    case True
    then show ?thesis using 2(1) [OF refl] by (simp add: to_valid_step replacement_def)
  next
    case False
    have "length (c # r) = ?w + length (drop ?w (c # r))" using utf8_width_le [of "c # r"] by simp
    also have "\<dots> \<le> ?w + length (to_valid (drop ?w (c # r)))" using 2(2) [OF refl False] by simp
    finally show ?thesis using False utf8_width_le [of "c # r"] by (simp add: to_valid_step(2))
  qed
qed simp

lemma length_to_valid_eq: "length (to_valid s) = length s \<Longrightarrow> to_valid s = s"
proof (induction s rule: to_valid.induct)
  case (2 c r)
  let ?s = "c # r" and ?w = "utf8_width (c # r)"
  have nz: "?w \<noteq> 0"
  proof
    assume "?w = 0"
    then show False using 2(3) length_to_valid [of r] by (simp add: to_valid_step(1) replacement_def)
  qed
  have l: "length (take ?w ?s) = ?w" using utf8_width_le [of ?s] by simp
  have t: "to_valid ?s = take ?w ?s @ to_valid (drop ?w ?s)" using nz by (simp add: to_valid_step(2))
  have "length (to_valid ?s) = ?w + length (to_valid (drop ?w ?s))"
    by (subst t) (simp only: length_append l)
  then have "length (to_valid (drop ?w ?s)) = length (drop ?w ?s)" using 2(3) by (simp only: length_drop)
  then have "to_valid (drop ?w ?s) = drop ?w ?s" by (rule 2(2) [OF refl nz])
  with t have "to_valid ?s = take ?w ?s @ drop ?w ?s" by (simp only:)
  then show ?case by (simp only: append_take_drop_id)
qed simp

lemma to_valid_idem [simp]: "to_valid (to_valid s) = to_valid s"
proof (induction s rule: to_valid.induct)
  case (2 c r)
  let ?s = "c # r" and ?w = "utf8_width (c # r)"
  show ?case
  proof (cases "?w = 0")
    case True
    have "utf8_width (replacement @ to_valid r) = 3"
      by (simp add: replacement_def utf8_width_def second_byte_def cont_byte_def)
    then show ?thesis
      using 2(1) [OF refl True] True
      by (simp add: to_valid_step(1) to_valid_step(2) [of "replacement @ to_valid r"]) (simp add: replacement_def)
  next
    case False
    let ?v = "take ?w ?s @ to_valid (drop ?w ?s)"
    have v: "utf8_width ?v = ?w" by (rule utf8_width_take) (use False in simp)
    have l: "length (take ?w ?s) = ?w" using utf8_width_le [of ?s] by simp
    have "to_valid ?v = take ?w ?v @ to_valid (drop ?w ?v)"
      using to_valid_step(2) [of ?v] v False by simp
    also have "\<dots> = take ?w ?s @ to_valid (to_valid (drop ?w ?s))" using l by simp
    also have "\<dots> = ?v" using 2(2) [OF refl False] by simp
    finally show ?thesis using to_valid_step(2) [of ?s] False by simp
  qed
qed simp

lemma utf8_to_valid [simp]: "utf8 (to_valid s)"
  by (simp add: utf8_def)

text \<open>Two valid strings in a row are valid, so the parts of a text that is cut between characters are
  enough.\<close>

lemma to_valid_append: "utf8 a \<Longrightarrow> to_valid (a @ b) = a @ to_valid b"
proof (induction a rule: to_valid.induct)
  case (2 c r)
  let ?s = "c # r" and ?w = "utf8_width (c # r)"
  have nz: "?w \<noteq> 0"
  proof
    assume "?w = 0"
    then have "length (to_valid ?s) = 3 + length (to_valid r)" by (simp add: to_valid_step replacement_def)
    with 2(3) length_to_valid [of r] show False by (simp add: utf8_def)
  qed
  have l: "length (take ?w ?s) = ?w" using utf8_width_le [of ?s] by simp
  have t: "to_valid ?s = take ?w ?s @ to_valid (drop ?w ?s)" using nz by (simp add: to_valid_step(2))
  have "utf8 (drop ?w ?s)" using 2(3) t by (metis append_take_drop_id same_append_eq utf8_def)
  with 2(2) [OF refl nz] have i: "to_valid (drop ?w ?s @ b) = drop ?w ?s @ to_valid b" by simp
  have s: "?s @ b = take ?w ?s @ (drop ?w ?s @ b)" by (metis append.assoc append_take_drop_id)
  have w: "utf8_width (?s @ b) = ?w"
    using utf8_width_append [of ?s b] nz by simp
  have "to_valid (?s @ b) = take ?w (?s @ b) @ to_valid (drop ?w (?s @ b))"
    using to_valid_step(2) [of "?s @ b"] w nz by simp
  also have "\<dots> = take ?w ?s @ (drop ?w ?s @ to_valid b)"
    using i l by (subst (1 2) s) simp
  finally show ?case by (metis append.assoc append_take_drop_id)
qed simp

section \<open>Encoding one character\<close>

text \<open>\<open>utf8.EncodeRune\<close> for a code point that is not a surrogate.\<close>

definition utf8_encode :: "nat \<Rightarrow> string" where
  "utf8_encode n =
     (if n < 0x80 then [char_of n]
      else if n < 0x800 then [char_of (0xC0 + n div 64), char_of (0x80 + n mod 64)]
      else if n < 0x10000 then [char_of (0xE0 + n div 4096), char_of (0x80 + n div 64 mod 64), char_of (0x80 + n mod 64)]
      else [char_of (0xF0 + n div 262144), char_of (0x80 + n div 4096 mod 64), char_of (0x80 + n div 64 mod 64),
            char_of (0x80 + n mod 64)])"

lemma utf8_encode_ascii [simp]: "utf8_encode (of_char c) = [c]" if "(of_char c :: nat) < 0x80"
  using that by (simp add: utf8_encode_def)

end
