(* ===== verification/Config.thy ===== *)
theory Config
  imports Domain
begin

text \<open>
  \<open>internal/config\<close>: the configuration record and its loading from the environment variables.
  \<open>os.Getenv\<close> is the function \<open>getenv\<close>; \<open>strconv.ParseInt\<close> in base 10 is written out;
  \<open>strconv.ParseFloat\<close> and \<open>time.ParseDuration\<close> are arguments of \<open>Load\<close>, so what is proved of
  it holds whatever they accept.
\<close>

record Config =
  cfg_ListenAddr :: string
  cfg_DockerHost :: string
  cfg_DefaultCPU :: float64
  cfg_DefaultMemoryMB :: int64
  cfg_DefaultDiskMB :: int64
  cfg_IdleTimeout :: duration
  cfg_MaxLifetime :: duration
  cfg_DefaultNetworkPolicy :: string
  cfg_MaxFileUploadMB :: int64
  cfg_MaxSkillMB :: int64
  cfg_SkillsDir :: string
  cfg_APIKeys :: "string list"
  cfg_AllowedImages :: "string list"
  cfg_DBURL :: string
  cfg_MCPListenAddr :: string
  cfg_MCPRESTURL :: string

definition envOrDefaultStringSlice :: "(string \<Rightarrow> string) \<Rightarrow> string \<Rightarrow> string list \<Rightarrow> string list" where
  "envOrDefaultStringSlice getenv key fallback =
     (let v = getenv key in
      if v \<noteq> [] then
        let keys = filter (\<lambda>t. t \<noteq> []) (map strings_TrimSpace (split_on (CHR '','') v))
        in if length keys > 0 then keys else fallback
      else fallback)"

definition envOrDefault :: "(string \<Rightarrow> string) \<Rightarrow> string \<Rightarrow> string \<Rightarrow> string" where
  "envOrDefault getenv key fallback = (if getenv key \<noteq> [] then getenv key else fallback)"

definition envOrDefaultFloat ::
  "(string \<Rightarrow> string) \<Rightarrow> (string \<Rightarrow> float64 option) \<Rightarrow> string \<Rightarrow> float64 \<Rightarrow> float64" where
  "envOrDefaultFloat getenv ParseFloat key fallback =
     (if getenv key \<noteq> [] then (case ParseFloat (getenv key) of Some f \<Rightarrow> f | None \<Rightarrow> fallback) else fallback)"

text \<open>\<open>strconv.ParseInt(s, 10, 64)\<close>: a sign or none, at least one decimal digit and nothing else,
  in range.\<close>

definition is_decimal :: "char \<Rightarrow> bool" where
  "is_decimal c \<longleftrightarrow> 48 \<le> (of_char c :: nat) \<and> (of_char c :: nat) \<le> 57"

definition ParseInt :: "string \<Rightarrow> int64 option" where
  "ParseInt s =
     (let neg = (s \<noteq> [] \<and> hd s = CHR ''-'');
          ds = (if s \<noteq> [] \<and> (hd s = CHR ''-'' \<or> hd s = CHR ''+'') then tl s else s);
          n = foldl (\<lambda>n c. 10 * n + (of_char c - 48)) (0 :: nat) ds;
          v = (if neg then - int n else int n)
      in if ds = [] \<or> \<not> list_all is_decimal ds \<or> \<not> in_int64 v then None else Some v)"

definition envOrDefaultInt :: "(string \<Rightarrow> string) \<Rightarrow> string \<Rightarrow> int64 \<Rightarrow> int64" where
  "envOrDefaultInt getenv key fallback =
     (if getenv key \<noteq> [] then (case ParseInt (getenv key) of Some i \<Rightarrow> i | None \<Rightarrow> fallback) else fallback)"

definition envOrDefaultDuration ::
  "(string \<Rightarrow> string) \<Rightarrow> (string \<Rightarrow> duration option) \<Rightarrow> string \<Rightarrow> duration \<Rightarrow> duration" where
  "envOrDefaultDuration getenv ParseDuration key fallback =
     (if getenv key \<noteq> [] then (case ParseDuration (getenv key) of Some d \<Rightarrow> d | None \<Rightarrow> fallback) else fallback)"

definition Load ::
  "(string \<Rightarrow> string) \<Rightarrow> (string \<Rightarrow> float64 option) \<Rightarrow> (string \<Rightarrow> duration option) \<Rightarrow> Config" where
  "Load getenv ParseFloat ParseDuration = \<lparr>
     cfg_ListenAddr = envOrDefault getenv ''HAAS_LISTEN_ADDR'' '':8080'',
     cfg_DockerHost = envOrDefault getenv ''DOCKER_HOST'' [],
     cfg_DefaultCPU = envOrDefaultFloat getenv ParseFloat ''HAAS_DEFAULT_CPU'' (Fin 1),
     cfg_DefaultMemoryMB = envOrDefaultInt getenv ''HAAS_DEFAULT_MEMORY_MB'' 2048,
     cfg_DefaultDiskMB = envOrDefaultInt getenv ''HAAS_DEFAULT_DISK_MB'' 4096,
     cfg_IdleTimeout = envOrDefaultDuration getenv ParseDuration ''HAAS_IDLE_TIMEOUT'' (seconds 600),
     cfg_MaxLifetime = envOrDefaultDuration getenv ParseDuration ''HAAS_MAX_LIFETIME'' (seconds 3600),
     cfg_DefaultNetworkPolicy = envOrDefault getenv ''HAAS_DEFAULT_NETWORK_POLICY'' ''none'',
     cfg_MaxFileUploadMB = envOrDefaultInt getenv ''HAAS_MAX_FILE_UPLOAD_MB'' 100,
     cfg_MaxSkillMB = envOrDefaultInt getenv ''HAAS_MAX_SKILL_MB'' 50,
     cfg_SkillsDir = envOrDefault getenv ''HAAS_SKILLS_DIR'' ''/root/.claude/skills'',
     cfg_APIKeys = envOrDefaultStringSlice getenv ''HAAS_API_KEYS'' [],
     cfg_AllowedImages = envOrDefaultStringSlice getenv ''HAAS_ALLOWED_IMAGES'' [],
     cfg_DBURL = envOrDefault getenv ''HAAS_DB_URL'' [],
     cfg_MCPListenAddr = envOrDefault getenv ''HAAS_MCP_LISTEN_ADDR'' '':8091'',
     cfg_MCPRESTURL = envOrDefault getenv ''HAAS_MCP_REST_URL'' []\<rparr>"

section \<open>Lemmas\<close>

text \<open>No entry of a list variable is empty: an empty API key is never registered.\<close>

lemma slice_entries:
  assumes "\<forall>x \<in> set fallback. x \<noteq> []"
  shows "\<forall>x \<in> set (envOrDefaultStringSlice getenv key fallback). x \<noteq> []"
  using assms by (auto simp: envOrDefaultStringSlice_def Let_def)

lemma ParseInt_range: "ParseInt s = Some v \<Longrightarrow> in_int64 v"
  by (auto simp: ParseInt_def Let_def split: if_splits)

lemma envOrDefaultInt_range: "in_int64 fallback \<Longrightarrow> in_int64 (envOrDefaultInt getenv key fallback)"
  by (auto simp: envOrDefaultInt_def ParseInt_range split: option.splits)

end
