(* ===== verification/JSON_Text.thy ===== *)
theory JSON_Text
  imports UTF8 Config
begin

text \<open>
  JSON as the program's packages write and read it with \<open>encoding/json\<close>: values, the text the encoder
  writes for them (strings are repaired to UTF-8 and escaped, also for HTML), and the scanner, which
  accepts the grammar of JSON with at most 10000 levels.  What is scanned of a written text is the
  value with its strings repaired.
\<close>

section \<open>Values and their text\<close>

datatype json_value =
    JNull
  | JBool bool
  | JNum string
  | JStr string
  | JArr "json_value list"
  | JObj "(string \<times> json_value) list"

text \<open>A character below 0x80; the encoder escapes what HTML would interpret, too.\<close>

definition lower_hex :: "nat \<Rightarrow> char" where
  "lower_hex n = ''0123456789abcdef'' ! n"

definition escape_ascii :: "char \<Rightarrow> string" where
  "escape_ascii c =
     (if c = CHR 0x22 \<or> c = CHR 0x5C then [CHR 0x5C, c]
      else if c = CHR 0x08 then [CHR 0x5C, CHR ''b'']
      else if c = CHR 0x0C then [CHR 0x5C, CHR ''f'']
      else if c = CHR 0x0A then [CHR 0x5C, CHR ''n'']
      else if c = CHR 0x0D then [CHR 0x5C, CHR ''r'']
      else if c = CHR 0x09 then [CHR 0x5C, CHR ''t'']
      else if (of_char c :: nat) < 0x20 \<or> c = CHR ''<'' \<or> c = CHR ''>'' \<or> c = CHR ''&''
      then CHR 0x5C # ''u00'' @ [lower_hex (of_char c div 16), lower_hex (of_char c mod 16)]
      else [c])"

text \<open>An invalid byte and the two line separators of JavaScript are escaped by their code points.\<close>

function escape :: "string \<Rightarrow> string" where
  "escape [] = []"
| "escape (c # r) =
     (let w = utf8_width (c # r); ch = take w (c # r) in
      if w = 0 then CHR 0x5C # ''ufffd'' @ escape r
      else (if w = 1 then escape_ascii c
            else if ch = [CHR 0xE2, CHR 0x80, CHR 0xA8] then CHR 0x5C # ''u2028''
            else if ch = [CHR 0xE2, CHR 0x80, CHR 0xA9] then CHR 0x5C # ''u2029''
            else ch) @ escape (drop w (c # r)))"
  by pat_completeness auto
termination
  by (relation "measure length") auto

declare escape.simps(2) [simp del]

definition json_quote :: "string \<Rightarrow> string" where
  "json_quote s = CHR 0x22 # escape s @ [CHR 0x22]"

fun json_text :: "json_value \<Rightarrow> string" where
  "json_text JNull = ''null''"
| "json_text (JBool b) = (if b then ''true'' else ''false'')"
| "json_text (JNum n) = n"
| "json_text (JStr s) = json_quote s"
| "json_text (JArr vs) = CHR ''['' # strings_Join (map json_text vs) '','' @ '']''"
| "json_text (JObj ms) = CHR ''{'' # strings_Join (map (\<lambda>(k, v). json_quote k @ CHR '':'' # json_text v) ms) '','' @ ''}''"

section \<open>Scanning\<close>

text \<open>\<open>Cut\<close>: the text ended inside the value.\<close>

datatype 'a scan = Got 'a string | Cut | Bad

definition then_scan :: "'a scan \<Rightarrow> ('a \<Rightarrow> string \<Rightarrow> 'b scan) \<Rightarrow> 'b scan" where
  "then_scan m f = (case m of Got x r \<Rightarrow> f x r | Cut \<Rightarrow> Cut | Bad \<Rightarrow> Bad)"

lemma then_scan_simps [simp]:
  "then_scan (Got x r) f = f x r" "then_scan Cut f = Cut" "then_scan Bad f = Bad"
  by (simp_all add: then_scan_def)

lemma then_scan_Got: "then_scan m f = Got y r \<longleftrightarrow> (\<exists>x s. m = Got x s \<and> f x s = Got y r)"
  by (simp add: then_scan_def split: scan.split)

definition is_space :: "char \<Rightarrow> bool" where
  "is_space c \<longleftrightarrow> c = CHR '' '' \<or> c = CHR 0x09 \<or> c = CHR 0x0D \<or> c = CHR 0x0A"

definition skip_space :: "string \<Rightarrow> string" where
  "skip_space s = dropWhile is_space s"

text \<open>The next character that is not white space.\<close>

definition next_char :: "string \<Rightarrow> (char \<Rightarrow> string \<Rightarrow> 'b scan) \<Rightarrow> 'b scan" where
  "next_char s f = (case skip_space s of [] \<Rightarrow> Cut | c # r \<Rightarrow> f c r)"

fun scan_word :: "string \<Rightarrow> 'a \<Rightarrow> string \<Rightarrow> 'a scan" where
  "scan_word [] x s = Got x s"
| "scan_word (c # w) x [] = Cut"
| "scan_word (c # w) x (d # s) = (if d = c then scan_word w x s else Bad)"

subsection \<open>Strings\<close>

definition hex_value :: "char \<Rightarrow> nat option" where
  "hex_value c =
     (let n = of_char c :: nat in
      if 48 \<le> n \<and> n \<le> 57 then Some (n - 48)
      else if 97 \<le> n \<and> n \<le> 102 then Some (n - 87)
      else if 65 \<le> n \<and> n \<le> 70 then Some (n - 55) else None)"

fun scan_hex :: "nat \<Rightarrow> nat \<Rightarrow> string \<Rightarrow> nat scan" where
  "scan_hex 0 n s = Got n s"
| "scan_hex (Suc k) n [] = Cut"
| "scan_hex (Suc k) n (c # s) = (case hex_value c of None \<Rightarrow> Bad | Some d \<Rightarrow> scan_hex k (16 * n + d) s)"

text \<open>A surrogate counts with the low surrogate escaped right after it; alone it is replaced.\<close>

definition low_surrogate :: "string \<Rightarrow> (nat \<times> string) option" where
  "low_surrogate s =
     (case s of
        a # b # r \<Rightarrow>
          if a = CHR 0x5C \<and> b = CHR ''u''
          then (case scan_hex 4 0 r of Got m r' \<Rightarrow> if 0xDC00 \<le> m \<and> m < 0xE000 then Some (m, r') else None | _ \<Rightarrow> None)
          else None
      | _ \<Rightarrow> None)"

definition code_point :: "nat \<Rightarrow> string \<Rightarrow> string \<times> string" where
  "code_point n r =
     (if n < 0xD800 \<or> 0xE000 \<le> n then (utf8_encode n, r)
      else (case low_surrogate r of
              Some (m, r') \<Rightarrow> if n < 0xDC00 then (utf8_encode (0x10000 + (n - 0xD800) * 0x400 + (m - 0xDC00)), r') else (replacement, r)
            | None \<Rightarrow> (replacement, r)))"

definition escaped_char :: "char \<Rightarrow> char option" where
  "escaped_char c =
     map_of [(CHR 0x22, CHR 0x22), (CHR 0x5C, CHR 0x5C), (CHR ''/'', CHR ''/''), (CHR ''b'', CHR 0x08), (CHR ''f'', CHR 0x0C),
             (CHR ''n'', CHR 0x0A), (CHR ''r'', CHR 0x0D), (CHR ''t'', CHR 0x09)] c"

lemma scan_hex_length: "scan_hex k n s = Got m r \<Longrightarrow> length r \<le> length s"
  by (induction k n s rule: scan_hex.induct) (auto split: option.splits)

lemma low_surrogate_length: "low_surrogate s = Some (m, r) \<Longrightarrow> length r \<le> length s"
  by (auto simp: low_surrogate_def dest!: scan_hex_length split: list.splits if_splits scan.splits)

lemma code_point_length: "code_point n r = (ch, r') \<Longrightarrow> length r' \<le> length r"
  by (auto simp: code_point_def dest!: low_surrogate_length split: option.splits if_splits)

text \<open>The rest of a string after its opening quote.\<close>

function scan_string :: "string \<Rightarrow> string scan" where
  "scan_string [] = Cut"
| "scan_string (c # r) =
     (if c = CHR 0x22 then Got [] r
      else if c = CHR 0x5C then
        (case r of
           [] \<Rightarrow> Cut
         | e # r1 \<Rightarrow>
             if e = CHR ''u''
             then (case scan_hex 4 0 r1 of
                     Got n r2 \<Rightarrow>
                       (case code_point n r2 of (ch, r3) \<Rightarrow>
                          if length r3 < length (c # r) then then_scan (scan_string r3) (\<lambda>s. Got (ch @ s)) else Bad)
                   | Cut \<Rightarrow> Cut | Bad \<Rightarrow> Bad)
             else (case escaped_char e of None \<Rightarrow> Bad | Some d \<Rightarrow> then_scan (scan_string r1) (\<lambda>s. Got (d # s))))
      else if (of_char c :: nat) < 0x20 then Bad
      else let w = utf8_width (c # r) in
        if w = 0 then then_scan (scan_string r) (\<lambda>s. Got (replacement @ s))
        else then_scan (scan_string (drop w (c # r))) (\<lambda>s. Got (take w (c # r) @ s)))"
  by pat_completeness auto
termination
  by (relation "measure length") auto

declare scan_string.simps(2) [simp del]

text \<open>The guard in the equation above never bites; it shows that the recursion ends.\<close>

lemma scan_string_unicode:
  assumes "scan_hex 4 0 r = Got n r2" and "code_point n r2 = (ch, r3)"
  shows "scan_string (CHR 0x5C # CHR ''u'' # r) = then_scan (scan_string r3) (\<lambda>s. Got (ch @ s))"
  using assms scan_hex_length [OF assms(1)] code_point_length [OF assms(2)] by (simp add: scan_string.simps(2))

lemma scan_string_length: "scan_string s = Got x r \<Longrightarrow> length r < length s"
proof (induction s arbitrary: x r rule: scan_string.induct)
  case (2 c s)
  consider (end_quote) "c = CHR 0x22" | (esc) "c = CHR 0x5C" | (ctrl) "(of_char c :: nat) < 0x20" "c \<noteq> CHR 0x22" "c \<noteq> CHR 0x5C"
    | (plain) "c \<noteq> CHR 0x22" "c \<noteq> CHR 0x5C" "\<not> (of_char c :: nat) < 0x20" by blast
  then show ?case
  proof cases
    case end_quote
    with 2(5) show ?thesis by (simp add: scan_string.simps(2))
  next
    case esc
    with 2(5) obtain e r1 where s: "s = e # r1" by (cases s) (auto simp: scan_string.simps(2))
    show ?thesis
    proof (cases "e = CHR ''u''")
      case True
      with 2(5) esc s obtain n r2 where n: "scan_hex 4 0 r1 = Got n r2" by (auto simp: scan_string.simps(2) split: scan.splits)
      obtain ch r3 where ch: "code_point n r2 = (ch, r3)" by (cases "code_point n r2")
      have l: "length r3 < length (c # s)" using scan_hex_length [OF n] code_point_length [OF ch] s by simp
      obtain y where "scan_string r3 = Got y r"
        using 2(5) scan_string_unicode [OF n ch] by (auto simp: esc s True then_scan_Got)
      with 2(1) [OF _ esc s True n ch [symmetric] l] l show ?thesis by (force simp: esc)
    next
      case False
      with 2(5) esc s obtain d where d: "escaped_char e = Some d" by (auto simp: scan_string.simps(2) split: option.splits)
      with 2(5) esc s False obtain y where "scan_string r1 = Got y r" by (auto simp: scan_string.simps(2) then_scan_Got)
      with 2(2) [OF _ esc s False d] show ?thesis by (force simp: esc s)
    qed
  next
    case ctrl
    with 2(5) show ?thesis by (simp add: scan_string.simps(2))
  next
    case plain
    show ?thesis
    proof (cases "utf8_width (c # s) = 0")
      case True
      with 2(5) plain obtain y where "scan_string s = Got y r" by (auto simp: scan_string.simps(2) then_scan_Got)
      with 2(3) [OF plain refl True] show ?thesis by force
    next
      case False
      with 2(5) plain obtain y where "scan_string (drop (utf8_width (c # s)) (c # s)) = Got y r"
        by (auto simp: scan_string.simps(2) then_scan_Got Let_def)
      with 2(4) [OF plain refl False] show ?thesis by force
    qed
  qed
qed simp

subsection \<open>Numbers\<close>

definition digits_of :: "string \<Rightarrow> string scan" where
  "digits_of s =
     (case s of
        [] \<Rightarrow> Cut
      | c # r \<Rightarrow> if is_decimal c then Got (takeWhile is_decimal s) (dropWhile is_decimal s) else Bad)"

definition scan_integer :: "string \<Rightarrow> string scan" where
  "scan_integer s =
     (case s of
        [] \<Rightarrow> Cut
      | c # r \<Rightarrow> if c = CHR ''0'' then Got [c] r else digits_of s)"

definition scan_fraction :: "string \<Rightarrow> string scan" where
  "scan_fraction s =
     (case s of
        [] \<Rightarrow> Got [] []
      | c # r \<Rightarrow> if c = CHR ''.'' then then_scan (digits_of r) (\<lambda>ds. Got (c # ds)) else Got [] s)"

definition scan_exponent :: "string \<Rightarrow> string scan" where
  "scan_exponent s =
     (case s of
        [] \<Rightarrow> Got [] []
      | c # r \<Rightarrow>
          if c = CHR ''e'' \<or> c = CHR ''E'' then
            (case r of
               [] \<Rightarrow> Cut
             | d # r1 \<Rightarrow>
                 if d = CHR ''+'' \<or> d = CHR ''-'' then then_scan (digits_of r1) (\<lambda>ds. Got (c # d # ds))
                 else then_scan (digits_of r) (\<lambda>ds. Got (c # ds)))
          else Got [] s)"

definition scan_unsigned :: "string \<Rightarrow> string scan" where
  "scan_unsigned s =
     then_scan (scan_integer s) (\<lambda>a r1. then_scan (scan_fraction r1) (\<lambda>b r2. then_scan (scan_exponent r2) (\<lambda>c. Got (a @ b @ c))))"

definition scan_number :: "string \<Rightarrow> string scan" where
  "scan_number s =
     (case s of
        [] \<Rightarrow> Cut
      | c # r \<Rightarrow> if c = CHR ''-'' then then_scan (scan_unsigned r) (\<lambda>n. Got (c # n)) else scan_unsigned s)"

definition number_text :: "string \<Rightarrow> bool" where
  "number_text s \<longleftrightarrow> scan_number s = Got s []"

subsection \<open>Values\<close>

text \<open>\<open>d\<close> is how many levels may still be opened; the first argument bounds the recursion, and
  twice the length of the text is enough (lemma \<open>scan_enough\<close>).\<close>

definition maxNestingDepth :: nat where
  "maxNestingDepth = 10000"

fun scan_value :: "nat \<Rightarrow> nat \<Rightarrow> string \<Rightarrow> json_value scan"
and scan_elements :: "nat \<Rightarrow> nat \<Rightarrow> string \<Rightarrow> json_value list scan"
and scan_members :: "nat \<Rightarrow> nat \<Rightarrow> string \<Rightarrow> (string \<times> json_value) list scan" where
  "scan_value 0 d s = Bad"
| "scan_value (Suc k) d s =
     next_char s (\<lambda>c r.
       if c = CHR ''{'' then
         (if d = 0 then Bad
          else next_char r (\<lambda>e r1.
            if e = CHR ''}'' then Got (JObj []) r1 else then_scan (scan_members k (d - 1) r) (\<lambda>ms. Got (JObj ms))))
       else if c = CHR ''['' then
         (if d = 0 then Bad
          else next_char r (\<lambda>e r1.
            if e = CHR '']'' then Got (JArr []) r1 else then_scan (scan_elements k (d - 1) r) (\<lambda>vs. Got (JArr vs))))
       else if c = CHR 0x22 then then_scan (scan_string r) (\<lambda>x. Got (JStr x))
       else if c = CHR ''t'' then scan_word ''rue'' (JBool True) r
       else if c = CHR ''f'' then scan_word ''alse'' (JBool False) r
       else if c = CHR ''n'' then scan_word ''ull'' JNull r
       else if c = CHR ''-'' \<or> is_decimal c then then_scan (scan_number (c # r)) (\<lambda>n. Got (JNum n))
       else Bad)"
| "scan_elements 0 d s = Bad"
| "scan_elements (Suc k) d s =
     then_scan (scan_value k d s) (\<lambda>v r.
       next_char r (\<lambda>c r1.
         if c = CHR '','' then then_scan (scan_elements k d r1) (\<lambda>vs. Got (v # vs))
         else if c = CHR '']'' then Got [v] r1 else Bad))"
| "scan_members 0 d s = Bad"
| "scan_members (Suc k) d s =
     next_char s (\<lambda>q r0.
       if q \<noteq> CHR 0x22 then Bad
       else then_scan (scan_string r0) (\<lambda>key r1.
         next_char r1 (\<lambda>e r2.
           if e \<noteq> CHR '':'' then Bad
           else then_scan (scan_value k d r2) (\<lambda>v r3.
             next_char r3 (\<lambda>c r4.
               if c = CHR '','' then then_scan (scan_members k d r4) (\<lambda>ms. Got ((key, v) # ms))
               else if c = CHR ''}'' then Got [(key, v)] r4 else Bad)))))"

definition json_scan :: "string \<Rightarrow> json_value scan" where
  "json_scan s = scan_value (Suc (2 * length s)) maxNestingDepth s"

declare scan_value.simps [simp del] scan_elements.simps [simp del] scan_members.simps [simp del]

section \<open>The scanner ends\<close>

text \<open>What is left after a scan has at most \<open>n\<close> characters.\<close>

definition leaves :: "nat \<Rightarrow> 'a scan \<Rightarrow> bool" where
  "leaves n m \<longleftrightarrow> (\<forall>x r. m = Got x r \<longrightarrow> length r \<le> n)"

lemma leaves_basic [simp]: "leaves n Cut" "leaves n Bad" "leaves n (Got x r) \<longleftrightarrow> length r \<le> n"
  by (simp_all add: leaves_def)

lemma leaves_mono: "leaves n m \<Longrightarrow> n \<le> n' \<Longrightarrow> leaves n' m"
  by (force simp: leaves_def)

lemma leaves_then: "leaves n' m \<Longrightarrow> (\<And>x r. length r \<le> n' \<Longrightarrow> leaves n (f x r)) \<Longrightarrow> leaves n (then_scan m f)"
  by (cases m) (simp_all add: leaves_def)

lemma skip_space_Cons: "skip_space s = c # r \<Longrightarrow> length r < length s"
  using length_dropWhile_le [of is_space s] by (simp add: skip_space_def)

lemma leaves_next: "(\<And>c r. length r < length s \<Longrightarrow> leaves n (f c r)) \<Longrightarrow> leaves n (next_char s f)"
  by (auto simp: next_char_def skip_space_Cons split: list.split)

lemma leaves_if: "leaves n a \<Longrightarrow> leaves n b \<Longrightarrow> leaves n (if p then a else b)"
  by simp

lemma leaves_word: "leaves (length s) (scan_word w x s)"
  by (induction w x s rule: scan_word.induct) (auto intro: leaves_mono)

lemma leaves_string: "leaves (length s - 1) (scan_string s)"
  by (auto simp: leaves_def dest: scan_string_length)

lemma leaves_digits: "leaves (length s - 1) (digits_of s)"
  by (auto simp: digits_of_def length_dropWhile_le split: list.splits)

lemma leaves_fraction: "leaves (length s) (scan_fraction s)"
  by (auto simp: scan_fraction_def intro!: leaves_then leaves_digits split: list.splits)

lemma leaves_exponent: "leaves (length s) (scan_exponent s)"
  by (auto simp: scan_exponent_def intro!: leaves_then leaves_digits split: list.splits)

lemma leaves_unsigned: "leaves (length s - 1) (scan_unsigned s)"
  unfolding scan_unsigned_def
proof (rule leaves_then)
  show "leaves (length s - 1) (scan_integer s)"
    using leaves_digits [of s] by (auto simp: scan_integer_def split: list.splits)
  show "leaves (length s - 1) (then_scan (scan_fraction r) (\<lambda>b r2. then_scan (scan_exponent r2) (\<lambda>c. Got (x @ b @ c))))"
    if "length r \<le> length s - 1" for x r
    by (rule leaves_then [OF leaves_fraction], rule leaves_then [OF leaves_exponent]) (use that in simp)
qed

lemma leaves_number: "leaves (length s - 1) (scan_number s)"
  using leaves_unsigned [of s]
  by (auto simp: scan_number_def intro!: leaves_then leaves_unsigned split: list.splits)

lemma leaves_value:
  "leaves (length s - 1) (scan_value k d s)"
  "leaves (length s - 1) (scan_elements k d s)"
  "leaves (length s - 1) (scan_members k d s)"
proof (induction k arbitrary: d s)
  case (Suc k)
  {
    case 1
    show ?case
      unfolding scan_value.simps
      by (intro leaves_next leaves_if leaves_basic leaves_then [OF Suc.IH(2)] leaves_then [OF Suc.IH(3)]
          leaves_then [OF leaves_string] leaves_then [OF leaves_number] leaves_mono [OF leaves_word]) auto
  next
    case 2
    show ?case
      unfolding scan_elements.simps
      by (intro leaves_next leaves_if leaves_basic leaves_then [OF Suc.IH(1)] leaves_then [OF Suc.IH(2)]) auto
  next
    case 3
    show ?case
      unfolding scan_members.simps
      by (intro leaves_next leaves_if leaves_basic leaves_then [OF Suc.IH(1)] leaves_then [OF Suc.IH(3)]
          leaves_then [OF leaves_string]) auto
  }
qed (simp_all add: scan_value.simps scan_elements.simps scan_members.simps)

text \<open>More fuel than twice the length changes nothing.\<close>

lemma then_scan_cong:
  "m = m' \<Longrightarrow> leaves n m \<Longrightarrow> (\<And>x r. length r \<le> n \<Longrightarrow> f x r = g x r) \<Longrightarrow> then_scan m f = then_scan m' g"
  by (cases m) (auto simp: leaves_def)

lemma next_char_cong: "(\<And>c r. length r < length s \<Longrightarrow> f c r = g c r) \<Longrightarrow> next_char s f = next_char s g"
  by (auto simp: next_char_def skip_space_Cons split: list.split)

lemma scan_fuel:
  "2 * length s < k \<Longrightarrow> 2 * length s < k' \<Longrightarrow> scan_value k d s = scan_value k' d s"
  "Suc (2 * length s) < k \<Longrightarrow> Suc (2 * length s) < k' \<Longrightarrow> scan_elements k d s = scan_elements k' d s"
  "2 * length s < k \<Longrightarrow> 2 * length s < k' \<Longrightarrow> scan_members k d s = scan_members k' d s"
proof (induction k arbitrary: k' d s)
  case (Suc k)
  {
    case 1
    then obtain l where l: "k' = Suc l" by (cases k') auto
    show ?case
      unfolding l scan_value.simps
      by (intro next_char_cong if_cong refl then_scan_cong [OF _ leaves_value(2)] then_scan_cong [OF _ leaves_value(3)] Suc.IH)
        (use 1 l in auto)
  next
    case 2
    then obtain l where l: "k' = Suc l" by (cases k') auto
    show ?case
      unfolding l scan_elements.simps
      by (intro next_char_cong if_cong refl then_scan_cong [OF _ leaves_value(1)] then_scan_cong [OF _ leaves_value(2)] Suc.IH)
        (use 2 l in auto)
  next
    case 3
    then obtain l where l: "k' = Suc l" by (cases k') auto
    show ?case
      unfolding l scan_members.simps
      by (intro next_char_cong if_cong refl then_scan_cong [OF _ leaves_value(1)] then_scan_cong [OF _ leaves_value(3)]
          then_scan_cong [OF _ leaves_string] Suc.IH)
        (use 3 l in auto)
  }
qed simp_all

lemma scan_enough: "2 * length s < k \<Longrightarrow> scan_value k maxNestingDepth s = json_scan s"
  unfolding json_scan_def by (rule scan_fuel(1)) simp_all

section \<open>What is written is read back\<close>

lemma hex_value_lower: "n < 16 \<Longrightarrow> hex_value (lower_hex n) = Some n"
proof -
  have "list_all (\<lambda>n. hex_value (lower_hex n) = Some n) [0..<16]" by code_simp
  then show "n < 16 \<Longrightarrow> hex_value (lower_hex n) = Some n" by (simp add: list_all_iff)
qed

lemma scan_hex_four:
  assumes "hex_value a = Some i" and "hex_value b = Some j" and "hex_value c = Some k" and "hex_value d = Some l"
  shows "scan_hex 4 0 (a # b # c # d # t) = Got (16 * (16 * (16 * i + j) + k) + l) t"
proof -
  have four: "(4 :: nat) = Suc (Suc (Suc (Suc 0)))" by simp
  show ?thesis unfolding four by (simp add: assms)
qed

lemma scan_hex_const:
  "scan_hex 4 0 (''fffd'' @ t) = Got 0xFFFD t" "scan_hex 4 0 (''2028'' @ t) = Got 0x2028 t" "scan_hex 4 0 (''2029'' @ t) = Got 0x2029 t"
  using scan_hex_four [of "CHR ''f''" 15 "CHR ''f''" 15 "CHR ''f''" 15 "CHR ''d''" 13 t]
    scan_hex_four [of "CHR ''2''" 2 "CHR ''0''" 0 "CHR ''2''" 2 "CHR ''8''" 8 t]
    scan_hex_four [of "CHR ''2''" 2 "CHR ''0''" 0 "CHR ''2''" 2 "CHR ''9''" 9 t]
  by (simp_all add: hex_value_def)

lemma utf8_encode_const:
  "utf8_encode 0xFFFD = replacement" "utf8_encode 0x2028 = [CHR 0xE2, CHR 0x80, CHR 0xA8]" "utf8_encode 0x2029 = [CHR 0xE2, CHR 0x80, CHR 0xA9]"
  by (simp_all add: utf8_encode_def replacement_def char_of_def bit_Suc_0_iff)

lemma scan_plain:
  assumes "c \<noteq> CHR 0x22" and "c \<noteq> CHR 0x5C" and "\<not> (of_char c :: nat) < 0x20" and "0 < utf8_width (c # r)"
  shows "scan_string (take (utf8_width (c # r)) (c # r) @ t) =
    then_scan (scan_string t) (\<lambda>s. Got (take (utf8_width (c # r)) (c # r) @ s))"
proof -
  let ?w = "utf8_width (c # r)" and ?ch = "take (utf8_width (c # r)) (c # r)"
  obtain r' where ch: "?ch @ t = c # r'" using assms(4) by (cases ?w) simp_all
  have w: "utf8_width (?ch @ t) = ?w" by (rule utf8_width_take [OF assms(4)])
  have l: "length ?ch = ?w" using utf8_width_le [of "c # r"] by simp
  have "scan_string (?ch @ t) = then_scan (scan_string (drop ?w (?ch @ t))) (\<lambda>s. Got (take ?w (?ch @ t) @ s))"
    using assms(1-4) w unfolding ch by (simp add: scan_string.simps(2) Let_def)
  also have "drop ?w (?ch @ t) = t" by (metis append_eq_conv_conj l)
  also have "take ?w (?ch @ t) = ?ch" by (metis append_eq_conv_conj l)
  finally show ?thesis .
qed

lemma scan_escape_ascii:
  assumes "(of_char c :: nat) < 0x80"
  shows "scan_string (escape_ascii c @ t) = then_scan (scan_string t) (\<lambda>s. Got (c # s))"
proof (cases "(of_char c :: nat) < 0x20 \<or> c \<in> set ''<>&''")
  case True
  show ?thesis
  proof (cases "c \<in> {CHR 0x08, CHR 0x0C, CHR 0x0A, CHR 0x0D, CHR 0x09}")
    case True
    then show ?thesis by (auto simp: escape_ascii_def scan_string.simps(2) escaped_char_def)
  next
    case False
    let ?n = "of_char c :: nat"
    have e: "escape_ascii c = CHR 0x5C # CHR ''u'' # [CHR ''0'', CHR ''0'', lower_hex (?n div 16), lower_hex (?n mod 16)]"
    proof -
      have "c \<noteq> CHR 0x22" "c \<noteq> CHR 0x5C" using True by auto
      moreover have "(of_char c :: nat) < 0x20 \<or> c = CHR ''<'' \<or> c = CHR ''>'' \<or> c = CHR ''&''" using True by simp
      ultimately show ?thesis using False unfolding escape_ascii_def by (simp only: if_True if_False simp_thms insert_iff empty_iff append.simps de_Morgan_disj)
    qed
    have "scan_hex 4 0 ([CHR ''0'', CHR ''0'', lower_hex (?n div 16), lower_hex (?n mod 16)] @ t) = Got (16 * (?n div 16) + ?n mod 16) t"
      using scan_hex_four [of "CHR ''0''" 0 "CHR ''0''" 0 "lower_hex (?n div 16)" "?n div 16" "lower_hex (?n mod 16)" "?n mod 16" t] assms
      by (simp add: hex_value_lower) (simp add: hex_value_def)
    then have "scan_hex 4 0 (CHR ''0'' # CHR ''0'' # lower_hex (?n div 16) # lower_hex (?n mod 16) # t) = Got ?n t" by simp
    moreover have "code_point ?n t = ([c], t)" using assms by (simp add: code_point_def)
    ultimately show ?thesis unfolding e by (simp add: scan_string_unicode)
  qed
next
  case False
  show ?thesis
  proof (cases "c = CHR 0x22 \<or> c = CHR 0x5C")
    case True
    then show ?thesis by (auto simp: escape_ascii_def scan_string.simps(2) escaped_char_def)
  next
    case f: False
    have e: "escape_ascii c = [c]"
    proof -
      have "c \<noteq> CHR 0x08" "c \<noteq> CHR 0x0C" "c \<noteq> CHR 0x0A" "c \<noteq> CHR 0x0D" "c \<noteq> CHR 0x09" using False by auto
      moreover have "\<not> ((of_char c :: nat) < 0x20 \<or> c = CHR ''<'' \<or> c = CHR ''>'' \<or> c = CHR ''&'')" using False by simp
      ultimately show ?thesis using f unfolding escape_ascii_def by (simp only: if_False simp_thms)
    qed
    have w: "utf8_width [c] = 1" using assms by simp
    have "scan_string (take (utf8_width [c]) [c] @ t) = then_scan (scan_string t) (\<lambda>s. Got (take (utf8_width [c]) [c] @ s))"
      by (rule scan_plain) (use f False w in simp_all)
    then show ?thesis by (simp add: e w)
  qed
qed

lemma scan_escape: "scan_string (escape s @ t) = then_scan (scan_string t) (\<lambda>x. Got (to_valid s @ x))"
proof (induction s rule: escape.induct)
  case 1
  show ?case by (cases "scan_string t") simp_all
next
  case (2 c r)
  let ?w = "utf8_width (c # r)" and ?ch = "take (utf8_width (c # r)) (c # r)"
  have u: "scan_string (CHR 0x5C # CHR ''u'' # h @ t') = then_scan (scan_string t') (\<lambda>s. Got (ch @ s))"
    if "scan_hex 4 0 (h @ t') = Got n t'" "code_point n t' = (ch, t')" for h n ch t'
    using that by (rule scan_string_unicode)
  have a: "then_scan (then_scan m (\<lambda>x. Got (a @ x))) (\<lambda>x. Got (b @ x)) = then_scan m (\<lambda>x. Got ((b @ a) @ x))" for a b :: string and m
    by (cases m) simp_all
  show ?case
  proof (cases "?w = 0")
    case True
    have "scan_string (escape (c # r) @ t) = then_scan (scan_string (escape r @ t)) (\<lambda>s. Got (replacement @ s))"
      using True u [OF scan_hex_const(1), of "escape r @ t" replacement]
      by (simp add: escape.simps(2) code_point_def utf8_encode_const)
    then show ?thesis using 2(1) [OF refl refl True] True by (simp add: to_valid_step(1) a)
  next
    case False
    then have v: "to_valid (c # r) = ?ch @ to_valid (drop ?w (c # r))" by (simp add: to_valid_step(2))
    note ih = 2(2) [OF refl refl False]
    let ?e = "if ?w = 1 then escape_ascii c
            else if ?ch = [CHR 0xE2, CHR 0x80, CHR 0xA8] then CHR 0x5C # ''u2028''
            else if ?ch = [CHR 0xE2, CHR 0x80, CHR 0xA9] then CHR 0x5C # ''u2029'' else ?ch"
    have "scan_string (?e @ t') = then_scan (scan_string t') (\<lambda>s. Got (?ch @ s))" for t'
    proof (cases "?w = 1")
      case True
      then show ?thesis using scan_escape_ascii [of c t'] utf8_width_one [of c r] by simp
    next
      case f: False
      have c: "\<not> (of_char c :: nat) < 0x80" using f utf8_width_one [of c r] by simp
      then have "c \<noteq> CHR 0x22" "c \<noteq> CHR 0x5C" by auto
      with c have p: "scan_string (?ch @ t') = then_scan (scan_string t') (\<lambda>s. Got (?ch @ s))"
        using False by (intro scan_plain) simp_all
      show ?thesis
        using f p u [OF scan_hex_const(2), of t' "[CHR 0xE2, CHR 0x80, CHR 0xA8]"]
          u [OF scan_hex_const(3), of t' "[CHR 0xE2, CHR 0x80, CHR 0xA9]"]
        by (auto simp: code_point_def utf8_encode_const)
    qed
    moreover have "escape (c # r) = ?e @ escape (drop ?w (c # r))" using False by (simp add: escape.simps(2) Let_def)
    ultimately have "scan_string (escape (c # r) @ t) = then_scan (scan_string (escape (drop ?w (c # r)) @ t)) (\<lambda>s. Got (?ch @ s))"
      by (metis append.assoc)
    then show ?thesis using ih v by (simp only: a)
  qed
qed

lemma scan_quote: "scan_string (escape s @ CHR 0x22 # t) = Got (to_valid s) t"
  by (simp add: scan_escape) (simp add: scan_string.simps(2))

subsection \<open>Numbers\<close>

definition ends_number :: "string \<Rightarrow> bool" where
  "ends_number t \<longleftrightarrow> (case t of [] \<Rightarrow> True | c # _ \<Rightarrow> \<not> is_decimal c \<and> c \<noteq> CHR ''.'' \<and> c \<noteq> CHR ''e'' \<and> c \<noteq> CHR ''E'')"

lemma digits_append:
  assumes "digits_of s = Got x r" and "ends_number t"
  shows "digits_of (s @ t) = Got x (r @ t)"
proof -
  obtain c s' where s: "s = c # s'" "is_decimal c" "x = takeWhile is_decimal s" "r = dropWhile is_decimal s"
    using assms(1) by (auto simp: digits_of_def split: list.splits if_splits)
  have t: "takeWhile is_decimal t = []" "dropWhile is_decimal t = t"
    using assms(2) by (auto simp: ends_number_def split: list.splits)
  have "takeWhile is_decimal (s @ t) = x \<and> dropWhile is_decimal (s @ t) = r @ t"
  proof (cases "\<forall>a \<in> set s. is_decimal a")
    case True
    have "takeWhile is_decimal s = s" "dropWhile is_decimal s = []"
      using True by (simp_all only: takeWhile_eq_all_conv dropWhile_eq_Nil_conv)
    with True s(3,4) t show ?thesis by (simp only: takeWhile_append2 dropWhile_append2 append_Nil append_Nil2)
  next
    case False
    then show ?thesis using s(3,4) by (auto simp: takeWhile_append1 dropWhile_append1)
  qed
  then show ?thesis using s(1,2) by (simp add: digits_of_def)
qed

lemma fraction_append: "scan_fraction s = Got x r \<Longrightarrow> ends_number t \<Longrightarrow> scan_fraction (s @ t) = Got x (r @ t)"
  by (auto simp: scan_fraction_def then_scan_Got digits_append split: list.splits if_splits)
    (auto simp: ends_number_def)

lemma exponent_append: "scan_exponent s = Got x r \<Longrightarrow> ends_number t \<Longrightarrow> scan_exponent (s @ t) = Got x (r @ t)"
  by (auto simp: scan_exponent_def then_scan_Got digits_append dest: digits_append [of "_ # _"] split: list.splits if_splits)
    (auto simp: ends_number_def)

lemma unsigned_append: "scan_unsigned s = Got x r \<Longrightarrow> ends_number t \<Longrightarrow> scan_unsigned (s @ t) = Got x (r @ t)"
proof -
  have "scan_integer s = Got y q \<Longrightarrow> ends_number t \<Longrightarrow> scan_integer (s @ t) = Got y (q @ t)" for y q
    using digits_append [of s y q t] by (auto simp: scan_integer_def split: list.splits if_splits)
  then show "scan_unsigned s = Got x r \<Longrightarrow> ends_number t \<Longrightarrow> scan_unsigned (s @ t) = Got x (r @ t)"
    by (fastforce simp: scan_unsigned_def then_scan_Got fraction_append exponent_append)
qed

lemma scan_number_append: "number_text n \<Longrightarrow> ends_number t \<Longrightarrow> scan_number (n @ t) = Got n t"
  using unsigned_append [of "tl n" "tl n" "[]" t] unsigned_append [of n n "[]" t]
  by (auto simp: number_text_def scan_number_def then_scan_Got split: list.splits if_splits)

lemma number_text_first: "number_text n \<Longrightarrow> \<exists>c r. n = c # r \<and> (c = CHR ''-'' \<or> is_decimal c)"
  by (auto simp: number_text_def scan_number_def scan_unsigned_def scan_integer_def digits_of_def then_scan_Got is_decimal_def
      split: list.splits if_splits)

subsection \<open>Values\<close>

text \<open>What a value becomes: every string, keys included, is repaired.\<close>

fun repaired :: "json_value \<Rightarrow> json_value" where
  "repaired (JStr s) = JStr (to_valid s)"
| "repaired (JArr vs) = JArr (map repaired vs)"
| "repaired (JObj ms) = JObj (map (\<lambda>(k, v). (to_valid k, repaired v)) ms)"
| "repaired v = v"

text \<open>What the encoder produces: its numbers are numbers of JSON, and at most \<open>d\<close> levels.\<close>

fun encodable :: "nat \<Rightarrow> json_value \<Rightarrow> bool" where
  "encodable d (JNum n) = number_text n"
| "encodable d (JArr vs) = (d \<noteq> 0 \<and> (\<forall>v \<in> set vs. encodable (d - 1) v))"
| "encodable d (JObj ms) = (d \<noteq> 0 \<and> (\<forall>v \<in> snd ` set ms. encodable (d - 1) v))"
| "encodable d v = True"

lemma json_text_first:
  "encodable d v \<Longrightarrow> \<exists>c r. json_text v = c # r \<and> \<not> is_space c \<and> c \<noteq> CHR '']''"
  by (cases v) (auto simp: json_quote_def is_space_def is_decimal_def dest!: number_text_first)

lemma next_char_Cons: "\<not> is_space c \<Longrightarrow> next_char (c # r) f = f c r"
  by (simp add: next_char_def skip_space_def)

lemma bracket_not_space [simp]:
  "\<not> is_space (CHR '','')" "\<not> is_space (CHR '':'')" "\<not> is_space (CHR ''['')" "\<not> is_space (CHR '']'')" "\<not> is_space (CHR ''{'')"
  "\<not> is_space (CHR ''}'')" "\<not> is_space (CHR 0x22)" "\<not> is_space (CHR ''t'')" "\<not> is_space (CHR ''f'')" "\<not> is_space (CHR ''n'')"
  by (simp_all add: is_space_def)

lemma ends_number_simps [simp]:
  "ends_number []" "ends_number (CHR '','' # t)" "ends_number (CHR '']'' # t)" "ends_number (CHR ''}'' # t)" "ends_number (CHR 0x0A # t)"
  by (simp_all add: ends_number_def is_decimal_def)

lemma scan_elements_text:
  assumes "\<And>v k t. v \<in> set vs \<Longrightarrow> ends_number t \<Longrightarrow> 2 * length (json_text v @ t) < k \<Longrightarrow>
      scan_value k d (json_text v @ t) = Got (repaired v) t"
    and "vs \<noteq> []" and "Suc (2 * length (strings_Join (map json_text vs) '','' @ CHR '']'' # t)) < k"
  shows "scan_elements k d (strings_Join (map json_text vs) '','' @ CHR '']'' # t) = Got (map repaired vs) t"
  using assms
proof (induction vs arbitrary: k)
  case (Cons v vs)
  obtain l where k: "k = Suc l" using Cons.prems(3) by (cases k) auto
  show ?case
  proof (cases vs)
    case Nil
    have "scan_value l d (json_text v @ CHR '']'' # t) = Got (repaired v) (CHR '']'' # t)"
      using Cons.prems(3) k Nil by (intro Cons.prems(1)) simp_all
    then show ?thesis by (simp add: k Nil scan_elements.simps next_char_Cons)
  next
    case (Cons w ws)
    let ?r = "strings_Join (map json_text vs) '','' @ CHR '']'' # t"
    have j: "strings_Join (map json_text (v # vs)) '','' @ CHR '']'' # t = json_text v @ CHR '','' # ?r"
      using Cons by (simp add: strings_Join_Cons)
    have f: "2 * length (json_text v @ CHR '','' # ?r) < l" using \<open>Suc (2 * _) < k\<close> unfolding j k by simp
    have "scan_value l d (json_text v @ CHR '','' # ?r) = Got (repaired v) (CHR '','' # ?r)"
      using f by (intro Cons.prems(1)) simp_all
    moreover have "scan_elements l d ?r = Got (map repaired vs) t"
      using f Cons by (intro Cons.IH Cons.prems(1)) simp_all
    ultimately show ?thesis unfolding j k by (simp add: scan_elements.simps next_char_Cons)
  qed
qed simp

definition member_text :: "string \<times> json_value \<Rightarrow> string" where
  "member_text m = json_quote (fst m) @ CHR '':'' # json_text (snd m)"

lemma json_text_obj: "json_text (JObj ms) = CHR ''{'' # strings_Join (map member_text ms) '','' @ ''}''"
  by (simp add: member_text_def [abs_def] case_prod_beta')

lemma scan_members_text:
  assumes "\<And>v k t. v \<in> snd ` set ms \<Longrightarrow> ends_number t \<Longrightarrow> 2 * length (json_text v @ t) < k \<Longrightarrow>
      scan_value k d (json_text v @ t) = Got (repaired v) t"
    and "ms \<noteq> []" and "2 * length (strings_Join (map member_text ms) '','' @ CHR ''}'' # t) < k"
  shows "scan_members k d (strings_Join (map member_text ms) '','' @ CHR ''}'' # t) =
    Got (map (\<lambda>(k, v). (to_valid k, repaired v)) ms) t"
  using assms
proof (induction ms arbitrary: k)
  case (Cons m ms)
  obtain key v where m: "m = (key, v)" by (cases m)
  obtain l where k: "k = Suc l" using Cons.prems(3) by (cases k) auto
  have step: "scan_members k d (member_text m @ c # r) = next_char (c # r) (\<lambda>c r4.
      if c = CHR '','' then then_scan (scan_members l d r4) (\<lambda>ms. Got ((to_valid key, repaired v) # ms))
      else if c = CHR ''}'' then Got [(to_valid key, repaired v)] r4 else Bad)"
    if "ends_number (c # r)" "2 * length (member_text m @ c # r) < k" for c r
  proof -
    have "scan_value l d (json_text v @ c # r) = Got (repaired v) (c # r)"
      using that(2) unfolding k m member_text_def by (intro Cons.prems(1) that(1)) (simp_all add: m)
    then show ?thesis
      unfolding k m member_text_def
      by (simp add: scan_members.simps next_char_Cons json_quote_def scan_quote)
  qed
  show ?case
  proof (cases ms)
    case Nil
    then show ?thesis using step [of "CHR ''}''" t] Cons.prems(3) by (simp add: next_char_Cons m)
  next
    case (Cons w ws)
    let ?r = "strings_Join (map member_text ms) '','' @ CHR ''}'' # t"
    have j: "strings_Join (map member_text (m # ms)) '','' @ CHR ''}'' # t = member_text m @ CHR '','' # ?r"
      using Cons by (simp add: strings_Join_Cons)
    have f: "2 * length (member_text m @ CHR '','' # ?r) < k" using Cons.prems(3) unfolding j .
    have "scan_members l d ?r = Got (map (\<lambda>(k, v). (to_valid k, repaired v)) ms) t"
      using f k Cons by (intro Cons.IH Cons.prems(1)) simp_all
    then show ?thesis unfolding j using step [OF _ f] by (simp add: next_char_Cons m)
  qed
qed simp

lemma strings_Join_first: "xs \<noteq> [] \<Longrightarrow> hd xs \<noteq> [] \<Longrightarrow> \<exists>r. strings_Join xs sep = hd (hd xs) # r"
  by (cases xs; cases "tl xs"; cases "hd xs") (auto simp: strings_Join_Cons)

theorem scan_text:
  "encodable d v \<Longrightarrow> ends_number t \<Longrightarrow> 2 * length (json_text v @ t) < k \<Longrightarrow>
    scan_value k d (json_text v @ t) = Got (repaired v) t"
proof (induction v arbitrary: d t k)
  case JNull
  then show ?case by (cases k) (simp_all add: scan_value.simps next_char_Cons)
next
  case (JBool b)
  then show ?case by (cases k) (simp_all add: scan_value.simps next_char_Cons)
next
  case (JNum n)
  obtain c r where n: "n = c # r" "c = CHR ''-'' \<or> is_decimal c" using number_text_first [of n] JNum.prems(1) by auto
  then have "\<not> is_space c" "c \<notin> {CHR ''{'', CHR ''['', CHR 0x22, CHR ''t'', CHR ''f'', CHR ''n''}"
    by (auto simp: is_space_def is_decimal_def)
  then show ?case
    using JNum.prems n scan_number_append [of n t] by (cases k) (simp_all add: scan_value.simps next_char_Cons)
next
  case (JStr s)
  then show ?case by (cases k) (simp_all add: scan_value.simps next_char_Cons json_quote_def scan_quote)
next
  case (JArr vs)
  obtain l where k: "k = Suc l" using JArr.prems(3) by (cases k) auto
  have d: "d \<noteq> 0" and e: "encodable (d - 1) v" if "v \<in> set vs" for v using JArr.prems(1) that by simp_all
  show ?case
  proof (cases "vs = []")
    case True
    then show ?thesis using JArr.prems(1) by (simp add: k scan_value.simps next_char_Cons)
  next
    case False
    let ?r = "strings_Join (map json_text vs) '','' @ CHR '']'' # t"
    have "scan_elements l (d - 1) ?r = Got (map repaired vs) t"
      using JArr.prems(3) k by (intro scan_elements_text JArr.IH e False) simp_all
    moreover obtain c r where "json_text (hd vs) = c # r" "\<not> is_space c" "c \<noteq> CHR '']''"
      using json_text_first [OF e [OF hd_in_set [OF False]]] by blast
    moreover from this obtain r' where "?r = c # r'"
      using strings_Join_first [of "map json_text vs" "'',''"] False by (auto simp: hd_map)
    ultimately show ?thesis using JArr.prems(1) by (simp add: k scan_value.simps next_char_Cons)
  qed
next
  case (JObj ms)
  obtain l where k: "k = Suc l" using JObj.prems(3) by (cases k) auto
  have e: "encodable (d - 1) v" if "v \<in> snd ` set ms" for v using JObj.prems(1) that by (auto simp del: image_iff)
  show ?case
  proof (cases "ms = []")
    case True
    then show ?thesis using JObj.prems(1) by (simp add: k scan_value.simps next_char_Cons)
  next
    case False
    let ?r = "strings_Join (map member_text ms) '','' @ CHR ''}'' # t"
    have "scan_members l (d - 1) ?r = Got (map (\<lambda>(k, v). (to_valid k, repaired v)) ms) t"
      using JObj.prems(3) k e unfolding json_text_obj
      by (intro scan_members_text False) (auto intro!: JObj.IH)
    moreover obtain r' where "?r = CHR 0x22 # r'"
      using strings_Join_first [of "map member_text ms" "'',''"] False
      by (auto simp: hd_map member_text_def json_quote_def)
    ultimately show ?thesis using JObj.prems(1) unfolding json_text_obj by (simp add: k scan_value.simps next_char_Cons)
  qed
qed

corollary json_scan_text: "encodable maxNestingDepth v \<Longrightarrow> ends_number t \<Longrightarrow> json_scan (json_text v @ t) = Got (repaired v) t"
  unfolding json_scan_def by (rule scan_text) simp_all

end
