(* ===== verification/JSON_Codec.thy ===== *)
theory JSON_Codec
  imports JSON_Text HTTP "HOL-Library.List_Lexorder" "HOL-Library.Char_ord"
begin

text \<open>
  What \<open>encoding/json\<close> does with Go values: structs are written field by field under the names of
  their tags, without the empty fields that are tagged \<open>omitempty\<close>; decoding changes a value in place,
  ignores null, matches names also without regard to case and reports the first error after it has
  decoded what it could.  How floats and times are written is the argument \<open>conv\<close>.
\<close>

section \<open>Decoding into Go values\<close>

text \<open>A decoder changes a value that may already hold something; an error is remembered, and the rest
  is decoded all the same.\<close>

type_synonym 'a into = "json_value \<Rightarrow> 'a \<Rightarrow> 'a \<times> goerr option"

definition type_error :: goerr where
  "type_error = Opaque ''json: cannot unmarshal''"

definition first_error :: "goerr option \<Rightarrow> goerr option \<Rightarrow> goerr option" where
  "first_error a b = (case a of None \<Rightarrow> b | Some _ \<Rightarrow> a)"

fun string_into :: "string into" where
  "string_into JNull x = (x, None)"
| "string_into (JStr s) x = (s, None)"
| "string_into _ x = (x, Some type_error)"

fun bool_into :: "bool into" where
  "bool_into JNull x = (x, None)"
| "bool_into (JBool b) x = (b, None)"
| "bool_into _ x = (x, Some type_error)"

fun int64_into :: "int64 into" where
  "int64_into JNull x = (x, None)"
| "int64_into (JNum n) x = (case ParseInt n of Some i \<Rightarrow> (i, None) | None \<Rightarrow> (x, Some type_error))"
| "int64_into _ x = (x, Some type_error)"

text \<open>How \<open>encoding/json\<close> writes a float and a time and reads them again: the formats of \<open>strconv\<close> and
  RFC 3339.\<close>

record conv =
  cv_FormatFloat :: "float64 \<Rightarrow> goerr + string"
  cv_ParseFloat :: "string \<Rightarrow> float64 option"
  cv_FormatTime :: "time \<Rightarrow> goerr + string"
  cv_ParseTime :: "string \<Rightarrow> goerr + time"

fun float_into :: "conv \<Rightarrow> float64 into" where
  "float_into C JNull x = (x, None)"
| "float_into C (JNum n) x = (case cv_ParseFloat C n of Some f \<Rightarrow> (f, None) | None \<Rightarrow> (x, Some type_error))"
| "float_into C _ x = (x, Some type_error)"

fun time_into :: "conv \<Rightarrow> time into" where
  "time_into C JNull x = (x, None)"
| "time_into C (JStr s) x = (case cv_ParseTime C s of Inr t \<Rightarrow> (t, None) | Inl e \<Rightarrow> (x, Some e))"
| "time_into C _ x = (x, Some (Opaque ''Time.UnmarshalJSON: input is not a JSON string''))"

text \<open>A slice is decoded over its old elements, new ones start as \<open>zero\<close>.\<close>

fun elements_into :: "'a into \<Rightarrow> 'a \<Rightarrow> json_value list \<Rightarrow> 'a list \<Rightarrow> 'a list \<times> goerr option" where
  "elements_into f zero [] old = ([], None)"
| "elements_into f zero (v # vs) old =
     (case f v (case old of [] \<Rightarrow> zero | x # _ \<Rightarrow> x) of
        (x, e) \<Rightarrow> (case elements_into f zero vs (tl old) of (xs, e') \<Rightarrow> (x # xs, first_error e e')))"

fun list_into :: "'a into \<Rightarrow> 'a \<Rightarrow> 'a list into" where
  "list_into f zero JNull xs = ([], None)"
| "list_into f zero (JArr vs) xs = elements_into f zero vs xs"
| "list_into f zero _ xs = (xs, Some type_error)"

text \<open>A map is decoded into the old one; every element starts empty.\<close>

fun entries_into :: "(string \<times> json_value) list \<Rightarrow> (string \<times> string) list \<Rightarrow> (string \<times> string) list \<times> goerr option" where
  "entries_into [] m = (m, None)"
| "entries_into ((k, v) # ms) m =
     (case string_into v [] of
        (x, e) \<Rightarrow> (case entries_into ms (AList.update k x m) of (m', e') \<Rightarrow> (m', first_error e e')))"

fun map_into :: "string_map into" where
  "map_into JNull m = (None, None)"
| "map_into (JObj ms) m = (case entries_into ms (case m of None \<Rightarrow> [] | Some xs \<Rightarrow> xs) of (xs, e) \<Rightarrow> (Some xs, e))"
| "map_into _ m = (m, Some type_error)"

subsection \<open>Structs\<close>

text \<open>A key names the field with exactly this name, or else one that differs in case only: besides the
  ASCII letters, two other characters fold to letters of the names, the Kelvin sign and the long s.\<close>

definition to_upper :: "char \<Rightarrow> char" where
  "to_upper c = (let n = of_char c :: nat in if 97 \<le> n \<and> n \<le> 122 then char_of (n - 32) else c)"

function fold_name :: "string \<Rightarrow> string" where
  "fold_name [] = []"
| "fold_name (c # r) =
     (if prefix [CHR 0xE2, CHR 0x84, CHR 0xAA] (c # r) then CHR ''K'' # fold_name (drop 2 r)
      else if prefix [CHR 0xC5, CHR 0xBF] (c # r) then CHR ''S'' # fold_name (drop 1 r)
      else to_upper c # fold_name r)"
  by pat_completeness auto
termination
  by (relation "measure length") auto

type_synonym 'a fields = "(string \<times> 'a into) list"

definition find_field :: "'a fields \<Rightarrow> string \<Rightarrow> 'a into option" where
  "find_field fs key =
     (case map_of fs key of
        Some f \<Rightarrow> Some f
      | None \<Rightarrow> map_of (map (\<lambda>(k, f). (fold_name k, f)) fs) (fold_name key))"

text \<open>\<open>strict\<close> is \<open>DisallowUnknownFields\<close>.\<close>

fun members_into :: "bool \<Rightarrow> 'a fields \<Rightarrow> (string \<times> json_value) list \<Rightarrow> 'a \<times> goerr option \<Rightarrow> 'a \<times> goerr option" where
  "members_into strict fs [] s = s"
| "members_into strict fs ((k, v) # ms) (x, e) =
     (case find_field fs k of
        None \<Rightarrow> members_into strict fs ms (x, if strict then first_error e (Some (Quoted ''json: unknown field'' k)) else e)
      | Some f \<Rightarrow> (case f v x of (y, e') \<Rightarrow> members_into strict fs ms (y, first_error e e')))"

fun struct_into :: "bool \<Rightarrow> 'a fields \<Rightarrow> 'a into" where
  "struct_into strict fs JNull x = (x, None)"
| "struct_into strict fs (JObj ms) x = members_into strict fs ms (x, None)"
| "struct_into strict fs _ x = (x, Some type_error)"

text \<open>A field is decoded where it is.\<close>

definition field_into :: "('a \<Rightarrow> 'b) \<Rightarrow> ('b \<Rightarrow> 'a \<Rightarrow> 'a) \<Rightarrow> 'b into \<Rightarrow> 'a into" where
  "field_into get put f v x = (case f v (get x) of (y, e) \<Rightarrow> (put y x, e))"

section \<open>Encoding Go values\<close>

text \<open>A field is its name, whether it is written (\<open>omitempty\<close> leaves out empty values) and its encoding;
  the first that cannot be encoded is the error of the whole.\<close>

type_synonym encoding = "goerr + json_value"

fun encode_members :: "(string \<times> bool \<times> encoding) list \<Rightarrow> goerr + (string \<times> json_value) list" where
  "encode_members [] = Inr []"
| "encode_members ((k, written, v) # fs) =
     (if written
      then (case v of
              Inl err \<Rightarrow> Inl err
            | Inr j \<Rightarrow> (case encode_members fs of Inl err \<Rightarrow> Inl err | Inr ms \<Rightarrow> Inr ((k, j) # ms)))
      else encode_members fs)"

definition encode_struct :: "(string \<times> bool \<times> encoding) list \<Rightarrow> encoding" where
  "encode_struct fs = (case encode_members fs of Inl err \<Rightarrow> Inl err | Inr ms \<Rightarrow> Inr (JObj ms))"

definition encode_string :: "string \<Rightarrow> encoding" where
  "encode_string s = Inr (JStr s)"

definition encode_int :: "int64 \<Rightarrow> encoding" where
  "encode_int i = Inr (JNum (show_int i))"

definition encode_float :: "conv \<Rightarrow> float64 \<Rightarrow> encoding" where
  "encode_float C f = (case cv_FormatFloat C f of Inl err \<Rightarrow> Inl err | Inr n \<Rightarrow> Inr (JNum n))"

definition encode_time :: "conv \<Rightarrow> time \<Rightarrow> encoding" where
  "encode_time C t = (case cv_FormatTime C t of Inl err \<Rightarrow> Inl err | Inr s \<Rightarrow> Inr (JStr s))"

text \<open>The keys of a map are sorted.\<close>

fun encode_map :: "string_map \<Rightarrow> encoding" where
  "encode_map None = Inr JNull"
| "encode_map (Some m) = Inr (JObj (map (\<lambda>(k, v). (k, JStr v)) (sort_key fst m)))"

fun encode_elements :: "('a \<Rightarrow> encoding) \<Rightarrow> 'a list \<Rightarrow> goerr + json_value list" where
  "encode_elements f [] = Inr []"
| "encode_elements f (x # xs) =
     (case f x of
        Inl err \<Rightarrow> Inl err
      | Inr j \<Rightarrow> (case encode_elements f xs of Inl err \<Rightarrow> Inl err | Inr js \<Rightarrow> Inr (j # js)))"

text \<open>\<open>isnil\<close>: whether an empty slice is the nil slice, which is written as null.\<close>

definition encode_list :: "bool \<Rightarrow> ('a \<Rightarrow> encoding) \<Rightarrow> 'a list \<Rightarrow> encoding" where
  "encode_list isnil f xs =
     (if xs = [] \<and> isnil then Inr JNull
      else (case encode_elements f xs of Inl err \<Rightarrow> Inl err | Inr js \<Rightarrow> Inr (JArr js)))"

section \<open>Streams\<close>

text \<open>\<open>Decoder.Decode\<close> takes one value from a stream; a value that is not an array or an object is
  complete only when something follows it or the stream ends.\<close>

fun closed_value :: "json_value \<Rightarrow> bool" where
  "closed_value (JArr _) = True"
| "closed_value (JObj _) = True"
| "closed_value _ = False"

definition Decoder_Decode :: "reader \<Rightarrow> goerr + json_value \<times> string" where
  "Decoder_Decode r =
     (case json_scan (rd_data r) of
        Got v rest \<Rightarrow>
          (case rd_err r of
             Some err \<Rightarrow> if rest = [] \<and> \<not> closed_value v then Inl err else Inr (v, rest)
           | None \<Rightarrow> Inr (v, rest))
      | Cut \<Rightarrow>
          (case rd_err r of
             Some err \<Rightarrow> Inl err
           | None \<Rightarrow> if skip_space (rd_data r) = [] then Inl io_EOF else Inl (Opaque ''unexpected EOF''))
      | Bad \<Rightarrow> Inl (Opaque ''invalid character''))"

text \<open>\<open>Decoder.More\<close> asks for another element of an array or an object: a closing bracket or brace is
  none.\<close>

definition Decoder_More :: "string \<Rightarrow> bool" where
  "Decoder_More rest = (case skip_space rest of [] \<Rightarrow> False | c # _ \<Rightarrow> c \<noteq> CHR '']'' \<and> c \<noteq> CHR ''}'')"

definition decode_value :: "'a into \<Rightarrow> 'a \<Rightarrow> reader \<Rightarrow> goerr + 'a" where
  "decode_value f zero r =
     (case Decoder_Decode r of
        Inl err \<Rightarrow> Inl err
      | Inr (v, _) \<Rightarrow> (case f v zero of (x, None) \<Rightarrow> Inr x | (_, Some err) \<Rightarrow> Inl err))"

definition json_Unmarshal :: "'a into \<Rightarrow> 'a \<Rightarrow> bytes \<Rightarrow> goerr + 'a" where
  "json_Unmarshal f zero data =
     (case json_scan data of
        Got v rest \<Rightarrow>
          if skip_space rest \<noteq> [] then Inl (Opaque ''invalid character'')
          else (case f v zero of (x, None) \<Rightarrow> Inr x | (_, Some err) \<Rightarrow> Inl err)
      | Cut \<Rightarrow> Inl (Opaque ''unexpected end of JSON input'')
      | Bad \<Rightarrow> Inl (Opaque ''invalid character''))"

text \<open>\<open>json.Marshal\<close>, and \<open>Encoder.Encode\<close>, which writes nothing when there is an error.\<close>

definition json_Marshal :: "encoding \<Rightarrow> goerr + bytes" where
  "json_Marshal v = (case v of Inl err \<Rightarrow> Inl err | Inr j \<Rightarrow> Inr (json_text j))"

definition Encoder_Encode :: "encoding \<Rightarrow> bytes" where
  "Encoder_Encode v = (case v of Inl _ \<Rightarrow> [] | Inr j \<Rightarrow> json_text j @ [CHR 0x0A])"

section \<open>What is encoded is decoded\<close>

text \<open>Documented of \<open>strconv\<close> and of \<open>time\<close>: a float is written in the shortest form that reads back,
  and a time to the nanosecond.\<close>

definition conv_ok :: "conv \<Rightarrow> bool" where
  "conv_ok C \<longleftrightarrow>
     (\<forall>f n. cv_FormatFloat C f = Inr n \<longrightarrow> number_text n \<and> cv_ParseFloat C n = Some f) \<and>
     (\<forall>t s. cv_FormatTime C t = Inr s \<longrightarrow> utf8 s \<and> cv_ParseTime C s = Inr t)"

text \<open>\<open>f\<close> turns every value that \<open>v\<close> can be written as into \<open>y\<close>, from \<open>x\<close>, over at most \<open>d\<close> levels.\<close>

definition arrives :: "nat \<Rightarrow> encoding \<Rightarrow> 'a into \<Rightarrow> 'a \<Rightarrow> 'a \<Rightarrow> bool" where
  "arrives d v f x y \<longleftrightarrow> (\<forall>j. v = Inr j \<longrightarrow> encodable d j \<and> f (repaired j) x = (y, None))"

lemma first_error_simps [simp]: "first_error None e = e" "first_error (Some err) e = Some err"
  by (simp_all add: first_error_def)

lemma arrives_string: "arrives d (encode_string s) string_into x (to_valid s)"
  by (simp add: arrives_def encode_string_def)

lemma decimal_show_nat: "c \<in> set (show_nat n) \<Longrightarrow> is_decimal c"
  using digits_show_nat [of c n] by (simp add: is_digit_def is_decimal_def)

lemma show_nat_first: "\<exists>c r. show_nat n = c # r \<and> is_decimal c \<and> (c = CHR ''0'' \<longrightarrow> r = [])"
proof (induction n rule: less_induct)
  case (less n)
  show ?case
  proof (cases "n < 10")
    case True
    then show ?thesis by (subst show_nat.simps) (simp add: is_decimal_def of_digit_char)
  next
    case False
    then have "n div 10 < n" by simp
    with less obtain c r where c: "show_nat (n div 10) = c # r" "is_decimal c" "c = CHR ''0'' \<longrightarrow> r = []" by blast
    have "c \<noteq> CHR ''0''"
    proof
      assume "c = CHR ''0''"
      with c have "show_nat (n div 10) = ''0''" by simp
      then have "n div 10 = 0" using read_show_nat [of "n div 10"] by (simp add: read_nat_def)
      with False show False by simp
    qed
    then show ?thesis using False c by (subst show_nat.simps) simp
  qed
qed

lemma number_text_show_nat: "scan_unsigned (show_nat n) = Got (show_nat n) []"
proof -
  obtain c r where c: "show_nat n = c # r" "is_decimal c" "c = CHR ''0'' \<longrightarrow> r = []" using show_nat_first by blast
  have "\<forall>a \<in> set (show_nat n). is_decimal a" using decimal_show_nat by blast
  then have "takeWhile is_decimal (show_nat n) = show_nat n" "dropWhile is_decimal (show_nat n) = []"
    by (simp_all only: takeWhile_eq_all_conv dropWhile_eq_Nil_conv)
  then have "scan_integer (show_nat n) = Got (show_nat n) []"
    using c by (auto simp: scan_integer_def digits_of_def)
  then show ?thesis by (simp add: scan_unsigned_def scan_fraction_def scan_exponent_def)
qed

lemma number_text_show_int: "number_text (show_int i)"
proof -
  obtain c r where c: "show_nat (nat i) = c # r" "is_decimal c" using show_nat_first by blast
  then have "c \<noteq> CHR ''-''" by (auto simp: is_decimal_def)
  with c number_text_show_nat [of "nat i"] number_text_show_nat [of "nat (- i)"] show ?thesis
    by (auto simp: number_text_def scan_number_def show_int_def)
qed

lemma ParseInt_show_int: "in_int64 i \<Longrightarrow> ParseInt (show_int i) = Some i"
proof -
  assume i: "in_int64 i"
  obtain c r where c: "show_nat (nat i) = c # r" "is_decimal c" using show_nat_first by blast
  then have h: "c \<noteq> CHR ''-''" "c \<noteq> CHR ''+''" by (auto simp: is_decimal_def)
  have l: "list_all is_decimal (show_nat n)" for n using decimal_show_nat by (auto simp: list_all_iff)
  have ne: "show_nat n \<noteq> []" for n by simp
  show ?thesis
    using i h c l [of "nat i"] read_show_nat [of "nat i"]
    by (cases "i < 0") (simp_all add: ParseInt_def show_int_def Let_def l read_show_nat [unfolded read_nat_def] read_nat_def)
qed

lemma to_valid_show_int [simp]: "to_valid (show_int i) = show_int i"
proof (rule to_valid_all_ascii)
  have "(of_char c :: nat) < 0x80" if "c \<in> set (show_nat n)" for c n
    using decimal_show_nat [OF that] by (simp add: is_decimal_def)
  then show "\<forall>c \<in> set (show_int i). (of_char c :: nat) < 0x80" by (auto simp: show_int_def)
qed

lemma arrives_int: "in_int64 i \<Longrightarrow> arrives d (encode_int i) int64_into x i"
  by (simp add: arrives_def encode_int_def ParseInt_show_int number_text_show_int)

lemma arrives_bool: "arrives d (Inr (JBool b)) bool_into x b"
  by (simp add: arrives_def)

lemma arrives_float: "conv_ok C \<Longrightarrow> arrives d (encode_float C f) (float_into C) x f"
  by (auto simp: arrives_def encode_float_def conv_ok_def split: sum.splits)

lemma arrives_time: "conv_ok C \<Longrightarrow> arrives d (encode_time C t) (time_into C) x t"
  by (auto simp: arrives_def encode_time_def conv_ok_def utf8_def split: sum.splits)

text \<open>A map arrives with its entries repaired, in the order of the sorted keys: of two keys that became
  the same the later is kept.\<close>

definition received_entries :: "(string \<times> string) list \<Rightarrow> (string \<times> string) list" where
  "received_entries m = fold (\<lambda>(k, v). AList.update (to_valid k) (to_valid v)) (sort_key fst m) []"

definition received_map :: "string_map \<Rightarrow> string_map" where
  "received_map m = map_option received_entries m"

text \<open>Nothing of a map is changed when its strings are UTF-8; a Go map has no order, its one listing here
  is the one with the keys in order, each once.\<close>

definition utf8_map :: "string_map \<Rightarrow> bool" where
  "utf8_map m \<longleftrightarrow> (case m of None \<Rightarrow> True
     | Some es \<Rightarrow> (\<forall>(k, v) \<in> set es. utf8 k \<and> utf8 v) \<and> sorted (map fst es) \<and> distinct (map fst es))"

lemma update_new: "k \<notin> fst ` set m \<Longrightarrow> AList.update k v m = m @ [(k, v)]"
  by (induction m) auto

lemma fold_update_repaired:
  assumes "\<forall>(k, v) \<in> set es. utf8 k \<and> utf8 v" and "distinct (map fst es)" and "fst ` set es \<inter> fst ` set m = {}"
  shows "fold (\<lambda>(k, v). AList.update (to_valid k) (to_valid v)) es m = m @ es"
  using assms
proof (induction es arbitrary: m)
  case (Cons e es)
  obtain k v where e: "e = (k, v)" by (cases e)
  have "AList.update k v m = m @ [(k, v)]"
    using Cons.prems(3) by (intro update_new) (auto simp: e)
  with Cons.IH [of "m @ [(k, v)]"] Cons.prems show ?case by (force simp: e utf8_def)
qed simp

lemma fold_update_entries:
  assumes "distinct (map fst m)" and "\<forall>(k, v) \<in> set m. utf8 k \<and> utf8 v"
  shows "distinct (map fst (fold (\<lambda>(k, v). AList.update (to_valid k) (to_valid v)) es m)) \<and>
    (\<forall>(k, v) \<in> set (fold (\<lambda>(k, v). AList.update (to_valid k) (to_valid v)) es m). utf8 k \<and> utf8 v)"
  using assms
proof (induction es arbitrary: m)
  case (Cons e es)
  obtain k v where e: "e = (k, v)" by (cases e)
  have "set (AList.update (to_valid k) (to_valid v) m) \<subseteq> insert (to_valid k, to_valid v) (set m)"
    by (induction m) auto
  with Cons.prems(2) have "\<forall>(k, v) \<in> set (AList.update (to_valid k) (to_valid v) m). utf8 k \<and> utf8 v"
    by (auto simp: utf8_def)
  from Cons.IH [OF distinct_update [OF Cons.prems(1)] this] show ?case by (simp add: e)
qed simp

lemma received_map_same: "received_map m = m \<longleftrightarrow> utf8_map m"
proof (cases m)
  case (Some es)
  let ?s = "sort_key fst es"
  have s: "set ?s = set es" "distinct (map fst ?s) = distinct (map fst es)" "sorted (map fst ?s)"
    by (simp_all add: distinct_map)
  show ?thesis
  proof
    assume "received_map m = m"
    then have r: "received_entries es = es" by (simp add: Some received_map_def)
    with fold_update_entries [of "[]" ?s] have u: "distinct (map fst es)" "\<forall>(k, v) \<in> set es. utf8 k \<and> utf8 v"
      by (simp_all add: received_entries_def)
    with fold_update_repaired [of ?s "[]"] s have "received_entries es = ?s" by (simp add: received_entries_def)
    with r s(3) have "sorted (map fst es)" by simp
    with u show "utf8_map m" by (simp add: Some utf8_map_def)
  next
    assume "utf8_map m"
    then have u: "distinct (map fst es)" "\<forall>(k, v) \<in> set es. utf8 k \<and> utf8 v" "sorted (map fst es)"
      by (simp_all add: Some utf8_map_def)
    with fold_update_repaired [of es "[]"] show "received_map m = m"
      by (simp add: Some received_map_def received_entries_def sort_key_id_if_sorted)
  qed
qed (simp add: received_map_def utf8_map_def)

lemma entries_into_text:
  "entries_into (map (\<lambda>(k, v). (to_valid k, repaired v)) (map (\<lambda>(k, v). (k, JStr v)) es)) m =
    (fold (\<lambda>(k, v). AList.update (to_valid k) (to_valid v)) es m, None)"
  by (induction es arbitrary: m) auto

lemma arrives_map: "arrives (Suc d) (encode_map m) map_into None (received_map m)"
  using entries_into_text [of "sort_key fst (the m)" "[]"]
  by (cases m) (auto simp: arrives_def received_map_def received_entries_def)

lemma encode_elements_arrive:
  assumes "\<And>x. x \<in> set xs \<Longrightarrow> arrives d (f x) g zero (h x)" and "encode_elements f xs = Inr js"
  shows "(\<forall>j \<in> set js. encodable d j) \<and> elements_into g zero (map repaired js) [] = (map h xs, None)"
  using assms
proof (induction xs arbitrary: js)
  case (Cons x xs)
  from Cons.prems(2) obtain j js' where j: "f x = Inr j" "encode_elements f xs = Inr js'" "js = j # js'"
    by (auto split: sum.splits)
  with Cons.IH [OF Cons.prems(1) j(2)] Cons.prems(1) [of x] show ?case by (simp add: arrives_def)
qed simp

lemma arrives_list:
  assumes "\<And>x. x \<in> set xs \<Longrightarrow> arrives d (f x) g zero (h x)"
  shows "arrives (Suc d) (encode_list isnil f xs) (list_into g zero) [] (map h xs)"
  using encode_elements_arrive [of xs d f g zero h] assms
  by (auto simp: arrives_def encode_list_def split: sum.splits)

lemma arrives_strings: "arrives (Suc d) (encode_list isnil encode_string xs) (list_into string_into []) [] (map to_valid xs)"
  by (rule arrives_list) (rule arrives_string)

lemma arrives_field: "arrives d v f (get x) y \<Longrightarrow> x' = put y x \<Longrightarrow> arrives d v (field_into get put f) x x'"
  by (simp add: arrives_def field_into_def)

text \<open>A struct, field by field: \<open>us\<close> are the changes the fields make, one after the other; a field that
  is not written makes none.\<close>

fun fields_arrive :: "nat \<Rightarrow> 'a fields \<Rightarrow> (string \<times> bool \<times> encoding) list \<Rightarrow> ('a \<Rightarrow> 'a) list \<Rightarrow> 'a \<Rightarrow> bool" where
  "fields_arrive d fs [] [] x = True"
| "fields_arrive d fs ((k, written, v) # es) (u # us) x =
     ((if written then (\<exists>f. find_field fs (to_valid k) = Some f \<and> arrives d v f x (u x)) else u x = x) \<and>
      fields_arrive d fs es us (u x))"
| "fields_arrive d fs _ _ x = False"

lemma encode_members_arrive:
  "fields_arrive d fs es us x \<Longrightarrow> encode_members es = Inr ms \<Longrightarrow>
    (\<forall>m \<in> set ms. encodable d (snd m)) \<and>
    members_into strict fs (map (\<lambda>(k, v). (to_valid k, repaired v)) ms) (x, None) = (fold (\<lambda>u. u) us x, None)"
proof (induction d fs es us x arbitrary: ms rule: fields_arrive.induct)
  case (2 d fs k written v es u us x)
  show ?case
  proof (cases written)
    case True
    with 2(3) obtain j ms' where j: "v = Inr j" "encode_members es = Inr ms'" "ms = (k, j) # ms'" by (auto split: sum.splits)
    from True 2(2) obtain f where "find_field fs (to_valid k) = Some f" "arrives d v f x (u x)" "fields_arrive d fs es us (u x)" by auto
    with 2(1) [OF _ j(2)] j show ?thesis by (simp add: arrives_def)
  next
    case False
    with 2(2) have u: "u x = x" and a: "fields_arrive d fs es us (u x)" by auto
    from False 2(3) have "encode_members es = Inr ms" by simp
    from 2(1) [OF a this] show ?thesis by (simp add: u)
  qed
qed simp_all

lemma arrives_struct:
  assumes "fields_arrive d fs es us x" and "y = fold (\<lambda>u. u) us x"
  shows "arrives (Suc d) (encode_struct es) (struct_into strict fs) x y"
  using encode_members_arrive [OF assms(1)] assms(2)
  by (auto simp: arrives_def encode_struct_def split: sum.splits)

lemma decode_encoded:
  assumes "arrives maxNestingDepth v f zero y" and "v = Inr j" and "ends_number t"
  shows "decode_value f zero \<lparr>rd_data = json_text j @ t, rd_err = None\<rparr> = Inr y"
  using assms json_scan_text [of j t] by (simp add: arrives_def decode_value_def Decoder_Decode_def)

lemma Unmarshal_encoded:
  assumes "arrives maxNestingDepth v f zero y" and "v = Inr j"
  shows "json_Unmarshal f zero (json_text j) = Inr y"
  using assms json_scan_text [of j "[]"] by (simp add: arrives_def json_Unmarshal_def skip_space_def)

end
