(* ===== verification/Exec_WS.thy ===== *)
theory Exec_WS
  imports Auth Store_Clients JSON_Codec
begin

text \<open>
  \<open>internal/api/execws.go\<close>: an interactive terminal over a WebSocket.  After the handshake four
  goroutines run: terminal to client, client to terminal, the keep-alive of the environment and the
  ping.  Their interleaving is a list of the events they receive, in the order they act on them;
  \<open>ws_step\<close> is what the goroutine concerned does, under the lock it takes.  Both directions carry
  JSON texts.  \<open>PingDone\<close> and \<open>KeepAliveDone\<close> are the two tickers' goroutines observing that the
  context is cancelled; Go's \<open>select\<close> may prefer a tick that is due at the same time, so a tick may
  still be taken between the cancellation and that.  Deadlines only turn into the events
  \<open>ClientGone\<close> and a failed ping.
\<close>

section \<open>Messages\<close>

text \<open>\<open>json.Marshal\<close> of an output message, whose error \<open>wsSend\<close> ignores; the text has its strings
  repaired to UTF-8.\<close>

definition WSOutputMessage_json :: "WSOutputMessage \<Rightarrow> encoding" where
  "WSOutputMessage_json m = encode_struct
     [(''stream'', True, encode_string (wo_Stream m)), (''data'', True, encode_string (wo_Data m))]"

definition ws_text :: "WSOutputMessage \<Rightarrow> bytes" where
  "ws_text msg = (case json_Marshal (WSOutputMessage_json msg) of Inl _ \<Rightarrow> [] | Inr data \<Rightarrow> data)"

text \<open>\<open>json.Unmarshal\<close> into an input message: a \<open>uint\<close> takes digits only, up to 64 bits.\<close>

fun uint_into :: "nat into" where
  "uint_into JNull x = (x, None)"
| "uint_into (JNum n) x =
     (if list_all is_decimal n \<and> foldl (\<lambda>k c. 10 * k + (of_char c - 48)) 0 n < (2 ^ 64 :: nat)
      then (foldl (\<lambda>k c. 10 * k + (of_char c - 48)) 0 n, None) else (x, Some type_error))"
| "uint_into _ x = (x, Some type_error)"

definition WSInputMessage_into :: "WSInputMessage into" where
  "WSInputMessage_into = struct_into False
     [(''type'', field_into wi_Type (\<lambda>v x. x\<lparr>wi_Type := v\<rparr>) string_into),
      (''data'', field_into wi_Data (\<lambda>v x. x\<lparr>wi_Data := v\<rparr>) string_into),
      (''cols'', field_into wi_Cols (\<lambda>v x. x\<lparr>wi_Cols := v\<rparr>) uint_into),
      (''rows'', field_into wi_Rows (\<lambda>v x. x\<lparr>wi_Rows := v\<rparr>) uint_into)]"

definition zero_WSInputMessage :: WSInputMessage where
  "zero_WSInputMessage = \<lparr>wi_Type = [], wi_Data = [], wi_Cols = 0, wi_Rows = 0\<rparr>"

section \<open>Events\<close>

datatype ws_event =
    PtyOutput bytes
  | PtyEnd
  | ClientMessage bytes
  | ClientGone
  | KeepAlive time
  | KeepAliveDone
  | Ping bool
  | PingDone

text \<open>\<open>ws_sent\<close> are the text frames written so far; the other fields are whether the connection is
  open, whether the context is cancelled, and which of the four goroutines has returned.\<close>

record ('s, 'e) ws_state =
  ws_sent :: "bytes list"
  ws_open :: bool
  ws_cancelled :: bool
  ws_out_done :: bool
  ws_in_done :: bool
  ws_keep_done :: bool
  ws_ping_done :: bool
  ws_world :: "('s, 'e) world"

section \<open>Operations\<close>

definition on_ws_engine ::
  "('e \<Rightarrow> 'r \<times> 'e) \<Rightarrow> ('s, 'e) ws_state \<Rightarrow> 'r \<times> ('s, 'e) ws_state" where
  "on_ws_engine f st = (case on_engine f (ws_world st) of (x, w) \<Rightarrow> (x, st\<lparr>ws_world := w\<rparr>))"

text \<open>A write fails once the connection is closed, or when it takes no more (\<open>writes\<close>).\<close>

definition wsSend ::
  "nat option \<Rightarrow> WSOutputMessage \<Rightarrow> ('s, 'e) ws_state \<Rightarrow> goerr option \<times> ('s, 'e) ws_state" where
  "wsSend writes msg st =
     (if ws_open st \<and> (case writes of None \<Rightarrow> True | Some n \<Rightarrow> length (ws_sent st) < n)
      then (None, st\<lparr>ws_sent := ws_sent st @ [ws_text msg]\<rparr>)
      else (Some (Opaque ''write failed''), st))"

text \<open>\<open>cancel\<close>, then the session, then the connection, once.\<close>

definition closeAll :: "'e InteractiveSession \<Rightarrow> ('s, 'e) ws_state \<Rightarrow> ('s, 'e) ws_state" where
  "closeAll session st =
     (if ws_open st then snd (on_ws_engine (ses_Close session) (st\<lparr>ws_cancelled := True, ws_open := False\<rparr>)) else st)"

definition ws_output :: "nat option \<Rightarrow> 'e InteractiveSession \<Rightarrow> bytes \<Rightarrow> ('s, 'e) ws_state \<Rightarrow> ('s, 'e) ws_state" where
  "ws_output writes session data st =
     (if ws_out_done st \<or> data = [] then st
      else case wsSend writes \<lparr>wo_Stream = ''output'', wo_Data = data\<rparr> st of
             (None, st1) \<Rightarrow> st1
           | (Some _, st1) \<Rightarrow> closeAll session (st1\<lparr>ws_out_done := True\<rparr>))"

definition ws_end :: "'e Engine \<Rightarrow> nat option \<Rightarrow> 'e InteractiveSession \<Rightarrow> ('s, 'e) ws_state \<Rightarrow> ('s, 'e) ws_state" where
  "ws_end E writes session st =
     (if ws_out_done st then st
      else case on_ws_engine (eng_ExecExitCode E (ses_ExecID session)) st of
             (code, st1) \<Rightarrow>
               let exitCode = (case code of Inl _ \<Rightarrow> -1 | Inr c \<Rightarrow> c);
                   st2 = snd (wsSend writes \<lparr>wo_Stream = ''exit'', wo_Data = show_int exitCode\<rparr> st1)
               in closeAll session (st2\<lparr>ws_out_done := True\<rparr>))"

definition ws_input ::
  "'e InteractiveSession \<Rightarrow> bytes \<Rightarrow> ('s, 'e) ws_state \<Rightarrow> ('s, 'e) ws_state" where
  "ws_input session raw st =
     (if ws_in_done st then st
      else if \<not> ws_open st then st\<lparr>ws_in_done := True\<rparr>
      else case json_Unmarshal WSInputMessage_into zero_WSInputMessage raw of
             Inl _ \<Rightarrow> st
           | Inr msg \<Rightarrow>
               if wi_Type msg = ''input'' then
                 (case on_ws_engine (ses_Write session (wi_Data msg)) st of
                    (Inl _, st1) \<Rightarrow> closeAll session (st1\<lparr>ws_in_done := True\<rparr>)
                  | (Inr _, st1) \<Rightarrow> st1)
               else if wi_Type msg = ''resize'' then
                 (if wi_Cols msg > 0 \<and> wi_Rows msg > 0
                  then snd (on_ws_engine (ses_Resize session (wi_Cols msg) (wi_Rows msg)) st) else st)
               else st)"

definition ws_client_gone :: "'e InteractiveSession \<Rightarrow> ('s, 'e) ws_state \<Rightarrow> ('s, 'e) ws_state" where
  "ws_client_gone session st = (if ws_in_done st then st else closeAll session (st\<lparr>ws_in_done := True\<rparr>))"

text \<open>The refresh of the last use, at the start of the session and at every tick.\<close>

definition ws_touch :: "'s Store \<Rightarrow> nat \<Rightarrow> time \<Rightarrow> ('s, 'e) world \<Rightarrow> ('s, 'e) world" where
  "ws_touch S env now w =
     snd (on_store (sto_Update S env) (assign_env env ((deref env w)\<lparr>env_LastUsedAt := now\<rparr>) w))"

fun ws_step ::
  "'s Store \<Rightarrow> 'e Engine \<Rightarrow> nat option \<Rightarrow> nat \<Rightarrow> 'e InteractiveSession \<Rightarrow> ws_event \<Rightarrow> ('s, 'e) ws_state \<Rightarrow>
   ('s, 'e) ws_state" where
  "ws_step S E writes env session (PtyOutput data) st = ws_output writes session data st"
| "ws_step S E writes env session PtyEnd st = ws_end E writes session st"
| "ws_step S E writes env session (ClientMessage raw) st = ws_input session raw st"
| "ws_step S E writes env session ClientGone st = ws_client_gone session st"
| "ws_step S E writes env session (KeepAlive now) st =
     (if ws_keep_done st then st else st\<lparr>ws_world := ws_touch S env now (ws_world st)\<rparr>)"
| "ws_step S E writes env session KeepAliveDone st = (if ws_cancelled st then st\<lparr>ws_keep_done := True\<rparr> else st)"
| "ws_step S E writes env session (Ping ok) st =
     (if ws_ping_done st \<or> ok \<and> ws_open st then st else closeAll session (st\<lparr>ws_ping_done := True\<rparr>))"
| "ws_step S E writes env session PingDone st = (if ws_cancelled st then st\<lparr>ws_ping_done := True\<rparr> else st)"

definition ws_run ::
  "'s Store \<Rightarrow> 'e Engine \<Rightarrow> nat option \<Rightarrow> nat \<Rightarrow> 'e InteractiveSession \<Rightarrow> ws_event list \<Rightarrow> ('s, 'e) ws_state \<Rightarrow>
   ('s, 'e) ws_state" where
  "ws_run S E writes env session evs st = fold (ws_step S E writes env session) evs st"

text \<open>The handler: \<open>upgrade\<close> is the answer the upgrader wrote when the handshake failed.\<close>

definition ExecWS ::
  "'s Store \<Rightarrow> 'e Engine \<Rightarrow> time \<Rightarrow> response option \<Rightarrow> ws_event list \<Rightarrow> string \<Rightarrow> ('s, 'e) world handler" where
  "ExecWS S E now upgrade evs i r w =
     (case on_store (sto_Get S i (UserIDFromContext r)) w of
        (Inl err, w1) \<Rightarrow>
          (Response (if errors_Is err ErrNotFound then writeError 404 ''environment not found''
                     else writeError 500 ''failed to get environment''), w1)
      | (Inr env, w1) \<Rightarrow>
          if env_Status (deref env w1) \<noteq> StatusRunning
          then (Response (writeError 409 ''environment is not running''), w1)
          else let cmd = (if rq_Query r ''cmd'' = [] then [''bash''] else rq_Query r ''cmd'');
                   workingDir = Query_Get r ''working_dir'' in
            (case upgrade of
               Some rs \<Rightarrow> (Response rs, w1)
             | None \<Rightarrow>
                 (case on_engine (eng_ExecInteractive E (env_ContainerID (deref env w1))
                         \<lparr>er_Command = cmd, er_WorkingDir = workingDir, er_TimeoutSeconds = 0, er_CaptureOutput = False\<rparr>) w1 of
                    (Inl _, w2) \<Rightarrow>
                      (Response \<lparr>rs_Status = 101, rs_Header = [], rs_Body = Messages
                         [ws_text \<lparr>wo_Stream = ''error'', wo_Data = ''failed to start session''\<rparr>]\<rparr>, w2)
                  | (Inr session, w2) \<Rightarrow>
                      let st = ws_run S E (rq_Writes r) env session evs
                            \<lparr>ws_sent = [], ws_open = True, ws_cancelled = False, ws_out_done = False, ws_in_done = False,
                             ws_keep_done = False, ws_ping_done = False, ws_world = ws_touch S env now w2\<rparr>
                      in (Response \<lparr>rs_Status = 101, rs_Header = [], rs_Body = Messages (ws_sent st)\<rparr>,
                          ws_world (closeAll session st)))))"

section \<open>What the client sees\<close>

definition out_msg :: "bytes \<Rightarrow> WSOutputMessage" where
  "out_msg data = \<lparr>wo_Stream = ''output'', wo_Data = data\<rparr>"

definition exit_msg :: "int \<Rightarrow> WSOutputMessage" where
  "exit_msg c = \<lparr>wo_Stream = ''exit'', wo_Data = show_int c\<rparr>"

text \<open>The terminal's output up to its end.\<close>

fun pty_outputs :: "ws_event list \<Rightarrow> bytes list" where
  "pty_outputs [] = []"
| "pty_outputs (PtyOutput d # evs) = (if d = [] then pty_outputs evs else d # pty_outputs evs)"
| "pty_outputs (PtyEnd # evs) = []"
| "pty_outputs (ClientMessage m # evs) = pty_outputs evs"
| "pty_outputs (ClientGone # evs) = pty_outputs evs"
| "pty_outputs (KeepAlive t # evs) = pty_outputs evs"
| "pty_outputs (KeepAliveDone # evs) = pty_outputs evs"
| "pty_outputs (Ping ok # evs) = pty_outputs evs"
| "pty_outputs (PingDone # evs) = pty_outputs evs"

lemma closeAll_fields [simp]:
  "ws_sent (closeAll ses st) = ws_sent st" "ws_out_done (closeAll ses st) = ws_out_done st"
  "ws_in_done (closeAll ses st) = ws_in_done st" "\<not> ws_open (closeAll ses st)"
  "ws_keep_done (closeAll ses st) = ws_keep_done st" "ws_ping_done (closeAll ses st) = ws_ping_done st"
  "w_mem (ws_world (closeAll ses st)) = w_mem (ws_world st)"
  by (auto simp: closeAll_def on_ws_engine_def on_engine_def split: prod.splits)

lemma on_ws_engine_fields:
  "on_ws_engine f st = (x, st') \<Longrightarrow> ws_sent st' = ws_sent st \<and> ws_out_done st' = ws_out_done st \<and>
    ws_in_done st' = ws_in_done st \<and> ws_open st' = ws_open st \<and> ws_cancelled st' = ws_cancelled st \<and>
    ws_keep_done st' = ws_keep_done st \<and> ws_ping_done st' = ws_ping_done st \<and> w_mem (ws_world st') = w_mem (ws_world st)"
  by (auto simp: on_ws_engine_def split: prod.splits dest!: on_engine_mem)

lemma wsSend_fields:
  "wsSend n msg st = (x, st') \<Longrightarrow>
    ws_out_done st' = ws_out_done st \<and> ws_in_done st' = ws_in_done st \<and> ws_open st' = ws_open st \<and> ws_cancelled st' = ws_cancelled st \<and>
    ws_keep_done st' = ws_keep_done st \<and> ws_ping_done st' = ws_ping_done st \<and> ws_world st' = ws_world st \<and>
    (x = None \<longrightarrow> ws_sent st' = ws_sent st @ [ws_text msg]) \<and> (x \<noteq> None \<longrightarrow> ws_sent st' = ws_sent st)"
  by (auto simp: wsSend_def split: if_splits)

text \<open>Once the goroutine that reads the terminal has finished, nothing more is sent.\<close>

lemma on_ws_engine_snd [simp]:
  "ws_sent (snd (on_ws_engine f st)) = ws_sent st" "ws_out_done (snd (on_ws_engine f st)) = ws_out_done st"
  "ws_open (snd (on_ws_engine f st)) = ws_open st" "ws_in_done (snd (on_ws_engine f st)) = ws_in_done st"
  "ws_cancelled (snd (on_ws_engine f st)) = ws_cancelled st" "ws_keep_done (snd (on_ws_engine f st)) = ws_keep_done st"
  "ws_ping_done (snd (on_ws_engine f st)) = ws_ping_done st"
  "w_mem (ws_world (snd (on_ws_engine f st))) = w_mem (ws_world st)"
  using on_ws_engine_fields [of f st "fst (on_ws_engine f st)" "snd (on_ws_engine f st)"] by simp_all

lemma ws_input_sent:
  "ws_sent (ws_input ses m st) = ws_sent st \<and> ws_out_done (ws_input ses m st) = ws_out_done st \<and>
   w_mem (ws_world (ws_input ses m st)) = w_mem (ws_world st)"
  by (auto simp: ws_input_def split: option.splits prod.splits sum.splits dest: on_ws_engine_fields)

lemma ws_step_done:
  "ws_out_done st \<Longrightarrow> ws_sent (ws_step S E n env ses ev st) = ws_sent st \<and> ws_out_done (ws_step S E n env ses ev st)"
  by (cases ev) (simp_all add: ws_output_def ws_end_def ws_client_gone_def ws_input_sent)

lemma ws_run_done:
  "ws_out_done st \<Longrightarrow> ws_sent (ws_run S E n env ses evs st) = ws_sent st \<and> ws_out_done (ws_run S E n env ses evs st)"
  unfolding ws_run_def by (induction evs arbitrary: st) (simp_all add: ws_step_done)

lemma ws_run_Cons: "ws_run S E n env ses (ev # evs) st = ws_run S E n env ses evs (ws_step S E n env ses ev st)"
  by (simp add: ws_run_def)

lemma ws_end_sent:
  assumes "\<not> ws_out_done st"
  shows "ws_out_done (ws_end E n ses st)" "\<not> ws_open (ws_end E n ses st)"
    "\<exists>c. ws_sent (ws_end E n ses st) = ws_sent st \<or> ws_sent (ws_end E n ses st) = ws_sent st @ [ws_text (exit_msg c)]"
proof -
  obtain x st1 where x: "on_ws_engine (eng_ExecExitCode E (ses_ExecID ses)) st = (x, st1)" by (meson surj_pair)
  let ?c = "case x of Inl _ \<Rightarrow> -1 | Inr c \<Rightarrow> c"
  obtain y st2 where y: "wsSend n (exit_msg ?c) st1 = (y, st2)" by (meson surj_pair)
  have e: "ws_end E n ses st = closeAll ses (st2\<lparr>ws_out_done := True\<rparr>)"
    using assms x y by (simp add: ws_end_def exit_msg_def Let_def)
  then show "ws_out_done (ws_end E n ses st)" "\<not> ws_open (ws_end E n ses st)" by simp_all
  have "ws_sent st2 = ws_sent st \<or> ws_sent st2 = ws_sent st @ [ws_text (exit_msg ?c)]"
    using on_ws_engine_fields [OF x] wsSend_fields [OF y] by (cases y) auto
  then show "\<exists>c. ws_sent (ws_end E n ses st) = ws_sent st \<or> ws_sent (ws_end E n ses st) = ws_sent st @ [ws_text (exit_msg c)]"
    unfolding e by auto
qed

lemma ws_output_sent:
  assumes "\<not> ws_out_done st" and "d \<noteq> []"
  shows "ws_sent (ws_output n ses d st) = ws_sent st @ [ws_text (out_msg d)] \<and> \<not> ws_out_done (ws_output n ses d st) \<or>
    ws_sent (ws_output n ses d st) = ws_sent st \<and> ws_out_done (ws_output n ses d st)"
proof -
  obtain x st1 where x: "wsSend n (out_msg d) st = (x, st1)" by (meson surj_pair)
  with assms wsSend_fields [OF x] show ?thesis
    by (cases x) (auto simp: ws_output_def out_msg_def)
qed

lemma ws_run_sent:
  assumes "\<not> ws_out_done st"
  shows "\<exists>k tail. ws_sent (ws_run S E n env ses evs st) = ws_sent st @ map (ws_text \<circ> out_msg) (take k (pty_outputs evs)) @ tail \<and>
    (tail = [] \<or> (\<exists>c. tail = [ws_text (exit_msg c)]) \<and> PtyEnd \<in> set evs \<and> k = length (pty_outputs evs))"
  using assms
proof (induction evs arbitrary: st rule: pty_outputs.induct)
  case 1
  then show ?case by (auto simp: ws_run_def)
next
  case (2 d evs)
  show ?case
  proof (cases "d = []")
    case True
    then have "ws_step S E n env ses (PtyOutput d) st = st" by (simp add: ws_output_def)
    with 2(1) [OF True 2(3)] True show ?thesis by (auto simp: ws_run_Cons)
  next
    case False
    let ?st = "ws_output n ses d st"
    consider (sent) "ws_sent ?st = ws_sent st @ [ws_text (out_msg d)]" "\<not> ws_out_done ?st" | (stop) "ws_sent ?st = ws_sent st" "ws_out_done ?st"
      using ws_output_sent [OF 2(3) False] by blast
    then show ?thesis
    proof cases
      case sent
      from 2(2) [OF False sent(2)] obtain k tail where
        "ws_sent (ws_run S E n env ses evs ?st) = ws_sent ?st @ map (ws_text \<circ> out_msg) (take k (pty_outputs evs)) @ tail"
        "tail = [] \<or> (\<exists>c. tail = [ws_text (exit_msg c)]) \<and> PtyEnd \<in> set evs \<and> k = length (pty_outputs evs)" by blast
      with sent False show ?thesis by (intro exI [of _ "Suc k"] exI [of _ tail]) (auto simp: ws_run_Cons)
    next
      case stop
      with ws_run_done [OF stop(2)] show ?thesis by (intro exI [of _ 0] exI [of _ "[]"]) (simp add: ws_run_Cons)
    qed
  qed
next
  case (3 evs)
  note e = ws_end_sent [OF 3, of E n ses]
  then show ?case using ws_run_done [OF e(1), of S E n env ses evs] by (auto simp: ws_run_Cons)
next
  case (4 m evs)
  then show ?case using ws_input_sent [of ses m st] by (simp add: ws_run_Cons) metis
next
  case (5 evs)
  have "ws_sent (ws_client_gone ses st) = ws_sent st" "\<not> ws_out_done (ws_client_gone ses st)"
    using 5(2) by (auto simp: ws_client_gone_def)
  with 5(1) show ?case by (simp add: ws_run_Cons) metis
next
  case (6 t evs)
  let ?st = "ws_step S E n env ses (KeepAlive t) st"
  have st: "ws_sent ?st = ws_sent st" "\<not> ws_out_done ?st" using 6(2) by auto
  show ?case using 6(1) [OF st(2)] unfolding ws_run_Cons st(1) pty_outputs.simps by (simp del: ws_step.simps)
next
  case (7 evs)
  let ?st = "ws_step S E n env ses KeepAliveDone st"
  have st: "ws_sent ?st = ws_sent st" "\<not> ws_out_done ?st" using 7(2) by auto
  show ?case using 7(1) [OF st(2)] unfolding ws_run_Cons st(1) pty_outputs.simps by (simp del: ws_step.simps)
next
  case (8 ok evs)
  let ?st = "ws_step S E n env ses (Ping ok) st"
  have st: "ws_sent ?st = ws_sent st" "\<not> ws_out_done ?st" using 8(2) by auto
  show ?case using 8(1) [OF st(2)] unfolding ws_run_Cons st(1) pty_outputs.simps by (simp del: ws_step.simps)
next
  case (9 evs)
  let ?st = "ws_step S E n env ses PingDone st"
  have st: "ws_sent ?st = ws_sent st" "\<not> ws_out_done ?st" using 9(2) by auto
  show ?case using 9(1) [OF st(2)] unfolding ws_run_Cons st(1) pty_outputs.simps by (simp del: ws_step.simps)
qed

section \<open>Shutdown\<close>

lemma ws_step_closed:
  "\<not> ws_open st \<Longrightarrow> \<not> ws_open (ws_step S E n env ses ev st)"
  "ws_in_done st \<Longrightarrow> ws_in_done (ws_step S E n env ses ev st)"
  by (cases ev; auto simp: ws_output_def ws_end_def ws_input_def ws_client_gone_def wsSend_def Let_def
      split: option.splits prod.splits sum.splits if_splits dest: on_ws_engine_fields)+

lemma ws_step_ends:
  "\<not> ws_open (ws_step S E n env ses ClientGone st) \<or> ws_in_done st"
  "ws_in_done (ws_step S E n env ses ClientGone st)"
  "ws_out_done (ws_step S E n env ses PtyEnd st)"
  by (auto simp: ws_client_gone_def ws_end_def Let_def split: prod.splits)

lemma ws_run_closed:
  "\<not> ws_open st \<Longrightarrow> \<not> ws_open (ws_run S E n env ses evs st)"
  "ws_in_done st \<Longrightarrow> ws_in_done (ws_run S E n env ses evs st)"
  unfolding ws_run_def by (induction evs arbitrary: st) (simp_all add: ws_step_closed)

text \<open>A goroutine that has finished has closed the connection, or has seen it cancelled; the context
  is cancelled exactly when the connection is closed.\<close>

definition ws_linked :: "('s, 'e) ws_state \<Rightarrow> bool" where
  "ws_linked st \<longleftrightarrow> ws_cancelled st = (\<not> ws_open st) \<and>
     (ws_out_done st \<or> ws_in_done st \<or> ws_keep_done st \<or> ws_ping_done st \<longrightarrow> \<not> ws_open st)"

lemma closeAll_linked: "ws_cancelled st = (\<not> ws_open st) \<Longrightarrow> ws_linked (closeAll ses st)"
  by (simp add: ws_linked_def) (simp add: closeAll_def)

lemma same_linked:
  "ws_linked st \<Longrightarrow> on_ws_engine f st = (x, st') \<Longrightarrow> ws_linked st'"
  "ws_linked st \<Longrightarrow> wsSend n msg st = (y, st') \<Longrightarrow> ws_linked st'"
  using on_ws_engine_fields [of f st x st'] wsSend_fields [of n msg st y st'] by (simp_all add: ws_linked_def)

lemma linked_context: "ws_linked st \<Longrightarrow> ws_cancelled st = (\<not> ws_open st)"
  by (simp add: ws_linked_def)

lemma ws_input_linked:
  assumes "ws_linked st"
  shows "ws_linked (ws_input ses raw st)"
proof -
  note e = same_linked(1) [OF assms]
  have r: "ws_linked (snd (on_ws_engine (ses_Resize ses c k) st))" for c k
    by (rule e [OF prod.collapse [symmetric]])
  have "ws_linked (closeAll ses (st1\<lparr>ws_in_done := True\<rparr>))" if "on_ws_engine (ses_Write ses d) st = (x, st1)" for d x st1
    by (rule closeAll_linked) (use linked_context [OF e [OF that]] in simp)
  moreover have "ws_linked (st\<lparr>ws_in_done := True\<rparr>)" if "\<not> ws_open st"
    using assms that by (simp add: ws_linked_def)
  ultimately show ?thesis
    using assms e r by (auto simp: ws_input_def split: sum.splits prod.splits)
qed

lemma ws_step_linked:
  assumes "ws_linked st"
  shows "ws_linked (ws_step S E n env ses ev st)"
proof (cases ev)
  case (PtyOutput d)
  obtain x st1 where x: "wsSend n \<lparr>wo_Stream = ''output'', wo_Data = d\<rparr> st = (x, st1)" by (meson surj_pair)
  note l = same_linked(2) [OF assms x]
  have "ws_linked (closeAll ses (st1\<lparr>ws_out_done := True\<rparr>))" by (rule closeAll_linked) (use linked_context [OF l] in simp)
  then show ?thesis using assms l x PtyOutput by (auto simp: ws_output_def split: option.splits)
next
  case PtyEnd
  obtain x st1 where x: "on_ws_engine (eng_ExecExitCode E (ses_ExecID ses)) st = (x, st1)" by (meson surj_pair)
  have l: "ws_linked (snd (wsSend n msg st1))" for msg
    by (rule same_linked(2) [OF same_linked(1) [OF assms x] prod.collapse [symmetric]])
  have "ws_linked (closeAll ses ((snd (wsSend n msg st1))\<lparr>ws_out_done := True\<rparr>))" for msg
    by (rule closeAll_linked) (use linked_context [OF l [of msg]] in simp)
  then show ?thesis using assms x PtyEnd by (simp add: ws_end_def Let_def)
next
  case (ClientMessage raw)
  then show ?thesis using ws_input_linked [OF assms] by simp
next
  case ClientGone
  then show ?thesis using assms linked_context [OF assms] by (auto simp: ws_client_gone_def intro: closeAll_linked)
next
  case (Ping ok)
  then show ?thesis using assms linked_context [OF assms] by (auto intro: closeAll_linked)
qed (use assms in \<open>auto simp: ws_linked_def\<close>)

lemma ws_run_linked: "ws_linked st \<Longrightarrow> ws_linked (ws_run S E n env ses evs st)"
  unfolding ws_run_def by (induction evs arbitrary: st) (simp_all add: ws_step_linked)

lemma ws_run_ends:
  "ClientGone \<in> set evs \<Longrightarrow> ws_in_done (ws_run S E n env ses evs st)"
  "PtyEnd \<in> set evs \<Longrightarrow> ws_out_done (ws_run S E n env ses evs st)"
proof (induction evs arbitrary: st)
  case (Cons ev evs)
  {
    case 1
    with Cons.IH(1) ws_run_closed(2) [OF ws_step_ends(2)] show ?case by (auto simp: ws_run_Cons simp del: ws_step.simps)
  next
    case 2
    with Cons.IH(2) ws_run_done [OF ws_step_ends(3), THEN conjunct2] show ?case by (auto simp: ws_run_Cons simp del: ws_step.simps)
  }
qed simp_all

text \<open>On a closed connection the next thing either goroutine receives ends it.\<close>

lemma ws_unblocked:
  assumes "\<not> ws_open st"
  shows "ws_in_done (ws_step S E n env ses (ClientMessage m) st)"
    and "d \<noteq> [] \<Longrightarrow> ws_out_done (ws_step S E n env ses (PtyOutput d) st)"
  using assms by (auto simp: ws_input_def ws_output_def wsSend_def)

section \<open>Sessions on a store that keeps the contract\<close>

context store_client
begin

lemma Update_holds:
  assumes "inv m" and "held p m" and "sto_Update S p m = (r, m')"
  shows "held p m'"
proof -
  let ?e = "fst m ! p"
  have p: "p < length (fst m)" and
    same: "a_envs (\<alpha> m) (env_ID ?e) = Some old \<Longrightarrow> same_identity old (nenv (snd m) ?e)" for old
    using assms(2) by (simp_all add: held_def)
  have f: "fst m' = fst m" by (rule Update_held [OF assms])
  have "writes m (\<alpha> m) m' \<or> writes m ((\<alpha> m)\<lparr>a_envs := (a_envs (\<alpha> m))(env_ID ?e \<mapsto> nenv (snd m) ?e)\<rparr>) m'"
    using assms(3) same Update_ok [OF assms(1) p, of m'] Update_err [OF assms(1) p, of _ m']
    by (cases r; cases "a_envs (\<alpha> m) (env_ID ?e)") (auto simp: crashes_def)
  then show ?thesis
    using p same by (auto simp: held_def f writes_def dest!: stable_nenv)
qed

lemma ws_touch_keeps:
  assumes "inv (w_mem w)" and "held p (w_mem w)" and "env_UserID (deref p w) = u"
  shows "keeps u (w_mem w) (w_mem (ws_touch S p now w))" "held p (w_mem (ws_touch S p now w))"
    "env_UserID (deref p (ws_touch S p now w)) = u" "w_eng (ws_touch S p now w) = w_eng w"
proof -
  let ?e = "(deref p w)\<lparr>env_LastUsedAt := now\<rparr>"
  show "keeps u (w_mem w) (w_mem (ws_touch S p now w))" "w_eng (ws_touch S p now w) = w_eng w"
    using touch_world(1,2) [OF assms(1,2), of now] assms(3) by (simp_all add: ws_touch_def)
  have "same_identity ?e (deref p w)" by (simp add: same_identity_def)
  note as = assign_world [OF assms(1,2) this]
  obtain r w1 where r: "on_store (sto_Update S p) (assign_env p ?e w) = (r, w1)" by (meson surj_pair)
  have u: "sto_Update S p (w_mem (assign_env p ?e w)) = (r, w_mem w1)" using on_store_result [OF r] by simp
  have t: "ws_touch S p now w = w1" by (simp add: ws_touch_def r)
  show "held p (w_mem (ws_touch S p now w))" using Update_holds [OF as(3,2) u] t by simp
  show "env_UserID (deref p (ws_touch S p now w)) = u"
    using Update_held [OF as(3,2) u] as(4) assms(3) by (simp add: t deref_def)
qed

lemma ws_step_mem:
  "w_mem (ws_world (ws_step S E n p ses ev st)) = w_mem (ws_world st) \<or>
   (\<exists>now. w_mem (ws_world (ws_step S E n p ses ev st)) = w_mem (ws_touch S p now (ws_world st)))"
proof (cases ev)
  case (KeepAlive t)
  then show ?thesis by auto
next
  case PtyEnd
  then show ?thesis
    by (auto simp: ws_end_def wsSend_def Let_def split: prod.splits dest: on_ws_engine_fields)
qed (auto simp: ws_output_def wsSend_def ws_client_gone_def ws_input_sent split: prod.splits option.splits)

lemma ws_run_keeps:
  assumes "inv (w_mem (ws_world st))" and "held p (w_mem (ws_world st))" and "env_UserID (deref p (ws_world st)) = u"
  shows "keeps u (w_mem (ws_world st)) (w_mem (ws_world (ws_run S E n p ses evs st)))"
  using assms
proof (induction evs arbitrary: st)
  case Nil
  then show ?case by (simp add: ws_run_def keeps_refl)
next
  case (Cons ev evs)
  let ?st = "ws_step S E n p ses ev st"
  have k: "keeps u (w_mem (ws_world st)) (w_mem (ws_world ?st)) \<and> held p (w_mem (ws_world ?st)) \<and>
      env_UserID (deref p (ws_world ?st)) = u"
    using ws_step_mem [of E n p ses ev st] ws_touch_keeps [OF Cons.prems] Cons.prems
    by (auto simp: deref_def keeps_refl)
  with Cons.IH [of ?st] keeps_inv keeps_trans show ?case unfolding ws_run_Cons by blast
qed

lemma ExecWS_keeps:
  assumes "inv (w_mem w)" and "UserIDFromContext r = u" and "u \<noteq> []" and "ExecWS S E now up evs i r w = (out, w')"
  shows "keeps u (w_mem w) (w_mem w')"
proof -
  obtain q w1 where q: "on_store (sto_Get S i u) w = (q, w1)" by (meson surj_pair)
  have g: "sto_Get S i u (w_mem w) = (q, w_mem w1)" using on_store_result [OF q] by simp
  have k1: "keeps u (w_mem w) (w_mem w1)" by (rule Get_keeps [OF assms(1) g])
  consider "w' = w1" | p w2 where "q = Inr p" "w_mem w2 = w_mem w1" "w' = w2"
    | p w2 ses where "q = Inr p" "w_mem w2 = w_mem w1"
      "w_mem w' = w_mem (ws_world (ws_run S E (rq_Writes r) p ses evs \<lparr>ws_sent = [], ws_open = True, ws_cancelled = False, ws_out_done = False,
        ws_in_done = False, ws_keep_done = False, ws_ping_done = False, ws_world = ws_touch S p now w2\<rparr>))"
    using assms(2,4) q
    by (auto simp: ExecWS_def Let_def split: sum.splits if_splits option.splits prod.splits dest!: on_engine_mem)
  then show ?thesis
  proof cases
    case (3 p w2 ses)
    have h: "inv (w_mem w2)" "held p (w_mem w2)" "env_UserID (deref p w2) = u"
      using Get_held [OF assms(1), of i u p "w_mem w1"] g 3(1,2) keeps_inv [OF k1] assms(3)
      by (auto simp: deref_def scoped_def)
    note t = ws_touch_keeps [OF h, of now]
    have "keeps u (w_mem w2) (w_mem w')"
      unfolding 3(3) using ws_run_keeps [of "\<lparr>ws_sent = [], ws_open = True, ws_cancelled = False, ws_out_done = False, ws_in_done = False,
        ws_keep_done = False, ws_ping_done = False, ws_world = ws_touch S p now w2\<rparr>" p u E "rq_Writes r" ses evs] t keeps_inv [OF t(1)] keeps_trans [OF t(1)]
      by simp
    with k1 3(2) show ?thesis by (metis keeps_trans)
  qed (use k1 in auto)
qed

end

end
