(* ===== verification/Environment_Service.thy ===== *)
theory Environment_Service
  imports Store_Clients Config
begin

text \<open>
  \<open>internal/service/environment.go\<close>.  \<open>CreateEnvironment\<close> is written as the code's three
  stretches, each one operation here: resolving the image and checking the request, building
  and recording the environment, and making the container; \<open>CreateEnvironment\<close> composes them.
  Its result is a pointer to the environment, shared with the memory store.
\<close>

section \<open>Operations\<close>

record CreateEnvironmentInput =
  ci_Image :: string
  ci_CPU :: float64
  ci_MemoryMB :: int64
  ci_DiskMB :: int64
  ci_NetworkPolicy :: string
  ci_EnvVars :: string_map
  ci_SnapshotID :: string

fun imageAllowed :: "string \<Rightarrow> string list \<Rightarrow> bool" where
  "imageAllowed img [] = False"
| "imageAllowed img (allowed # allowlist) = (if img = allowed then True else imageAllowed img allowlist)"

definition resolve_image ::
  "'s Store \<Rightarrow> Config \<Rightarrow> string \<Rightarrow> CreateEnvironmentInput \<Rightarrow> ('s, 'e) world \<Rightarrow>
   (goerr + CreateEnvironmentInput) \<times> ('s, 'e) world" where
  "resolve_image S cfg userID req w =
     (if ci_SnapshotID req \<noteq> [] then
        (case on_store (sto_GetSnapshot S (ci_SnapshotID req) userID) w of
           (Inl err, w') \<Rightarrow> (Inl (lookup_error ErrGetSnapshot err), w')
         | (Inr snap, w') \<Rightarrow> (Inr (req\<lparr>ci_Image := Snapshot_ImageRef snap\<rparr>), w'))
      else if ci_Image req = [] then (Inl (Sentinel ErrImageRequired), w)
      else if length (cfg_AllowedImages cfg) > 0 \<and> \<not> imageAllowed (ci_Image req) (cfg_AllowedImages cfg)
      then (Inl (ImageNotAllowedError (ci_Image req)), w)
      else (Inr req, w))"

definition apply_defaults :: "Config \<Rightarrow> CreateEnvironmentInput \<Rightarrow> CreateEnvironmentInput" where
  "apply_defaults cfg req = req\<lparr>
     ci_CPU := (if fle (ci_CPU req) (Fin 0) then cfg_DefaultCPU cfg else ci_CPU req),
     ci_MemoryMB := (if ci_MemoryMB req \<le> 0 then cfg_DefaultMemoryMB cfg else ci_MemoryMB req),
     ci_DiskMB := (if ci_DiskMB req \<le> 0 then cfg_DefaultDiskMB cfg else ci_DiskMB req),
     ci_NetworkPolicy := (if ci_NetworkPolicy req = [] then cfg_DefaultNetworkPolicy cfg else ci_NetworkPolicy req)\<rparr>"

definition check_limits :: "CreateEnvironmentInput \<Rightarrow> goerr option" where
  "check_limits req =
     (if flt (ci_CPU req) (Fin double_tenth) \<or> flt (Fin 4) (ci_CPU req) then Some (Sentinel ErrInvalidCPU)
      else if ci_MemoryMB req < 128 \<or> ci_MemoryMB req > 8192 then Some (Sentinel ErrInvalidMemory)
      else if \<not> NetworkPolicy_Valid (ci_NetworkPolicy req) then Some (Sentinel ErrInvalidNetwork)
      else None)"

definition build_environment ::
  "Config \<Rightarrow> time \<Rightarrow> string \<Rightarrow> string \<Rightarrow> string \<Rightarrow> CreateEnvironmentInput \<Rightarrow> Environment" where
  "build_environment cfg now uuid tenantID userID req = \<lparr>
     env_ID = new_ID ''env_'' uuid, env_TenantID = tenantID, env_UserID = userID,
     env_Spec = \<lparr>Image = ci_Image req, CPU = ci_CPU req, MemoryMB = ci_MemoryMB req, DiskMB = ci_DiskMB req,
       NetworkPolicy = ci_NetworkPolicy req, EnvVars = ci_EnvVars req\<rparr>,
     env_Status = StatusCreating, env_ContainerID = [],
     env_CreatedAt = now, env_LastUsedAt = now, env_ExpiresAt = now + cfg_MaxLifetime cfg\<rparr>"

text \<open>Everything up to and including \<open>store.Create\<close>.\<close>

definition CreateEnvironment_record ::
  "'s Store \<Rightarrow> Config \<Rightarrow> time \<Rightarrow> string \<Rightarrow> string \<Rightarrow> string \<Rightarrow> CreateEnvironmentInput \<Rightarrow> ('s, 'e) world \<Rightarrow>
   (goerr + nat) \<times> ('s, 'e) world" where
  "CreateEnvironment_record S cfg now uuid tenantID userID input w =
     (case resolve_image S cfg userID input w of
        (Inl err, w1) \<Rightarrow> (Inl err, w1)
      | (Inr req0, w1) \<Rightarrow>
          let req = apply_defaults cfg req0 in
          (case check_limits req of
             Some err \<Rightarrow> (Inl err, w1)
           | None \<Rightarrow>
               (case alloc_env (build_environment cfg now uuid tenantID userID req) w1 of
                  (env, w2) \<Rightarrow>
                    (case on_store (sto_Create S env) w2 of
                       (Some err, w3) \<Rightarrow> (Inl (Wrapped ErrCreateEnvironment err), w3)
                     | (None, w3) \<Rightarrow> (Inr env, w3)))))"

fun inject_loop ::
  "'s Store \<Rightarrow> 'e Engine \<Rightarrow> Config \<Rightarrow> string \<Rightarrow> string \<Rightarrow> Skill list \<Rightarrow> ('s, 'e) world \<Rightarrow> ('s, 'e) world" where
  "inject_loop S E cfg userID containerID [] w = w"
| "inject_loop S E cfg userID containerID (skill # skills) w =
     (case on_store (sto_GetSkillArchive S (skill_ID skill) userID) w of
        (Inl _, w1) \<Rightarrow> inject_loop S E cfg userID containerID skills w1
      | (Inr archive, w1) \<Rightarrow>
          (case on_engine (eng_ExtractArchive E containerID (Skill_InstallDir skill (cfg_SkillsDir cfg)) archive) w1 of
             (_, w2) \<Rightarrow> inject_loop S E cfg userID containerID skills w2))"

definition injectSkills ::
  "'s Store \<Rightarrow> 'e Engine \<Rightarrow> Config \<Rightarrow> string \<Rightarrow> string \<Rightarrow> ('s, 'e) world \<Rightarrow> ('s, 'e) world" where
  "injectSkills S E cfg userID containerID w =
     (case on_store (sto_ListSkills S userID) w of
        (Inl _, w1) \<Rightarrow> w1
      | (Inr skills, w1) \<Rightarrow> inject_loop S E cfg userID containerID skills w1)"

text \<open>From the creation of the container to the end.\<close>

definition CreateEnvironment_container ::
  "'s Store \<Rightarrow> 'e Engine \<Rightarrow> Config \<Rightarrow> string \<Rightarrow> nat \<Rightarrow> ('s, 'e) world \<Rightarrow> (goerr + nat) \<times> ('s, 'e) world" where
  "CreateEnvironment_container S E cfg userID env w =
     (case on_engine (eng_CreateContainer E (deref env w)) w of
        (Inl err, w1) \<Rightarrow>
          (case on_store (sto_Delete S (env_ID (deref env w1)) userID) w1 of
             (_, w2) \<Rightarrow> (Inl (Wrapped ErrCreateContainer err), w2))
      | (Inr containerID, w1) \<Rightarrow>
          let w2 = assign_env env ((deref env w1)\<lparr>env_ContainerID := containerID\<rparr>) w1 in
          (case on_engine (eng_StartContainer E containerID) w2 of
             (Some err, w3) \<Rightarrow>
               (case on_engine (eng_StopContainer E containerID) w3 of
                  (_, w4) \<Rightarrow>
                    (case on_store (sto_Delete S (env_ID (deref env w4)) userID) w4 of
                       (_, w5) \<Rightarrow> (Inl (Wrapped ErrStartContainer err), w5)))
           | (None, w3) \<Rightarrow>
               let w4 = injectSkills S E cfg userID containerID w3;
                   w5 = assign_env env ((deref env w4)\<lparr>env_Status := StatusRunning\<rparr>) w4
               in (case on_store (sto_Update S env) w5 of (_, w6) \<Rightarrow> (Inr env, w6))))"

definition CreateEnvironment ::
  "'s Store \<Rightarrow> 'e Engine \<Rightarrow> Config \<Rightarrow> time \<Rightarrow> string \<Rightarrow> string \<Rightarrow> string \<Rightarrow> CreateEnvironmentInput \<Rightarrow>
   ('s, 'e) world \<Rightarrow> (goerr + nat) \<times> ('s, 'e) world" where
  "CreateEnvironment S E cfg now uuid tenantID userID input w =
     (case CreateEnvironment_record S cfg now uuid tenantID userID input w of
        (Inl err, w1) \<Rightarrow> (Inl err, w1)
      | (Inr env, w1) \<Rightarrow> CreateEnvironment_container S E cfg userID env w1)"

definition DestroyEnvironment ::
  "'s Store \<Rightarrow> 'e Engine \<Rightarrow> string \<Rightarrow> string \<Rightarrow> ('s, 'e) world \<Rightarrow> goerr option \<times> ('s, 'e) world" where
  "DestroyEnvironment S E i userID w =
     (case on_store (sto_Get S i userID) w of
        (Inl err, w1) \<Rightarrow> (Some (lookup_error ErrGetEnvironment err), w1)
      | (Inr env, w1) \<Rightarrow>
          let w2 = (if env_ContainerID (deref env w1) \<noteq> []
                    then snd (on_engine (eng_StopContainer E (env_ContainerID (deref env w1))) w1)
                    else w1)
          in (case on_store (sto_Delete S i userID) w2 of
                (Some err, w3) \<Rightarrow> (Some (Wrapped ErrDeleteEnvironment err), w3)
              | (None, w3) \<Rightarrow> (None, w3)))"

definition GetEnvironment ::
  "'s Store \<Rightarrow> string \<Rightarrow> string \<Rightarrow> ('s, 'e) world \<Rightarrow> (goerr + nat) \<times> ('s, 'e) world" where
  "GetEnvironment S i userID w =
     (case on_store (sto_Get S i userID) w of
        (Inl err, w1) \<Rightarrow> (Inl (lookup_error ErrGetEnvironment err), w1)
      | (Inr env, w1) \<Rightarrow> (Inr env, w1))"

definition ListEnvironments ::
  "'s Store \<Rightarrow> string \<Rightarrow> ('s, 'e) world \<Rightarrow> (goerr + nat list) \<times> ('s, 'e) world" where
  "ListEnvironments S userID w =
     (case on_store (sto_List S userID) w of
        (Inl err, w1) \<Rightarrow> (Inl (Wrapped ErrListEnvironments err), w1)
      | (Inr envs, w1) \<Rightarrow> (Inr envs, w1))"

definition ListTenantEnvironments ::
  "'s Store \<Rightarrow> string \<Rightarrow> ('s, 'e) world \<Rightarrow> (goerr + nat list) \<times> ('s, 'e) world" where
  "ListTenantEnvironments S tenantID w =
     (case on_store (sto_ListByTenant S tenantID) w of
        (Inl err, w1) \<Rightarrow> (Inl (Wrapped ErrListEnvironments err), w1)
      | (Inr envs, w1) \<Rightarrow> (Inr envs, w1))"

section \<open>Requests\<close>

lemma imageAllowed_iff: "imageAllowed img l \<longleftrightarrow> img \<in> set l"
  by (induction l) auto

definition valid_spec :: "EnvironmentSpec \<Rightarrow> bool" where
  "valid_spec spec \<longleftrightarrow> \<not> flt (CPU spec) (Fin double_tenth) \<and> \<not> flt (Fin 4) (CPU spec) \<and>
     128 \<le> MemoryMB spec \<and> MemoryMB spec \<le> 8192 \<and> NetworkPolicy_Valid (NetworkPolicy spec)"

lemma valid_spec_CPU:
  assumes "valid_spec spec" and "CPU spec \<noteq> NaN"
  shows "\<exists>q. CPU spec = Fin q \<and> double_tenth \<le> q \<and> q \<le> 4"
  using assms by (cases "CPU spec") (auto simp: valid_spec_def not_less split: bool.splits)

lemma check_limits_valid:
  "check_limits req = None \<longleftrightarrow> valid_spec (env_Spec (build_environment cfg now uuid tenantID userID req))"
  by (auto simp: check_limits_def valid_spec_def build_environment_def)

lemma build_fields [simp]:
  "env_ID (build_environment cfg now uuid tenantID userID req) = new_ID ''env_'' uuid"
  "env_UserID (build_environment cfg now uuid tenantID userID req) = userID"
  "env_TenantID (build_environment cfg now uuid tenantID userID req) = tenantID"
  "env_Status (build_environment cfg now uuid tenantID userID req) = StatusCreating"
  "env_ContainerID (build_environment cfg now uuid tenantID userID req) = []"
  by (simp_all add: build_environment_def)

definition running_env :: "Environment \<Rightarrow> string \<Rightarrow> Environment" where
  "running_env e cid = e\<lparr>env_ContainerID := cid, env_Status := StatusRunning\<rparr>"

section \<open>Creation on a store that keeps the contract\<close>

context store_client
begin

lemma resolve_image_writes:
  assumes "inv (w_mem w)" and "resolve_image S cfg u req w = (r, w')"
  shows "writes (w_mem w) (\<alpha> (w_mem w)) (w_mem w') \<and> w_eng w' = w_eng w"
  using assms writes_refl [OF assms(1)]
  by (auto simp: resolve_image_def split: if_splits prod.splits sum.splits dest!: on_store_result
      intro: GetSnapshot_writes)

lemma inject_loop_writes:
  "inv (w_mem w) \<Longrightarrow> writes (w_mem w) (\<alpha> (w_mem w)) (w_mem (inject_loop S E cfg u cid ks w))"
proof (induction ks arbitrary: w)
  case Nil
  then show ?case by (simp add: writes_refl)
next
  case (Cons k ks)
  obtain r w1 where r: "on_store (sto_GetSkillArchive S (skill_ID k) u) w = (r, w1)" by (meson surj_pair)
  have 1: "writes (w_mem w) (\<alpha> (w_mem w)) (w_mem w1)"
    using on_store_result [OF r] GetSkillArchive_writes [OF Cons.prems] by blast
  then have inv1: "inv (w_mem w1)" and a: "\<alpha> (w_mem w1) = \<alpha> (w_mem w)" by (simp_all add: writes_def)
  show ?case
  proof (cases r)
    case (Inl e)
    with Cons.IH [OF inv1] show ?thesis
      unfolding a by (simp add: r writes_trans [OF 1])
  next
    case (Inr ar)
    obtain x w2 where x: "on_engine (eng_ExtractArchive E cid (Skill_InstallDir k (cfg_SkillsDir cfg)) ar) w1 = (x, w2)"
      by (meson surj_pair)
    then have "w_mem w2 = w_mem w1" by (rule on_engine_mem)
    with Cons.IH [of w2] inv1 show ?thesis
      by (simp add: r Inr x a writes_trans [OF 1])
  qed
qed

lemma injectSkills_writes:
  assumes "inv (w_mem w)"
  shows "writes (w_mem w) (\<alpha> (w_mem w)) (w_mem (injectSkills S E cfg u cid w))"
proof -
  obtain r w1 where r: "on_store (sto_ListSkills S u) w = (r, w1)" by (meson surj_pair)
  have 1: "writes (w_mem w) (\<alpha> (w_mem w)) (w_mem w1)"
    using on_store_result [OF r] ListSkills_writes [OF assms] by blast
  then have "inv (w_mem w1)" "\<alpha> (w_mem w1) = \<alpha> (w_mem w)" by (simp_all add: writes_def)
  with 1 inject_loop_writes [of w1] show ?thesis
    by (cases r) (auto simp: injectSkills_def r intro: writes_trans)
qed

lemma resolve_image_allowed:
  assumes "resolve_image S cfg u input w = (Inr req, w')" and "ci_SnapshotID input = []"
    and "cfg_AllowedImages cfg \<noteq> []"
  shows "ci_Image (apply_defaults cfg req) \<in> set (cfg_AllowedImages cfg)"
  using assms by (auto simp: resolve_image_def apply_defaults_def imageAllowed_iff split: if_splits)

lemma record_cases:
  assumes "CreateEnvironment_record S cfg now uuid t u input w = (r, w')"
  obtains (image) e where "resolve_image S cfg u input w = (Inl e, w')" "r = Inl e"
  | (limits) req e where "resolve_image S cfg u input w = (Inr req, w')"
      "check_limits (apply_defaults cfg req) = Some e" "r = Inl e"
  | (create) req w1 p w2 x where "resolve_image S cfg u input w = (Inr req, w1)"
      "check_limits (apply_defaults cfg req) = None"
      "alloc_env (build_environment cfg now uuid t u (apply_defaults cfg req)) w1 = (p, w2)"
      "on_store (sto_Create S p) w2 = (x, w')"
      "r = (case x of None \<Rightarrow> Inr p | Some e \<Rightarrow> Inl (Wrapped ErrCreateEnvironment e))"
  using assms
  by (auto simp: CreateEnvironment_record_def Let_def split: prod.splits sum.splits option.splits)

text \<open>The state in which \<open>store.Create\<close> is called.\<close>

lemma before_create:
  assumes "inv (w_mem w)" and "resolve_image S cfg u input w = (Inr req, w1)" and "alloc_env e w1 = (p, w2)"
  shows "reads (w_mem w) (w_mem w2)" "p < length (fst (w_mem w2))" "deref p w2 = e" "w_eng w2 = w_eng w"
    "\<alpha> (w_mem w2) = \<alpha> (w_mem w)" "stable (snd (w_mem w)) (snd (w_mem w2))" "inv (w_mem w2)"
proof -
  have 1: "writes (w_mem w) (\<alpha> (w_mem w)) (w_mem w1)" "w_eng w1 = w_eng w"
    using resolve_image_writes [OF assms(1,2)] by auto
  have p: "p = length (fst (w_mem w1))" and w2: "w2 = w1\<lparr>w_mem := (fst (w_mem w1) @ [e], snd (w_mem w1))\<rparr>"
    using assms(3) by (auto simp: alloc_env_def new_env_def)
  have "inv (w_mem w1)" using 1 by (simp add: writes_def)
  then have "reads (w_mem w1) (w_mem w2)"
    using alloc [of "fst (w_mem w1)" "snd (w_mem w1)" e] by (simp add: w2)
  with writes_same [OF 1(1)] show r: "reads (w_mem w) (w_mem w2)" by (rule reads_trans)
  then show "\<alpha> (w_mem w2) = \<alpha> (w_mem w)" "stable (snd (w_mem w)) (snd (w_mem w2))" "inv (w_mem w2)"
    by (simp_all add: reads_def)
  show "p < length (fst (w_mem w2))" "deref p w2 = e" "w_eng w2 = w_eng w"
    using 1(2) by (simp_all add: p w2 deref_def)
qed

lemma record_ok:
  assumes "inv (w_mem w)" and "a_envs (\<alpha> (w_mem w)) (new_ID ''env_'' uuid) = None"
    and "CreateEnvironment_record S cfg now uuid t u input w = (Inr p, w')"
  shows "\<exists>req. check_limits req = None \<and> deref p w' = build_environment cfg now uuid t u req \<and>
      (ci_SnapshotID input = [] \<longrightarrow> cfg_AllowedImages cfg \<noteq> [] \<longrightarrow> ci_Image req \<in> set (cfg_AllowedImages cfg))"
    and "keeps u (w_mem w) (w_mem w')" and "held p (w_mem w')" and "w_eng w' = w_eng w"
    and "\<alpha> (w_mem w') = (\<alpha> (w_mem w))\<lparr>a_envs := (a_envs (\<alpha> (w_mem w)))(new_ID ''env_'' uuid \<mapsto>
      nenv (snd (w_mem w)) (deref p w'))\<rparr>"
proof -
  obtain req w1 w2 where st: "resolve_image S cfg u input w = (Inr req, w1)"
      "check_limits (apply_defaults cfg req) = None"
      "alloc_env (build_environment cfg now uuid t u (apply_defaults cfg req)) w1 = (p, w2)"
      "on_store (sto_Create S p) w2 = (None, w')"
    using assms(3) by (rule record_cases) (auto split: option.splits)
  note b = before_create [OF assms(1) st(1,3)]
  have c: "sto_Create S p (w_mem w2) = (None, w_mem w')" "w_eng w' = w_eng w2"
    using on_store_result [OF st(4)] by simp_all
  have new: "a_envs (\<alpha> (w_mem w2)) (env_ID (fst (w_mem w2) ! p)) = None"
    using assms(2) b(3,5) by (simp add: deref_def)
  have h: "fst (w_mem w') = fst (w_mem w2)" "held p (w_mem w')"
    using Create_held [OF b(7,2) new c(1)] by auto
  then have d: "deref p w' = build_environment cfg now uuid t u (apply_defaults cfg req)"
    using b(3) by (simp add: deref_def)
  with st(2) resolve_image_allowed [OF st(1)]
  show "\<exists>req. check_limits req = None \<and> deref p w' = build_environment cfg now uuid t u req \<and>
      (ci_SnapshotID input = [] \<longrightarrow> cfg_AllowedImages cfg \<noteq> [] \<longrightarrow> ci_Image req \<in> set (cfg_AllowedImages cfg))"
    by blast
  show "keeps u (w_mem w) (w_mem w')"
    using Create_keeps [OF b(7,2) new _ c(1), of u] b(3) reads_keeps [OF b(1)]
    by (auto simp: deref_def intro: keeps_trans)
  show "held p (w_mem w')" "w_eng w' = w_eng w" using h(2) c(2) b(4) by simp_all
  show "\<alpha> (w_mem w') = (\<alpha> (w_mem w))\<lparr>a_envs := (a_envs (\<alpha> (w_mem w)))(new_ID ''env_'' uuid \<mapsto>
      nenv (snd (w_mem w)) (deref p w'))\<rparr>"
    using Create_ok [OF b(7,2) new c(1)] b(3,5,6) d
    by (simp add: writes_def deref_def stable_nenv)
qed

lemma record_err:
  assumes "inv (w_mem w)" and "a_envs (\<alpha> (w_mem w)) (new_ID ''env_'' uuid) = None"
    and "CreateEnvironment_record S cfg now uuid t u input w = (Inl e, w')"
  shows "keeps u (w_mem w) (w_mem w')" and "w_eng w' = w_eng w"
    and "healthy (snd (w_mem w)) \<Longrightarrow> \<alpha> (w_mem w') = \<alpha> (w_mem w) \<and> \<not> errors_Is e ErrCreateEnvironment"
proof -
  have "keeps u (w_mem w) (w_mem w') \<and> w_eng w' = w_eng w \<and>
    (healthy (snd (w_mem w)) \<longrightarrow> \<alpha> (w_mem w') = \<alpha> (w_mem w) \<and> \<not> errors_Is e ErrCreateEnvironment)"
    using assms(3)
  proof (cases rule: record_cases)
    case (image e')
    moreover have "\<not> errors_Is e ErrCreateEnvironment"
      using image by (auto simp: resolve_image_def lookup_error_def split: if_splits prod.splits sum.splits)
    ultimately show ?thesis
      using resolve_image_writes [OF assms(1) image(1)] writes_keeps [of "w_mem w" _ "w_mem w'" u]
      by (auto simp: writes_def)
  next
    case (limits req e')
    moreover have "\<not> errors_Is e ErrCreateEnvironment"
      using limits by (auto simp: check_limits_def split: if_splits)
    ultimately show ?thesis
      using resolve_image_writes [OF assms(1) limits(1)] writes_keeps [of "w_mem w" _ "w_mem w'" u]
      by (auto simp: writes_def)
  next
    case (create req w1 p w2 x)
    note b = before_create [OF assms(1) create(1,3)]
    have new: "a_envs (\<alpha> (w_mem w2)) (env_ID (fst (w_mem w2) ! p)) = None"
      using assms(2) b(3,5) by (simp add: deref_def)
    obtain er where c: "sto_Create S p (w_mem w2) = (Some er, w_mem w')" "w_eng w' = w_eng w2"
      using on_store_result [OF create(4)] create(5) by (auto split: option.splits)
    have "\<not> healthy (snd (w_mem w2))"
      using Create_err [OF b(7,2) new c(1)] by (simp add: crashes_def)
    then have "\<not> healthy (snd (w_mem w))" using b(6) by (auto simp: stable_def)
    moreover have "keeps u (w_mem w) (w_mem w')"
      using Create_keeps [OF b(7,2) new _ c(1), of u] b(3) reads_keeps [OF b(1)]
      by (auto simp: deref_def intro: keeps_trans)
    ultimately show ?thesis using c(2) b(4) by simp
  qed
  then show "keeps u (w_mem w) (w_mem w')" "w_eng w' = w_eng w"
    "healthy (snd (w_mem w)) \<Longrightarrow> \<alpha> (w_mem w') = \<alpha> (w_mem w) \<and> \<not> errors_Is e ErrCreateEnvironment" by auto
qed

end

lemma container_cases:
  assumes "CreateEnvironment_container S E cfg u p w = (r, w')"
  obtains (failed) err w1 x where "on_engine (eng_CreateContainer E (deref p w)) w = (Inl err, w1)"
      "on_store (sto_Delete S (env_ID (deref p w1)) u) w1 = (x, w')" "r = Inl (Wrapped ErrCreateContainer err)"
  | (dead) cid w1 err w2 y w3 x where "on_engine (eng_CreateContainer E (deref p w)) w = (Inr cid, w1)"
      "on_engine (eng_StartContainer E cid) (assign_env p ((deref p w1)\<lparr>env_ContainerID := cid\<rparr>) w1) = (Some err, w2)"
      "on_engine (eng_StopContainer E cid) w2 = (y, w3)"
      "on_store (sto_Delete S (env_ID (deref p w3)) u) w3 = (x, w')" "r = Inl (Wrapped ErrStartContainer err)"
  | (up) cid w1 w2 w3 x where "on_engine (eng_CreateContainer E (deref p w)) w = (Inr cid, w1)"
      "on_engine (eng_StartContainer E cid) (assign_env p ((deref p w1)\<lparr>env_ContainerID := cid\<rparr>) w1) = (None, w2)"
      "w3 = injectSkills S E cfg u cid w2"
      "on_store (sto_Update S p) (assign_env p ((deref p w3)\<lparr>env_Status := StatusRunning\<rparr>) w3) = (x, w')" "r = Inr p"
  using assms
  by (auto simp: CreateEnvironment_container_def Let_def split: prod.splits sum.splits option.splits)

context store_client
begin

text \<open>The container exists: the pointer carries its ID.\<close>

lemma after_container:
  fixes cid :: string
  assumes "inv (w_mem w)" and "held p (w_mem w)" and "w_mem w1 = w_mem w"
  defines "e \<equiv> (deref p w1)\<lparr>env_ContainerID := cid\<rparr>"
  defines "w2 \<equiv> assign_env p e w1"
  shows "keeps (env_UserID (deref p w)) (w_mem w) (w_mem w2)" "held p (w_mem w2)" "inv (w_mem w2)"
    "deref p w2 = (deref p w)\<lparr>env_ContainerID := cid\<rparr>" "snd (w_mem w2) = snd (w_mem w)"
    "a_envs (\<alpha> (w_mem w)) (env_ID (deref p w)) = Some old \<Longrightarrow> \<exists>v. \<alpha> (w_mem w2) =
      (\<alpha> (w_mem w))\<lparr>a_envs := (a_envs (\<alpha> (w_mem w)))(env_ID (deref p w) \<mapsto> v)\<rparr>"
proof -
  have d: "deref p w1 = deref p w" using assms(3) by (rule deref_mem)
  have a: "inv (w_mem w1)" "held p (w_mem w1)" using assms(1-3) by simp_all
  have s: "same_identity e (deref p w1)" by (simp add: e_def same_identity_def)
  note as = assign_world [OF a s, folded w2_def]
  show "keeps (env_UserID (deref p w)) (w_mem w) (w_mem w2)" "held p (w_mem w2)" "inv (w_mem w2)"
    "deref p w2 = (deref p w)\<lparr>env_ContainerID := cid\<rparr>" "snd (w_mem w2) = snd (w_mem w)"
    using as assms(3) by (simp_all add: e_def d)
  show "\<exists>v. \<alpha> (w_mem w2) = (\<alpha> (w_mem w))\<lparr>a_envs := (a_envs (\<alpha> (w_mem w)))(env_ID (deref p w) \<mapsto> v)\<rparr>"
    if "a_envs (\<alpha> (w_mem w)) (env_ID (deref p w)) = Some old"
    using assign_abs [OF a s, folded w2_def, of old] that assms(3) by (simp add: e_def d)
qed

lemma container_keeps:
  assumes "inv (w_mem w)" and "held p (w_mem w)" and "env_UserID (deref p w) = u" and "u \<noteq> []"
    and "CreateEnvironment_container S E cfg u p w = (r, w')"
  shows "keeps u (w_mem w) (w_mem w')"
  using assms(5)
proof (cases rule: container_cases)
  case (failed err w1 x)
  then show ?thesis
    using Delete_keeps [OF assms(1,4)] on_engine_mem [OF failed(1)] on_store_result [OF failed(2)] by metis
next
  case (dead cid w1 err w2 y w3 x)
  note ac = after_container [where cid = cid, OF assms(1,2) on_engine_mem [OF dead(1)]]
  have "w_mem w3 = w_mem (assign_env p ((deref p w1)\<lparr>env_ContainerID := cid\<rparr>) w1)"
    using on_engine_mem [OF dead(2)] on_engine_mem [OF dead(3)] by simp
  then show ?thesis
    using ac(1,3) Delete_keeps [OF _ assms(4)] on_store_result [OF dead(4)] assms(3) by (metis keeps_trans)
next
  case (up cid w1 w2 w3 x)
  note ac = after_container [where cid = cid, OF assms(1,2) on_engine_mem [OF up(1)]]
  have m2: "w_mem w2 = w_mem (assign_env p ((deref p w1)\<lparr>env_ContainerID := cid\<rparr>) w1)"
    using on_engine_mem [OF up(2)] .
  have 3: "writes (w_mem w2) (\<alpha> (w_mem w2)) (w_mem w3)"
    using injectSkills_writes [of w2] ac(3) m2 up(3) by simp
  have h3: "held p (w_mem w3)" "inv (w_mem w3)"
    using writes_held [OF 3] ac(2) m2 3 by (simp_all add: writes_def)
  have d3: "env_UserID (deref p w3) = u"
    using 3 ac(4) m2 assms(3) by (simp add: writes_def deref_def)
  have s: "same_identity ((deref p w3)\<lparr>env_Status := StatusRunning\<rparr>) (deref p w3)"
    by (simp add: same_identity_def)
  note as = assign_world [OF h3(2,1) s]
  have "keeps u (w_mem (assign_env p ((deref p w3)\<lparr>env_Status := StatusRunning\<rparr>) w3)) (w_mem w')"
    using Update_keeps [OF as(3,2)] on_store_result [OF up(4)] as(4) d3 by (simp add: deref_def)
  moreover have "keeps u (w_mem w3) (w_mem (assign_env p ((deref p w3)\<lparr>env_Status := StatusRunning\<rparr>) w3))"
    using as(1) d3 by simp
  moreover have "keeps u (w_mem w) (w_mem w3)"
    using ac(1) writes_keeps [OF 3] assms(3) m2 by (metis keeps_trans)
  ultimately show ?thesis by (metis keeps_trans)
qed

text \<open>On a healthy store: a failure removes the record, a success leaves it running.\<close>

lemma delete_after:
  assumes "inv m" and "healthy (snd m)" and "\<alpha> m = A\<lparr>a_envs := (a_envs A)(i \<mapsto> v)\<rparr>" and "scoped u (env_UserID v)"
    and "sto_Delete S i u m = (x, m')"
  shows "\<alpha> m' = A\<lparr>a_envs := (a_envs A)(i := None)\<rparr>"
proof -
  have "owned_env (a_envs (\<alpha> m)) i u" using assms(3,4) by (simp add: owned_env_def)
  from Delete_healthy [OF assms(1,2) this] assms(3,5) show ?thesis by (auto simp: writes_def)
qed

lemma held_owner:
  assumes "held p m" and "\<alpha> m = A\<lparr>a_envs := (a_envs A)(env_ID (fst m ! p) \<mapsto> v)\<rparr>"
  shows "env_UserID v = env_UserID (fst m ! p)"
  using assms by (auto simp: held_def same_identity_def)

lemma container_failure:
  assumes "inv (w_mem w)" and "held p (w_mem w)" and "env_UserID (deref p w) = u" and "healthy (snd (w_mem w))"
    and "a_envs (\<alpha> (w_mem w)) (env_ID (deref p w)) = Some old"
    and "CreateEnvironment_container S E cfg u p w = (Inl er, w')"
  shows "\<alpha> (w_mem w') = (\<alpha> (w_mem w))\<lparr>a_envs := (a_envs (\<alpha> (w_mem w)))(env_ID (deref p w) := None)\<rparr>"
  using assms(6)
proof (cases rule: container_cases)
  case (failed err w1 x)
  have m1: "w_mem w1 = w_mem w" using on_engine_mem [OF failed(1)] .
  have "\<alpha> (w_mem w) = (\<alpha> (w_mem w))\<lparr>a_envs := (a_envs (\<alpha> (w_mem w)))(env_ID (deref p w) \<mapsto> old)\<rparr>"
    using assms(5) by (cases "\<alpha> (w_mem w)") (auto simp: fun_eq_iff)
  moreover have "scoped u (env_UserID old)"
    using assms(2,3,5) by (auto simp: held_def same_identity_def deref_def)
  ultimately show ?thesis
    using delete_after [OF assms(1,4)] on_store_result [OF failed(2)] m1 deref_mem [OF m1] by metis
next
  case (dead cid w1 err w2 y w3 x)
  note ac = after_container [where cid = cid, OF assms(1,2) on_engine_mem [OF dead(1)]]
  have m3: "w_mem w3 = w_mem (assign_env p ((deref p w1)\<lparr>env_ContainerID := cid\<rparr>) w1)"
    using on_engine_mem [OF dead(2)] on_engine_mem [OF dead(3)] by simp
  have d3: "deref p w3 = (deref p w)\<lparr>env_ContainerID := cid\<rparr>"
    using ac(4) deref_mem [OF m3] by simp
  obtain v where v: "\<alpha> (w_mem w3) = (\<alpha> (w_mem w))\<lparr>a_envs := (a_envs (\<alpha> (w_mem w)))(env_ID (deref p w) \<mapsto> v)\<rparr>"
    using ac(6) [OF assms(5)] m3 by auto
  have "env_UserID v = u"
    using held_owner [of p "w_mem w3" "\<alpha> (w_mem w)" v] ac(2) m3 v d3 assms(3) by (simp add: deref_def)
  moreover have "inv (w_mem w3)" "healthy (snd (w_mem w3))" using ac(3,5) m3 assms(4) by simp_all
  ultimately show ?thesis
    using delete_after [OF _ _ v, of u x "w_mem w'"] on_store_result [OF dead(4)] d3 by simp
qed simp_all

lemma Delete_any:
  assumes "inv m" and "sto_Delete S i u m = (r, m')"
  shows "\<alpha> m' = \<alpha> m \<or> \<alpha> m' = (\<alpha> m)\<lparr>a_envs := (a_envs (\<alpha> m))(i := None)\<rparr>"
  using assms(2) Delete_ok [OF assms(1), of i u m'] Delete_err [OF assms(1), of i u _ m']
  by (cases r) (auto simp: writes_def crashes_def split: if_splits)

lemma Update_any:
  assumes "inv m" and "held p m" and "a_envs (\<alpha> m) (env_ID (fst m ! p)) = Some old" and "sto_Update S p m = (r, m')"
  shows "fst m' = fst m" and "\<exists>v. env_UserID v = env_UserID (fst m ! p) \<and>
    \<alpha> m' = (\<alpha> m)\<lparr>a_envs := (a_envs (\<alpha> m))(env_ID (fst m ! p) \<mapsto> v)\<rparr>"
proof -
  let ?e = "fst m ! p"
  have p: "p < length (fst m)" and same: "same_identity old (nenv (snd m) ?e)"
    using assms(2,3) by (simp_all add: held_def)
  have "\<alpha> m' = \<alpha> m \<or> \<alpha> m' = (\<alpha> m)\<lparr>a_envs := (a_envs (\<alpha> m))(env_ID ?e \<mapsto> nenv (snd m) ?e)\<rparr>"
    using assms(3,4) same Update_ok [OF assms(1) p, of m'] Update_err [OF assms(1) p, of _ m']
    by (cases r) (auto simp: crashes_def writes_def)
  moreover have "\<alpha> m = (\<alpha> m)\<lparr>a_envs := (a_envs (\<alpha> m))(env_ID ?e \<mapsto> old)\<rparr>"
    using assms(3) by (cases "\<alpha> m") (auto simp: fun_eq_iff)
  moreover have "env_UserID old = env_UserID ?e" using same by (simp add: same_identity_def)
  ultimately show "\<exists>v. env_UserID v = env_UserID ?e \<and> \<alpha> m' = (\<alpha> m)\<lparr>a_envs := (a_envs (\<alpha> m))(env_ID ?e \<mapsto> v)\<rparr>"
    by (metis nenv_fields(2))
  show "fst m' = fst m" by (rule Update_held [OF assms(1,2,4)])
qed

text \<open>The container runs: what is left is the \<open>Update\<close> of the record.\<close>

lemma container_up:
  assumes "inv (w_mem w)" and "held p (w_mem w)" and "a_envs (\<alpha> (w_mem w)) (env_ID (deref p w)) = Some old"
    and "CreateEnvironment_container S E cfg u p w = (Inr q, w')"
  obtains cid m v x where "q = p" "inv m" "held p m" "fst m ! p = running_env (deref p w) cid"
    "\<alpha> m = (\<alpha> (w_mem w))\<lparr>a_envs := (a_envs (\<alpha> (w_mem w)))(env_ID (deref p w) \<mapsto> v)\<rparr>"
    "stable (snd (w_mem w)) (snd m)" "sto_Update S p m = (x, w_mem w')"
proof -
  obtain cid w1 w2 w3 x where q: "q = p" and st: "on_engine (eng_CreateContainer E (deref p w)) w = (Inr cid, w1)"
      "on_engine (eng_StartContainer E cid) (assign_env p ((deref p w1)\<lparr>env_ContainerID := cid\<rparr>) w1) = (None, w2)"
      "w3 = injectSkills S E cfg u cid w2"
      "on_store (sto_Update S p) (assign_env p ((deref p w3)\<lparr>env_Status := StatusRunning\<rparr>) w3) = (x, w')"
    using assms(4) by (rule container_cases) auto
  note ac = after_container [where cid = cid, OF assms(1,2) on_engine_mem [OF st(1)]]
  let ?w5 = "assign_env p ((deref p w3)\<lparr>env_Status := StatusRunning\<rparr>) w3"
  have m2: "w_mem w2 = w_mem (assign_env p ((deref p w1)\<lparr>env_ContainerID := cid\<rparr>) w1)"
    using on_engine_mem [OF st(2)] .
  have 3: "writes (w_mem w2) (\<alpha> (w_mem w2)) (w_mem w3)"
    using injectSkills_writes [of w2] ac(3) m2 st(3) by simp
  have h3: "held p (w_mem w3)" "inv (w_mem w3)"
    using writes_held [OF 3] ac(2) m2 3 by (simp_all add: writes_def)
  have d3: "deref p w3 = (deref p w)\<lparr>env_ContainerID := cid\<rparr>"
    using 3 ac(4) m2 by (simp add: writes_def deref_def)
  have s: "same_identity ((deref p w3)\<lparr>env_Status := StatusRunning\<rparr>) (deref p w3)"
    by (simp add: same_identity_def)
  note as = assign_world [OF h3(2,1) s]
  obtain v where v: "\<alpha> (w_mem w3) = (\<alpha> (w_mem w))\<lparr>a_envs := (a_envs (\<alpha> (w_mem w)))(env_ID (deref p w) \<mapsto> v)\<rparr>"
    using ac(6) [OF assms(3)] m2 3 by (auto simp: writes_def)
  obtain v' where v': "\<alpha> (w_mem ?w5) = (\<alpha> (w_mem w))\<lparr>a_envs := (a_envs (\<alpha> (w_mem w)))(env_ID (deref p w) \<mapsto> v')\<rparr>"
    using assign_abs [OF h3(2,1) s, of v] v d3 by auto
  have "stable (snd (w_mem w)) (snd (w_mem ?w5))" using as(6) 3 m2 ac(5) by (simp add: writes_def)
  moreover have "fst (w_mem ?w5) ! p = running_env (deref p w) cid" using as(4) d3 by (simp add: running_env_def deref_def)
  ultimately show thesis
    using that [OF q as(3,2) _ v'] on_store_result [OF st(4)] by blast
qed

lemma container_success:
  assumes "inv (w_mem w)" and "held p (w_mem w)" and "a_envs (\<alpha> (w_mem w)) (env_ID (deref p w)) = Some old"
    and "CreateEnvironment_container S E cfg u p w = (Inr q, w')"
  shows "q = p" and "\<exists>cid v. deref p w' = running_env (deref p w) cid \<and> env_UserID v = env_UserID (deref p w) \<and>
    \<alpha> (w_mem w') = (\<alpha> (w_mem w))\<lparr>a_envs := (a_envs (\<alpha> (w_mem w)))(env_ID (deref p w) \<mapsto> v)\<rparr> \<and>
    (healthy (snd (w_mem w)) \<longrightarrow> v = nenv (snd (w_mem w)) (deref p w'))"
proof -
  from assms obtain cid m v x where u: "q = p" "inv m" "held p m" and d5: "fst m ! p = running_env (deref p w) cid"
    and a: "\<alpha> m = (\<alpha> (w_mem w))\<lparr>a_envs := (a_envs (\<alpha> (w_mem w)))(env_ID (deref p w) \<mapsto> v)\<rparr>"
      "stable (snd (w_mem w)) (snd m)" "sto_Update S p m = (x, w_mem w')"
    by (rule container_up)
  show "q = p" by (rule u(1))
  have old: "a_envs (\<alpha> m) (env_ID (fst m ! p)) = Some v" using a(1) d5 by (simp add: running_env_def)
  note any = Update_any [OF u(2,3) old a(3)]
  have d: "deref p w' = running_env (deref p w) cid" using any(1) d5 by (simp add: deref_def)
  show "\<exists>cid v. deref p w' = running_env (deref p w) cid \<and> env_UserID v = env_UserID (deref p w) \<and>
    \<alpha> (w_mem w') = (\<alpha> (w_mem w))\<lparr>a_envs := (a_envs (\<alpha> (w_mem w)))(env_ID (deref p w) \<mapsto> v)\<rparr> \<and>
    (healthy (snd (w_mem w)) \<longrightarrow> v = nenv (snd (w_mem w)) (deref p w'))"
  proof (cases "healthy (snd (w_mem w))")
    case True
    then have "healthy (snd m)" using a(2) by (simp add: stable_def)
    from Update_healthy [OF u(2) this u(3) old] a(3)
    have "\<alpha> (w_mem w') = (\<alpha> (w_mem w))\<lparr>a_envs := (a_envs (\<alpha> (w_mem w)))(env_ID (deref p w) \<mapsto>
        nenv (snd (w_mem w)) (running_env (deref p w) cid))\<rparr>"
      using a(1) stable_nenv [OF a(2)] by (auto simp: writes_def d5 running_env_def)
    then show ?thesis using d by (intro exI [of _ cid] exI [of _ "nenv (snd (w_mem w)) (deref p w')"]) (simp add: running_env_def)
  next
    case False
    with any(2) a(1) d d5 show ?thesis by (auto simp: running_env_def)
  qed
qed

text \<open>The whole operation.\<close>

lemma record_entry:
  assumes "inv (w_mem w)" and "a_envs (\<alpha> (w_mem w)) (new_ID ''env_'' uuid) = None"
    and "CreateEnvironment_record S cfg now uuid t u input w = (Inr p, w1)"
  shows "env_ID (deref p w1) = new_ID ''env_'' uuid" "env_UserID (deref p w1) = u"
    "a_envs (\<alpha> (w_mem w1)) (env_ID (deref p w1)) = Some (nenv (snd (w_mem w)) (deref p w1))"
    "inv (w_mem w1)" "stable (snd (w_mem w)) (snd (w_mem w1))"
  using record_ok(1,2,5) [OF assms] by (auto simp: keeps_def)

lemma record_leaves:
  assumes "inv (w_mem w)" and "a_envs (\<alpha> (w_mem w)) (new_ID ''env_'' uuid) = None"
    and "CreateEnvironment_record S cfg now uuid t u input w = (Inl er, w')"
  shows "\<exists>v. \<alpha> (w_mem w') = (\<alpha> (w_mem w))\<lparr>a_envs := (a_envs (\<alpha> (w_mem w)))(new_ID ''env_'' uuid := v)\<rparr> \<and>
    (\<forall>e. v = Some e \<longrightarrow> env_UserID e = u)"
proof -
  have none: "\<alpha> (w_mem w) = (\<alpha> (w_mem w))\<lparr>a_envs := (a_envs (\<alpha> (w_mem w)))(new_ID ''env_'' uuid := None)\<rparr>"
    using assms(2) by (cases "\<alpha> (w_mem w)") (auto simp: fun_eq_iff)
  have same: ?thesis if "\<alpha> (w_mem w') = \<alpha> (w_mem w)"
    by (rule exI [of _ None]) (use that none in simp)
  show ?thesis
    using assms(3)
  proof (cases rule: record_cases)
    case (image e')
    then show ?thesis using same resolve_image_writes [OF assms(1) image(1)] by (simp add: writes_def)
  next
    case (limits req e')
    then show ?thesis using same resolve_image_writes [OF assms(1) limits(1)] by (simp add: writes_def)
  next
    case (create req w1 p w2 x)
    note b = before_create [OF assms(1) create(1,3)]
    have new: "a_envs (\<alpha> (w_mem w2)) (env_ID (fst (w_mem w2) ! p)) = None"
      using assms(2) b(3,5) by (simp add: deref_def)
    obtain e' where c: "sto_Create S p (w_mem w2) = (Some e', w_mem w')"
      using on_store_result [OF create(4)] create(5) by (auto split: option.splits)
    have d: "env_ID (fst (w_mem w2) ! p) = new_ID ''env_'' uuid" "env_UserID (fst (w_mem w2) ! p) = u"
      using b(3) by (simp_all add: deref_def)
    from Create_err [OF b(7,2) new c] consider "\<alpha> (w_mem w') = \<alpha> (w_mem w)"
      | "\<alpha> (w_mem w') = (\<alpha> (w_mem w))\<lparr>a_envs := (a_envs (\<alpha> (w_mem w)))(new_ID ''env_'' uuid \<mapsto> nenv (snd (w_mem w2)) (fst (w_mem w2) ! p))\<rparr>"
      by (auto simp: crashes_def writes_def b(5) d)
    then show ?thesis
    proof cases
      case 2
      then show ?thesis using d by (intro exI [of _ "Some (nenv (snd (w_mem w2)) (fst (w_mem w2) ! p))"]) simp
    qed (rule same)
  qed
qed

lemma container_leaves:
  assumes "inv (w_mem w)" and "held p (w_mem w)" and "env_UserID (deref p w) = u"
    and "a_envs (\<alpha> (w_mem w)) (env_ID (deref p w)) = Some old"
    and "CreateEnvironment_container S E cfg u p w = (Inl er, w')"
  shows "\<exists>v. \<alpha> (w_mem w') = (\<alpha> (w_mem w))\<lparr>a_envs := (a_envs (\<alpha> (w_mem w)))(env_ID (deref p w) := v)\<rparr> \<and>
    (\<forall>e. v = Some e \<longrightarrow> env_UserID e = u)"
  using assms(5)
proof (cases rule: container_cases)
  case (failed err w1 x)
  have m1: "w_mem w1 = w_mem w" using on_engine_mem [OF failed(1)] .
  have o: "\<alpha> (w_mem w) = (\<alpha> (w_mem w))\<lparr>a_envs := (a_envs (\<alpha> (w_mem w)))(env_ID (deref p w) \<mapsto> old)\<rparr>"
    using assms(4) by (cases "\<alpha> (w_mem w)") (auto simp: fun_eq_iff)
  have u: "env_UserID old = u" using assms(2,3,4) by (auto simp: held_def same_identity_def deref_def)
  have "\<alpha> (w_mem w') = \<alpha> (w_mem w) \<or> \<alpha> (w_mem w') = (\<alpha> (w_mem w))\<lparr>a_envs := (a_envs (\<alpha> (w_mem w)))(env_ID (deref p w) := None)\<rparr>"
    using Delete_any [OF assms(1)] on_store_result [OF failed(2)] m1 deref_mem [OF m1] by metis
  then show ?thesis
  proof
    assume "\<alpha> (w_mem w') = \<alpha> (w_mem w)"
    with o u show ?thesis by (intro exI [of _ "Some old"]) simp
  qed (intro exI [of _ None], simp)
next
  case (dead cid w1 err w2 y w3 x)
  note ac = after_container [where cid = cid, OF assms(1,2) on_engine_mem [OF dead(1)]]
  have m3: "w_mem w3 = w_mem (assign_env p ((deref p w1)\<lparr>env_ContainerID := cid\<rparr>) w1)"
    using on_engine_mem [OF dead(2)] on_engine_mem [OF dead(3)] by simp
  have d3: "deref p w3 = (deref p w)\<lparr>env_ContainerID := cid\<rparr>"
    using ac(4) deref_mem [OF m3] by simp
  obtain v where v: "\<alpha> (w_mem w3) = (\<alpha> (w_mem w))\<lparr>a_envs := (a_envs (\<alpha> (w_mem w)))(env_ID (deref p w) \<mapsto> v)\<rparr>"
    using ac(6) [OF assms(4)] m3 by auto
  have u: "env_UserID v = u"
    using held_owner [of p "w_mem w3" "\<alpha> (w_mem w)" v] ac(2) m3 v d3 assms(3) by (simp add: deref_def)
  have "inv (w_mem w3)" using ac(3) m3 by simp
  from Delete_any [OF this, of "env_ID (deref p w)" u x "w_mem w'"] on_store_result [OF dead(4)] d3
  have "\<alpha> (w_mem w') = \<alpha> (w_mem w3) \<or> \<alpha> (w_mem w') = (\<alpha> (w_mem w3))\<lparr>a_envs := (a_envs (\<alpha> (w_mem w3)))(env_ID (deref p w) := None)\<rparr>"
    by simp
  then show ?thesis
  proof
    assume "\<alpha> (w_mem w') = \<alpha> (w_mem w3)"
    with v u show ?thesis by (intro exI [of _ "Some v"]) simp
  qed (intro exI [of _ None], simp add: v)
qed simp

lemma CreateEnvironment_keeps:
  assumes "inv (w_mem w)" and "a_envs (\<alpha> (w_mem w)) (new_ID ''env_'' uuid) = None" and "u \<noteq> []"
    and "CreateEnvironment S E cfg now uuid t u input w = (r, w')"
  shows "keeps u (w_mem w) (w_mem w')"
proof -
  obtain q w1 where q: "CreateEnvironment_record S cfg now uuid t u input w = (q, w1)" by (meson surj_pair)
  show ?thesis
  proof (cases q)
    case (Inl e)
    with assms(4) q have "w' = w1" by (simp add: CreateEnvironment_def)
    with record_err(1) [OF assms(1,2) q [unfolded Inl]] show ?thesis by simp
  next
    case (Inr p)
    note q' = q [unfolded Inr]
    have "CreateEnvironment_container S E cfg u p w1 = (r, w')"
      using assms(4) q' by (simp add: CreateEnvironment_def)
    with container_keeps [OF record_entry(4) [OF assms(1,2) q'] record_ok(3) [OF assms(1,2) q']
        record_entry(2) [OF assms(1,2) q'] assms(3)] record_ok(2) [OF assms(1,2) q']
    show ?thesis by (metis keeps_trans)
  qed
qed

lemma CreateEnvironment_failure:
  assumes "inv (w_mem w)" and "a_envs (\<alpha> (w_mem w)) (new_ID ''env_'' uuid) = None" and "healthy (snd (w_mem w))"
    and "CreateEnvironment S E cfg now uuid t u input w = (Inl e, w')"
  shows "\<alpha> (w_mem w') = \<alpha> (w_mem w)"
proof -
  obtain q w1 where q: "CreateEnvironment_record S cfg now uuid t u input w = (q, w1)" by (meson surj_pair)
  show ?thesis
  proof (cases q)
    case (Inl e')
    with assms(4) q have "w' = w1" by (simp add: CreateEnvironment_def)
    with record_err(3) [OF assms(1,2) q [unfolded Inl] assms(3)] show ?thesis by simp
  next
    case (Inr p)
    note q' = q [unfolded Inr]
    note en = record_entry [OF assms(1,2) q']
    have c: "CreateEnvironment_container S E cfg u p w1 = (Inl e, w')"
      using assms(4) q' by (simp add: CreateEnvironment_def)
    have "healthy (snd (w_mem w1))" using en(5) assms(3) by (simp add: stable_def)
    from container_failure [OF en(4) record_ok(3) [OF assms(1,2) q'] en(2) this en(3) c]
    have "\<alpha> (w_mem w') = (\<alpha> (w_mem w1))\<lparr>a_envs := (a_envs (\<alpha> (w_mem w1)))(new_ID ''env_'' uuid := None)\<rparr>"
      by (simp add: en(1))
    also have "\<dots> = \<alpha> (w_mem w)"
      using record_ok(5) [OF assms(1,2) q'] assms(2) by (cases "\<alpha> (w_mem w)") (auto simp: fun_eq_iff)
    finally show ?thesis .
  qed
qed

text \<open>With failures of the backend at most the record of the new environment stays behind.\<close>

lemma CreateEnvironment_failure_any:
  assumes "inv (w_mem w)" and "a_envs (\<alpha> (w_mem w)) (new_ID ''env_'' uuid) = None"
    and "CreateEnvironment S E cfg now uuid t u input w = (Inl er, w')"
  shows "\<exists>v. \<alpha> (w_mem w') = (\<alpha> (w_mem w))\<lparr>a_envs := (a_envs (\<alpha> (w_mem w)))(new_ID ''env_'' uuid := v)\<rparr> \<and>
    (\<forall>e. v = Some e \<longrightarrow> env_UserID e = u)"
proof -
  let ?i = "new_ID ''env_'' uuid"
  obtain q w1 where q: "CreateEnvironment_record S cfg now uuid t u input w = (q, w1)" by (meson surj_pair)
  show ?thesis
  proof (cases q)
    case (Inl er')
    with assms(3) q have w1: "w' = w1" by (simp add: CreateEnvironment_def)
    from record_leaves [OF assms(1,2) q [unfolded Inl]] show ?thesis unfolding w1 .
  next
    case (Inr p)
    note q' = q [unfolded Inr]
    note en = record_entry [OF assms(1,2) q']
    have c: "CreateEnvironment_container S E cfg u p w1 = (Inl er, w')"
      using assms(3) q' by (simp add: CreateEnvironment_def)
    from container_leaves [OF en(4) record_ok(3) [OF assms(1,2) q'] en(2,3) c]
    obtain v where "\<alpha> (w_mem w') = (\<alpha> (w_mem w1))\<lparr>a_envs := (a_envs (\<alpha> (w_mem w1)))(?i := v)\<rparr>"
        "\<forall>e. v = Some e \<longrightarrow> env_UserID e = u" unfolding en(1) by blast
    then show ?thesis using record_ok(5) [OF assms(1,2) q'] by (intro exI [of _ v]) simp
  qed
qed

lemma CreateEnvironment_success:
  assumes "inv (w_mem w)" and "a_envs (\<alpha> (w_mem w)) (new_ID ''env_'' uuid) = None"
    and "CreateEnvironment S E cfg now uuid t u input w = (Inr p, w')"
  shows "\<exists>req cid v. check_limits req = None \<and>
    (ci_SnapshotID input = [] \<longrightarrow> cfg_AllowedImages cfg \<noteq> [] \<longrightarrow> ci_Image req \<in> set (cfg_AllowedImages cfg)) \<and>
    deref p w' = running_env (build_environment cfg now uuid t u req) cid \<and> env_UserID v = u \<and>
    \<alpha> (w_mem w') = (\<alpha> (w_mem w))\<lparr>a_envs := (a_envs (\<alpha> (w_mem w)))(new_ID ''env_'' uuid \<mapsto> v)\<rparr> \<and>
    (healthy (snd (w_mem w)) \<longrightarrow> v = nenv (snd (w_mem w)) (deref p w'))"
proof -
  obtain p1 w1 where q: "CreateEnvironment_record S cfg now uuid t u input w = (Inr p1, w1)"
    and c: "CreateEnvironment_container S E cfg u p1 w1 = (Inr p, w')"
    using assms(3) by (auto simp: CreateEnvironment_def split: prod.splits sum.splits)
  note en = record_entry [OF assms(1,2) q]
  note cs = container_success [OF en(4) record_ok(3) [OF assms(1,2) q] en(3) c]
  obtain cid v where s: "deref p1 w' = running_env (deref p1 w1) cid" "env_UserID v = env_UserID (deref p1 w1)"
    "\<alpha> (w_mem w') = (\<alpha> (w_mem w1))\<lparr>a_envs := (a_envs (\<alpha> (w_mem w1)))(env_ID (deref p1 w1) \<mapsto> v)\<rparr>"
    "healthy (snd (w_mem w1)) \<longrightarrow> v = nenv (snd (w_mem w1)) (deref p1 w')"
    using cs(2) by blast
  obtain req where r: "check_limits req = None" "deref p1 w1 = build_environment cfg now uuid t u req"
      "ci_SnapshotID input = [] \<longrightarrow> cfg_AllowedImages cfg \<noteq> [] \<longrightarrow> ci_Image req \<in> set (cfg_AllowedImages cfg)"
    using record_ok(1) [OF assms(1,2) q] by blast
  have h: "healthy (snd (w_mem w)) \<Longrightarrow> healthy (snd (w_mem w1))" using en(5) by (simp add: stable_def)
  have "\<alpha> (w_mem w') = (\<alpha> (w_mem w))\<lparr>a_envs := (a_envs (\<alpha> (w_mem w)))(new_ID ''env_'' uuid \<mapsto> v)\<rparr>"
    using s(3) record_ok(5) [OF assms(1,2) q] en(1) by simp
  with r s h en(2) cs(1) stable_nenv [OF en(5)] show ?thesis by (metis (no_types))
qed

section \<open>Destroying and reading\<close>

lemma DestroyEnvironment_keeps:
  assumes "inv (w_mem w)" and "u \<noteq> []" and "DestroyEnvironment S E i u w = (r, w')"
  shows "keeps u (w_mem w) (w_mem w')"
proof -
  obtain q w1 where q: "on_store (sto_Get S i u) w = (q, w1)" by (meson surj_pair)
  have k: "keeps u (w_mem w) (w_mem w1)"
    using on_store_result [OF q] Get_keeps [OF assms(1)] by blast
  have m: "w_mem (snd (on_engine (eng_StopContainer E cid) w1)) = w_mem w1" for cid
    by (metis on_engine_mem surj_pair snd_conv)
  show ?thesis
  proof (cases q)
    case (Inl e)
    with k q assms(3) show ?thesis by (simp add: DestroyEnvironment_def)
  next
    case (Inr p)
    obtain w2 x where w2: "w_mem w2 = w_mem w1" "on_store (sto_Delete S i u) w2 = (x, w')"
      using assms(3) q Inr m by (auto simp: DestroyEnvironment_def Let_def split: prod.splits option.splits if_splits)
    have "keeps u (w_mem w1) (w_mem w')"
      using Delete_keeps [OF keeps_inv [OF k] assms(2)] on_store_result [OF w2(2)] w2(1) by metis
    with k show ?thesis by (rule keeps_trans)
  qed
qed

text \<open>Destroying one's own environment on a healthy store stops its container and removes exactly it.\<close>

lemma DestroyEnvironment_ok:
  assumes "inv (w_mem w)" and "healthy (snd (w_mem w))" and "a_envs (\<alpha> (w_mem w)) i = Some e"
    and "scoped u (env_UserID e)"
  shows "\<exists>w'. DestroyEnvironment S E i u w = (None, w') \<and>
    \<alpha> (w_mem w') = (\<alpha> (w_mem w))\<lparr>a_envs := (a_envs (\<alpha> (w_mem w)))(i := None)\<rparr> \<and>
    w_eng w' = (if env_ContainerID e \<noteq> [] then snd (eng_StopContainer E (env_ContainerID e) (w_eng w)) else w_eng w)"
proof -
  obtain p m1 where g: "sto_Get S i u (w_mem w) = (Inr p, m1)" "reads (w_mem w) m1" "fst m1 ! p = e"
    using Get_healthy [OF assms] by blast
  have a: "\<alpha> m1 = \<alpha> (w_mem w)" "inv m1" "healthy (snd m1)"
    using g(2) assms(2) by (simp_all add: reads_def stable_def)
  have "owned_env (a_envs (\<alpha> m1)) i u" using assms(3,4) a(1) by (simp add: owned_env_def)
  from Delete_healthy [OF a(2,3) this] obtain m2 where d: "sto_Delete S i u m1 = (None, m2)"
    "\<alpha> m2 = (\<alpha> (w_mem w))\<lparr>a_envs := (a_envs (\<alpha> (w_mem w)))(i := None)\<rparr>"
    using a(1) by (auto simp: writes_def)
  show ?thesis
    using d by (auto simp: DestroyEnvironment_def on_store_def on_engine_def deref_def g(1,3) Let_def
        split: prod.splits)
qed

lemma DestroyEnvironment_foreign:
  assumes "inv (w_mem w)" and "healthy (snd (w_mem w))" and "\<not> owned_env (a_envs (\<alpha> (w_mem w))) i u"
  shows "\<exists>w'. DestroyEnvironment S E i u w = (Some (Sentinel ErrNotFound), w') \<and>
    \<alpha> (w_mem w') = \<alpha> (w_mem w) \<and> w_eng w' = w_eng w"
  using Get_foreign [OF assms]
  by (auto simp: DestroyEnvironment_def on_store_def lookup_error_def reads_def)

end

end
