(* ===== verification/Snapshot_Service.thy ===== *)
theory Snapshot_Service
  imports Store_Clients
begin

text \<open>
  \<open>internal/service/snapshot.go\<close>: committing the file system of a running container to a local
  image and keeping a record of it.  The lemmas show what each outcome leaves behind on any store
  that keeps its contract.
\<close>

section \<open>Operations\<close>

definition build_snapshot :: "time \<Rightarrow> string \<Rightarrow> string \<Rightarrow> string \<Rightarrow> string \<Rightarrow> string \<Rightarrow> string \<Rightarrow> Snapshot" where
  "build_snapshot now snapID tenantID userID envID imageID label =
     \<lparr>snap_ID = snapID, snap_TenantID = tenantID, snap_UserID = userID, snap_EnvironmentID = envID,
      snap_ImageID = imageID, snap_Label = label, snap_Size = 0, snap_CreatedAt = now\<rparr>"

definition CreateSnapshot ::
  "'s Store \<Rightarrow> 'e Engine \<Rightarrow> time \<Rightarrow> string \<Rightarrow> string \<Rightarrow> string \<Rightarrow> string \<Rightarrow> string \<Rightarrow> ('s, 'e) world \<Rightarrow>
   (goerr + Snapshot) \<times> ('s, 'e) world" where
  "CreateSnapshot S E now uuid tenantID userID envID label w =
     (case on_store (sto_Get S envID userID) w of
        (Inl err, w1) \<Rightarrow> (Inl (lookup_error ErrGetEnvironment err), w1)
      | (Inr env, w1) \<Rightarrow>
          if env_Status (deref env w1) \<noteq> StatusRunning then (Inl (Sentinel ErrEnvironmentNotRunning), w1)
          else let snapID = new_ID ''snap_'' uuid in
            (case on_engine (eng_SnapshotContainer E (env_ContainerID (deref env w1)) snapID) w1 of
               (Inl err, w2) \<Rightarrow> (Inl (Wrapped ErrCreateSnapshot err), w2)
             | (Inr imageID, w2) \<Rightarrow>
                 let snap = build_snapshot now snapID tenantID userID envID imageID label
                 in (case on_store (sto_CreateSnapshot S snap) w2 of
                       (Some err, w3) \<Rightarrow>
                         (case on_engine (eng_DeleteSnapshotImage E imageID) w3 of
                            (_, w4) \<Rightarrow> (Inl (Wrapped ErrStoreSnapshot err), w4))
                     | (None, w3) \<Rightarrow> (Inr snap, w3))))"

definition ListSnapshots ::
  "'s Store \<Rightarrow> string \<Rightarrow> ('s, 'e) world \<Rightarrow> (goerr + Snapshot list) \<times> ('s, 'e) world" where
  "ListSnapshots S userID w =
     (case on_store (sto_ListSnapshots S userID) w of
        (Inl err, w1) \<Rightarrow> (Inl (Wrapped ErrListSnapshots err), w1)
      | (Inr snaps, w1) \<Rightarrow> (Inr snaps, w1))"

definition GetSnapshot ::
  "'s Store \<Rightarrow> string \<Rightarrow> string \<Rightarrow> ('s, 'e) world \<Rightarrow> (goerr + Snapshot) \<times> ('s, 'e) world" where
  "GetSnapshot S i userID w =
     (case on_store (sto_GetSnapshot S i userID) w of
        (Inl err, w1) \<Rightarrow> (Inl (lookup_error ErrGetSnapshot err), w1)
      | (Inr snap, w1) \<Rightarrow> (Inr snap, w1))"

definition ListTenantSnapshots ::
  "'s Store \<Rightarrow> string \<Rightarrow> ('s, 'e) world \<Rightarrow> (goerr + Snapshot list) \<times> ('s, 'e) world" where
  "ListTenantSnapshots S tenantID w =
     (case on_store (sto_ListSnapshotsByTenant S tenantID) w of
        (Inl err, w1) \<Rightarrow> (Inl (Wrapped ErrListSnapshots err), w1)
      | (Inr snaps, w1) \<Rightarrow> (Inr snaps, w1))"

definition DeleteSnapshot ::
  "'s Store \<Rightarrow> 'e Engine \<Rightarrow> string \<Rightarrow> string \<Rightarrow> ('s, 'e) world \<Rightarrow> goerr option \<times> ('s, 'e) world" where
  "DeleteSnapshot S E i userID w =
     (case on_store (sto_GetSnapshot S i userID) w of
        (Inl err, w1) \<Rightarrow> (Some (lookup_error ErrGetSnapshot err), w1)
      | (Inr snap, w1) \<Rightarrow>
          (case on_engine (eng_DeleteSnapshotImage E (snap_ImageID snap)) w1 of
             (_, w2) \<Rightarrow>
               (case on_store (sto_DeleteSnapshot S i userID) w2 of
                  (Some err, w3) \<Rightarrow> (Some (Wrapped ErrDeleteSnapshot err), w3)
                | (None, w3) \<Rightarrow> (None, w3))))"

section \<open>Outcomes\<close>

lemma build_snapshot_fields [simp]:
  "snap_ID (build_snapshot now sid t u i img label) = sid"
  "snap_UserID (build_snapshot now sid t u i img label) = u"
  "snap_TenantID (build_snapshot now sid t u i img label) = t"
  by (simp_all add: build_snapshot_def)

lemma CreateSnapshot_cases:
  assumes "CreateSnapshot S E now uuid t u i label w = (r, w')"
  obtains (lookup) e where "on_store (sto_Get S i u) w = (Inl e, w')" "r = Inl (lookup_error ErrGetEnvironment e)"
  | (stopped) p where "on_store (sto_Get S i u) w = (Inr p, w')" "env_Status (deref p w') \<noteq> StatusRunning"
      "r = Inl (Sentinel ErrEnvironmentNotRunning)"
  | (uncommitted) p w1 e where "on_store (sto_Get S i u) w = (Inr p, w1)" "env_Status (deref p w1) = StatusRunning"
      "on_engine (eng_SnapshotContainer E (env_ContainerID (deref p w1)) (new_ID ''snap_'' uuid)) w1 = (Inl e, w')"
      "r = Inl (Wrapped ErrCreateSnapshot e)"
  | (unrecorded) p w1 img w2 e w3 y where "on_store (sto_Get S i u) w = (Inr p, w1)" "env_Status (deref p w1) = StatusRunning"
      "on_engine (eng_SnapshotContainer E (env_ContainerID (deref p w1)) (new_ID ''snap_'' uuid)) w1 = (Inr img, w2)"
      "on_store (sto_CreateSnapshot S (build_snapshot now (new_ID ''snap_'' uuid) t u i img label)) w2 = (Some e, w3)"
      "on_engine (eng_DeleteSnapshotImage E img) w3 = (y, w')" "r = Inl (Wrapped ErrStoreSnapshot e)"
  | (created) p w1 img w2 where "on_store (sto_Get S i u) w = (Inr p, w1)" "env_Status (deref p w1) = StatusRunning"
      "on_engine (eng_SnapshotContainer E (env_ContainerID (deref p w1)) (new_ID ''snap_'' uuid)) w1 = (Inr img, w2)"
      "on_store (sto_CreateSnapshot S (build_snapshot now (new_ID ''snap_'' uuid) t u i img label)) w2 = (None, w')"
      "r = Inr (build_snapshot now (new_ID ''snap_'' uuid) t u i img label)"
  using assms
  by (auto simp: CreateSnapshot_def Let_def split: prod.splits sum.splits option.splits if_splits)

lemma DeleteSnapshot_cases:
  assumes "DeleteSnapshot S E i u w = (r, w')"
  obtains (lookup) e where "on_store (sto_GetSnapshot S i u) w = (Inl e, w')" "r = Some (lookup_error ErrGetSnapshot e)"
  | (deleted) x w1 y w2 z where "on_store (sto_GetSnapshot S i u) w = (Inr x, w1)"
      "on_engine (eng_DeleteSnapshotImage E (snap_ImageID x)) w1 = (y, w2)"
      "on_store (sto_DeleteSnapshot S i u) w2 = (z, w')" "r = map_option (Wrapped ErrDeleteSnapshot) z"
  using assms
  by (auto simp: DeleteSnapshot_def split: prod.splits sum.splits option.splits)

section \<open>Snapshots on a store that keeps the contract\<close>

context store_client
begin

lemma Get_same:
  assumes "inv (w_mem w)" and "on_store (sto_Get S i u) w = (q, w1)"
  shows "keeps v (w_mem w) (w_mem w1)" "inv (w_mem w1)" "\<alpha> (w_mem w1) = \<alpha> (w_mem w)" "w_eng w1 = w_eng w"
    "stable (snd (w_mem w)) (snd (w_mem w1))"
proof -
  have g: "sto_Get S i u (w_mem w) = (q, w_mem w1)" "w_eng w1 = w_eng w"
    using on_store_result [OF assms(2)] by simp_all
  have "reads (w_mem w) (w_mem w1)"
    using g Get_ok [OF assms(1), of i u _ "w_mem w1"] Get_err [OF assms(1), of i u _ "w_mem w1"] by (cases q) auto
  then show "keeps v (w_mem w) (w_mem w1)" "inv (w_mem w1)" "\<alpha> (w_mem w1) = \<alpha> (w_mem w)" "w_eng w1 = w_eng w"
    "stable (snd (w_mem w)) (snd (w_mem w1))"
    using g(2) by (simp_all add: reads_keeps) (simp_all add: reads_def)
qed

lemma CreateSnapshot_service_keeps:
  assumes "inv (w_mem w)" and "a_snaps (\<alpha> (w_mem w)) (new_ID ''snap_'' uuid) = None"
    and "CreateSnapshot S E now uuid t u i label w = (r, w')"
  shows "keeps u (w_mem w) (w_mem w')"
proof -
  have store: "keeps u (w_mem w) (w_mem w3)"
    if "on_store (sto_Get S i u) w = (Inr p, w1)" "w_mem w2 = w_mem w1"
      "on_store (sto_CreateSnapshot S (build_snapshot now (new_ID ''snap_'' uuid) t u i img label)) w2 = (y, w3)"
    for p w1 w2 img y and w3 :: "('a, 'b) world"
  proof -
    note g = Get_same [OF assms(1) that(1)]
    have "keeps u (w_mem w1) (w_mem w3)"
      using CreateSnapshot_keeps [OF g(2), of "build_snapshot now (new_ID ''snap_'' uuid) t u i img label" u y "w_mem w3"]
        on_store_result [OF that(3)] that(2) assms(2) g(3) by simp
    with g(1) show ?thesis by (rule keeps_trans)
  qed
  show ?thesis
    using assms(3)
  proof (cases rule: CreateSnapshot_cases)
    case (lookup e)
    then show ?thesis by (simp add: Get_same(1) [OF assms(1)])
  next
    case (stopped p)
    then show ?thesis by (simp add: Get_same(1) [OF assms(1)])
  next
    case (uncommitted p w1 e)
    then show ?thesis using Get_same(1) [OF assms(1) uncommitted(1), of u] on_engine_mem [OF uncommitted(3)] by simp
  next
    case (unrecorded p w1 img w2 e w3 y)
    then show ?thesis
      using store [OF unrecorded(1) on_engine_mem [OF unrecorded(3)] unrecorded(4)] on_engine_mem [OF unrecorded(5)] by simp
  next
    case (created p w1 img w2)
    then show ?thesis using store [OF created(1) on_engine_mem [OF created(3)] created(4)] by simp
  qed
qed

lemma CreateSnapshot_service_ok:
  assumes "inv (w_mem w)" and "a_snaps (\<alpha> (w_mem w)) (new_ID ''snap_'' uuid) = None"
    and "CreateSnapshot S E now uuid t u i label w = (Inr x, w')"
  shows "\<exists>e img. a_envs (\<alpha> (w_mem w)) i = Some e \<and> scoped u (env_UserID e) \<and> env_Status e = StatusRunning \<and>
    eng_SnapshotContainer E (env_ContainerID e) (new_ID ''snap_'' uuid) (w_eng w) = (Inr img, w_eng w') \<and>
    x = build_snapshot now (new_ID ''snap_'' uuid) t u i img label \<and>
    \<alpha> (w_mem w') = (\<alpha> (w_mem w))\<lparr>a_snaps := (a_snaps (\<alpha> (w_mem w)))(snap_ID x \<mapsto> norm_snap tn x)\<rparr>"
  using assms(3)
proof (cases rule: CreateSnapshot_cases)
  case (created p w1 img w2)
  note g = Get_same [OF assms(1) created(1)]
  have h: "a_envs (\<alpha> (w_mem w1)) i = Some (deref p w1)" "scoped u (env_UserID (deref p w1))"
    using Get_held [OF assms(1), of i u p "w_mem w1"] on_store_result [OF created(1)] by (auto simp: deref_def)
  have e: "eng_SnapshotContainer E (env_ContainerID (deref p w1)) (new_ID ''snap_'' uuid) (w_eng w) = (Inr img, w_eng w2)"
    "w_mem w2 = w_mem w1"
    using on_engine_result [OF created(3)] g(4) by simp_all
  have "sto_CreateSnapshot S x (w_mem w1) = (None, w_mem w')" "w_eng w' = w_eng w2"
    using on_store_result [OF created(4)] created(5) e(2) by simp_all
  with CreateSnapshot_ok [OF g(2), of x "w_mem w'"] assms(2) g(3) h e created show ?thesis
    by (intro exI [of _ "deref p w1"] exI [of _ img]) (simp add: writes_def)
qed auto

lemma DeleteSnapshot_service_keeps:
  assumes "inv (w_mem w)" and "u \<noteq> []" and "DeleteSnapshot S E i u w = (r, w')"
  shows "keeps u (w_mem w) (w_mem w')"
  using assms(3)
proof (cases rule: DeleteSnapshot_cases)
  case (lookup e)
  then show ?thesis
    using GetSnapshot_writes [OF assms(1)] on_store_result [OF lookup(1)] writes_keeps by blast
next
  case (deleted x w1 y w2 z)
  have k: "keeps u (w_mem w) (w_mem w1)"
    using GetSnapshot_writes [OF assms(1)] on_store_result [OF deleted(1)] writes_keeps by blast
  have "keeps u (w_mem w1) (w_mem w')"
    using DeleteSnapshot_keeps [OF keeps_inv [OF k] assms(2)] on_store_result [OF deleted(3)]
      on_engine_mem [OF deleted(2)] by metis
  with k show ?thesis by (rule keeps_trans)
qed

lemma Snapshot_service_foreign:
  assumes "inv (w_mem w)" and "healthy (snd (w_mem w))"
  shows "\<not> owned_env (a_envs (\<alpha> (w_mem w))) i u \<Longrightarrow>
      \<exists>w'. CreateSnapshot S E now uuid t u i label w = (Inl (Sentinel ErrNotFound), w') \<and>
        \<alpha> (w_mem w') = \<alpha> (w_mem w) \<and> w_eng w' = w_eng w"
    and "\<not> owned_snap (a_snaps (\<alpha> (w_mem w))) i u \<Longrightarrow>
      \<exists>w'. DeleteSnapshot S E i u w = (Some (Sentinel ErrNotFound), w') \<and>
        \<alpha> (w_mem w') = \<alpha> (w_mem w) \<and> w_eng w' = w_eng w"
proof -
  assume "\<not> owned_env (a_envs (\<alpha> (w_mem w))) i u"
  from Get_foreign [OF assms this] show "\<exists>w'. CreateSnapshot S E now uuid t u i label w = (Inl (Sentinel ErrNotFound), w') \<and>
        \<alpha> (w_mem w') = \<alpha> (w_mem w) \<and> w_eng w' = w_eng w"
    by (auto simp: CreateSnapshot_def on_store_def lookup_error_def reads_def)
next
  assume no: "\<not> owned_snap (a_snaps (\<alpha> (w_mem w))) i u"
  obtain r m' where r: "sto_GetSnapshot S i u (w_mem w) = (r, m')" by (meson surj_pair)
  have "r = Inl (Sentinel ErrNotFound) \<and> \<alpha> m' = \<alpha> (w_mem w)"
    using r no assms(2) GetSnapshot_ok [OF assms(1), of i u _ m'] GetSnapshot_err [OF assms(1), of i u _ m']
    by (cases r) (auto simp: fails_with_def writes_def)
  with r show "\<exists>w'. DeleteSnapshot S E i u w = (Some (Sentinel ErrNotFound), w') \<and>
        \<alpha> (w_mem w') = \<alpha> (w_mem w) \<and> w_eng w' = w_eng w"
    by (auto simp: DeleteSnapshot_def on_store_def lookup_error_def)
qed

end

end
