(* ===== verification/File_Service.thy ===== *)
theory File_Service
  imports Store_Clients
begin

text \<open>
  \<open>internal/service/file.go\<close>: files of a running container.  Paths of requests are rooted and
  cleaned before the engine sees them, uploads are bounded, and a successful call marks the
  environment as used.
\<close>

section \<open>Operations\<close>

definition getRunningEnv ::
  "'s Store \<Rightarrow> string \<Rightarrow> string \<Rightarrow> ('s, 'e) world \<Rightarrow> (goerr + nat) \<times> ('s, 'e) world" where
  "getRunningEnv S i userID w =
     (case on_store (sto_Get S i userID) w of
        (Inl err, w1) \<Rightarrow> (Inl (lookup_error ErrGetEnvironment err), w1)
      | (Inr env, w1) \<Rightarrow>
          if env_Status (deref env w1) \<noteq> StatusRunning then (Inl (Sentinel ErrEnvironmentNotRunning), w1)
          else (Inr env, w1))"

definition updateLastUsed :: "'s Store \<Rightarrow> time \<Rightarrow> nat \<Rightarrow> ('s, 'e) world \<Rightarrow> ('s, 'e) world" where
  "updateLastUsed S now env w =
     (let w1 = assign_env env ((deref env w)\<lparr>env_LastUsedAt := now\<rparr>) w in
      snd (on_store (sto_Update S env) w1))"

text \<open>\<open>io.ReadAll(io.LimitReader(r, n))\<close>: the limit hides what comes after it, a later error
  included; a limit that is not positive reads nothing.\<close>

definition ReadAll_Limit :: "reader \<Rightarrow> int64 \<Rightarrow> goerr + bytes" where
  "ReadAll_Limit r n =
     (if n \<le> int (length (rd_data r)) then Inr (take (nat n) (rd_data r))
      else case rd_err r of Some e \<Rightarrow> Inl e | None \<Rightarrow> Inr (rd_data r))"

definition readAllMax :: "reader \<Rightarrow> int64 \<Rightarrow> goerr + bytes" where
  "readAllMax r limit =
     (if limit < 0 then Inl (Opaque ''limit must be non-negative'')
      else case ReadAll_Limit r (wrap64 (limit + 1)) of
             Inl err \<Rightarrow> Inl err
           | Inr data \<Rightarrow>
               if int (length data) > limit then Inl (Opaque ''request body too large'') else Inr data)"

definition sanitizePath :: "string \<Rightarrow> goerr + string" where
  "sanitizePath raw =
     (if strings_ContainsAny raw [CHR 0x00, CHR 0x0D, CHR 0x0A]
      then Inl (Opaque ''path contains invalid characters'')
      else Inr (path_Clean (''/'' @ raw)))"

definition FileService_ListFiles ::
  "'s Store \<Rightarrow> 'e Engine \<Rightarrow> time \<Rightarrow> string \<Rightarrow> string \<Rightarrow> string \<Rightarrow> ('s, 'e) world \<Rightarrow>
   (goerr + FileInfo list) \<times> ('s, 'e) world" where
  "FileService_ListFiles S E now envID userID rawPath w =
     (case getRunningEnv S envID userID w of
        (Inl err, w1) \<Rightarrow> (Inl err, w1)
      | (Inr env, w1) \<Rightarrow>
          (case sanitizePath (if rawPath = [] then ''/'' else rawPath) of
             Inl _ \<Rightarrow> (Inl (Sentinel ErrInvalidPath), w1)
           | Inr path \<Rightarrow>
               (case on_engine (eng_ListFiles E (env_ContainerID (deref env w1)) path) w1 of
                  (Inl err, w2) \<Rightarrow> (Inl (Wrapped ErrListFiles err), w2)
                | (Inr files, w2) \<Rightarrow> (Inr files, updateLastUsed S now env w2))))"

definition FileService_ReadFile ::
  "'s Store \<Rightarrow> 'e Engine \<Rightarrow> time \<Rightarrow> string \<Rightarrow> string \<Rightarrow> string \<Rightarrow> ('s, 'e) world \<Rightarrow>
   (goerr + string \<times> reader) \<times> ('s, 'e) world" where
  "FileService_ReadFile S E now envID userID rawPath w =
     (case getRunningEnv S envID userID w of
        (Inl err, w1) \<Rightarrow> (Inl err, w1)
      | (Inr env, w1) \<Rightarrow>
          if rawPath = [] then (Inl (Sentinel ErrPathRequired), w1)
          else (case sanitizePath rawPath of
             Inl _ \<Rightarrow> (Inl (Sentinel ErrInvalidPath), w1)
           | Inr path \<Rightarrow>
               (case on_engine (eng_ReadFile E (env_ContainerID (deref env w1)) path) w1 of
                  (Inl err, w2) \<Rightarrow> (Inl (Wrapped ErrReadFile err), w2)
                | (Inr rd, w2) \<Rightarrow> (Inr (path, rd), updateLastUsed S now env w2))))"

definition FileService_WriteFile ::
  "'s Store \<Rightarrow> 'e Engine \<Rightarrow> int64 \<Rightarrow> time \<Rightarrow> string \<Rightarrow> string \<Rightarrow> string \<Rightarrow> reader \<Rightarrow> ('s, 'e) world \<Rightarrow>
   goerr option \<times> ('s, 'e) world" where
  "FileService_WriteFile S E maxFileUploadBytes now envID userID rawPath content w =
     (case getRunningEnv S envID userID w of
        (Inl err, w1) \<Rightarrow> (Some err, w1)
      | (Inr env, w1) \<Rightarrow>
          if rawPath = [] then (Some (Sentinel ErrPathRequired), w1)
          else (case sanitizePath rawPath of
             Inl _ \<Rightarrow> (Some (Sentinel ErrInvalidPath), w1)
           | Inr path \<Rightarrow>
               (case readAllMax content maxFileUploadBytes of
                  Inl err \<Rightarrow> (Some (Wrapped ErrReadRequestBody err), w1)
                | Inr data \<Rightarrow>
                    (case on_engine (eng_WriteFile E (env_ContainerID (deref env w1)) path data) w1 of
                       (Some err, w2) \<Rightarrow> (Some (Wrapped ErrWriteFile err), w2)
                     | (None, w2) \<Rightarrow> (None, updateLastUsed S now env w2)))))"

section \<open>Paths\<close>

text \<open>The reference: walking from the root, where \<open>..\<close> at the root stays there.\<close>

fun walk :: "string list \<Rightarrow> string list \<Rightarrow> string list" where
  "walk d [] = d"
| "walk d (c # cs) =
     walk (if c = [] \<or> c = ''.'' then d else if c = ''..'' then butlast d else d @ [c]) cs"

lemma walk_clean:
  assumes "\<forall>c \<in> set out. c \<noteq> ''..''"
  shows "clean_elems True out cs = walk (rev out) cs"
  using assms
proof (induction cs arbitrary: out)
  case Nil
  then show ?case by simp
next
  case (Cons c cs)
  consider "c = [] \<or> c = ''.''" | "c = ''..''" | "c \<noteq> []" "c \<noteq> ''.''" "c \<noteq> ''..''" by blast
  then show ?case
  proof cases
    case 1
    then show ?thesis using Cons by (auto simp: clean_elems_skip)
  next
    case 2
    show ?thesis
    proof (cases out)
      case Nil
      with 2 Cons.IH [of "[]"] show ?thesis by (simp add: clean_elems_up)
    next
      case (Cons t ts)
      with 2 Cons.IH [of ts] Cons.prems show ?thesis by (simp add: clean_elems_up)
    qed
  next
    case 3
    with Cons.IH [of "c # out"] Cons.prems show ?thesis by (simp add: clean_elems_push)
  qed
qed

lemma walk_empty_first: "walk d ([] # cs) = walk d cs"
  by simp

lemma sanitizePath_walk:
  "sanitizePath raw =
    (if strings_ContainsAny raw [CHR 0x00, CHR 0x0D, CHR 0x0A] then Inl (Opaque ''path contains invalid characters'')
     else Inr (CHR ''/'' # strings_Join (walk [] (split_on (CHR ''/'') raw)) ''/''))"
proof -
  have "path_elems (CHR ''/'' # raw) = walk [] (split_on (CHR ''/'') raw)"
    using walk_clean [of "[]" "split_on (CHR ''/'') (CHR ''/'' # raw)"] by (simp add: path_elems_def)
  then show ?thesis by (simp add: sanitizePath_def path_Clean_abs)
qed

lemma set_Join: "set (strings_Join cs sep) \<subseteq> \<Union> (set ` set cs) \<union> set sep"
  by (induction cs sep rule: strings_Join.induct) auto

lemma set_split_on: "c \<in> set (split_on x s) \<Longrightarrow> set c \<subseteq> set s"
  by (induction s arbitrary: c) (force split: list.splits if_splits)+

lemma sanitizePath_ok:
  assumes "sanitizePath raw = Inr p"
  shows "path_IsAbs p" and "\<forall>c \<in> set (path_elems p). proper_elem c"
    and "p = CHR ''/'' # strings_Join (path_elems p) ''/''"
    and "\<not> strings_ContainsAny p [CHR 0x00, CHR 0x0D, CHR 0x0A]" and "sanitizePath p = Inr p"
proof -
  let ?q = "CHR ''/'' # raw"
  have p: "p = path_Clean ?q" and ok: "\<not> strings_ContainsAny raw [CHR 0x00, CHR 0x0D, CHR 0x0A]"
    using assms by (auto simp: sanitizePath_def split: if_splits)
  have c: "p = CHR ''/'' # strings_Join (path_elems ?q) ''/''"
    by (simp add: p path_Clean_abs)
  have e: "path_elems p = path_elems ?q"
    unfolding c using path_elems_abs_proper [of ?q] by (intro path_elems_rooted) auto
  show abs: "path_IsAbs p" by (simp add: c)
  show "\<forall>c \<in> set (path_elems p). proper_elem c" using path_elems_abs_proper [OF abs] by blast
  show "p = CHR ''/'' # strings_Join (path_elems p) ''/''" using c e by simp
  have "\<forall>c \<in> set (path_elems ?q). set c \<subseteq> set ?q"
    unfolding path_elems_def using set_split_on by (intro clean_elems_all) fastforce+
  then have "set p \<subseteq> set ?q"
    unfolding c using set_Join [of "path_elems ?q" "''/''"] by auto
  with ok show bad: "\<not> strings_ContainsAny p [CHR 0x00, CHR 0x0D, CHR 0x0A]"
    by (auto simp: strings_ContainsAny_def list_ex_iff)
  have "path_elems (CHR ''/'' # p) = path_elems p"
    using abs by (simp add: path_elems_def clean_elems_skip)
  then have "path_Clean (CHR ''/'' # p) = p"
    using c e by (simp add: path_Clean_abs)
  with bad show "sanitizePath p = Inr p"
    by (simp add: sanitizePath_def)
qed

text \<open>C17: what a path of a request becomes is the reference's walk from the root: \<open>..\<close> never leaves it,
  the result has only proper elements, no NUL, CR or LF, and cleaning it again changes nothing; a
  path with one of these characters, and no other, is refused.\<close>

theorem path_sanitised:
  "case sanitizePath raw of
     Inl _ \<Rightarrow> strings_ContainsAny raw [CHR 0x00, CHR 0x0D, CHR 0x0A]
   | Inr p \<Rightarrow> \<not> strings_ContainsAny raw [CHR 0x00, CHR 0x0D, CHR 0x0A] \<and> \<not> strings_ContainsAny p [CHR 0x00, CHR 0x0D, CHR 0x0A] \<and>
       p = CHR ''/'' # strings_Join (walk [] (split_on (CHR ''/'') raw)) ''/'' \<and>
       path_elems p = walk [] (split_on (CHR ''/'') raw) \<and> list_all proper_elem (path_elems p) \<and> sanitizePath p = Inr p"
proof (cases "sanitizePath raw")
  case (Inl e)
  then show ?thesis by (simp add: sanitizePath_walk split: if_splits)
next
  case (Inr p)
  have p: "\<not> strings_ContainsAny raw [CHR 0x00, CHR 0x0D, CHR 0x0A]"
      "p = CHR ''/'' # strings_Join (walk [] (split_on (CHR ''/'') raw)) ''/''"
    using Inr by (auto simp: sanitizePath_walk split: if_splits)
  have e: "path_elems (CHR ''/'' # raw) = walk [] (split_on (CHR ''/'') raw)"
    using walk_clean [of "[]" "split_on (CHR ''/'') (CHR ''/'' # raw)"] by (simp add: path_elems_def)
  have "path_elems p = path_elems (CHR ''/'' # raw)"
    unfolding p(2) e [symmetric] using path_elems_abs_proper [of "CHR ''/'' # raw"] by (intro path_elems_rooted) auto
  with sanitizePath_ok [OF Inr] p e Inr show ?thesis by (simp add: list_all_iff)
qed

section \<open>Bounded reads\<close>

lemma readAllMax_spec:
  assumes "in_int64 limit" and "0 \<le> limit" and "limit \<noteq> 2 ^ 63 - 1"
  shows "readAllMax r limit =
    (if int (length (rd_data r)) > limit then Inl (Opaque ''request body too large'')
     else case rd_err r of Some e \<Rightarrow> Inl e | None \<Rightarrow> Inr (rd_data r))"
proof -
  have "wrap64 (limit + 1) = limit + 1"
    using assms by (intro wrap64_id) (auto simp: in_int64_def)
  then show ?thesis
    using assms(2) by (auto simp: readAllMax_def ReadAll_Limit_def nat_add_distrib split: option.splits)
qed

lemma readAllMax_negative: "limit < 0 \<Longrightarrow> readAllMax r limit = Inl (Opaque ''limit must be non-negative'')"
  by (simp add: readAllMax_def)

text \<open>The limits the program uses are multiples of a megabyte, so the largest 64-bit number is
  none of them.\<close>

lemma wrap64_even: "even (wrap64 (2 * x))"
proof -
  have "even ((2 * x + 2 ^ 63) mod 2 ^ 64)"
    by (subst dvd_mod_iff) simp_all
  then show ?thesis by (simp add: wrap64_def)
qed

lemma even_limit: "even limit \<Longrightarrow> limit \<noteq> 2 ^ 63 - (1 :: int)"
  by auto

lemma readAllMax_even:
  assumes "in_int64 limit" and "even limit"
  shows "readAllMax r limit = Inr d \<longleftrightarrow>
    0 \<le> limit \<and> rd_data r = d \<and> rd_err r = None \<and> int (length d) \<le> limit"
proof (cases "0 \<le> limit")
  case True
  with readAllMax_spec [OF assms(1) _ even_limit [OF assms(2)], of r] show ?thesis
    by (auto split: option.splits if_splits)
next
  case False
  then show ?thesis by (simp add: readAllMax_negative)
qed

section \<open>Running environments on a store that keeps the contract\<close>

context store_client
begin

lemma getRunningEnv_ok:
  assumes "inv (w_mem w)" and "getRunningEnv S i u w = (Inr p, w1)"
  shows "keeps v (w_mem w) (w_mem w1)" "held p (w_mem w1)" "inv (w_mem w1)" "w_eng w1 = w_eng w"
    "env_ID (deref p w1) = i" "scoped u (env_UserID (deref p w1))" "env_Status (deref p w1) = StatusRunning"
    "a_envs (\<alpha> (w_mem w1)) i = Some (deref p w1)" "reads (w_mem w) (w_mem w1)"
proof -
  have g: "on_store (sto_Get S i u) w = (Inr p, w1)" and st: "env_Status (deref p w1) = StatusRunning"
    using assms(2) by (auto simp: getRunningEnv_def split: prod.splits sum.splits if_splits)
  have s: "sto_Get S i u (w_mem w) = (Inr p, w_mem w1)" "w_eng w1 = w_eng w"
    using on_store_result [OF g] by simp_all
  show "keeps v (w_mem w) (w_mem w1)" using Get_keeps [OF assms(1) s(1)] .
  then show "inv (w_mem w1)" by (rule keeps_inv)
  show "held p (w_mem w1)" "env_ID (deref p w1) = i" "scoped u (env_UserID (deref p w1))"
    "a_envs (\<alpha> (w_mem w1)) i = Some (deref p w1)"
    using Get_held [OF assms(1) s(1)] by (simp_all add: deref_def)
  show "env_Status (deref p w1) = StatusRunning" "w_eng w1 = w_eng w" using st s(2) by simp_all
  show "reads (w_mem w) (w_mem w1)" using Get_ok [OF assms(1) s(1)] by simp
qed

lemma getRunningEnv_err:
  assumes "inv (w_mem w)" and "getRunningEnv S i u w = (Inl e, w1)"
  shows "reads (w_mem w) (w_mem w1)" "w_eng w1 = w_eng w"
proof -
  obtain r where "on_store (sto_Get S i u) w = (r, w1)"
    using assms(2) by (auto simp: getRunningEnv_def split: prod.splits sum.splits if_splits)
  from on_store_result [OF this] show "reads (w_mem w) (w_mem w1)" "w_eng w1 = w_eng w"
    using Get_ok [OF assms(1), of i u _ "w_mem w1"] Get_err [OF assms(1), of i u _ "w_mem w1"]
    by (cases r; simp)+
qed

lemma getRunningEnv_foreign:
  assumes "inv (w_mem w)" and "healthy (snd (w_mem w))" and "\<not> owned_env (a_envs (\<alpha> (w_mem w))) i u"
  shows "\<exists>w1. getRunningEnv S i u w = (Inl (Sentinel ErrNotFound), w1) \<and>
    reads (w_mem w) (w_mem w1) \<and> w_eng w1 = w_eng w"
  using Get_foreign [OF assms] by (auto simp: getRunningEnv_def on_store_def lookup_error_def)

lemma getRunningEnv_healthy:
  assumes "inv (w_mem w)" and "healthy (snd (w_mem w))" and "a_envs (\<alpha> (w_mem w)) i = Some e"
    and "scoped u (env_UserID e)" and "env_Status e = StatusRunning"
  shows "\<exists>p w1. getRunningEnv S i u w = (Inr p, w1) \<and> deref p w1 = e"
proof -
  obtain p m' where "sto_Get S i u (w_mem w) = (Inr p, m')" "fst m' ! p = e"
    using Get_healthy [OF assms(1-4)] by blast
  with assms(5) show ?thesis
    by (intro exI [of _ p] exI [of _ "w\<lparr>w_mem := m'\<rparr>"]) (simp add: getRunningEnv_def on_store_def deref_def)
qed

lemma owner_of: "scoped u v \<Longrightarrow> u \<noteq> [] \<Longrightarrow> v = u"
  by (simp add: scoped_def)

text \<open>One engine call on a running environment, then marking it as used.\<close>

lemma use_keeps:
  assumes "inv (w_mem w)" and "u \<noteq> []" and "getRunningEnv S i u w = (Inr p, w1)" and "w_mem w2 = w_mem w1"
  shows "keeps u (w_mem w) (w_mem w2)" and "keeps u (w_mem w) (w_mem (updateLastUsed S now p w2))"
proof -
  note g = getRunningEnv_ok [OF assms(1,3)]
  show k: "keeps u (w_mem w) (w_mem w2)" using g(1) assms(4) by simp
  have d: "env_UserID (deref p w2) = u" using owner_of [OF g(6) assms(2)] deref_mem [OF assms(4)] by simp
  have "keeps u (w_mem w2) (w_mem (updateLastUsed S now p w2))"
    using touch_world(1) [of w2 p now] g(2,3) assms(4) d by (simp add: updateLastUsed_def)
  with k show "keeps u (w_mem w) (w_mem (updateLastUsed S now p w2))" by (rule keeps_trans)
qed

lemma use_outcome:
  assumes "inv (w_mem w)" and "u \<noteq> []" and g: "getRunningEnv S i u w = (q, w1)"
    and "\<And>e. q = Inl e \<Longrightarrow> w' = w1"
    and "\<And>p. q = Inr p \<Longrightarrow> \<exists>w2. w_mem w2 = w_mem w1 \<and> (w' = w2 \<or> w' = updateLastUsed S now p w2)"
  shows "keeps u (w_mem w) (w_mem w')"
proof (cases q)
  case (Inl e)
  with assms(4) getRunningEnv_err(1) [OF assms(1)] g show ?thesis by (auto intro: reads_keeps)
next
  case (Inr p)
  with assms(5) obtain w2 where "w_mem w2 = w_mem w1" "w' = w2 \<or> w' = updateLastUsed S now p w2" by blast
  with use_keeps [OF assms(1,2) g [unfolded Inr]] show ?thesis by blast
qed

lemma FileService_ListFiles_keeps:
  assumes "inv (w_mem w)" and "u \<noteq> []" and "FileService_ListFiles S E now i u raw w = (r, w')"
  shows "keeps u (w_mem w) (w_mem w')"
proof -
  obtain q w1 where g: "getRunningEnv S i u w = (q, w1)" by (meson surj_pair)
  show ?thesis
  proof (rule use_outcome [OF assms(1,2) g])
    show "w' = w1" if "q = Inl e" for e
      using assms(3) that by (simp add: FileService_ListFiles_def g)
    show "\<exists>w2. w_mem w2 = w_mem w1 \<and> (w' = w2 \<or> w' = updateLastUsed S now p w2)" if "q = Inr p" for p
      using assms(3) that
      by (auto simp: FileService_ListFiles_def g split: prod.splits sum.splits dest!: on_engine_mem)
  qed
qed

lemma FileService_ReadFile_keeps:
  assumes "inv (w_mem w)" and "u \<noteq> []" and "FileService_ReadFile S E now i u raw w = (r, w')"
  shows "keeps u (w_mem w) (w_mem w')"
proof -
  obtain q w1 where g: "getRunningEnv S i u w = (q, w1)" by (meson surj_pair)
  show ?thesis
  proof (rule use_outcome [OF assms(1,2) g])
    show "w' = w1" if "q = Inl e" for e
      using assms(3) that by (simp add: FileService_ReadFile_def g)
    show "\<exists>w2. w_mem w2 = w_mem w1 \<and> (w' = w2 \<or> w' = updateLastUsed S now p w2)" if "q = Inr p" for p
      using assms(3) that
      by (auto simp: FileService_ReadFile_def g split: prod.splits sum.splits if_splits dest!: on_engine_mem)
  qed
qed

lemma FileService_WriteFile_keeps:
  assumes "inv (w_mem w)" and "u \<noteq> []" and "FileService_WriteFile S E bound now i u raw rd w = (r, w')"
  shows "keeps u (w_mem w) (w_mem w')"
proof -
  obtain q w1 where g: "getRunningEnv S i u w = (q, w1)" by (meson surj_pair)
  show ?thesis
  proof (rule use_outcome [OF assms(1,2) g])
    show "w' = w1" if "q = Inl e" for e
      using assms(3) that by (simp add: FileService_WriteFile_def g)
    show "\<exists>w2. w_mem w2 = w_mem w1 \<and> (w' = w2 \<or> w' = updateLastUsed S now p w2)" if "q = Inr p" for p
      using assms(3) that
      by (auto simp: FileService_WriteFile_def g split: prod.splits sum.splits if_splits option.splits dest!: on_engine_mem)
  qed
qed

text \<open>Nothing of a container is touched for somebody who does not own the environment.\<close>

lemma FileService_foreign:
  assumes "inv (w_mem w)" and "healthy (snd (w_mem w))" and "\<not> owned_env (a_envs (\<alpha> (w_mem w))) i u"
  shows "\<exists>w'. FileService_ListFiles S E now i u raw w = (Inl (Sentinel ErrNotFound), w') \<and>
      reads (w_mem w) (w_mem w') \<and> w_eng w' = w_eng w"
    and "\<exists>w'. FileService_ReadFile S E now i u raw w = (Inl (Sentinel ErrNotFound), w') \<and>
      reads (w_mem w) (w_mem w') \<and> w_eng w' = w_eng w"
    and "\<exists>w'. FileService_WriteFile S E bound now i u raw rd w = (Some (Sentinel ErrNotFound), w') \<and>
      reads (w_mem w) (w_mem w') \<and> w_eng w' = w_eng w"
  using getRunningEnv_foreign [OF assms]
  by (auto simp: FileService_ListFiles_def FileService_ReadFile_def FileService_WriteFile_def)

lemma FileService_WriteFile_ok:
  assumes "inv (w_mem w)" and "healthy (snd (w_mem w))" and "a_envs (\<alpha> (w_mem w)) i = Some e"
    and "scoped u (env_UserID e)" and "env_Status e = StatusRunning"
    and "raw \<noteq> []" and "sanitizePath raw = Inr path" and "readAllMax rd bound = Inr d"
    and "eng_WriteFile E (env_ContainerID e) path d (w_eng w) = (None, eng')"
  shows "\<exists>w'. FileService_WriteFile S E bound now i u raw rd w = (None, w') \<and> w_eng w' = eng' \<and>
    \<alpha> (w_mem w') = (\<alpha> (w_mem w))\<lparr>a_envs := (a_envs (\<alpha> (w_mem w)))(i \<mapsto>
      nenv (snd (w_mem w)) (e\<lparr>env_LastUsedAt := now\<rparr>))\<rparr>"
proof -
  obtain p w1 where g: "getRunningEnv S i u w = (Inr p, w1)" and d: "deref p w1 = e"
    using getRunningEnv_healthy [OF assms(1-5)] by blast
  note gr = getRunningEnv_ok [OF assms(1) g]
  let ?w2 = "w1\<lparr>w_eng := eng'\<rparr>"
  have run: "FileService_WriteFile S E bound now i u raw rd w = (None, updateLastUsed S now p ?w2)"
    using assms(6-9) d gr(4) by (simp add: FileService_WriteFile_def g on_engine_def)
  have "a_envs (\<alpha> (w_mem ?w2)) (env_ID (deref p ?w2)) = Some e"
    using gr(5,8) d by (simp add: deref_def)
  moreover have "healthy (snd (w_mem ?w2))" "\<alpha> (w_mem ?w2) = \<alpha> (w_mem w)"
      "nenv (snd (w_mem ?w2)) = nenv (snd (w_mem w))"
    using gr(9) assms(2) by (auto simp: reads_def stable_def nenv_def)
  moreover have "deref p ?w2 = e" using d by (simp add: deref_def)
  ultimately have "\<alpha> (w_mem (updateLastUsed S now p ?w2)) = (\<alpha> (w_mem w))\<lparr>a_envs := (a_envs (\<alpha> (w_mem w)))(i \<mapsto>
      nenv (snd (w_mem w)) (e\<lparr>env_LastUsedAt := now\<rparr>))\<rparr>"
    using touch_world(3) [of ?w2 p e now] gr(2,3,5) d by (simp add: updateLastUsed_def)
  moreover have "w_eng (updateLastUsed S now p ?w2) = eng'"
    using touch_world(2) [of ?w2 p now] gr(2,3) by (simp add: updateLastUsed_def)
  ultimately show ?thesis using run by blast
qed

text \<open>A write that succeeded went to the engine, and a read by the owner answers what the engine reads.\<close>

lemma FileService_WriteFile_engine:
  assumes "inv (w_mem w)" and "healthy (snd (w_mem w))" and "a_envs (\<alpha> (w_mem w)) i = Some e"
    and "scoped u (env_UserID e)" and "env_Status e = StatusRunning"
    and "FileService_WriteFile S E bound now i u raw rd w = (None, w')"
  obtains path d where "raw \<noteq> []" "sanitizePath raw = Inr path" "readAllMax rd bound = Inr d"
    "eng_WriteFile E (env_ContainerID e) path d (w_eng w) = (None, w_eng w')"
    "\<alpha> (w_mem w') = (\<alpha> (w_mem w))\<lparr>a_envs := (a_envs (\<alpha> (w_mem w)))(i \<mapsto>
      nenv (snd (w_mem w)) (e\<lparr>env_LastUsedAt := now\<rparr>))\<rparr>"
proof -
  obtain p w1 where g: "getRunningEnv S i u w = (Inr p, w1)" and d: "deref p w1 = e"
    using getRunningEnv_healthy [OF assms(1-5)] by blast
  have "w_eng w1 = w_eng w" using getRunningEnv_ok(4) [OF assms(1) g] .
  with assms(6) g d obtain path data eng' where x: "raw \<noteq> []" "sanitizePath raw = Inr path" "readAllMax rd bound = Inr data"
      "eng_WriteFile E (env_ContainerID e) path data (w_eng w) = (None, eng')"
    by (auto simp: FileService_WriteFile_def on_engine_def split: prod.splits sum.splits option.splits if_splits)
  from FileService_WriteFile_ok [OF assms(1-5) x, of now] assms(6) x that show thesis by auto
qed

lemma FileService_ReadFile_ok:
  assumes "inv (w_mem w)" and "healthy (snd (w_mem w))" and "a_envs (\<alpha> (w_mem w)) i = Some e"
    and "scoped u (env_UserID e)" and "env_Status e = StatusRunning"
    and "raw \<noteq> []" and "sanitizePath raw = Inr path"
    and "eng_ReadFile E (env_ContainerID e) path (w_eng w) = (Inr rd, eng')"
  shows "\<exists>w'. FileService_ReadFile S E now i u raw w = (Inr (path, rd), w')"
proof -
  obtain p w1 where g: "getRunningEnv S i u w = (Inr p, w1)" and d: "deref p w1 = e"
    using getRunningEnv_healthy [OF assms(1-5)] by blast
  with getRunningEnv_ok(4) [OF assms(1) g] assms(6-8) show ?thesis
    by (simp add: FileService_ReadFile_def on_engine_def)
qed

end

end
