(* ===== verification/Exec_Service.thy ===== *)
theory Exec_Service
  imports File_Service
begin

text \<open>
  \<open>internal/service/exec.go\<close>: running a command in a running container.  A target is the pointer
  to its environment; a session keeps the stream and, when the engine tells it, the exec ID.
\<close>

section \<open>Operations\<close>

record ExecSession =
  xs_Reader :: reader
  xs_envID :: string
  xs_execID :: string
  xs_hasExecID :: bool

definition PrepareExec ::
  "'s Store \<Rightarrow> string \<Rightarrow> string \<Rightarrow> ('s, 'e) world \<Rightarrow> (goerr + nat) \<times> ('s, 'e) world" where
  "PrepareExec S envID userID w =
     (case on_store (sto_Get S envID userID) w of
        (Inl err, w1) \<Rightarrow> (Inl (lookup_error ErrGetEnvironment err), w1)
      | (Inr env, w1) \<Rightarrow>
          if env_Status (deref env w1) \<noteq> StatusRunning then (Inl (Sentinel ErrEnvironmentNotRunning), w1)
          else (Inr env, w1))"

definition StartExec ::
  "'s Store \<Rightarrow> 'e Engine \<Rightarrow> time \<Rightarrow> nat \<Rightarrow> ExecRequest \<Rightarrow> ('s, 'e) world \<Rightarrow> (goerr + ExecSession) \<times> ('s, 'e) world" where
  "StartExec S E now env req w =
     (if er_Command req = [] then (Inl (Sentinel ErrCommandRequired), w)
      else (case on_engine (eng_Exec E (env_ContainerID (deref env w)) req) w of
              (Inl err, w1) \<Rightarrow> (Inl (Wrapped ErrExecFailed err), w1)
            | (Inr rd, w1) \<Rightarrow>
                let w2 = assign_env env ((deref env w1)\<lparr>env_LastUsedAt := now\<rparr>) w1;
                    w3 = snd (on_store (sto_Update S env) w2);
                    session = \<lparr>xs_Reader = xr_reader rd, xs_envID = env_ID (deref env w3), xs_execID = [],
                      xs_hasExecID = False\<rparr>
                in (Inr (case xr_execID rd of
                           None \<Rightarrow> session
                         | Some i \<Rightarrow> session\<lparr>xs_execID := i, xs_hasExecID := True\<rparr>), w3)))"

definition ExitCode :: "'e Engine \<Rightarrow> ExecSession \<Rightarrow> ('s, 'e) world \<Rightarrow> (int \<times> bool) \<times> ('s, 'e) world" where
  "ExitCode E session w =
     (if \<not> xs_hasExecID session then ((0, False), w)
      else (case on_engine (eng_ExecExitCode E (xs_execID session)) w of
              (Inl err, w1) \<Rightarrow> ((-1, True), w1)
            | (Inr exitCode, w1) \<Rightarrow> ((exitCode, True), w1)))"

section \<open>Commands on a store that keeps the contract\<close>

lemma PrepareExec_eq: "PrepareExec S i u w = getRunningEnv S i u w"
  by (simp add: PrepareExec_def getRunningEnv_def)

context store_client
begin

lemma StartExec_keeps:
  assumes "inv (w_mem w)" and "held p (w_mem w)" and "env_UserID (deref p w) = u"
    and "StartExec S E now p req w = (r, w')"
  shows "keeps u (w_mem w) (w_mem w')"
proof (cases "er_Command req = []")
  case True
  with assms(1,4) show ?thesis by (simp add: StartExec_def keeps_refl)
next
  case False
  obtain q w1 where q: "on_engine (eng_Exec E (env_ContainerID (deref p w)) req) w = (q, w1)" by (meson surj_pair)
  have m: "w_mem w1 = w_mem w" using on_engine_mem [OF q] .
  show ?thesis
  proof (cases q)
    case (Inl e)
    with False assms(1,4) q m show ?thesis by (simp add: StartExec_def keeps_refl)
  next
    case (Inr rd)
    then have "w' = snd (on_store (sto_Update S p) (assign_env p ((deref p w1)\<lparr>env_LastUsedAt := now\<rparr>) w1))"
      using False assms(4) q by (simp add: StartExec_def Let_def)
    with touch_world(1) [of w1 p now] assms(1-3) m deref_mem [OF m] show ?thesis by simp
  qed
qed

end

end
