(* ===== verification/Skill_Service.thy ===== *)
theory Skill_Service
  imports Config File_Service
begin

text \<open>
  \<open>internal/service/skill.go\<close>: the library of agent skills of a user, and skills inside a running
  container.  An archive is a gzip-compressed tar.  The packages \<open>compress/gzip\<close> and
  \<open>archive/tar\<close> are arguments: \<open>gunzip\<close> opens a stream (or refuses it), \<open>tar_entries\<close> gives the
  headers \<open>Next\<close> answers one after another and the error that ends them, if it is not \<open>io.EOF\<close>.
\<close>

section \<open>Operations\<close>

datatype typeflag = TypeReg | TypeDir | TypeSymlink | TypeLink | TypeOther

record tar_header =
  hdr_Name :: string
  hdr_Typeflag :: typeflag

type_synonym gzip_reader = "bytes \<Rightarrow> goerr + reader"
type_synonym tar_reader = "bytes \<Rightarrow> tar_header list \<times> goerr option"

record SkillService =
  ss_skillsDir :: string
  ss_maxArchiveBytes :: int64
  ss_gunzip :: gzip_reader
  ss_tar_entries :: tar_reader

definition skillManifest :: string where
  "skillManifest = ''SKILL.md''"

definition skillMaxDecompressRatio :: int64 where
  "skillMaxDecompressRatio = 20"

definition is_alnum :: "char \<Rightarrow> bool" where
  "is_alnum c \<longleftrightarrow> (let n = of_char c :: nat in 48 \<le> n \<and> n \<le> 57 \<or> 65 \<le> n \<and> n \<le> 90 \<or> 97 \<le> n \<and> n \<le> 122)"

text \<open>\<open>^[a-zA-Z0-9][a-zA-Z0-9._-]{0,63}$\<close>\<close>

fun skillNamePattern :: "string \<Rightarrow> bool" where
  "skillNamePattern [] = False"
| "skillNamePattern (c # cs) =
     (is_alnum c \<and> list_all (\<lambda>d. is_alnum d \<or> d \<in> set ''._-'') cs \<and> length cs \<le> 63)"

definition validateSkillName :: "string \<Rightarrow> goerr option" where
  "validateSkillName name =
     (if name = [] then Some (Sentinel ErrSkillNameRequired)
      else if \<not> skillNamePattern name then Some (Sentinel ErrInvalidSkillName)
      else None)"

fun validate_entries :: "bool \<Rightarrow> tar_header list \<Rightarrow> goerr option \<Rightarrow> goerr option" where
  "validate_entries hasManifest [] (Some err) = Some (Wrapped ErrInvalidSkillArchive err)"
| "validate_entries hasManifest [] None =
     (if \<not> hasManifest then Some (Sentinel ErrSkillMissingManifest) else None)"
| "validate_entries hasManifest (hdr # hdrs) end =
     (let clean = path_Clean (hdr_Name hdr) in
      if path_IsAbs clean \<or> clean = ''..'' \<or> strings_HasPrefix clean ''../''
      then Some (Wrapped ErrInvalidSkillArchive (Quoted ''unsafe entry path'' (hdr_Name hdr)))
      else if hdr_Typeflag hdr = TypeSymlink \<or> hdr_Typeflag hdr = TypeLink
      then Some (Wrapped ErrInvalidSkillArchive (Quoted ''links are not allowed'' (hdr_Name hdr)))
      else validate_entries (if clean = skillManifest then True else hasManifest) hdrs end)"

definition validateSkillTar :: "tar_reader \<Rightarrow> bytes \<Rightarrow> goerr option" where
  "validateSkillTar tar_entries tarBytes =
     (case tar_entries tarBytes of (hdrs, end) \<Rightarrow> validate_entries False hdrs end)"

definition decompressAndValidate :: "SkillService \<Rightarrow> reader \<Rightarrow> goerr + bytes" where
  "decompressAndValidate s r =
     (case readAllMax r (ss_maxArchiveBytes s) of
        Inl err \<Rightarrow> Inl (Wrapped ErrSkillTooLarge err)
      | Inr gzData \<Rightarrow>
          (case ss_gunzip s gzData of
             Inl err \<Rightarrow> Inl (Wrapped ErrInvalidSkillArchive err)
           | Inr gz \<Rightarrow>
               let maxUncompressed = wrap64 (ss_maxArchiveBytes s * skillMaxDecompressRatio) in
               (case readAllMax gz maxUncompressed of
                  Inl err \<Rightarrow> Inl (Wrapped ErrSkillTooLarge err)
                | Inr tarBytes \<Rightarrow>
                    (case validateSkillTar (ss_tar_entries s) tarBytes of
                       Some err \<Rightarrow> Inl err
                     | None \<Rightarrow> Inr tarBytes))))"

definition SkillService_getRunningEnv ::
  "'s Store \<Rightarrow> string \<Rightarrow> string \<Rightarrow> ('s, 'e) world \<Rightarrow> (goerr + nat) \<times> ('s, 'e) world" where
  "SkillService_getRunningEnv S envID userID w =
     (case on_store (sto_Get S envID userID) w of
        (Inl err, w1) \<Rightarrow> (Inl (lookup_error ErrGetEnvironment err), w1)
      | (Inr env, w1) \<Rightarrow>
          if env_Status (deref env w1) \<noteq> StatusRunning then (Inl (Sentinel ErrEnvironmentNotRunning), w1)
          else (Inr env, w1))"

definition RegisterSkill ::
  "'s Store \<Rightarrow> SkillService \<Rightarrow> time \<Rightarrow> string \<Rightarrow> string \<Rightarrow> string \<Rightarrow> string \<Rightarrow> reader \<Rightarrow> ('s, 'e) world \<Rightarrow>
   (goerr + Skill) \<times> ('s, 'e) world" where
  "RegisterSkill S s now uuid tenantID userID name archive w =
     (case validateSkillName name of
        Some err \<Rightarrow> (Inl err, w)
      | None \<Rightarrow>
          (case decompressAndValidate s archive of
             Inl err \<Rightarrow> (Inl err, w)
           | Inr tarBytes \<Rightarrow>
               let skill = \<lparr>skill_ID = new_ID ''skill_'' uuid, skill_TenantID = tenantID, skill_UserID = userID,
                     skill_Name = name, skill_SizeBytes = int (length tarBytes), skill_CreatedAt = now,
                     skill_UpdatedAt = now\<rparr> in
               (case on_store (sto_UpsertSkill S skill tarBytes) w of
                  ((Some err, _), w1) \<Rightarrow> (Inl (Wrapped ErrStoreSkill err), w1)
                | ((None, skill'), w1) \<Rightarrow> (Inr skill', w1))))"

definition InstallSkillToEnvironment ::
  "'s Store \<Rightarrow> 'e Engine \<Rightarrow> SkillService \<Rightarrow> string \<Rightarrow> string \<Rightarrow> string \<Rightarrow> reader \<Rightarrow> ('s, 'e) world \<Rightarrow>
   goerr option \<times> ('s, 'e) world" where
  "InstallSkillToEnvironment S E s envID userID name archive w =
     (case validateSkillName name of
        Some err \<Rightarrow> (Some err, w)
      | None \<Rightarrow>
          (case SkillService_getRunningEnv S envID userID w of
             (Inl err, w1) \<Rightarrow> (Some err, w1)
           | (Inr env, w1) \<Rightarrow>
               (case decompressAndValidate s archive of
                  Inl err \<Rightarrow> (Some err, w1)
                | Inr tarBytes \<Rightarrow>
                    let destDir = path_Join [ss_skillsDir s, name] in
                    (case on_engine (eng_ExtractArchive E (env_ContainerID (deref env w1)) destDir tarBytes) w1 of
                       (Some err, w2) \<Rightarrow> (Some (Wrapped ErrInstallSkill err), w2)
                     | (None, w2) \<Rightarrow> (None, w2)))))"

text \<open>The header of a \<open>SKILL.md\<close>: the lines between \<open>---\<close> and \<open>---\<close>, as pairs of a key and a value.\<close>

fun frontmatter_loop :: "string list \<Rightarrow> string \<times> string \<Rightarrow> string \<times> string" where
  "frontmatter_loop [] (name, description) = (name, description)"
| "frontmatter_loop (line # ls) (name, description) =
     (case strings_Cut line (CHR '':'') of
        (key, val, hit) \<Rightarrow>
          if \<not> hit then frontmatter_loop ls (name, description)
          else let val' = strings_Trim (strings_TrimSpace val) [CHR 0x22, CHR 0x27];
                   key' = strings_TrimSpace key
               in if key' = ''name'' then frontmatter_loop ls (val', description)
                  else if key' = ''description'' then frontmatter_loop ls (name, val')
                  else frontmatter_loop ls (name, description))"

definition parseSkillFrontmatter :: "bytes \<Rightarrow> string \<times> string" where
  "parseSkillFrontmatter data =
     (let text = strings_ReplaceAll data [CHR 0x0D, CHR 0x0A] [CHR 0x0A] in
      if \<not> strings_HasPrefix text (''---'' @ [CHR 0x0A]) then ([], [])
      else case strings_Index (drop 4 text) (CHR 0x0A # ''---'') of
             None \<Rightarrow> ([], [])
           | Some end \<Rightarrow> frontmatter_loop (split_on (CHR 0x0A) (take end (drop 4 text))) ([], []))"

fun installed_loop ::
  "'e Engine \<Rightarrow> SkillService \<Rightarrow> string \<Rightarrow> FileInfo list \<Rightarrow> ('s, 'e) world \<Rightarrow> InstalledSkill list \<times> ('s, 'e) world" where
  "installed_loop E s containerID [] w = ([], w)"
| "installed_loop E s containerID (entry # entries) w =
     (if \<not> fi_IsDir entry then installed_loop E s containerID entries w
      else let dir = path_Join [ss_skillsDir s, fi_Name entry] in
        (case on_engine (eng_ReadFile E containerID (path_Join [dir, skillManifest])) w of
           (Inl _, w1) \<Rightarrow> installed_loop E s containerID entries w1
         | (Inr manifest, w1) \<Rightarrow>
             (case ReadAll_Limit manifest (ss_maxArchiveBytes s) of
                Inl _ \<Rightarrow> installed_loop E s containerID entries w1
              | Inr data \<Rightarrow>
                  (case parseSkillFrontmatter data of
                     (name, description) \<Rightarrow>
                       (case installed_loop E s containerID entries w1 of
                          (rest, w2) \<Rightarrow>
                            (\<lparr>is_Name = (if name = [] then fi_Name entry else name), is_Description = description,
                               is_Path = dir\<rparr> # rest, w2))))))"

definition ListInstalledSkills ::
  "'s Store \<Rightarrow> 'e Engine \<Rightarrow> SkillService \<Rightarrow> string \<Rightarrow> string \<Rightarrow> ('s, 'e) world \<Rightarrow>
   (goerr + InstalledSkill list) \<times> ('s, 'e) world" where
  "ListInstalledSkills S E s envID userID w =
     (case SkillService_getRunningEnv S envID userID w of
        (Inl err, w1) \<Rightarrow> (Inl err, w1)
      | (Inr env, w1) \<Rightarrow>
          (case on_engine (eng_ListFiles E (env_ContainerID (deref env w1)) (ss_skillsDir s)) w1 of
             (Inl _, w2) \<Rightarrow> (Inr [], w2)
           | (Inr entries, w2) \<Rightarrow>
               (case installed_loop E s (env_ContainerID (deref env w2)) entries w2 of
                  (installed, w3) \<Rightarrow> (Inr installed, w3))))"

definition ListSkills ::
  "'s Store \<Rightarrow> string \<Rightarrow> ('s, 'e) world \<Rightarrow> (goerr + Skill list) \<times> ('s, 'e) world" where
  "ListSkills S userID w =
     (case on_store (sto_ListSkills S userID) w of
        (Inl err, w1) \<Rightarrow> (Inl (Wrapped ErrListSkills err), w1)
      | (Inr skills, w1) \<Rightarrow> (Inr skills, w1))"

definition GetSkill ::
  "'s Store \<Rightarrow> string \<Rightarrow> string \<Rightarrow> ('s, 'e) world \<Rightarrow> (goerr + Skill) \<times> ('s, 'e) world" where
  "GetSkill S i userID w =
     (case on_store (sto_GetSkill S i userID) w of
        (Inl err, w1) \<Rightarrow>
          (Inl (if errors_Is err ErrNotFound then Sentinel ErrNotFound else Opaque ''failed to get skill''), w1)
      | (Inr skill, w1) \<Rightarrow> (Inr skill, w1))"

definition ListTenantSkills ::
  "'s Store \<Rightarrow> string \<Rightarrow> ('s, 'e) world \<Rightarrow> (goerr + Skill list) \<times> ('s, 'e) world" where
  "ListTenantSkills S tenantID w =
     (case on_store (sto_ListSkillsByTenant S tenantID) w of
        (Inl err, w1) \<Rightarrow> (Inl (Wrapped ErrListSkills err), w1)
      | (Inr skills, w1) \<Rightarrow> (Inr skills, w1))"

definition DeleteSkill ::
  "'s Store \<Rightarrow> string \<Rightarrow> string \<Rightarrow> ('s, 'e) world \<Rightarrow> goerr option \<times> ('s, 'e) world" where
  "DeleteSkill S i userID w =
     (case on_store (sto_DeleteSkill S i userID) w of
        (Some err, w1) \<Rightarrow> (Some (lookup_error ErrDeleteSkill err), w1)
      | (None, w1) \<Rightarrow> (None, w1))"

section \<open>Names and paths\<close>

lemma getRunningEnv_same: "SkillService_getRunningEnv = getRunningEnv"
  by (simp add: fun_eq_iff SkillService_getRunningEnv_def getRunningEnv_def)

lemma not_alnum: "is_alnum c \<Longrightarrow> c \<notin> set ''./''"
  by (auto simp: is_alnum_def)

lemma skill_name_proper:
  assumes "validateSkillName name = None"
  shows "proper_elem name" and "length name \<le> 64"
proof -
  obtain c cs where n: "name = c # cs" "is_alnum c" "list_all (\<lambda>d. is_alnum d \<or> d \<in> set ''._-'') cs" "length cs \<le> 63"
    using assms by (cases name) (auto simp: validateSkillName_def split: if_splits)
  have "CHR ''/'' \<notin> set cs"
    using n(3) not_alnum [of "CHR ''/''"] by (auto simp: list_all_iff)
  with n(1,2) not_alnum [OF n(2)] show "proper_elem name" by (auto simp: proper_elem_def)
  show "length name \<le> 64" using n(1,4) by simp
qed

lemma clean_elems_append:
  "clean_elems r out (xs @ ys) = clean_elems r (rev (clean_elems r out xs)) ys"
proof (induction xs arbitrary: out)
  case Nil
  then show ?case by simp
next
  case (Cons c xs)
  consider "c = [] \<or> c = ''.''" | "c = ''..''" | "c \<noteq> []" "c \<noteq> ''.''" "c \<noteq> ''..''" by blast
  then show ?case
  proof cases
    case 1
    show ?thesis unfolding append_Cons clean_elems_skip [OF 1] by (rule Cons.IH)
  next
    case 2
    show ?thesis unfolding 2 append_Cons clean_elems_up by (rule Cons.IH)
  next
    case 3
    show ?thesis unfolding append_Cons clean_elems_push [OF 3] by (rule Cons.IH)
  qed
qed

text \<open>Once a relative path has climbed above its start, its cleaned form says so.\<close>

lemma clean_elems_climbed:
  assumes "out \<noteq> []" and "last out = ''..''"
  shows "clean_elems False out cs \<noteq> [] \<and> hd (clean_elems False out cs) = ''..''"
  using assms
proof (induction cs arbitrary: out)
  case Nil
  then show ?case by (simp add: hd_rev)
next
  case (Cons c cs)
  consider "c = [] \<or> c = ''.''" | "c = ''..''" | "c \<noteq> []" "c \<noteq> ''.''" "c \<noteq> ''..''" by blast
  then show ?case
  proof cases
    case 1
    show ?thesis unfolding clean_elems_skip [OF 1] using Cons by blast
  next
    case 2
    have "tl out \<noteq> [] \<and> last (tl out) = ''..''" if "hd out \<noteq> ''..''"
      using that Cons.prems by (cases out) (auto split: if_splits)
    with 2 Cons.prems show ?thesis
      unfolding 2 clean_elems_up by (intro Cons.IH) (auto simp del: char.inject)
  next
    case 3
    show ?thesis unfolding clean_elems_push [OF 3] using Cons.prems by (intro Cons.IH) auto
  qed
qed

text \<open>A relative path that stays below its start means the same below any directory.\<close>

lemma clean_elems_below:
  assumes "\<forall>c \<in> set b. c \<noteq> ''..''" and "clean_elems False b cs = [] \<or> hd (clean_elems False b cs) \<noteq> ''..''"
  shows "clean_elems True (b @ acc) cs = rev acc @ clean_elems False b cs"
  using assms
proof (induction cs arbitrary: b)
  case Nil
  then show ?case by simp
next
  case (Cons c cs)
  consider "c = [] \<or> c = ''.''" | "c = ''..''" | "c \<noteq> []" "c \<noteq> ''.''" "c \<noteq> ''..''" by blast
  then show ?case
  proof cases
    case 1
    with Cons show ?thesis unfolding clean_elems_skip [OF 1] by blast
  next
    case 2
    have "b \<noteq> []"
      using Cons.prems(2) clean_elems_climbed [of "[''..'']" cs] unfolding 2 clean_elems_up by auto
    then obtain t ts where "b = t # ts" "t \<noteq> ''..''" using Cons.prems(1) by (cases b) auto
    with Cons.prems Cons.IH [of ts] show ?thesis unfolding 2 clean_elems_up by simp
  next
    case 3
    with Cons.prems Cons.IH [of "c # b"] show ?thesis unfolding clean_elems_push [OF 3] by simp
  qed
qed

lemma path_Join_elems:
  assumes "path_IsAbs base" and "name \<noteq> []"
  shows "path_elems (path_Join [base, name]) =
    clean_elems True (rev (path_elems base)) (split_on (CHR ''/'') name)"
    and "path_IsAbs (path_Join [base, name])"
    and "path_Join [base, name] = CHR ''/'' # strings_Join (path_elems (path_Join [base, name])) ''/''"
proof -
  let ?es = "clean_elems True (rev (path_elems base)) (split_on (CHR ''/'') name)"
  have b: "base \<noteq> []" using assms(1) by (auto simp: path_IsAbs_def strings_HasPrefix_def)
  let ?q = "base @ ''/'' @ name"
  have abs: "path_IsAbs ?q" using assms(1) by (auto simp: path_IsAbs_def strings_HasPrefix_def prefix_def)
  have sp: "split_on (CHR ''/'') (xs @ CHR ''/'' # name) = split_on (CHR ''/'') xs @ split_on (CHR ''/'') name" for xs
    by (induction xs) (auto split: list.splits)
  have e: "path_elems ?q = ?es"
    using assms(1) abs by (simp add: path_elems_def sp clean_elems_append)
  have "path_Join [base, name] = path_Clean ?q" using b assms(2) by (simp add: path_Join_def)
  also have "\<dots> = CHR ''/'' # strings_Join ?es ''/''" using path_Clean_abs [OF abs] e by simp
  finally have j: "path_Join [base, name] = CHR ''/'' # strings_Join ?es ''/''" .
  show "path_IsAbs (path_Join [base, name])" by (simp add: j)
  have "\<forall>c \<in> set ?es. proper_elem c" using path_elems_abs_proper [OF abs] e by auto
  then show pe: "path_elems (path_Join [base, name]) = ?es" unfolding j by (rule path_elems_rooted)
  show "path_Join [base, name] = CHR ''/'' # strings_Join (path_elems (path_Join [base, name])) ''/''"
    unfolding pe by (rule j)
qed

lemma path_Join_proper:
  assumes "path_IsAbs base" and "proper_elem name"
  shows "path_elems (path_Join [base, name]) = path_elems base @ [name]"
  using path_Join_elems(1) [OF assms(1), of name] assms(2) by (auto simp: proper_elem_def clean_elems_push)

text \<open>What the check of an entry name means: below any absolute directory the entry stays below it.\<close>

definition safe_entry :: "string \<Rightarrow> bool" where
  "safe_entry name \<longleftrightarrow> \<not> (path_IsAbs (path_Clean name) \<or> path_Clean name = ''..'' \<or> strings_HasPrefix (path_Clean name) ''../'')"

lemma Clean_climbs:
  assumes "\<not> path_IsAbs name" and "clean_elems False [] (split_on (CHR ''/'') name) = ''..'' # es"
  shows "path_Clean name = ''..'' \<or> strings_HasPrefix (path_Clean name) ''../''"
  using assms by (cases es) (simp_all add: path_Clean_def strings_HasPrefix_def)

lemma safe_entry_below:
  assumes "safe_entry name" and "path_IsAbs base"
  shows "\<exists>below. path_elems (path_Join [base, name]) = path_elems base @ below"
proof (cases "name = []")
  case True
  have "path_Join [base, name] = path_Clean base"
    using assms(2) True by (auto simp: path_Join_def path_IsAbs_def strings_HasPrefix_def)
  moreover have "path_elems (path_Clean base) = path_elems base"
    unfolding path_Clean_abs [OF assms(2)]
    using path_elems_abs_proper [OF assms(2)] by (intro path_elems_rooted) blast
  ultimately show ?thesis by simp
next
  case False
  let ?r = "clean_elems False [] (split_on (CHR ''/'') name)"
  have rel: "\<not> path_IsAbs name"
    using assms(1) path_Clean_abs [of name] by (auto simp: safe_entry_def)
  have "?r = [] \<or> hd ?r \<noteq> ''..''"
    using Clean_climbs [OF rel] assms(1) by (cases ?r) (auto simp: safe_entry_def)
  with clean_elems_below [of "[]" "split_on (CHR ''/'') name" "rev (path_elems base)"]
  have "clean_elems True (rev (path_elems base)) (split_on (CHR ''/'') name) = path_elems base @ ?r" by simp
  then show ?thesis using path_Join_elems(1) [OF assms(2) False] by auto
qed

section \<open>Archives\<close>

lemma validate_entries_ok:
  "validate_entries b hdrs end = None \<longleftrightarrow>
    end = None \<and> (\<forall>h \<in> set hdrs. safe_entry (hdr_Name h) \<and> hdr_Typeflag h \<notin> {TypeSymlink, TypeLink}) \<and>
    (b \<or> (\<exists>h \<in> set hdrs. path_Clean (hdr_Name h) = skillManifest))"
  by (induction b hdrs "end" rule: validate_entries.induct) (auto simp: Let_def safe_entry_def)

lemma validateSkillTar_ok:
  "validateSkillTar entries t = None \<longleftrightarrow>
    snd (entries t) = None \<and>
    (\<forall>h \<in> set (fst (entries t)). safe_entry (hdr_Name h) \<and> hdr_Typeflag h \<notin> {TypeSymlink, TypeLink}) \<and>
    (\<exists>h \<in> set (fst (entries t)). path_Clean (hdr_Name h) = skillManifest)"
  by (auto simp: validateSkillTar_def validate_entries_ok split: prod.splits)

lemma validate_entries_sentinels:
  "validate_entries b hdrs end = Some e \<Longrightarrow>
    errors_Is e ErrInvalidSkillArchive \<or> e = Sentinel ErrSkillMissingManifest"
  by (induction b hdrs "end" rule: validate_entries.induct) (auto simp: Let_def split: if_splits)

text \<open>The limits are megabytes, so neither is the largest 64-bit number.\<close>

lemma decompress_ok:
  assumes "in_int64 (ss_maxArchiveBytes s)" and "even (ss_maxArchiveBytes s)"
  shows "decompressAndValidate s r = Inr t \<longleftrightarrow>
    0 \<le> ss_maxArchiveBytes s \<and> rd_err r = None \<and> int (length (rd_data r)) \<le> ss_maxArchiveBytes s \<and>
    (\<exists>gz. ss_gunzip s (rd_data r) = Inr gz \<and> rd_data gz = t \<and> rd_err gz = None) \<and>
    int (length t) \<le> wrap64 (20 * ss_maxArchiveBytes s) \<and> validateSkillTar (ss_tar_entries s) t = None"
proof -
  have ev: "even (wrap64 (20 * ss_maxArchiveBytes s))"
    using wrap64_even [of "10 * ss_maxArchiveBytes s"] by (simp add: mult.assoc [symmetric])
  have in64: "in_int64 (wrap64 (20 * ss_maxArchiveBytes s))" by (rule wrap64_range)
  note outer = readAllMax_even [OF assms] and inner = readAllMax_even [OF in64 ev]
  have mul: "ss_maxArchiveBytes s * skillMaxDecompressRatio = 20 * ss_maxArchiveBytes s"
    by (simp add: skillMaxDecompressRatio_def)
  have "decompressAndValidate s r = Inr t \<longleftrightarrow>
    (\<exists>d gz. readAllMax r (ss_maxArchiveBytes s) = Inr d \<and> ss_gunzip s d = Inr gz \<and>
      readAllMax gz (wrap64 (20 * ss_maxArchiveBytes s)) = Inr t \<and> validateSkillTar (ss_tar_entries s) t = None)"
    unfolding decompressAndValidate_def Let_def mul by (auto split: sum.splits option.splits)
  then show ?thesis unfolding outer inner by auto
qed

lemma decompress_overflow:
  assumes "wrap64 (20 * ss_maxArchiveBytes s) < 0"
  shows "\<exists>e. decompressAndValidate s r = Inl e"
  using assms readAllMax_negative
  by (auto simp: decompressAndValidate_def Let_def skillMaxDecompressRatio_def mult.commute split: sum.splits)

lemma decompress_errors:
  "decompressAndValidate s r = Inl e \<Longrightarrow>
    errors_Is e ErrSkillTooLarge \<or> errors_Is e ErrInvalidSkillArchive \<or> e = Sentinel ErrSkillMissingManifest"
  by (auto simp: decompressAndValidate_def Let_def validateSkillTar_def split: sum.splits option.splits prod.splits
      dest!: validate_entries_sentinels)

section \<open>Skills on a store that keeps the contract\<close>

lemma installed_loop_mem: "installed_loop E s cid es w = (r, w') \<Longrightarrow> w_mem w' = w_mem w"
proof (induction es arbitrary: w r)
  case Nil
  then show ?case by simp
next
  case (Cons e es)
  show ?case
  proof (cases "fi_IsDir e")
    case False
    with Cons show ?thesis by simp
  next
    case True
    obtain q w1 where q: "on_engine (eng_ReadFile E cid (path_Join [path_Join [ss_skillsDir s, fi_Name e], skillManifest])) w = (q, w1)"
      by (meson surj_pair)
    obtain r2 w2 where "installed_loop E s cid es w1 = (r2, w2)" by (meson surj_pair)
    with Cons.prems True q have "w' = w2"
      by (auto simp: Let_def split: sum.splits prod.splits)
    with Cons.IH \<open>installed_loop E s cid es w1 = (r2, w2)\<close> on_engine_mem [OF q] show ?thesis by simp
  qed
qed

context store_client
begin

lemma getRunningEnv_keeps:
  assumes "inv (w_mem w)" and "getRunningEnv S i u w = (q, w1)"
  shows "reads (w_mem w) (w_mem w1)"
  using assms getRunningEnv_ok(9) [OF assms(1)] getRunningEnv_err(1) [OF assms(1)] by (cases q) blast+

lemma RegisterSkill_keeps:
  assumes "inv (w_mem w)" and "a_skills (\<alpha> (w_mem w)) (new_ID ''skill_'' uuid) = None"
    and "RegisterSkill S s now uuid t u name archive w = (r, w')"
  shows "keeps u (w_mem w) (w_mem w')"
proof (cases "validateSkillName name = None \<and> (\<exists>d. decompressAndValidate s archive = Inr d)")
  case True
  then obtain d where d: "validateSkillName name = None" "decompressAndValidate s archive = Inr d" by blast
  let ?k = "\<lparr>skill_ID = new_ID ''skill_'' uuid, skill_TenantID = t, skill_UserID = u, skill_Name = name,
    skill_SizeBytes = int (length d), skill_CreatedAt = now, skill_UpdatedAt = now\<rparr>"
  obtain e k' w1 where up: "on_store (sto_UpsertSkill S ?k d) w = ((e, k'), w1)" by (metis surj_pair)
  then have "w' = w1" using assms(3) d by (auto simp: RegisterSkill_def Let_def split: option.splits)
  with UpsertSkill_keeps [OF assms(1), of ?k u d e k' "w_mem w1"] on_store_result [OF up] assms(2) show ?thesis by simp
next
  case False
  with assms(3) have "w' = w" by (auto simp: RegisterSkill_def split: option.splits sum.splits)
  with assms(1) show ?thesis by (simp add: keeps_refl)
qed

lemma InstallSkill_reads:
  assumes "inv (w_mem w)" and "InstallSkillToEnvironment S E s i u name archive w = (r, w')"
  shows "reads (w_mem w) (w_mem w')"
proof -
  obtain q w1 where g: "getRunningEnv S i u w = (q, w1)" by (meson surj_pair)
  have "w' = w \<or> w_mem w' = w_mem w1"
    using assms(2) g by (auto simp: InstallSkillToEnvironment_def getRunningEnv_same Let_def
        split: option.splits sum.splits prod.splits dest!: on_engine_mem)
  with getRunningEnv_keeps [OF assms(1) g] assms(1) show ?thesis by auto
qed

lemma ListInstalledSkills_reads:
  assumes "inv (w_mem w)" and "ListInstalledSkills S E s i u w = (r, w')"
  shows "reads (w_mem w) (w_mem w')"
proof -
  obtain q w1 where g: "getRunningEnv S i u w = (q, w1)" by (meson surj_pair)
  have "w_mem w' = w_mem w1"
    using assms(2) g by (auto simp: ListInstalledSkills_def getRunningEnv_same
        split: sum.splits prod.splits dest!: on_engine_mem installed_loop_mem)
  with getRunningEnv_keeps [OF assms(1) g] show ?thesis by simp
qed

lemma DeleteSkill_service_keeps:
  assumes "inv (w_mem w)" and "u \<noteq> []" and "DeleteSkill S i u w = (r, w')"
  shows "keeps u (w_mem w) (w_mem w')"
proof -
  obtain q w1 where q: "on_store (sto_DeleteSkill S i u) w = (q, w1)" by (meson surj_pair)
  then have "w' = w1" using assms(3) by (cases q) (auto simp: DeleteSkill_def)
  with DeleteSkill_keeps [OF assms(1,2)] on_store_result [OF q] show ?thesis by blast
qed

lemma Skill_service_foreign:
  assumes "inv (w_mem w)" and "healthy (snd (w_mem w))" and "validateSkillName name = None"
    and "\<not> owned_env (a_envs (\<alpha> (w_mem w))) i u"
  shows "\<exists>w'. InstallSkillToEnvironment S E s i u name archive w = (Some (Sentinel ErrNotFound), w') \<and>
      reads (w_mem w) (w_mem w') \<and> w_eng w' = w_eng w"
    and "\<exists>w'. ListInstalledSkills S E s i u w = (Inl (Sentinel ErrNotFound), w') \<and>
      reads (w_mem w) (w_mem w') \<and> w_eng w' = w_eng w"
  using getRunningEnv_foreign [OF assms(1,2,4)] assms(3)
  by (auto simp: InstallSkillToEnvironment_def ListInstalledSkills_def getRunningEnv_same)

end

section \<open>Frontmatter\<close>

definition one_line :: "string \<Rightarrow> bool" where
  "one_line v \<longleftrightarrow> CHR 0x0A \<notin> set v \<and> CHR 0x0D \<notin> set v"

text \<open>A \<open>SKILL.md\<close> with a name and a description, as an author writes it.\<close>

definition skill_text :: "string \<Rightarrow> string \<Rightarrow> bytes \<Rightarrow> bytes" where
  "skill_text name description body =
     ''---'' @ [CHR 0x0A] @ ''name: '' @ name @ [CHR 0x0A] @ ''description: '' @ description @
     CHR 0x0A # ''---'' @ body"

lemma alnum_not_space:
  "list_all (\<lambda>q. q \<noteq> [] \<and> \<not> is_alnum (hd q)) space_seqs"
  "list_all (\<lambda>q. q \<noteq> [] \<and> \<not> is_alnum (hd q)) (map rev space_seqs)"
  by (simp_all add: space_seqs_def is_alnum_def)

lemma TrimSpace_alnum:
  assumes "s \<noteq> []" and "is_alnum (hd s)" and "is_alnum (last s)"
  shows "strings_TrimSpace s = s"
proof -
  have "trim_lead space_seqs s = s"
    using lead_len_zero [OF alnum_not_space(1) assms(2,1)] by (rule trim_lead_none)
  moreover have "trim_lead (map rev space_seqs) (rev s) = rev s"
    using assms by (intro trim_lead_none lead_len_zero [OF alnum_not_space(2)]) (simp_all add: hd_rev)
  ultimately show ?thesis by (simp add: strings_TrimSpace_def)
qed

lemma TrimSpace_blank: "strings_TrimSpace (CHR '' '' # s) = strings_TrimSpace s"
proof -
  have "lead_len space_seqs (CHR '' '' # s) = 1" by (simp add: space_seqs_def)
  then have "trim_lead space_seqs (CHR '' '' # s) = trim_lead space_seqs s"
    by (subst trim_lead.simps) (simp add: Let_def)
  then show ?thesis by (simp add: strings_TrimSpace_def)
qed

text \<open>Trimming takes something away exactly when there is a blank or a quote at an end.\<close>

lemma trim_lead_drops: "\<exists>n. trim_lead seqs s = drop n s"
proof (induction seqs s rule: trim_lead.induct)
  case (1 seqs s)
  show ?case
  proof (cases "lead_len seqs s = 0 \<or> s = []")
    case True
    then have "trim_lead seqs s = drop 0 s" by (subst trim_lead.simps) (auto simp: Let_def)
    then show ?thesis ..
  next
    case False
    from 1 [OF refl this] obtain n where "trim_lead seqs (drop (lead_len seqs s) s) = drop n (drop (lead_len seqs s) s)" ..
    with False have "trim_lead seqs s = drop (n + lead_len seqs s) s"
      by (subst trim_lead.simps) (simp add: Let_def del: trim_lead.simps)
    then show ?thesis ..
  qed
qed

lemma drop_length_eq: "length (drop n xs) = length xs \<Longrightarrow> drop n xs = xs"
  by (cases xs; cases n) auto

lemma TrimSpace_length:
  "length (strings_TrimSpace s) \<le> length s" "length (strings_TrimSpace s) = length s \<Longrightarrow> strings_TrimSpace s = s"
proof -
  obtain n where n: "trim_lead space_seqs s = drop n s" using trim_lead_drops by blast
  obtain m where m: "trim_lead (map rev space_seqs) (rev (drop n s)) = drop m (rev (drop n s))" using trim_lead_drops by blast
  have t: "strings_TrimSpace s = rev (drop m (rev (drop n s)))" by (simp add: strings_TrimSpace_def n m)
  show "length (strings_TrimSpace s) \<le> length s" by (simp add: t)
  assume l: "length (strings_TrimSpace s) = length s"
  then have "length (drop n s) = length s" "length (drop m (rev (drop n s))) = length (rev (drop n s))" unfolding t by simp_all
  from this [THEN drop_length_eq] show "strings_TrimSpace s = s" unfolding t by simp
qed

lemma Trim_length: "length (strings_Trim s q) \<le> length s"
  unfolding strings_Trim_def length_rev by (rule le_trans [OF length_dropWhile_le]) (simp add: length_dropWhile_le)

lemma Trim_same: "strings_Trim s q = s \<longleftrightarrow> s = [] \<or> hd s \<notin> set q \<and> last s \<notin> set q"
proof
  let ?P = "\<lambda>c. c \<in> set q"
  assume t: "strings_Trim s q = s"
  have "length (strings_Trim s q) \<le> length (dropWhile ?P s)"
    unfolding strings_Trim_def length_rev by (rule le_trans [OF length_dropWhile_le]) simp
  then have "length s \<le> length (dropWhile ?P s)" by (simp add: t)
  then have d: "dropWhile ?P s = s"
    by (metis append_Nil le_antisym length_append length_dropWhile_le length_greater_0_conv less_add_same_cancel2 nat_less_le takeWhile_dropWhile_id)
  then have "dropWhile ?P (rev s) = rev s" using t by (simp add: strings_Trim_def) (metis rev_rev_ident)
  with d show "s = [] \<or> hd s \<notin> set q \<and> last s \<notin> set q"
    by (auto simp: dropWhile_eq_self_iff hd_rev)
next
  assume "s = [] \<or> hd s \<notin> set q \<and> last s \<notin> set q"
  then have "dropWhile (\<lambda>c. c \<in> set q) s = s" "dropWhile (\<lambda>c. c \<in> set q) (rev s) = rev s"
    by (auto simp: dropWhile_eq_self_iff hd_rev)
  then show "strings_Trim s q = s" by (simp add: strings_Trim_def)
qed

lemma trimmed_same:
  "strings_Trim (strings_TrimSpace v) q = v \<longleftrightarrow> strings_TrimSpace v = v \<and> (v = [] \<or> hd v \<notin> set q \<and> last v \<notin> set q)"
proof
  assume t: "strings_Trim (strings_TrimSpace v) q = v"
  then have "length v \<le> length (strings_TrimSpace v)" using Trim_length [of "strings_TrimSpace v" q] by simp
  then have "strings_TrimSpace v = v" using TrimSpace_length [of v] by simp
  with t show "strings_TrimSpace v = v \<and> (v = [] \<or> hd v \<notin> set q \<and> last v \<notin> set q)" by (simp add: Trim_same)
qed (simp add: Trim_same)

lemma cut_line:
  assumes "CHR '':'' \<notin> set key"
  shows "strings_Cut (key @ CHR '':'' # val) (CHR '':'') = (key, val, True)"
  using cut [OF assms, of val] by (simp add: strings_Cut_def Let_def)

lemma replace_prefix:
  "CHR 0x0D \<notin> set a \<Longrightarrow>
    strings_ReplaceAll (a @ b) [CHR 0x0D, CHR 0x0A] n = a @ strings_ReplaceAll b [CHR 0x0D, CHR 0x0A] n"
  by (induction a) auto

lemma Index_first:
  assumes "\<And>i. i < length a \<Longrightarrow> \<not> prefix sub (drop i (a @ s))" and "prefix sub s"
  shows "strings_Index (a @ s) sub = Some (length a)"
  using assms(1)
proof (induction a)
  case Nil
  then show ?case using assms(2) by (cases s) auto
next
  case (Cons x a)
  have "\<not> prefix sub (drop i (a @ s))" if "i < length a" for i
    using Cons.prems [of "Suc i"] that by simp
  with Cons.IH Cons.prems [of 0] show ?case by simp
qed

lemma Index_block:
  assumes "CHR 0x0A \<notin> set a" and "CHR 0x0A \<notin> set b" and "b \<noteq> []" and "hd b \<noteq> CHR ''-''"
  shows "strings_Index (a @ CHR 0x0A # b @ CHR 0x0A # ''---'' @ s) (CHR 0x0A # ''---'') =
    Some (length (a @ CHR 0x0A # b))"
proof -
  let ?ab = "a @ CHR 0x0A # b" and ?s = "CHR 0x0A # ''---'' @ s"
  have "\<not> prefix (CHR 0x0A # ''---'') (drop i (?ab @ ?s))" if i: "i < length ?ab" for i
  proof (cases "i = length a")
    case True
    with assms(3,4) show ?thesis by (cases b) simp_all
  next
    case False
    have "?ab ! i \<in> set a \<union> set b"
      using False i by (auto simp: nth_append nth_Cons')
    with assms(1,2) have ne: "?ab ! i \<noteq> CHR 0x0A" by auto
    have "drop i (xs @ ?s) = xs ! i # drop (Suc i) (xs @ ?s)" if "i < length xs" for xs
      using that by (simp add: Cons_nth_drop_Suc [symmetric])
    from this [OF i] ne show ?thesis by simp
  qed
  from Index_first [of ?ab _ ?s, OF this] show ?thesis by simp
qed

lemma parse_block:
  assumes "strings_ReplaceAll data [CHR 0x0D, CHR 0x0A] [CHR 0x0A] = ''---'' @ [CHR 0x0A] @ block @ rest"
    and "strings_Index (block @ rest) (CHR 0x0A # ''---'') = Some (length block)"
  shows "parseSkillFrontmatter data = frontmatter_loop (split_on (CHR 0x0A) block) ([], [])"
  using assms by (simp add: parseSkillFrontmatter_def Let_def strings_HasPrefix_def)

text \<open>What is read of a value: blanks around it go, then quotes of either kind.\<close>

abbreviation trimmed :: "string \<Rightarrow> string" where
  "trimmed v \<equiv> strings_Trim (strings_TrimSpace v) [CHR 0x22, CHR 0x27]"

lemma frontmatter_roundtrip:
  assumes "one_line name" and "one_line description"
  shows "parseSkillFrontmatter (skill_text name description body) = (trimmed name, trimmed description)"
proof -
  let ?a = "''name: '' @ name" and ?b = "''description: '' @ description"
  let ?head = "''---'' @ [CHR 0x0A] @ ?a @ [CHR 0x0A] @ ?b @ CHR 0x0A # ''---''"
  let ?rest = "strings_ReplaceAll body [CHR 0x0D, CHR 0x0A] [CHR 0x0A]"
  note v = assms [unfolded one_line_def]
  have "CHR 0x0D \<notin> set ?head" using v by simp
  from replace_prefix [OF this, of body "[CHR 0x0A]"]
  have repl: "strings_ReplaceAll (skill_text name description body) [CHR 0x0D, CHR 0x0A] [CHR 0x0A] =
      ''---'' @ [CHR 0x0A] @ (?a @ CHR 0x0A # ?b) @ CHR 0x0A # ''---'' @ ?rest"
    by (simp add: skill_text_def del: strings_ReplaceAll.simps)
  have idx: "strings_Index (?a @ CHR 0x0A # ?b @ CHR 0x0A # ''---'' @ ?rest) (CHR 0x0A # ''---'') =
      Some (length (?a @ CHR 0x0A # ?b))"
    using v by (intro Index_block) simp_all
  have sp: "split_on (CHR 0x0A) (?a @ CHR 0x0A # ?b) = [?a, ?b]"
    using v split_on_append [of "CHR 0x0A" ?a ?b] by simp
  have cuts: "strings_Cut ?a (CHR '':'') = (''name'', CHR '' '' # name, True)"
    "strings_Cut ?b (CHR '':'') = (''description'', CHR '' '' # description, True)"
    using cut_line [of "''name''" "CHR '' '' # name"] cut_line [of "''description''" "CHR '' '' # description"] by simp_all
  have keys: "strings_TrimSpace ''name'' = ''name''" "strings_TrimSpace ''description'' = ''description''"
    by (rule TrimSpace_alnum; simp add: is_alnum_def)+
  have loop: "frontmatter_loop [?a, ?b] ([], []) = (trimmed name, trimmed description)"
    by (simp add: cuts keys Let_def TrimSpace_blank del: append_Cons)
  have "strings_Index ((?a @ CHR 0x0A # ?b) @ CHR 0x0A # ''---'' @ ?rest) (CHR 0x0A # ''---'') =
      Some (length (?a @ CHR 0x0A # ?b))"
    using idx by (simp only: append_assoc append_Cons)
  from parse_block [OF repl this] show ?thesis
    unfolding sp loop .
qed

section \<open>Installation\<close>

text \<open>Where the entries of an accepted archive end up below a directory.\<close>

definition lands_below :: "string \<Rightarrow> string list \<Rightarrow> tar_header \<Rightarrow> bool" where
  "lands_below dest base h \<longleftrightarrow> prefix base (path_elems (path_Join [dest, hdr_Name h])) \<and>
     hdr_Typeflag h \<notin> {TypeSymlink, TypeLink}"

lemma InstallSkill_ok:
  assumes "InstallSkillToEnvironment S E s i u name archive w = (None, w')"
  obtains p w1 t where "validateSkillName name = None" "SkillService_getRunningEnv S i u w = (Inr p, w1)"
    "decompressAndValidate s archive = Inr t"
    "eng_ExtractArchive E (env_ContainerID (deref p w1)) (path_Join [ss_skillsDir s, name]) t (w_eng w1) = (None, w_eng w')"
    "w_mem w' = w_mem w1"
  using assms
  by (auto simp: InstallSkillToEnvironment_def Let_def split: option.splits sum.splits prod.splits
      dest!: on_engine_result)

lemma decompress_valid:
  "decompressAndValidate s r = Inr t \<Longrightarrow> validateSkillTar (ss_tar_entries s) t = None"
  by (auto simp: decompressAndValidate_def Let_def split: sum.splits option.splits)

lemma safe_lands:
  assumes "safe_entry (hdr_Name h)" and "path_IsAbs dest" and "path_elems dest = base" and "hdr_Typeflag h \<notin> {TypeSymlink, TypeLink}"
  shows "lands_below dest base h"
  using safe_entry_below [OF assms(1,2)] assms(3,4) by (auto simp: lands_below_def)

lemma proper_SKILL: "proper_elem skillManifest"
  by (simp add: proper_elem_def skillManifest_def)

lemma manifest_lands:
  assumes "path_Clean name = skillManifest" and "path_IsAbs dest"
  shows "path_elems (path_Join [dest, name]) = path_elems dest @ [skillManifest]"
proof -
  have rel: "\<not> path_IsAbs name" using assms(1) path_Clean_abs [of name] by (auto simp: skillManifest_def)
  have n: "name \<noteq> []" using assms(1) by (auto simp: path_Clean_def path_IsAbs_def strings_HasPrefix_def clean_elems_skip skillManifest_def)
  let ?r = "clean_elems False [] (split_on (CHR ''/'') name)"
  have j: "strings_Join ?r ''/'' = skillManifest"
    using assms(1) rel by (auto simp: path_Clean_def Let_def skillManifest_def split: if_splits)
  have ns: "\<forall>c \<in> set ?r. CHR ''/'' \<notin> set c"
    by (rule clean_elems_no_slash) (auto dest: split_on_no_sep)
  have "?r \<noteq> []" using j by (auto simp: skillManifest_def)
  from split_join [OF this ns] have r: "?r = [skillManifest]" unfolding j by (simp add: skillManifest_def)
  have "clean_elems True (rev (path_elems dest)) (split_on (CHR ''/'') name) = path_elems dest @ ?r"
    using clean_elems_below [of "[]" "split_on (CHR ''/'') name" "rev (path_elems dest)"] r
    by (simp add: skillManifest_def)
  then show ?thesis using path_Join_elems(1) [OF assms(2) n] r by simp
qed

section \<open>Properties\<close>

text \<open>C21: for a limit of at most 2 ^ 63 / 20 bytes an archive is accepted exactly when the upload
  was read without an error and is within the limit, gzip opens it and reads it to its end, the
  tar has at most twenty times the limit, every entry name is safe, none is a link and one is
  \<open>SKILL.md\<close>; the answer is then the uncompressed tar.\<close>

theorem archive_accepted_iff:
  assumes "0 \<le> ss_maxArchiveBytes s" and "20 * ss_maxArchiveBytes s < 2 ^ 63" and "even (ss_maxArchiveBytes s)"
  shows "decompressAndValidate s r = Inr t \<longleftrightarrow>
    rd_err r = None \<and> int (length (rd_data r)) \<le> ss_maxArchiveBytes s \<and>
    (\<exists>gz. ss_gunzip s (rd_data r) = Inr gz \<and> rd_data gz = t \<and> rd_err gz = None) \<and>
    int (length t) \<le> 20 * ss_maxArchiveBytes s \<and> snd (ss_tar_entries s t) = None \<and>
    (\<forall>h \<in> set (fst (ss_tar_entries s t)). safe_entry (hdr_Name h) \<and> hdr_Typeflag h \<notin> {TypeSymlink, TypeLink}) \<and>
    (\<exists>h \<in> set (fst (ss_tar_entries s t)). path_Clean (hdr_Name h) = ''SKILL.md'')"
proof -
  have "in_int64 (ss_maxArchiveBytes s)" "in_int64 (20 * ss_maxArchiveBytes s)"
    using assms(1,2) by (simp_all add: in_int64_def)
  then show ?thesis
    using decompress_ok [OF _ assms(3), of r t] assms(1)
    by (auto simp: validateSkillTar_ok skillManifest_def)
qed

definition example_skills :: SkillService where
  "example_skills = \<lparr>ss_skillsDir = ''/root/.claude/skills'', ss_maxArchiveBytes = 50 * 2 ^ 20,
     ss_gunzip = (\<lambda>d. if d = [] then Inl io_EOF else Inr \<lparr>rd_data = tl d, rd_err = None\<rparr>),
     ss_tar_entries = (\<lambda>t. if t = ''tar'' then ([\<lparr>hdr_Name = ''./SKILL.md'', hdr_Typeflag = TypeReg\<rparr>,
         \<lparr>hdr_Name = ''ref/../ref/a.txt'', hdr_Typeflag = TypeReg\<rparr>], None) else ([], Some io_ErrUnexpectedEOF))\<rparr>"

lemma example_entries:
  "path_Clean ''./SKILL.md'' = ''SKILL.md''" "path_Clean ''ref/../ref/a.txt'' = ''ref/a.txt''"
  by (simp_all add: path_Clean_def path_IsAbs_def strings_HasPrefix_def clean_elems.simps)

lemma example_safe: "safe_entry ''./SKILL.md''" "safe_entry ''ref/../ref/a.txt''"
  by (simp_all add: safe_entry_def example_entries path_IsAbs_def strings_HasPrefix_def)

theorem archive_accepted_iff_witness:
  "decompressAndValidate example_skills \<lparr>rd_data = ''ztar'', rd_err = None\<rparr> = Inr ''tar'' \<and>
   decompressAndValidate example_skills \<lparr>rd_data = ''ztar'', rd_err = Some io_ErrUnexpectedEOF\<rparr> \<noteq> Inr ''tar''"
  using archive_accepted_iff [of example_skills "\<lparr>rd_data = ''ztar'', rd_err = None\<rparr>" "''tar''"]
    archive_accepted_iff [of example_skills "\<lparr>rd_data = ''ztar'', rd_err = Some io_ErrUnexpectedEOF\<rparr>" "''tar''"]
  by (simp add: example_skills_def example_safe example_entries)

text \<open>C22: of a \<open>SKILL.md\<close> that starts with a name and a description, each on its line, the parser
  reads the two values without the blanks and then the quotes at their ends, whatever follows the
  frontmatter; so it reads a description exactly as it was written when it has none of them there,
  and only then (one that ends in a quote loses it).\<close>

theorem skill_frontmatter_roundtrip:
  assumes "one_line name" and "one_line description"
  shows "parseSkillFrontmatter (skill_text name description body) =
      (strings_Trim (strings_TrimSpace name) [CHR 0x22, CHR 0x27], strings_Trim (strings_TrimSpace description) [CHR 0x22, CHR 0x27]) \<and>
    (snd (parseSkillFrontmatter (skill_text name description body)) = description \<longleftrightarrow>
      strings_TrimSpace description = description \<and>
      (description = [] \<or> hd description \<notin> {CHR 0x22, CHR 0x27} \<and> last description \<notin> {CHR 0x22, CHR 0x27}))"
  using frontmatter_roundtrip [OF assms] trimmed_same [of description "[CHR 0x22, CHR 0x27]"] by simp

theorem skill_frontmatter_roundtrip_witness:
  "parseSkillFrontmatter (skill_text ''pdf-tools'' (''Say '' @ [CHR 0x22] @ ''hi'' @ [CHR 0x22]) [CHR 0x0D, CHR 0x0A]) =
     (''pdf-tools'', ''Say '' @ [CHR 0x22] @ ''hi'')"
proof -
  let ?d = "''Say '' @ [CHR 0x22] @ ''hi'' @ [CHR 0x22]"
  have "strings_TrimSpace ''pdf-tools'' = ''pdf-tools''" by (rule TrimSpace_alnum) (simp_all add: is_alnum_def)
  moreover have "strings_TrimSpace ?d = ?d"
    by (simp add: strings_TrimSpace_def space_seqs_def trim_lead.simps Let_def)
  ultimately show ?thesis
    using skill_frontmatter_roundtrip [of "''pdf-tools''" ?d "[CHR 0x0D, CHR 0x0A]"]
    by (simp add: one_line_def strings_Trim_def)
qed

lemma example_accepted: "decompressAndValidate example_skills \<lparr>rd_data = ''ztar'', rd_err = None\<rparr> = Inr ''tar''"
  using decompress_ok [of example_skills "\<lparr>rd_data = ''ztar'', rd_err = None\<rparr>" "''tar''"]
  by (simp add: example_skills_def in_int64_def validateSkillTar_def example_entries path_IsAbs_def strings_HasPrefix_def skillManifest_def)

text \<open>C23: an archive whose gzip stream is damaged is answered as one that is too large: when the upload
  is within the limit and gzip opens it but then reports an error within the limit, the error is
  \<open>ErrSkillTooLarge\<close> and never \<open>ErrInvalidSkillArchive\<close>.\<close>

theorem damaged_archive_too_large:
  assumes "0 \<le> ss_maxArchiveBytes s" and "20 * ss_maxArchiveBytes s < 2 ^ 63" and "even (ss_maxArchiveBytes s)"
    and "int (length (rd_data r)) \<le> ss_maxArchiveBytes s" and "rd_err r = None"
    and "ss_gunzip s (rd_data r) = Inr gz" and "int (length (rd_data gz)) \<le> 20 * ss_maxArchiveBytes s" and "rd_err gz = Some e"
  shows "decompressAndValidate s r = Inl (Wrapped ErrSkillTooLarge e) \<and>
    \<not> errors_Is (Wrapped ErrSkillTooLarge e) ErrInvalidSkillArchive"
proof -
  have i: "in_int64 (ss_maxArchiveBytes s)" "in_int64 (20 * ss_maxArchiveBytes s)"
    using assms(1,2) by (simp_all add: in_int64_def)
  have r: "readAllMax r (ss_maxArchiveBytes s) = Inr (rd_data r)"
    using readAllMax_even [OF i(1) assms(3)] assms(1,4,5) by simp
  have g: "readAllMax gz (wrap64 (20 * ss_maxArchiveBytes s)) = Inl e"
    using readAllMax_spec [OF i(2), of gz] assms(1,7,8) even_limit [of "20 * ss_maxArchiveBytes s"] by (simp add: wrap64_id [OF i(2)])
  show ?thesis
    using r g assms(6) by (simp add: decompressAndValidate_def skillMaxDecompressRatio_def mult.commute)
qed

theorem damaged_archive_too_large_witness:
  "decompressAndValidate (example_skills\<lparr>ss_gunzip := \<lambda>d. Inr \<lparr>rd_data = ''ta'', rd_err = Some io_ErrUnexpectedEOF\<rparr>\<rparr>)
     \<lparr>rd_data = ''ztar'', rd_err = None\<rparr> = Inl (Wrapped ErrSkillTooLarge io_ErrUnexpectedEOF)"
  using damaged_archive_too_large [of "example_skills\<lparr>ss_gunzip := \<lambda>d. Inr \<lparr>rd_data = ''ta'', rd_err = Some io_ErrUnexpectedEOF\<rparr>\<rparr>"
      "\<lparr>rd_data = ''ztar'', rd_err = None\<rparr>" "\<lparr>rd_data = ''ta'', rd_err = Some io_ErrUnexpectedEOF\<rparr>" io_ErrUnexpectedEOF]
  by (simp add: example_skills_def)

end
