(* ===== verification/API.thy ===== *)
theory API
  imports Exec_WS Environment_Service Snapshot_Service Exec_Service Skill_Service
begin

text \<open>
  \<open>internal/api\<close>: the handlers and the router.  A handler is a function of the request and the
  world; what it calls outside the program is in the record \<open>api\<close>: the decoders of
  \<open>encoding/json\<close> for the three request bodies, \<open>mime\<close>, \<open>strconv.Quote\<close>, the archive readers and
  chi's matcher.  A request is served at one instant \<open>api_now\<close> with one fresh UUID \<open>api_uuid\<close>.
\<close>

section \<open>Messages\<close>

primrec sentinel_Error :: "sentinel \<Rightarrow> string" where
  "sentinel_Error ErrEnvironmentNotRunning = ''environment must be running to create a snapshot''"
| "sentinel_Error ErrCreateSnapshot = ''failed to create snapshot''"
| "sentinel_Error ErrStoreSnapshot = ''failed to store snapshot''"
| "sentinel_Error ErrListSnapshots = ''failed to list snapshots''"
| "sentinel_Error ErrDeleteSnapshot = ''failed to delete snapshot''"
| "sentinel_Error ErrPathRequired = ''path query parameter is required''"
| "sentinel_Error ErrInvalidPath = ''invalid path''"
| "sentinel_Error ErrReadRequestBody = ''failed to read request body''"
| "sentinel_Error ErrListFiles = ''failed to list files''"
| "sentinel_Error ErrReadFile = ''failed to read file''"
| "sentinel_Error ErrWriteFile = ''failed to write file''"
| "sentinel_Error ErrSkillNameRequired = ''skill name is required''"
| "sentinel_Error ErrInvalidSkillName = ''invalid skill name''"
| "sentinel_Error ErrInvalidSkillArchive = ''invalid skill archive: expected a gzip-compressed tar''"
| "sentinel_Error ErrSkillMissingManifest = ''skill archive must contain a top-level SKILL.md''"
| "sentinel_Error ErrSkillTooLarge = ''skill archive too large''"
| "sentinel_Error ErrListSkills = ''failed to list skills''"
| "sentinel_Error ErrStoreSkill = ''failed to store skill''"
| "sentinel_Error ErrDeleteSkill = ''failed to delete skill''"
| "sentinel_Error ErrInstallSkill = ''failed to install skill''"
| "sentinel_Error ErrCommandRequired = ''command is required''"
| "sentinel_Error ErrExecFailed = ''exec failed''"
| "sentinel_Error ErrImageRequired = ''image is required when snapshot_id is not set''"
| "sentinel_Error ErrImageNotAllowed = ''image not allowed''"
| "sentinel_Error ErrInvalidCPU = ''cpu must be between 0.1 and 4''"
| "sentinel_Error ErrInvalidMemory = ''memory_mb must be between 128 and 8192''"
| "sentinel_Error ErrInvalidNetwork = ''network_policy must be none, egress-limited, or full''"
| "sentinel_Error ErrGetEnvironment = ''failed to get environment''"
| "sentinel_Error ErrListEnvironments = ''failed to list environments''"
| "sentinel_Error ErrCreateEnvironment = ''failed to create environment''"
| "sentinel_Error ErrCreateContainer = ''failed to create container''"
| "sentinel_Error ErrStartContainer = ''failed to start container''"
| "sentinel_Error ErrDeleteEnvironment = ''failed to delete environment''"
| "sentinel_Error ErrGetSnapshot = ''failed to get snapshot''"
| "sentinel_Error ErrNotFound = ''environment not found''"

primrec goerr_Error :: "(string \<Rightarrow> string) \<Rightarrow> goerr \<Rightarrow> string" where
  "goerr_Error quote (Sentinel s) = sentinel_Error s"
| "goerr_Error quote (ImageNotAllowedError img) = ImageNotAllowedError_Error img"
| "goerr_Error quote (Wrapped s e) = sentinel_Error s @ '': '' @ goerr_Error quote e"
| "goerr_Error quote (Context m e) = m @ '': '' @ goerr_Error quote e"
| "goerr_Error quote (Opaque m) = m"
| "goerr_Error quote (Quoted m x) = m @ '' '' @ quote x"

section \<open>Dependencies\<close>

record CreateEnvironmentRequest =
  cq_Image :: string
  cq_CPU :: float64
  cq_MemoryMB :: int64
  cq_DiskMB :: int64
  cq_NetworkPolicy :: string
  cq_EnvVars :: string_map
  cq_SnapshotID :: string

text \<open>The routes of \<open>NewRouter\<close>, by the handler that serves them.\<close>

datatype route =
    Healthz
  | Env_Create | Env_List | Env_Get | Env_Destroy | Exec | ExecWS
  | Files_List | Files_Read | Files_Write
  | Snap_Create | Skill_InstallToEnv | Skill_ListInstalled
  | Snap_List | Snap_Get | Snap_Delete
  | Skill_Register | Skill_List | Skill_Get | Skill_Delete
  | Tenant_Environments | Tenant_Snapshots | Tenant_Skills

type_synonym route_table = "(string \<times> string \<times> route) list"

record ('s, 'e) api =
  api_store :: "'s Store"
  api_engine :: "'e Engine"
  api_cfg :: Config
  api_hashing :: hashing
  api_now :: time
  api_uuid :: string
  api_decode_create :: "CreateEnvironmentRequest json_decoder"
  api_decode_exec :: "ExecRequest json_decoder"
  api_decode_label :: "reader \<Rightarrow> string"
  api_TypeByExtension :: "string \<Rightarrow> string"
  api_FormatMediaType :: "string \<Rightarrow> string"
  api_Quote :: "string \<Rightarrow> string"
  api_gunzip :: gzip_reader
  api_tar :: tar_reader
  api_upgrade :: "request \<Rightarrow> response option"
  api_ws_events :: "ws_event list"
  api_match :: "route_table \<Rightarrow> string \<Rightarrow> string \<Rightarrow> (route \<times> string) option"
  api_grouped :: "string list \<Rightarrow> string \<Rightarrow> bool"
  api_no_match :: "string \<Rightarrow> string \<Rightarrow> response"

text \<open>\<open>api_match\<close> is chi's choice of a route for a method and a path, with the URL parameter \<open>id\<close>;
  \<open>api_no_match\<close> its own answer when there is none, and \<open>api_grouped\<close> whether a path falls into one of the
  mounted groups, whose middleware runs before chi looks for the route; \<open>api_decode_label\<close> is what decoding leaves in
  the label, on an error too; \<open>api_upgrade\<close> is what a failed WebSocket handshake was answered and
  \<open>api_ws_events\<close> what happens during a session.\<close>

type_synonym ('s, 'e) api_handler = "('s, 'e) api \<Rightarrow> string \<Rightarrow> ('s, 'e) world handler"

definition skillService :: "('s, 'e) api \<Rightarrow> SkillService" where
  "skillService d = \<lparr>ss_skillsDir = cfg_SkillsDir (api_cfg d), ss_maxArchiveBytes = shl64 (cfg_MaxSkillMB (api_cfg d)) 20,
     ss_gunzip = api_gunzip d, ss_tar_entries = api_tar d\<rparr>"

definition maxFileUploadBytes :: "('s, 'e) api \<Rightarrow> int64" where
  "maxFileUploadBytes d = shl64 (cfg_MaxFileUploadMB (api_cfg d)) 20"

section \<open>Environments\<close>

definition writeCreateEnvironmentError :: "(string \<Rightarrow> string) \<Rightarrow> goerr \<Rightarrow> response" where
  "writeCreateEnvironmentError quote err =
     (if errors_Is err ErrImageRequired then writeError 400 (sentinel_Error ErrImageRequired)
      else if errors_Is err ErrImageNotAllowed then writeError 403 (goerr_Error quote err)
      else if errors_Is err ErrInvalidCPU then writeError 400 (sentinel_Error ErrInvalidCPU)
      else if errors_Is err ErrInvalidMemory then writeError 400 (sentinel_Error ErrInvalidMemory)
      else if errors_Is err ErrInvalidNetwork then writeError 400 (sentinel_Error ErrInvalidNetwork)
      else if errors_Is err ErrNotFound then writeError 404 ''snapshot not found''
      else if errors_Is err ErrGetSnapshot then writeError 500 ''failed to get snapshot''
      else if errors_Is err ErrCreateContainer then writeError 500 ''failed to create container''
      else if errors_Is err ErrStartContainer then writeError 500 ''failed to start container''
      else writeError 500 ''failed to create environment'')"

definition writeDestroyEnvironmentError :: "goerr \<Rightarrow> response" where
  "writeDestroyEnvironmentError err =
     (if errors_Is err ErrNotFound then writeError 404 ''environment not found''
      else if errors_Is err ErrGetEnvironment then writeError 500 ''failed to get environment''
      else writeError 500 ''failed to delete environment'')"

definition writeGetEnvironmentError :: "goerr \<Rightarrow> response" where
  "writeGetEnvironmentError err =
     (if errors_Is err ErrNotFound then writeError 404 ''environment not found''
      else writeError 500 ''failed to get environment'')"

definition EnvironmentHandler_Create :: "('s, 'e) api_handler" where
  "EnvironmentHandler_Create d _ r w =
     (case decodeJSON (api_decode_create d) r of
        Inl err \<Rightarrow> (Response (writeError 400 (goerr_Error (api_Quote d) err)), w)
      | Inr req \<Rightarrow>
          (case CreateEnvironment (api_store d) (api_engine d) (api_cfg d) (api_now d) (api_uuid d)
                  (TenantIDFromContext r) (UserIDFromContext r)
                  \<lparr>ci_Image = cq_Image req, ci_CPU = cq_CPU req, ci_MemoryMB = cq_MemoryMB req,
                   ci_DiskMB = cq_DiskMB req, ci_NetworkPolicy = cq_NetworkPolicy req,
                   ci_EnvVars = cq_EnvVars req, ci_SnapshotID = cq_SnapshotID req\<rparr> w of
             (Inl err, w1) \<Rightarrow> (Response (writeCreateEnvironmentError (api_Quote d) err), w1)
           | (Inr env, w1) \<Rightarrow>
               (Response (writeJSON 201 (JCreated \<lparr>cr_ID = env_ID (deref env w1),
                  cr_Status = env_Status (deref env w1), cr_Image = Image (env_Spec (deref env w1))\<rparr>)), w1)))"

definition EnvironmentHandler_Destroy :: "('s, 'e) api_handler" where
  "EnvironmentHandler_Destroy d i r w =
     (case DestroyEnvironment (api_store d) (api_engine d) i (UserIDFromContext r) w of
        (Some err, w1) \<Rightarrow> (Response (writeDestroyEnvironmentError err), w1)
      | (None, w1) \<Rightarrow> (Response (WriteHeader 204), w1))"

definition EnvironmentHandler_Get :: "('s, 'e) api_handler" where
  "EnvironmentHandler_Get d i r w =
     (case GetEnvironment (api_store d) i (UserIDFromContext r) w of
        (Inl err, w1) \<Rightarrow> (Response (writeGetEnvironmentError err), w1)
      | (Inr env, w1) \<Rightarrow> (Response (writeJSON 200 (JEnvironment (deref env w1))), w1))"

definition EnvironmentHandler_List :: "('s, 'e) api_handler" where
  "EnvironmentHandler_List d _ r w =
     (case ListEnvironments (api_store d) (UserIDFromContext r) w of
        (Inl err, w1) \<Rightarrow> (Response (writeError 500 ''failed to list environments''), w1)
      | (Inr envs, w1) \<Rightarrow> (Response (writeJSON 200 (JEnvironments (map (\<lambda>p. deref p w1) envs))), w1))"

definition EnvironmentHandler_ListTenant :: "('s, 'e) api_handler" where
  "EnvironmentHandler_ListTenant d _ r w =
     (case ListTenantEnvironments (api_store d) (TenantIDFromContext r) w of
        (Inl err, w1) \<Rightarrow> (Response (writeError 500 ''failed to list environments''), w1)
      | (Inr envs, w1) \<Rightarrow> (Response (writeJSON 200 (JEnvironments (map (\<lambda>p. deref p w1) envs))), w1))"

section \<open>Commands\<close>

definition writePrepareExecError :: "goerr \<Rightarrow> response" where
  "writePrepareExecError err =
     (if errors_Is err ErrNotFound then writeError 404 ''environment not found''
      else if errors_Is err ErrEnvironmentNotRunning then writeError 409 ''environment is not running''
      else writeError 500 ''failed to get environment'')"

definition writeStartExecError :: "goerr \<Rightarrow> response" where
  "writeStartExecError err =
     (if errors_Is err ErrCommandRequired then writeError 400 ''command is required''
      else writeError 500 ''exec failed'')"

definition intToString :: "int \<Rightarrow> string" where
  "intToString i = show_int i"

text \<open>One line of the response: it fails when the connection takes no more writes.\<close>

definition emit :: "nat option \<Rightarrow> string \<Rightarrow> bytes \<Rightarrow> ExecEvent list \<Rightarrow> goerr option \<times> ExecEvent list" where
  "emit writes stream data out =
     (if (case writes of None \<Rightarrow> True | Some n \<Rightarrow> length out < n)
      then (None, out @ [\<lparr>ev_Stream = stream, ev_Data = data\<rparr>])
      else (Some (Opaque ''write failed''), out))"

definition ndjson :: "ExecEvent list \<Rightarrow> response" where
  "ndjson out = \<lparr>rs_Status = 200,
     rs_Header = [(''Content-Type'', ''application/x-ndjson''), (''Transfer-Encoding'', ''chunked''),
       (''Cache-Control'', ''no-cache'')], rs_Body = Events out\<rparr>"

text \<open>The writer is always a flusher: \<open>statusWriter\<close> implements it.  The command's deadline is
  the engine's business: an overrun is a failing call or a stream that ends with an error.\<close>

definition ExecHandler_Exec :: "('s, 'e) api_handler" where
  "ExecHandler_Exec d i r w =
     (case PrepareExec (api_store d) i (UserIDFromContext r) w of
        (Inl err, w1) \<Rightarrow> (Response (writePrepareExecError err), w1)
      | (Inr target, w1) \<Rightarrow>
          (case decodeJSON (api_decode_exec d) r of
             Inl err \<Rightarrow> (Response (writeError 400 (goerr_Error (api_Quote d) err)), w1)
           | Inr req \<Rightarrow>
               (case StartExec (api_store d) (api_engine d) (api_now d) target req w1 of
                  (Inl err, w2) \<Rightarrow> (Response (writeStartExecError err), w2)
                | (Inr session, w2) \<Rightarrow>
                    (case DemuxDockerStream (emit (rq_Writes r)) (xs_Reader session) [] of
                       (_, out) \<Rightarrow>
                         (case ExitCode (api_engine d) session w2 of
                            ((exitCode, ok), w3) \<Rightarrow>
                              (Response (ndjson (if ok then snd (emit (rq_Writes r) ''exit'' (intToString exitCode) out)
                                                 else out)), w3))))))"

section \<open>Files\<close>

definition writeListFilesError :: "goerr \<Rightarrow> response" where
  "writeListFilesError err =
     (if errors_Is err ErrNotFound then writeError 404 ''environment not found''
      else if errors_Is err ErrGetEnvironment then writeError 500 ''failed to get environment''
      else if errors_Is err ErrEnvironmentNotRunning then writeError 409 ''environment is not running''
      else if errors_Is err ErrInvalidPath then writeError 400 ''invalid path''
      else writeError 500 ''failed to list files'')"

definition writeReadFileError :: "goerr \<Rightarrow> response" where
  "writeReadFileError err =
     (if errors_Is err ErrNotFound then writeError 404 ''environment not found''
      else if errors_Is err ErrGetEnvironment then writeError 500 ''failed to get environment''
      else if errors_Is err ErrEnvironmentNotRunning then writeError 409 ''environment is not running''
      else if errors_Is err ErrPathRequired then writeError 400 ''path query parameter is required''
      else if errors_Is err ErrInvalidPath then writeError 400 ''invalid path''
      else writeError 500 ''failed to read file'')"

definition writeWriteFileError :: "goerr \<Rightarrow> response" where
  "writeWriteFileError err =
     (if errors_Is err ErrNotFound then writeError 404 ''environment not found''
      else if errors_Is err ErrGetEnvironment then writeError 500 ''failed to get environment''
      else if errors_Is err ErrEnvironmentNotRunning then writeError 409 ''environment is not running''
      else if errors_Is err ErrPathRequired then writeError 400 ''path query parameter is required''
      else if errors_Is err ErrInvalidPath then writeError 400 ''invalid path''
      else if errors_Is err ErrReadRequestBody then writeError 400 ''failed to read request body''
      else writeError 500 ''failed to write file'')"

definition FilesHandler_List :: "('s, 'e) api_handler" where
  "FilesHandler_List d i r w =
     (case FileService_ListFiles (api_store d) (api_engine d) (api_now d) i (UserIDFromContext r) (Query_Get r ''path'') w of
        (Inl err, w1) \<Rightarrow> (Response (writeListFilesError err), w1)
      | (Inr files, w1) \<Rightarrow> (Response (writeJSON 200 (JFiles files)), w1))"

text \<open>\<open>filepath.Base\<close> and \<open>filepath.Ext\<close>.\<close>

definition filepath_Base :: "string \<Rightarrow> string" where
  "filepath_Base path =
     (if path = [] then ''.''
      else let p = strings_TrimRight path ''/'' in
        if p = [] then ''/'' else (case last_index (CHR ''/'') p of None \<Rightarrow> p | Some i \<Rightarrow> drop (Suc i) p))"

definition filepath_Ext :: "string \<Rightarrow> string" where
  "filepath_Ext path =
     (let name = (case last_index (CHR ''/'') path of None \<Rightarrow> path | Some i \<Rightarrow> drop (Suc i) path) in
      case last_index (CHR ''.'') name of None \<Rightarrow> [] | Some i \<Rightarrow> drop i name)"

definition FilesHandler_Read :: "('s, 'e) api_handler" where
  "FilesHandler_Read d i r w =
     (case FileService_ReadFile (api_store d) (api_engine d) (api_now d) i (UserIDFromContext r) (Query_Get r ''path'') w of
        (Inl err, w1) \<Rightarrow> (Response (writeReadFileError err), w1)
      | (Inr (path, rd), w1) \<Rightarrow>
          let fileName = filepath_Base path;
              t = api_TypeByExtension d (filepath_Ext fileName);
              contentType = (if t = [] then ''application/octet-stream'' else t)
          in (Response \<lparr>rs_Status = 200, rs_Header = [(''Content-Type'', contentType),
                (''Content-Disposition'', api_FormatMediaType d fileName)], rs_Body = Raw (rd_data rd)\<rparr>, w1))"

definition FilesHandler_Write :: "('s, 'e) api_handler" where
  "FilesHandler_Write d i r w =
     (case FileService_WriteFile (api_store d) (api_engine d) (maxFileUploadBytes d) (api_now d) i (UserIDFromContext r)
             (Query_Get r ''path'') (rq_Body r) w of
        (Some err, w1) \<Rightarrow> (Response (writeWriteFileError err), w1)
      | (None, w1) \<Rightarrow> (Response (WriteHeader 204), w1))"

section \<open>Snapshots\<close>

definition writeCreateSnapshotError :: "goerr \<Rightarrow> response" where
  "writeCreateSnapshotError err =
     (if errors_Is err ErrNotFound then writeError 404 ''environment not found''
      else if errors_Is err ErrGetEnvironment then writeError 500 ''failed to get environment''
      else if errors_Is err ErrEnvironmentNotRunning then writeError 409 (sentinel_Error ErrEnvironmentNotRunning)
      else if errors_Is err ErrStoreSnapshot then writeError 500 ''failed to store snapshot''
      else writeError 500 ''failed to create snapshot'')"

definition writeGetSnapshotError :: "goerr \<Rightarrow> response" where
  "writeGetSnapshotError err =
     (if errors_Is err ErrNotFound then writeError 404 ''snapshot not found''
      else writeError 500 ''failed to get snapshot'')"

definition writeDeleteSnapshotError :: "goerr \<Rightarrow> response" where
  "writeDeleteSnapshotError err =
     (if errors_Is err ErrNotFound then writeError 404 ''snapshot not found''
      else if errors_Is err ErrGetSnapshot then writeError 500 ''failed to get snapshot''
      else writeError 500 ''failed to delete snapshot'')"

definition SnapshotHandler_Create :: "('s, 'e) api_handler" where
  "SnapshotHandler_Create d envID r w =
     (let label = api_decode_label d (MaxBytesReader (rq_Body r) maxBodySize) in
      case CreateSnapshot (api_store d) (api_engine d) (api_now d) (api_uuid d) (TenantIDFromContext r)
             (UserIDFromContext r) envID label w of
        (Inl err, w1) \<Rightarrow> (Response (writeCreateSnapshotError err), w1)
      | (Inr snap, w1) \<Rightarrow> (Response (writeJSON 201 (JSnapshot snap)), w1))"

definition SnapshotHandler_List :: "('s, 'e) api_handler" where
  "SnapshotHandler_List d _ r w =
     (case ListSnapshots (api_store d) (UserIDFromContext r) w of
        (Inl err, w1) \<Rightarrow> (Response (writeError 500 ''failed to list snapshots''), w1)
      | (Inr snaps, w1) \<Rightarrow> (Response (writeJSON 200 (JSnapshots snaps)), w1))"

definition SnapshotHandler_Get :: "('s, 'e) api_handler" where
  "SnapshotHandler_Get d i r w =
     (case GetSnapshot (api_store d) i (UserIDFromContext r) w of
        (Inl err, w1) \<Rightarrow> (Response (writeGetSnapshotError err), w1)
      | (Inr snap, w1) \<Rightarrow> (Response (writeJSON 200 (JSnapshot snap)), w1))"

definition SnapshotHandler_ListTenant :: "('s, 'e) api_handler" where
  "SnapshotHandler_ListTenant d _ r w =
     (case ListTenantSnapshots (api_store d) (TenantIDFromContext r) w of
        (Inl err, w1) \<Rightarrow> (Response (writeError 500 ''failed to list snapshots''), w1)
      | (Inr snaps, w1) \<Rightarrow> (Response (writeJSON 200 (JSnapshots snaps)), w1))"

definition SnapshotHandler_Delete :: "('s, 'e) api_handler" where
  "SnapshotHandler_Delete d i r w =
     (case DeleteSnapshot (api_store d) (api_engine d) i (UserIDFromContext r) w of
        (Some err, w1) \<Rightarrow> (Response (writeDeleteSnapshotError err), w1)
      | (None, w1) \<Rightarrow> (Response (WriteHeader 204), w1))"

section \<open>Skills\<close>

definition writeSkillError :: "goerr \<Rightarrow> response" where
  "writeSkillError err =
     (if errors_Is err ErrNotFound then writeError 404 ''environment not found''
      else if errors_Is err ErrEnvironmentNotRunning then writeError 409 ''environment is not running''
      else if errors_Is err ErrSkillNameRequired then writeError 400 ''name query parameter is required''
      else if errors_Is err ErrInvalidSkillName
      then writeError 400 (''invalid skill name (allowed: letters, digits, '' @
        [CHR 0x27, CHR ''.'', CHR 0x27] @ '', '' @ [CHR 0x27, CHR ''_'', CHR 0x27] @ '', '' @
        [CHR 0x27, CHR ''-'', CHR 0x27] @ '')'')
      else if errors_Is err ErrSkillMissingManifest then writeError 400 ''skill archive must contain a top-level SKILL.md''
      else if errors_Is err ErrInvalidSkillArchive then writeError 400 ''invalid skill archive: expected a gzip-compressed tar''
      else if errors_Is err ErrSkillTooLarge then writeError 413 ''skill archive too large''
      else if errors_Is err ErrGetEnvironment then writeError 500 ''failed to get environment''
      else writeError 500 ''failed to process skill'')"

definition SkillsHandler_Register :: "('s, 'e) api_handler" where
  "SkillsHandler_Register d _ r w =
     (case RegisterSkill (api_store d) (skillService d) (api_now d) (api_uuid d) (TenantIDFromContext r)
             (UserIDFromContext r) (Query_Get r ''name'') (rq_Body r) w of
        (Inl err, w1) \<Rightarrow> (Response (writeSkillError err), w1)
      | (Inr skill, w1) \<Rightarrow> (Response (writeJSON 201 (JSkill skill)), w1))"

definition SkillsHandler_List :: "('s, 'e) api_handler" where
  "SkillsHandler_List d _ r w =
     (case ListSkills (api_store d) (UserIDFromContext r) w of
        (Inl err, w1) \<Rightarrow> (Response (writeError 500 ''failed to list skills''), w1)
      | (Inr skills, w1) \<Rightarrow> (Response (writeJSON 200 (JSkills skills)), w1))"

definition SkillsHandler_Get :: "('s, 'e) api_handler" where
  "SkillsHandler_Get d i r w =
     (case GetSkill (api_store d) i (UserIDFromContext r) w of
        (Inl err, w1) \<Rightarrow>
          (Response (if errors_Is err ErrNotFound then writeError 404 ''skill not found''
                     else writeError 500 ''failed to get skill''), w1)
      | (Inr skill, w1) \<Rightarrow> (Response (writeJSON 200 (JSkill skill)), w1))"

definition SkillsHandler_Delete :: "('s, 'e) api_handler" where
  "SkillsHandler_Delete d i r w =
     (case DeleteSkill (api_store d) i (UserIDFromContext r) w of
        (Some err, w1) \<Rightarrow>
          (Response (if errors_Is err ErrNotFound then writeError 404 ''skill not found''
                     else writeError 500 ''failed to delete skill''), w1)
      | (None, w1) \<Rightarrow> (Response (WriteHeader 204), w1))"

definition SkillsHandler_ListTenant :: "('s, 'e) api_handler" where
  "SkillsHandler_ListTenant d _ r w =
     (case ListTenantSkills (api_store d) (TenantIDFromContext r) w of
        (Inl err, w1) \<Rightarrow> (Response (writeError 500 ''failed to list skills''), w1)
      | (Inr skills, w1) \<Rightarrow> (Response (writeJSON 200 (JSkills skills)), w1))"

definition SkillsHandler_InstallToEnv :: "('s, 'e) api_handler" where
  "SkillsHandler_InstallToEnv d envID r w =
     (case InstallSkillToEnvironment (api_store d) (api_engine d) (skillService d) envID (UserIDFromContext r)
             (Query_Get r ''name'') (rq_Body r) w of
        (Some err, w1) \<Rightarrow> (Response (writeSkillError err), w1)
      | (None, w1) \<Rightarrow> (Response (WriteHeader 204), w1))"

definition SkillsHandler_ListInstalled :: "('s, 'e) api_handler" where
  "SkillsHandler_ListInstalled d envID r w =
     (case ListInstalledSkills (api_store d) (api_engine d) (skillService d) envID (UserIDFromContext r) w of
        (Inl err, w1) \<Rightarrow> (Response (writeSkillError err), w1)
      | (Inr skills, w1) \<Rightarrow> (Response (writeJSON 200 (JInstalled skills)), w1))"

section \<open>The router\<close>

definition healthz :: "('s, 'e) world handler" where
  "healthz r w = (Response (writeJSON 200 (JStatus ''ok'')), w)"

definition routes :: route_table where
  "routes =
    [(''GET'', ''/healthz'', Healthz),
     (''POST'', ''/v1/environments/'', Env_Create),
     (''GET'', ''/v1/environments/'', Env_List),
     (''GET'', ''/v1/environments/{id}/'', Env_Get),
     (''DELETE'', ''/v1/environments/{id}/'', Env_Destroy),
     (''POST'', ''/v1/environments/{id}/exec'', Exec),
     (''GET'', ''/v1/environments/{id}/exec/ws'', ExecWS),
     (''GET'', ''/v1/environments/{id}/files/'', Files_List),
     (''GET'', ''/v1/environments/{id}/files/content'', Files_Read),
     (''PUT'', ''/v1/environments/{id}/files/content'', Files_Write),
     (''POST'', ''/v1/environments/{id}/snapshots'', Snap_Create),
     (''POST'', ''/v1/environments/{id}/skills'', Skill_InstallToEnv),
     (''GET'', ''/v1/environments/{id}/skills'', Skill_ListInstalled),
     (''GET'', ''/v1/snapshots/'', Snap_List),
     (''GET'', ''/v1/snapshots/{id}'', Snap_Get),
     (''DELETE'', ''/v1/snapshots/{id}'', Snap_Delete),
     (''POST'', ''/v1/skills/'', Skill_Register),
     (''GET'', ''/v1/skills/'', Skill_List),
     (''GET'', ''/v1/skills/{id}'', Skill_Get),
     (''DELETE'', ''/v1/skills/{id}'', Skill_Delete),
     (''GET'', ''/v1/tenant/environments'', Tenant_Environments),
     (''GET'', ''/v1/tenant/snapshots'', Tenant_Snapshots),
     (''GET'', ''/v1/tenant/skills'', Tenant_Skills)]"

fun serve :: "('s, 'e) api \<Rightarrow> route \<Rightarrow> string \<Rightarrow> ('s, 'e) world handler" where
  "serve d Healthz i = healthz"
| "serve d Env_Create i = EnvironmentHandler_Create d i"
| "serve d Env_List i = EnvironmentHandler_List d i"
| "serve d Env_Get i = EnvironmentHandler_Get d i"
| "serve d Env_Destroy i = EnvironmentHandler_Destroy d i"
| "serve d route.Exec i = ExecHandler_Exec d i"
| "serve d route.ExecWS i =
     (\<lambda>r. Exec_WS.ExecWS (api_store d) (api_engine d) (api_now d) (api_upgrade d r) (api_ws_events d) i r)"
| "serve d Files_List i = FilesHandler_List d i"
| "serve d Files_Read i = FilesHandler_Read d i"
| "serve d Files_Write i = FilesHandler_Write d i"
| "serve d Snap_Create i = SnapshotHandler_Create d i"
| "serve d Skill_InstallToEnv i = SkillsHandler_InstallToEnv d i"
| "serve d Skill_ListInstalled i = SkillsHandler_ListInstalled d i"
| "serve d Snap_List i = SnapshotHandler_List d i"
| "serve d Snap_Get i = SnapshotHandler_Get d i"
| "serve d Snap_Delete i = SnapshotHandler_Delete d i"
| "serve d Skill_Register i = SkillsHandler_Register d i"
| "serve d Skill_List i = SkillsHandler_List d i"
| "serve d Skill_Get i = SkillsHandler_Get d i"
| "serve d Skill_Delete i = SkillsHandler_Delete d i"
| "serve d Tenant_Environments i = EnvironmentHandler_ListTenant d i"
| "serve d Tenant_Snapshots i = SnapshotHandler_ListTenant d i"
| "serve d Tenant_Skills i = SkillsHandler_ListTenant d i"

text \<open>Every group of routes but the health check installs the authentication.\<close>

definition groups :: "string list" where
  "groups = [''/v1/environments'', ''/v1/snapshots'', ''/v1/skills'', ''/v1/tenant'']"

definition dispatch :: "('s, 'e) api \<Rightarrow> Manager \<Rightarrow> ('s, 'e) world handler" where
  "dispatch d authMgr r w =
     (case api_match d routes (rq_Method r) (rq_Path r) of
        None \<Rightarrow>
          let answer = (\<lambda>r w. (Response (api_no_match d (rq_Method r) (rq_Path r)), w))
          in if api_grouped d groups (rq_Path r) then Middleware (api_hashing d) authMgr answer r w else answer r w
      | Some (Healthz, i) \<Rightarrow> serve d Healthz i r w
      | Some (rt, i) \<Rightarrow> Middleware (api_hashing d) authMgr (serve d rt i) r w)"

definition NewRouter :: "('s, 'e) api \<Rightarrow> Manager \<Rightarrow> ('s, 'e) world handler" where
  "NewRouter d authMgr =
     RequestIDMiddleware (api_uuid d) (RecoveryMiddleware (LoggingMiddleware (dispatch d authMgr)))"

end
