(* ===== verification/API_Isolation.thy ===== *)
theory API_Isolation
  imports API
begin

text \<open>
  What the handlers together promise about users: whatever a request answers, it leaves the records
  of every other user alone, shows only records of the caller (or of the caller's tenant), and
  touches neither store nor container for an ID that is not the caller's.
\<close>

section \<open>Handlers on a store that keeps the contract\<close>

text \<open>The fresh UUID of a request names nothing yet.\<close>

definition fresh_IDs :: "string \<Rightarrow> abs_store \<Rightarrow> bool" where
  "fresh_IDs uuid A \<longleftrightarrow> a_envs A (new_ID ''env_'' uuid) = None \<and> a_snaps A (new_ID ''snap_'' uuid) = None \<and>
     a_skills A (new_ID ''skill_'' uuid) = None"

text \<open>The records a route may show to a user of a tenant: its own, and on the three tenant listings,
  and nowhere else, those of the tenant.\<close>

definition tenant_route :: "route \<Rightarrow> bool" where
  "tenant_route rt \<longleftrightarrow> rt \<in> {Tenant_Environments, Tenant_Snapshots, Tenant_Skills}"

fun visible :: "route \<Rightarrow> string \<Rightarrow> string \<Rightarrow> body \<Rightarrow> bool" where
  "visible rt u t (JSON (JEnvironment e)) = (env_UserID e = u)"
| "visible rt u t (JSON (JEnvironments es)) = (\<forall>e \<in> set es. if tenant_route rt then env_TenantID e = t else env_UserID e = u)"
| "visible rt u t (JSON (JSnapshot x)) = (snap_UserID x = u)"
| "visible rt u t (JSON (JSnapshots xs)) = (\<forall>x \<in> set xs. if tenant_route rt then snap_TenantID x = t else snap_UserID x = u)"
| "visible rt u t (JSON (JSkill k)) = (skill_UserID k = u)"
| "visible rt u t (JSON (JSkills ks)) = (\<forall>k \<in> set ks. if tenant_route rt then skill_TenantID k = t else skill_UserID k = u)"
| "visible rt u t _ = True"

lemma visible_error [simp]: "visible rt u t (rs_Body (writeError c m))" "visible rt u t (rs_Body (WriteHeader c))"
  by simp_all

lemmas write_error_defs = writeCreateEnvironmentError_def writeDestroyEnvironmentError_def writeGetEnvironmentError_def
  writePrepareExecError_def writeStartExecError_def writeListFilesError_def writeReadFileError_def writeWriteFileError_def
  writeCreateSnapshotError_def writeGetSnapshotError_def writeDeleteSnapshotError_def writeSkillError_def

lemmas handler_defs = EnvironmentHandler_Create_def EnvironmentHandler_Destroy_def EnvironmentHandler_Get_def
  EnvironmentHandler_List_def EnvironmentHandler_ListTenant_def ExecHandler_Exec_def
  FilesHandler_List_def FilesHandler_Read_def FilesHandler_Write_def
  SnapshotHandler_Create_def SnapshotHandler_List_def SnapshotHandler_Get_def SnapshotHandler_ListTenant_def
  SnapshotHandler_Delete_def SkillsHandler_Register_def SkillsHandler_List_def SkillsHandler_Get_def
  SkillsHandler_Delete_def SkillsHandler_ListTenant_def SkillsHandler_InstallToEnv_def SkillsHandler_ListInstalled_def
  healthz_def

text \<open>Whether the ID in the path of a route is one of the user's; routes without an ID have none to
  refuse.\<close>

fun owned_by :: "route \<Rightarrow> string \<Rightarrow> string \<Rightarrow> abs_store \<Rightarrow> bool" where
  "owned_by rt u i A =
     (if rt \<in> {Env_Get, Env_Destroy, Exec, ExecWS, Files_List, Files_Read, Files_Write, Snap_Create,
        Skill_InstallToEnv, Skill_ListInstalled} then owned_env (a_envs A) i u
      else if rt \<in> {Snap_Get, Snap_Delete} then owned_snap (a_snaps A) i u
      else if rt \<in> {Skill_Get, Skill_Delete} then owned_skill (a_skills A) i u
      else True)"

text \<open>The handlers that pass on the world of the service they call.\<close>

lemma handler_world:
  "snd (EnvironmentHandler_Destroy d i r w) = snd (DestroyEnvironment (api_store d) (api_engine d) i (UserIDFromContext r) w)"
  "snd (EnvironmentHandler_Get d i r w) = snd (GetEnvironment (api_store d) i (UserIDFromContext r) w)"
  "snd (EnvironmentHandler_List d i r w) = snd (ListEnvironments (api_store d) (UserIDFromContext r) w)"
  "snd (EnvironmentHandler_ListTenant d i r w) = snd (ListTenantEnvironments (api_store d) (TenantIDFromContext r) w)"
  "snd (FilesHandler_List d i r w) = snd (FileService_ListFiles (api_store d) (api_engine d) (api_now d) i
     (UserIDFromContext r) (Query_Get r ''path'') w)"
  "snd (FilesHandler_Read d i r w) = snd (FileService_ReadFile (api_store d) (api_engine d) (api_now d) i
     (UserIDFromContext r) (Query_Get r ''path'') w)"
  "snd (FilesHandler_Write d i r w) = snd (FileService_WriteFile (api_store d) (api_engine d) (maxFileUploadBytes d)
     (api_now d) i (UserIDFromContext r) (Query_Get r ''path'') (rq_Body r) w)"
  "snd (SnapshotHandler_Create d i r w) = snd (CreateSnapshot (api_store d) (api_engine d) (api_now d) (api_uuid d)
     (TenantIDFromContext r) (UserIDFromContext r) i (api_decode_label d (MaxBytesReader (rq_Body r) maxBodySize)) w)"
  "snd (SnapshotHandler_List d i r w) = snd (ListSnapshots (api_store d) (UserIDFromContext r) w)"
  "snd (SnapshotHandler_Get d i r w) = snd (GetSnapshot (api_store d) i (UserIDFromContext r) w)"
  "snd (SnapshotHandler_ListTenant d i r w) = snd (ListTenantSnapshots (api_store d) (TenantIDFromContext r) w)"
  "snd (SnapshotHandler_Delete d i r w) = snd (DeleteSnapshot (api_store d) (api_engine d) i (UserIDFromContext r) w)"
  "snd (SkillsHandler_Register d i r w) = snd (RegisterSkill (api_store d) (skillService d) (api_now d) (api_uuid d)
     (TenantIDFromContext r) (UserIDFromContext r) (Query_Get r ''name'') (rq_Body r) w)"
  "snd (SkillsHandler_List d i r w) = snd (ListSkills (api_store d) (UserIDFromContext r) w)"
  "snd (SkillsHandler_Get d i r w) = snd (GetSkill (api_store d) i (UserIDFromContext r) w)"
  "snd (SkillsHandler_Delete d i r w) = snd (DeleteSkill (api_store d) i (UserIDFromContext r) w)"
  "snd (SkillsHandler_ListTenant d i r w) = snd (ListTenantSkills (api_store d) (TenantIDFromContext r) w)"
  "snd (SkillsHandler_InstallToEnv d i r w) = snd (InstallSkillToEnvironment (api_store d) (api_engine d) (skillService d) i
     (UserIDFromContext r) (Query_Get r ''name'') (rq_Body r) w)"
  "snd (SkillsHandler_ListInstalled d i r w) = snd (ListInstalledSkills (api_store d) (api_engine d) (skillService d) i
     (UserIDFromContext r) w)"
  by (auto simp: handler_defs Let_def split: sum.splits prod.splits option.splits)

context store_client
begin

lemma GetEnvironment_keeps:
  assumes "inv (w_mem w)" and "GetEnvironment S i u w = (r, w')"
  shows "keeps v (w_mem w) (w_mem w')"
proof -
  obtain q where "on_store (sto_Get S i u) w = (q, w')"
    using assms(2) by (auto simp: GetEnvironment_def split: prod.splits sum.splits)
  from on_store_result [OF this] Get_keeps [OF assms(1)] show ?thesis by blast
qed

lemma query_keeps:
  assumes "inv (w_mem w)"
  shows "ListEnvironments S u w = (r1, w') \<Longrightarrow> keeps v (w_mem w) (w_mem w')"
    and "ListTenantEnvironments S t w = (r2, w') \<Longrightarrow> keeps v (w_mem w) (w_mem w')"
    and "ListSnapshots S u w = (r3, w') \<Longrightarrow> keeps v (w_mem w) (w_mem w')"
    and "GetSnapshot S i u w = (r4, w') \<Longrightarrow> keeps v (w_mem w) (w_mem w')"
    and "ListTenantSnapshots S t w = (r5, w') \<Longrightarrow> keeps v (w_mem w) (w_mem w')"
    and "ListSkills S u w = (r6, w') \<Longrightarrow> keeps v (w_mem w) (w_mem w')"
    and "GetSkill S i u w = (r7, w') \<Longrightarrow> keeps v (w_mem w) (w_mem w')"
    and "ListTenantSkills S t w = (r8, w') \<Longrightarrow> keeps v (w_mem w) (w_mem w')"
  by (auto simp: ListEnvironments_def ListTenantEnvironments_def ListSnapshots_def GetSnapshot_def
      ListTenantSnapshots_def ListSkills_def GetSkill_def ListTenantSkills_def split: prod.splits sum.splits
      dest!: on_store_result intro: reads_keeps [OF List_reads [OF assms]] reads_keeps [OF ListByTenant_reads [OF assms]]
      writes_keeps [OF ListSnapshots_writes [OF assms]] writes_keeps [OF GetSnapshot_writes [OF assms]]
      writes_keeps [OF ListSnapshotsByTenant_writes [OF assms]] writes_keeps [OF ListSkills_writes [OF assms]]
      writes_keeps [OF GetSkill_writes [OF assms]] writes_keeps [OF ListSkillsByTenant_writes [OF assms]])

lemma ExitCode_mem: "ExitCode E session w = (x, w') \<Longrightarrow> w_mem w' = w_mem w"
  by (auto simp: ExitCode_def split: if_splits prod.splits sum.splits dest!: on_engine_mem)

lemma ExecHandler_keeps:
  assumes "inv (w_mem w)" and "UserIDFromContext r = u" and "u \<noteq> []" and "api_store d = S"
    and "ExecHandler_Exec d i r w = (out, w')"
  shows "keeps u (w_mem w) (w_mem w')"
proof -
  obtain q w1 where q: "getRunningEnv S i u w = (q, w1)" by (meson surj_pair)
  show ?thesis
  proof (cases q)
    case (Inl e)
    with assms q have "w' = w1" by (simp add: ExecHandler_Exec_def PrepareExec_eq)
    with getRunningEnv_err(1) [OF assms(1)] q Inl show ?thesis by (simp add: reads_keeps)
  next
    case (Inr p)
    note g = getRunningEnv_ok [OF assms(1) q [unfolded Inr]]
    consider "w' = w1" | req x w2 where "StartExec S (api_engine d) (api_now d) p req w1 = (x, w2)" "w_mem w' = w_mem w2"
      using assms(2,4,5) q Inr
      by (auto simp: ExecHandler_Exec_def PrepareExec_eq split: sum.splits prod.splits dest!: ExitCode_mem)
    then show ?thesis
    proof cases
      case 1
      with g(1) [of u] show ?thesis by simp
    next
      case (2 req x w2)
      have "keeps u (w_mem w1) (w_mem w2)"
        using StartExec_keeps [OF g(3,2) owner_of [OF g(6) assms(3)] 2(1)] .
      with g(1) [of u] 2(2) show ?thesis by (metis keeps_trans)
    qed
  qed
qed

lemma serve_keeps:
  assumes "inv (w_mem w)" and "UserIDFromContext r = u" and "u \<noteq> []" and "api_store d = S"
    and "fresh_IDs (api_uuid d) (\<alpha> (w_mem w))" and "serve d rt i r w = (out, w')"
  shows "keeps u (w_mem w) (w_mem w')"
proof -
  note fresh = assms(5) [unfolded fresh_IDs_def]
  have w': "w' = snd (serve d rt i r w)" using assms(6) by simp
  note q = query_keeps [OF assms(1) prod.collapse [symmetric]]
  show ?thesis
  proof (cases rt)
    case Healthz
    then show ?thesis using assms(1) by (simp add: w' healthz_def keeps_refl)
  next
    case Env_Create
    then show ?thesis
      using assms(1,2,4,6) fresh CreateEnvironment_keeps [OF assms(1) _ assms(3)]
      by (auto simp: EnvironmentHandler_Create_def keeps_refl split: sum.splits prod.splits)
  next
    case Exec
    then show ?thesis using ExecHandler_keeps [OF assms(1-4)] assms(6) by simp
  next
    case ExecWS
    then show ?thesis using ExecWS_keeps [OF assms(1-3)] assms(4,6) by simp
  next
    case Skill_Register
    then show ?thesis
      using fresh by (simp add: w' handler_world assms(2,4) RegisterSkill_keeps [OF assms(1) _ prod.collapse [symmetric]])
  next
    case Snap_Create
    then show ?thesis
      using fresh by (simp add: w' handler_world assms(2,4) CreateSnapshot_service_keeps [OF assms(1) _ prod.collapse [symmetric]])
  qed (simp_all add: w' handler_world assms(2,4) q GetEnvironment_keeps [OF assms(1) prod.collapse [symmetric]]
      DestroyEnvironment_keeps [OF assms(1,3) prod.collapse [symmetric]]
      FileService_ListFiles_keeps [OF assms(1,3) prod.collapse [symmetric]]
      FileService_ReadFile_keeps [OF assms(1,3) prod.collapse [symmetric]]
      FileService_WriteFile_keeps [OF assms(1,3) prod.collapse [symmetric]]
      DeleteSnapshot_service_keeps [OF assms(1,3) prod.collapse [symmetric]]
      DeleteSkill_service_keeps [OF assms(1,3) prod.collapse [symmetric]]
      reads_keeps [OF InstallSkill_reads [OF assms(1) prod.collapse [symmetric]]]
      reads_keeps [OF ListInstalledSkills_reads [OF assms(1) prod.collapse [symmetric]]])
qed

lemma listed_visible:
  assumes "inv (w_mem w)" and "u \<noteq> []"
  shows "ListEnvironments S u w = (Inr ps, w') \<Longrightarrow> p \<in> set ps \<Longrightarrow> env_UserID (deref p w') = u"
    and "ListTenantEnvironments S t w = (Inr ps, w') \<Longrightarrow> p \<in> set ps \<Longrightarrow> env_TenantID (deref p w') = t"
    and "GetEnvironment S i u w = (Inr p, w') \<Longrightarrow> env_UserID (deref p w') = u"
proof -
  assume l: "ListEnvironments S u w = (Inr ps, w')" and p: "p \<in> set ps"
  then have "on_store (sto_List S u) w = (Inr ps, w')"
    by (auto simp: ListEnvironments_def split: prod.splits sum.splits)
  from on_store_result [OF this] List_ok [OF assms(1), of u ps "w_mem w'"]
  have "(\<lambda>p. deref p w') ` set ps = {e \<in> ran (a_envs (\<alpha> (w_mem w))). scoped u (env_UserID e)}"
    by (simp add: deref_def)
  with p assms(2) show "env_UserID (deref p w') = u" by (auto simp: scoped_def)
next
  assume l: "ListTenantEnvironments S t w = (Inr ps, w')" and p: "p \<in> set ps"
  then have "on_store (sto_ListByTenant S t) w = (Inr ps, w')"
    by (auto simp: ListTenantEnvironments_def split: prod.splits sum.splits)
  from on_store_result [OF this] ListByTenant_ok [OF assms(1), of t ps "w_mem w'"]
  have "(\<lambda>p. deref p w') ` set ps = {e \<in> ran (a_envs (\<alpha> (w_mem w))). env_TenantID e = t}"
    by (simp add: deref_def)
  with p show "env_TenantID (deref p w') = t" by auto
next
  assume "GetEnvironment S i u w = (Inr p, w')"
  then have "on_store (sto_Get S i u) w = (Inr p, w')"
    by (auto simp: GetEnvironment_def split: prod.splits sum.splits)
  from on_store_result [OF this] Get_held [OF assms(1), of i u p "w_mem w'"] assms(2)
  show "env_UserID (deref p w') = u" by (auto simp: deref_def scoped_def)
qed

lemma snapshots_visible:
  assumes "inv (w_mem w)" and "u \<noteq> []"
  shows "ListSnapshots S u w = (Inr xs, w') \<Longrightarrow> x \<in> set xs \<Longrightarrow> snap_UserID x = u"
    and "ListTenantSnapshots S t w = (Inr xs, w') \<Longrightarrow> x \<in> set xs \<Longrightarrow> snap_TenantID x = t"
    and "GetSnapshot S i u w = (Inr x, w') \<Longrightarrow> snap_UserID x = u"
    and "CreateSnapshot S E now uuid t u i label w = (Inr x, w') \<Longrightarrow> snap_UserID x = u"
proof -
  show "ListSnapshots S u w = (Inr xs, w') \<Longrightarrow> x \<in> set xs \<Longrightarrow> snap_UserID x = u"
    using ListSnapshots_ok [OF assms(1), of u xs "w_mem w'"] assms(2)
    by (auto simp: ListSnapshots_def scoped_def split: prod.splits sum.splits dest!: on_store_result)
  show "ListTenantSnapshots S t w = (Inr xs, w') \<Longrightarrow> x \<in> set xs \<Longrightarrow> snap_TenantID x = t"
    using ListSnapshotsByTenant_ok [OF assms(1), of t xs "w_mem w'"]
    by (auto simp: ListTenantSnapshots_def split: prod.splits sum.splits dest!: on_store_result)
  show "GetSnapshot S i u w = (Inr x, w') \<Longrightarrow> snap_UserID x = u"
    using GetSnapshot_ok [OF assms(1), of i u x "w_mem w'"] assms(2)
    by (auto simp: GetSnapshot_def scoped_def split: prod.splits sum.splits dest!: on_store_result)
  assume "CreateSnapshot S E now uuid t u i label w = (Inr x, w')"
  then show "snap_UserID x = u" by (cases rule: CreateSnapshot_cases) (auto simp: build_snapshot_def)
qed

lemma UpsertSkill_result:
  assumes "inv m" and "a_skills (\<alpha> m) (skill_ID k) = None" and "sto_UpsertSkill S k a m = ((None, k'), m')"
  shows "skill_UserID k' = skill_UserID k" "skill_Name k' = skill_Name k"
  using UpsertSkill_new [OF assms(1,2) _ assms(3)] UpsertSkill_old [OF assms(1,2) _ _ assms(3)]
  by (cases "\<exists>i k0 a0. a_skills (\<alpha> m) i = Some (k0, a0) \<and> same_skill k0 k"; fastforce)+

lemma skills_visible:
  assumes "inv (w_mem w)" and "u \<noteq> []"
  shows "ListSkills S u w = (Inr ks, w') \<Longrightarrow> k \<in> set ks \<Longrightarrow> skill_UserID k = u"
    and "ListTenantSkills S t w = (Inr ks, w') \<Longrightarrow> k \<in> set ks \<Longrightarrow> skill_TenantID k = t"
    and "GetSkill S i u w = (Inr k, w') \<Longrightarrow> skill_UserID k = u"
    and "a_skills (\<alpha> (w_mem w)) (new_ID ''skill_'' uuid) = None \<Longrightarrow>
      RegisterSkill S s now uuid t u name archive w = (Inr k, w') \<Longrightarrow> skill_UserID k = u"
proof -
  show "ListSkills S u w = (Inr ks, w') \<Longrightarrow> k \<in> set ks \<Longrightarrow> skill_UserID k = u"
    using ListSkills_ok [OF assms(1), of u ks "w_mem w'"] assms(2)
    by (auto simp: ListSkills_def scoped_def split: prod.splits sum.splits dest!: on_store_result)
  show "ListTenantSkills S t w = (Inr ks, w') \<Longrightarrow> k \<in> set ks \<Longrightarrow> skill_TenantID k = t"
    using ListSkillsByTenant_ok [OF assms(1), of t ks "w_mem w'"]
    by (auto simp: ListTenantSkills_def split: prod.splits sum.splits dest!: on_store_result)
  show "GetSkill S i u w = (Inr k, w') \<Longrightarrow> skill_UserID k = u"
    using GetSkill_ok [OF assms(1), of i u k "w_mem w'"] assms(2)
    by (auto simp: GetSkill_def scoped_def split: prod.splits sum.splits dest!: on_store_result)
  assume fresh: "a_skills (\<alpha> (w_mem w)) (new_ID ''skill_'' uuid) = None"
    and "RegisterSkill S s now uuid t u name archive w = (Inr k, w')"
  then obtain d where up: "on_store (sto_UpsertSkill S \<lparr>skill_ID = new_ID ''skill_'' uuid, skill_TenantID = t,
      skill_UserID = u, skill_Name = name, skill_SizeBytes = int (length d), skill_CreatedAt = now,
      skill_UpdatedAt = now\<rparr> d) w = ((None, k), w')"
    by (auto simp: RegisterSkill_def Let_def split: option.splits sum.splits prod.splits)
  from UpsertSkill_result(1) [OF assms(1) _ conjunct1 [OF on_store_result [OF up]]] fresh
  show "skill_UserID k = u" by simp
qed

lemma serve_visible:
  assumes "inv (w_mem w)" and "UserIDFromContext r = u" and "u \<noteq> []" and "TenantIDFromContext r = t" and "api_store d = S"
    and "fresh_IDs (api_uuid d) (\<alpha> (w_mem w))" and "serve d rt i r w = (Response rs, w')"
    and "rt = ExecWS \<Longrightarrow> (\<forall>rs. api_upgrade d r = Some rs \<longrightarrow> visible ExecWS u t (rs_Body rs))"
  shows "visible rt u t (rs_Body rs)"
proof -
  note fresh = assms(6) [unfolded fresh_IDs_def]
  note l = listed_visible [OF assms(1,3)] and x = snapshots_visible [OF assms(1,3)] and k = skills_visible [OF assms(1,3)]
  show ?thesis
  proof (cases rt)
    case ExecWS
    then show ?thesis
      using assms(7,8) by (auto simp: ExecWS_def Let_def split: prod.splits sum.splits option.splits if_splits)
  qed (use assms(7) fresh in \<open>auto simp: tenant_route_def assms(2,4,5) handler_defs ndjson_def Let_def write_error_defs
      split: prod.splits sum.splits option.splits if_splits dest: l x k\<close>)
qed

text \<open>An ID that is not the caller's: not found, and nothing happens.\<close>

lemma lookup_foreign:
  assumes "inv (w_mem w)" and "healthy (snd (w_mem w))"
  shows "\<not> owned_env (a_envs (\<alpha> (w_mem w))) i u \<Longrightarrow>
      \<exists>w'. on_store (sto_Get S i u) w = (Inl (Sentinel ErrNotFound), w') \<and> \<alpha> (w_mem w') = \<alpha> (w_mem w) \<and> w_eng w' = w_eng w"
    and "\<not> owned_snap (a_snaps (\<alpha> (w_mem w))) i u \<Longrightarrow>
      \<exists>w'. on_store (sto_GetSnapshot S i u) w = (Inl (Sentinel ErrNotFound), w') \<and> \<alpha> (w_mem w') = \<alpha> (w_mem w) \<and> w_eng w' = w_eng w"
    and "\<not> owned_skill (a_skills (\<alpha> (w_mem w))) i u \<Longrightarrow>
      \<exists>w'. on_store (sto_GetSkill S i u) w = (Inl (Sentinel ErrNotFound), w') \<and> \<alpha> (w_mem w') = \<alpha> (w_mem w) \<and> w_eng w' = w_eng w"
    and "\<not> owned_skill (a_skills (\<alpha> (w_mem w))) i u \<Longrightarrow>
      \<exists>w'. on_store (sto_DeleteSkill S i u) w = (Some (Sentinel ErrNotFound), w') \<and> \<alpha> (w_mem w') = \<alpha> (w_mem w) \<and> w_eng w' = w_eng w"
proof -
  assume "\<not> owned_env (a_envs (\<alpha> (w_mem w))) i u"
  from Get_foreign [OF assms this] show "\<exists>w'. on_store (sto_Get S i u) w = (Inl (Sentinel ErrNotFound), w') \<and>
      \<alpha> (w_mem w') = \<alpha> (w_mem w) \<and> w_eng w' = w_eng w"
    by (auto simp: on_store_def reads_def)
next
  assume no: "\<not> owned_snap (a_snaps (\<alpha> (w_mem w))) i u"
  obtain r m' where r: "sto_GetSnapshot S i u (w_mem w) = (r, m')" by (meson surj_pair)
  have "r = Inl (Sentinel ErrNotFound) \<and> \<alpha> m' = \<alpha> (w_mem w)"
    using r no assms(2) GetSnapshot_ok [OF assms(1), of i u _ m'] GetSnapshot_err [OF assms(1), of i u _ m']
    by (cases r) (auto simp: fails_with_def writes_def)
  with r show "\<exists>w'. on_store (sto_GetSnapshot S i u) w = (Inl (Sentinel ErrNotFound), w') \<and>
      \<alpha> (w_mem w') = \<alpha> (w_mem w) \<and> w_eng w' = w_eng w"
    by (auto simp: on_store_def)
next
  assume no: "\<not> owned_skill (a_skills (\<alpha> (w_mem w))) i u"
  obtain r m' where r: "sto_GetSkill S i u (w_mem w) = (r, m')" by (meson surj_pair)
  have "r = Inl (Sentinel ErrNotFound) \<and> \<alpha> m' = \<alpha> (w_mem w)"
    using r no assms(2) GetSkill_ok [OF assms(1), of i u _ m'] GetSkill_err [OF assms(1), of i u _ m']
    by (cases r) (auto simp: fails_with_def writes_def)
  with r show "\<exists>w'. on_store (sto_GetSkill S i u) w = (Inl (Sentinel ErrNotFound), w') \<and>
      \<alpha> (w_mem w') = \<alpha> (w_mem w) \<and> w_eng w' = w_eng w"
    by (auto simp: on_store_def)
  obtain x m2 where x: "sto_DeleteSkill S i u (w_mem w) = (x, m2)" by (meson surj_pair)
  have "x = Some (Sentinel ErrNotFound) \<and> \<alpha> m2 = \<alpha> (w_mem w)"
    using x no assms(2) DeleteSkill_ok [OF assms(1), of i u m2] DeleteSkill_err [OF assms(1), of i u _ m2]
    by (cases x) (auto simp: crashes_def writes_def)
  with x show "\<exists>w'. on_store (sto_DeleteSkill S i u) w = (Some (Sentinel ErrNotFound), w') \<and>
      \<alpha> (w_mem w') = \<alpha> (w_mem w) \<and> w_eng w' = w_eng w"
    by (auto simp: on_store_def)
qed

lemma serve_foreign:
  assumes "inv (w_mem w)" and "healthy (snd (w_mem w))" and "UserIDFromContext r = u" and "api_store d = S"
    and "\<not> owned_by rt u i (\<alpha> (w_mem w))"
  shows "\<exists>rs w'. serve d rt i r w = (Response rs, w') \<and>
    rs_Status rs = (if rt = Skill_InstallToEnv \<and> validateSkillName (Query_Get r ''name'') \<noteq> None then 400 else 404) \<and>
    \<alpha> (w_mem w') = \<alpha> (w_mem w) \<and> w_eng w' = w_eng w"
proof -
  note f = lookup_foreign [OF assms(1,2)]
  have n: "rs_Status (writeSkillError err) = 400" if "validateSkillName x = Some err" for x err
    using that by (auto simp: validateSkillName_def writeSkillError_def writeError_def writeJSON_def split: if_splits)
  show ?thesis
    by (cases rt; use assms(5) n f [of i u] in \<open>auto simp: assms(3,4) handler_defs Let_def write_error_defs
        DestroyEnvironment_def GetEnvironment_def PrepareExec_def FileService_ListFiles_def FileService_ReadFile_def
        FileService_WriteFile_def getRunningEnv_def SkillService_getRunningEnv_def CreateSnapshot_def GetSnapshot_def
        DeleteSnapshot_def GetSkill_def DeleteSkill_def InstallSkillToEnvironment_def ListInstalledSkills_def
        ExecWS_def lookup_error_def\<close>)
qed

end

section \<open>The whole router\<close>

lemma with_header_Response:
  "with_header k v out = Response rs \<longleftrightarrow> (\<exists>rs0. out = Response rs0 \<and>
     rs = (if k \<in> set (map fst (rs_Header rs0)) then rs0 else rs0\<lparr>rs_Header := (k, v) # rs_Header rs0\<rparr>))"
  by (cases out) (auto simp: with_header_def)

text \<open>A request with its identifier, as the inner handlers see it.\<close>

definition identified :: "('s, 'e) api \<Rightarrow> request \<Rightarrow> request" where
  "identified d r = r\<lparr>rq_ctx_request_id := Some (if rq_Header r ''X-Request-ID'' = [] then api_uuid d else rq_Header r ''X-Request-ID'')\<rparr>"

text \<open>And as they see it after authentication.\<close>

definition authenticated :: "('s, 'e) api \<Rightarrow> string \<Rightarrow> string \<Rightarrow> request \<Rightarrow> request" where
  "authenticated d tenant user r = (identified d r)\<lparr>rq_ctx_tenant_id := Some tenant, rq_ctx_user_id := Some user\<rparr>"

lemma authenticated_fields [simp]:
  "UserIDFromContext (authenticated d t u r) = u" "TenantIDFromContext (authenticated d t u r) = t"
  "rq_Query (authenticated d t u r) = rq_Query r" "Query_Get (authenticated d t u r) k = Query_Get r k"
  by (simp_all add: authenticated_def identified_def UserIDFromContext_def TenantIDFromContext_def Query_Get_def)

lemma caller_identified [simp]: "caller H keys (identified d r) = caller H keys r"
  by (simp add: caller_def identified_def)

text \<open>What the router does: chi's own answer, the health check, a refusal, or a handler.\<close>

lemma NewRouter_cases:
  assumes "uuid_ok (api_hashing d)" and "NewRouter d (New (api_hashing d) keys) r w = (out, w')"
  obtains (panic) rs where "out = Response rs" "rs_Status rs = 500" "rs_Body rs = rs_Body (writeError 500 ''internal server error'')"
      "\<exists>rt i t u. api_match d routes (rq_Method r) (rq_Path r) = Some (rt, i) \<and> caller (api_hashing d) keys r = Some (t, u) \<and>
        serve d rt i (authenticated d t u r) w = (Panicked, w')"
  | (unmatched) rs where "out = Response rs" "w' = w" "api_match d routes (rq_Method r) (rq_Path r) = None"
      "api_grouped d groups (rq_Path r) \<longrightarrow> caller (api_hashing d) keys r \<noteq> None"
      "rs_Body rs = rs_Body (api_no_match d (rq_Method r) (rq_Path r))"
  | (health) rs i where "out = Response rs" "w' = w" "api_match d routes (rq_Method r) (rq_Path r) = Some (Healthz, i)"
      "rs_Body rs = JSON (JStatus ''ok'')" "rs_Status rs = 200"
  | (refused) rs where "out = Response rs" "w' = w"
      "case api_match d routes (rq_Method r) (rq_Path r) of
         None \<Rightarrow> api_grouped d groups (rq_Path r) | Some (rt, i) \<Rightarrow> rt \<noteq> Healthz"
      "caller (api_hashing d) keys r = None" "rs_Body rs = rs_Body unauthorized" "rs_Status rs = 401"
  | (handled) rs rs0 rt i t u where "out = Response rs" "api_match d routes (rq_Method r) (rq_Path r) = Some (rt, i)"
      "rt \<noteq> Healthz" "caller (api_hashing d) keys r = Some (t, u)"
      "serve d rt i (authenticated d t u r) w = (Response rs0, w')" "rs_Body rs = rs_Body rs0" "rs_Status rs = rs_Status rs0"
proof -
  obtain x w1 where x: "dispatch d (New (api_hashing d) keys) (identified d r) w = (x, w1)" by (meson surj_pair)
  let ?rec = "case x of Panicked \<Rightarrow> Response (writeError 500 ''internal server error'') | Response rs \<Rightarrow> Response rs"
  have out: "w' = w1" "\<exists>k v. out = with_header k v ?rec"
    using assms(2) x by (auto simp: NewRouter_def RequestIDMiddleware_def RecoveryMiddleware_def identified_def Let_def
        split: prod.splits outcome.splits)
  obtain rs where rs: "out = Response rs"
      "case x of Panicked \<Rightarrow> rs_Status rs = 500 \<and> rs_Body rs = rs_Body (writeError 500 ''internal server error'')
       | Response rs0 \<Rightarrow> rs_Status rs = rs_Status rs0 \<and> rs_Body rs = rs_Body rs0"
    using out(2) by (cases x) (auto simp: with_header_def)
  have m: "rq_Method (identified d r) = rq_Method r" "rq_Path (identified d r) = rq_Path r" by (simp_all add: identified_def)
  show thesis
  proof (cases "api_match d routes (rq_Method r) (rq_Path r)")
    case None
    then show thesis
      using x rs out(1) m unmatched refused
      by (auto simp: dispatch_def Middleware_caller [OF assms(1)] unauthorized_def split: if_splits option.splits)
  next
    case (Some p)
    obtain rt i where p: "p = (rt, i)" by (cases p)
    show thesis
    proof (cases "rt = Healthz")
      case True
      then show thesis using x rs out(1) m Some p health by (auto simp: dispatch_def healthz_def)
    next
      case False
      then have disp: "Middleware (api_hashing d) (New (api_hashing d) keys) (serve d rt i) (identified d r) w = (x, w1)"
        using x m Some p by (cases rt) (simp_all add: dispatch_def)
      show thesis
      proof (cases "caller (api_hashing d) keys r")
        case None
        then show thesis
          using disp rs out(1) Some p False refused by (auto simp: Middleware_caller [OF assms(1)] unauthorized_def)
      next
        case (Some c)
        obtain t u where c: "c = (t, u)" by (cases c)
        have s: "serve d rt i (authenticated d t u r) w = (x, w1)"
          using disp Some c by (simp add: Middleware_caller [OF assms(1)] authenticated_def)
        show thesis
        proof (cases x)
          case (Response rs0)
          with s rs out(1) \<open>api_match d routes (rq_Method r) (rq_Path r) = Some p\<close> p Some c False show thesis
            by (intro handled [of rs rt i t u rs0]) simp_all
        next
          case Panicked
          with s rs out(1) \<open>api_match d routes (rq_Method r) (rq_Path r) = Some p\<close> p Some c False show thesis
            by (intro panic [of rs]) auto
        qed
      qed
    qed
  qed
qed

context store_client
begin

lemma router_world:
  assumes "uuid_ok (api_hashing d)" and "api_store d = S" and "inv (w_mem w)" and "fresh_IDs (api_uuid d) (\<alpha> (w_mem w))"
    and "NewRouter d (New (api_hashing d) keys) r w = (out, w')"
  shows "case caller (api_hashing d) keys r of None \<Rightarrow> w' = w | Some (t, u) \<Rightarrow> keeps u (w_mem w) (w_mem w')"
proof (cases "caller (api_hashing d) keys r")
  case None
  show ?thesis
    using assms(1,5) by (cases rule: NewRouter_cases) (use None in auto)
next
  case (Some c)
  obtain t u where c: "c = (t, u)" by (cases c)
  have u: "u \<noteq> []" using caller_not_empty(2) [OF assms(1)] Some c by simp
  have k: "keeps u (w_mem w) (w_mem w')" if "serve d rt i (authenticated d t u r) w = (x, w')" for rt i x
    using serve_keeps [OF assms(3) _ u assms(2,4) that] by simp
  show ?thesis
    using assms(1,5) by (cases rule: NewRouter_cases) (use k Some c in \<open>auto intro: keeps_refl [OF assms(3)]\<close>)
qed

lemma router_keeps:
  assumes "uuid_ok (api_hashing d)" and "api_store d = S" and "inv (w_mem w)" and "fresh_IDs (api_uuid d) (\<alpha> (w_mem w))"
    and "caller (api_hashing d) keys r = Some (t, u)" and "NewRouter d (New (api_hashing d) keys) r w = (out, w')"
  shows "inv (w_mem w') \<and> others u (\<alpha> (w_mem w')) = others u (\<alpha> (w_mem w))"
  using router_world [OF assms(1-4,6)] assms(5) by (simp add: keeps_def)

lemma router_visible:
  assumes "uuid_ok (api_hashing d)" and "api_store d = S" and "inv (w_mem w)" and "fresh_IDs (api_uuid d) (\<alpha> (w_mem w))"
    and "caller (api_hashing d) keys r = Some (t, u)" and "NewRouter d (New (api_hashing d) keys) r w = (Response rs, w')"
    and "\<forall>rs. api_upgrade d (authenticated d t u r) = Some rs \<longrightarrow> visible ExecWS u t (rs_Body rs)"
  shows "case api_match d routes (rq_Method r) (rq_Path r) of
      None \<Rightarrow> rs_Body rs = rs_Body (api_no_match d (rq_Method r) (rq_Path r))
    | Some (rt, i) \<Rightarrow> visible rt u t (rs_Body rs)"
proof -
  have u: "u \<noteq> []" by (rule caller_not_empty(2) [OF assms(1,5)])
  show ?thesis
    using assms(1,6)
  proof (cases rule: NewRouter_cases)
    case (panic rs1)
    then show ?thesis by auto
  next
    case (handled rs1 rs0 rt i t' u')
    then have "serve d rt i (authenticated d t u r) w = (Response rs0, w')" using assms(5) by simp
    from serve_visible [OF assms(3) _ u _ assms(2,4) this] assms(7) handled show ?thesis by simp
  qed (use assms(5) in auto)
qed

lemma router_foreign:
  assumes "uuid_ok (api_hashing d)" and "api_store d = S" and "inv (w_mem w)" and "healthy (snd (w_mem w))"
    and "caller (api_hashing d) keys r = Some (t, u)" and "api_match d routes (rq_Method r) (rq_Path r) = Some (rt, i)"
    and "rt \<noteq> Healthz" and "\<not> owned_by rt u i (\<alpha> (w_mem w))"
    and "NewRouter d (New (api_hashing d) keys) r w = (out, w')"
  shows "(\<exists>rs. out = Response rs \<and>
      rs_Status rs = (if rt = Skill_InstallToEnv \<and> validateSkillName (Query_Get r ''name'') \<noteq> None then 400 else 404)) \<and>
    \<alpha> (w_mem w') = \<alpha> (w_mem w) \<and> w_eng w' = w_eng w"
proof -
  from serve_foreign [OF assms(3,4) _ assms(2,8), of "authenticated d t u r"]
  obtain rs0 w1 where s: "serve d rt i (authenticated d t u r) w = (Response rs0, w1)"
      "rs_Status rs0 = (if rt = Skill_InstallToEnv \<and> validateSkillName (Query_Get r ''name'') \<noteq> None then 400 else 404)"
      "\<alpha> (w_mem w1) = \<alpha> (w_mem w)" "w_eng w1 = w_eng w" by auto
  show ?thesis
    using assms(1,9)
  proof (cases rule: NewRouter_cases)
    case (handled rs1 rs2 rt' i' t' u')
    with assms(5,6) s show ?thesis by simp
  qed (use assms(5-7) s in auto)
qed

end

end
