(* ===== verification/Reaper.thy ===== *)
theory Reaper
  imports Store_Clients
begin

text \<open>
  \<open>internal/lifecycle/reaper.go\<close>: the background loop that removes the environments the store
  reports as expired.  \<open>reap\<close> is one cycle; \<open>Start\<close> runs cycles until \<open>Stop\<close>, here a list of the
  events its \<open>select\<close> receives.  A cycle has 30 seconds: an overrun is a failing call of the
  engine or the store.
\<close>

section \<open>Operations\<close>

fun reap_loop :: "'s Store \<Rightarrow> 'e Engine \<Rightarrow> nat list \<Rightarrow> ('s, 'e) world \<Rightarrow> ('s, 'e) world" where
  "reap_loop S E [] w = w"
| "reap_loop S E (env # expired) w =
     (let w1 = (if env_ContainerID (deref env w) \<noteq> []
                then snd (on_engine (eng_StopContainer E (env_ContainerID (deref env w))) w)
                else w);
          w2 = snd (on_store (sto_Delete S (env_ID (deref env w1)) []) w1)
      in reap_loop S E expired w2)"

definition reap :: "'s Store \<Rightarrow> 'e Engine \<Rightarrow> time \<Rightarrow> ('s, 'e) world \<Rightarrow> ('s, 'e) world" where
  "reap S E now w =
     (case on_store (sto_ListExpired S now) w of
        (Inl _, w1) \<Rightarrow> w1
      | (Inr expired, w1) \<Rightarrow> reap_loop S E expired w1)"

text \<open>What the loop receives: a tick at an instant, or the closing of \<open>stopCh\<close>.\<close>

datatype reaper_event = Tick time | StopSignal

fun Reaper_Start :: "'s Store \<Rightarrow> 'e Engine \<Rightarrow> reaper_event list \<Rightarrow> ('s, 'e) world \<Rightarrow> ('s, 'e) world" where
  "Reaper_Start S E [] w = w"
| "Reaper_Start S E (Tick now # evs) w = Reaper_Start S E evs (reap S E now w)"
| "Reaper_Start S E (StopSignal # evs) w = w"

section \<open>A cycle on a store that keeps the contract\<close>

text \<open>What stopping the containers of a list of environments does to the engine.\<close>

fun stop_all :: "'e Engine \<Rightarrow> Environment list \<Rightarrow> 'e \<Rightarrow> 'e" where
  "stop_all E [] x = x"
| "stop_all E (e # es) x =
     stop_all E es (if env_ContainerID e \<noteq> [] then snd (eng_StopContainer E (env_ContainerID e) x) else x)"

text \<open>The abstract effect of a cycle: the expired environments are gone, nothing else changed.\<close>

definition without_expired :: "(Environment \<Rightarrow> bool) \<Rightarrow> abs_store \<Rightarrow> abs_store" where
  "without_expired P A = A\<lparr>a_envs := (\<lambda>i. case a_envs A i of None \<Rightarrow> None | Some e \<Rightarrow> if P e then None else Some e)\<rparr>"

lemma stop_step:
  "w_mem (if c then snd (on_engine f w) else w) = w_mem w"
  "w_eng (if c then snd (on_engine f w) else w) = (if c then snd (f (w_eng w)) else w_eng w)"
  by (auto simp: on_engine_def split: prod.splits)

context store_client
begin

lemma reap_loop_ok:
  assumes "inv (w_mem w)" and "healthy (snd (w_mem w))"
    and "\<forall>p \<in> set ps. a_envs (\<alpha> (w_mem w)) (env_ID (deref p w)) \<noteq> None"
    and "distinct (map (\<lambda>p. env_ID (deref p w)) ps)"
  shows "\<alpha> (w_mem (reap_loop S E ps w)) =
      (\<alpha> (w_mem w))\<lparr>a_envs := (a_envs (\<alpha> (w_mem w))) |` (- (\<lambda>p. env_ID (deref p w)) ` set ps)\<rparr> \<and>
    w_eng (reap_loop S E ps w) = stop_all E (map (\<lambda>p. deref p w) ps) (w_eng w) \<and>
    inv (w_mem (reap_loop S E ps w)) \<and> stable (snd (w_mem w)) (snd (w_mem (reap_loop S E ps w)))"
  using assms
proof (induction ps arbitrary: w)
  case Nil
  then show ?case by (cases "\<alpha> (w_mem w)") simp
next
  case (Cons p ps)
  let ?cid = "env_ContainerID (deref p w)" and ?id = "env_ID (deref p w)"
  define w1 where "w1 = (if ?cid \<noteq> [] then snd (on_engine (eng_StopContainer E ?cid) w) else w)"
  define w2 where "w2 = snd (on_store (sto_Delete S ?id []) w1)"
  have m1: "w_mem w1 = w_mem w" and e1: "w_eng w1 = (if ?cid \<noteq> [] then snd (eng_StopContainer E ?cid (w_eng w)) else w_eng w)"
    unfolding w1_def by (rule stop_step)+
  have "owned_env (a_envs (\<alpha> (w_mem w))) ?id []"
    using Cons.prems(3) by (auto simp: owned_env_def)
  from Delete_healthy [OF Cons.prems(1,2) this] obtain m' where
    d: "sto_Delete S ?id [] (w_mem w) = (None, m')"
      "writes (w_mem w) ((\<alpha> (w_mem w))\<lparr>a_envs := (a_envs (\<alpha> (w_mem w)))(?id := None)\<rparr>) m'" by blast
  have m2: "w_mem w2 = m'" and e2: "w_eng w2 = w_eng w1"
    using d(1) m1 by (simp_all add: w2_def on_store_def)
  have dr: "deref q w2 = deref q w" for q
    using d(2) by (simp add: deref_def m2 writes_def)
  have step: "reap_loop S E (p # ps) w = reap_loop S E ps w2"
    using deref_mem [OF m1, of p] by (simp add: Let_def w1_def [symmetric] w2_def)
  have a2: "\<alpha> (w_mem w2) = (\<alpha> (w_mem w))\<lparr>a_envs := (a_envs (\<alpha> (w_mem w)))(?id := None)\<rparr>" "inv (w_mem w2)"
      "stable (snd (w_mem w)) (snd (w_mem w2))" "healthy (snd (w_mem w2))"
    using d(2) Cons.prems(2) by (simp_all add: writes_def m2 stable_def)
  have "\<forall>q \<in> set ps. a_envs (\<alpha> (w_mem w2)) (env_ID (deref q w2)) \<noteq> None"
    using Cons.prems(3,4) by (auto simp: a2(1) dr image_iff)
  moreover have "distinct (map (\<lambda>q. env_ID (deref q w2)) ps)"
    using Cons.prems(4) by (simp add: dr)
  ultimately have ih: "\<alpha> (w_mem (reap_loop S E ps w2)) =
      (\<alpha> (w_mem w2))\<lparr>a_envs := (a_envs (\<alpha> (w_mem w2))) |` (- (\<lambda>p. env_ID (deref p w2)) ` set ps)\<rparr>"
    "w_eng (reap_loop S E ps w2) = stop_all E (map (\<lambda>p. deref p w2) ps) (w_eng w2)"
    "inv (w_mem (reap_loop S E ps w2))" "stable (snd (w_mem w2)) (snd (w_mem (reap_loop S E ps w2)))"
    using Cons.IH [OF a2(2,4)] by blast+
  have eq: "(a_envs (\<alpha> (w_mem w2))) |` (- (\<lambda>p. env_ID (deref p w2)) ` set ps) =
      a_envs (\<alpha> (w_mem w)) |` (- (\<lambda>p. env_ID (deref p w)) ` set (p # ps))"
    by (auto simp: restrict_map_def fun_eq_iff a2(1) dr)
  have upd: "A\<lparr>a_envs := f, a_envs := g\<rparr> = A\<lparr>a_envs := g\<rparr>" for A :: abs_store and f g
    by simp
  have "\<alpha> (w_mem (reap_loop S E ps w2)) =
      (\<alpha> (w_mem w))\<lparr>a_envs := a_envs (\<alpha> (w_mem w)) |` (- (\<lambda>p. env_ID (deref p w)) ` set (p # ps))\<rparr>"
    by (simp only: ih(1) eq) (simp only: a2(1) upd)
  moreover have "w_eng (reap_loop S E ps w2) = stop_all E (map (\<lambda>p. deref p w) (p # ps)) (w_eng w)"
    using ih(2) by (simp add: dr e1 e2)
  ultimately show ?case
    unfolding step using ih(3) stable_trans [OF a2(3) ih(4)] by blast
qed

lemma without_expired_ids:
  assumes "inv m"
  shows "a_envs (\<alpha> m) |` (- env_ID ` {e \<in> ran (a_envs (\<alpha> m)). P e}) = a_envs (without_expired P (\<alpha> m))"
proof
  fix i
  show "(a_envs (\<alpha> m) |` (- env_ID ` {e \<in> ran (a_envs (\<alpha> m)). P e})) i = a_envs (without_expired P (\<alpha> m)) i"
  proof (cases "a_envs (\<alpha> m) i")
    case None
    then show ?thesis by (simp add: restrict_map_def without_expired_def)
  next
    case (Some e)
    have e: "env_ID e = i" "e \<in> ran (a_envs (\<alpha> m))"
      using env_key [OF assms Some] Some by (auto intro: ranI)
    have "i \<in> env_ID ` {e \<in> ran (a_envs (\<alpha> m)). P e} \<longleftrightarrow> P e"
    proof
      assume "i \<in> env_ID ` {e \<in> ran (a_envs (\<alpha> m)). P e}"
      then obtain e' j where e': "i = env_ID e'" "a_envs (\<alpha> m) j = Some e'" "P e'"
        by (auto simp: ran_def)
      with env_key [OF assms e'(2)] Some show "P e" by simp
    next
      assume "P e"
      with e show "i \<in> env_ID ` {e \<in> ran (a_envs (\<alpha> m)). P e}" by blast
    qed
    with Some show ?thesis by (simp add: restrict_map_def without_expired_def)
  qed
qed

lemma reap_effect:
  assumes "inv (w_mem w)" and "healthy (snd (w_mem w))"
  shows "\<exists>es. set es = {e \<in> ran (a_envs (\<alpha> (w_mem w))). expired (snd (w_mem w)) now e} \<and>
    distinct (map env_ID es) \<and> inv (w_mem (reap S E now w)) \<and>
    \<alpha> (w_mem (reap S E now w)) = without_expired (expired (snd (w_mem w)) now) (\<alpha> (w_mem w)) \<and>
    w_eng (reap S E now w) = stop_all E es (w_eng w) \<and> stable (snd (w_mem w)) (snd (w_mem (reap S E now w)))"
proof -
  obtain r m1 where r: "sto_ListExpired S now (w_mem w) = (r, m1)" by (meson surj_pair)
  obtain ps where ps: "r = Inr ps"
    using r ListExpired_err [OF assms(1), of now _ m1] assms(2) by (cases r) auto
  let ?w1 = "w\<lparr>w_mem := m1\<rparr>"
  have l: "reads (w_mem w) m1" "distinct (map (\<lambda>p. env_ID (deref p ?w1)) ps)"
    "(\<lambda>p. deref p ?w1) ` set ps = {e \<in> ran (a_envs (\<alpha> (w_mem w))). expired (snd (w_mem w)) now e}"
    using ListExpired_ok [OF assms(1) r [unfolded ps]] by (simp_all add: deref_def)
  have a: "\<alpha> m1 = \<alpha> (w_mem w)" "inv m1" "healthy (snd m1)"
    using l(1) assms(2) by (simp_all add: reads_def stable_def)
  have key: "a_envs (\<alpha> (w_mem w)) (env_ID e) = Some e" if "e \<in> ran (a_envs (\<alpha> (w_mem w)))" for e
    using that env_key [OF assms(1)] by (auto simp: ran_def)
  have "\<forall>p \<in> set ps. a_envs (\<alpha> (w_mem ?w1)) (env_ID (deref p ?w1)) \<noteq> None"
    using l(3) key a(1) by auto
  from reap_loop_ok [of ?w1, OF _ _ this l(2)] a
  have loop: "\<alpha> (w_mem (reap_loop S E ps ?w1)) =
      (\<alpha> (w_mem w))\<lparr>a_envs := (a_envs (\<alpha> (w_mem w))) |` (- (\<lambda>p. env_ID (deref p ?w1)) ` set ps)\<rparr>"
    "w_eng (reap_loop S E ps ?w1) = stop_all E (map (\<lambda>p. deref p ?w1) ps) (w_eng w)" "inv (w_mem (reap_loop S E ps ?w1))"
    "stable (snd m1) (snd (w_mem (reap_loop S E ps ?w1)))"
    by simp_all
  have run: "reap S E now w = reap_loop S E ps ?w1" by (simp add: reap_def on_store_def r ps)
  have "(\<lambda>p. env_ID (deref p ?w1)) ` set ps =
      env_ID ` {e \<in> ran (a_envs (\<alpha> (w_mem w))). expired (snd (w_mem w)) now e}"
    unfolding l(3) [symmetric] by (simp add: image_image)
  note ids = without_expired_ids [OF assms(1), of "expired (snd (w_mem w)) now", folded this]
  have "\<alpha> (w_mem (reap S E now w)) = without_expired (expired (snd (w_mem w)) now) (\<alpha> (w_mem w))"
    unfolding run loop(1) ids by (simp add: without_expired_def)
  moreover have "set (map (\<lambda>p. deref p ?w1) ps) = {e \<in> ran (a_envs (\<alpha> (w_mem w))). expired (snd (w_mem w)) now e}"
    using l(3) by simp
  moreover have "distinct (map env_ID (map (\<lambda>p. deref p ?w1) ps))"
    using l(2) by (simp add: o_def)
  moreover have "stable (snd (w_mem w)) (snd (w_mem (reap_loop S E ps ?w1)))"
    using l(1) loop(4) by (auto simp: reads_def intro: stable_trans)
  ultimately show ?thesis
    using loop(2,3) unfolding run by blast
qed

lemma reap_ok:
  assumes "inv (w_mem w)" and "healthy (snd (w_mem w))"
  shows "\<exists>es. set es = {e \<in> ran (a_envs (\<alpha> (w_mem w))). expired (snd (w_mem w)) now e} \<and>
    distinct (map env_ID es) \<and> inv (w_mem (reap S E now w)) \<and>
    \<alpha> (w_mem (reap S E now w)) = without_expired (expired (snd (w_mem w)) now) (\<alpha> (w_mem w)) \<and>
    w_eng (reap S E now w) = stop_all E es (w_eng w)"
  using reap_effect [OF assms, of now E] by (elim exE conjE) (intro exI conjI)

end

end
