(* ===== verification/Docker_Engine.thy ===== *)
theory Docker_Engine
  imports Config File_Service
begin

text \<open>
  \<open>internal/engine/docker.go\<close>: the engine on a Docker daemon.  The Docker client is a parameter, the
  record \<open>DockerClient\<close> of the calls the engine makes, on a state of the daemon; so are the header
  block and the reader of \<open>archive/tar\<close> and Docker's \<open>stdcopy\<close>.  The engine's methods translate
  between those calls and the interface of theory Engine.

  Closing a response body does not change the daemon.  IDs given out by Docker have at least
  sixteen characters, so the prefixes the log lines take of them exist.
\<close>

section \<open>The client\<close>

record ExecOptions =
  xo_Cmd :: "string list"
  xo_WorkingDir :: string
  xo_AttachStdin :: bool
  xo_AttachStdout :: bool
  xo_AttachStderr :: bool
  xo_Tty :: bool

record CommitOptions =
  co_Reference :: string
  co_Pause :: bool
  co_Comment :: string

text \<open>A hijacked connection is known by the ID of its exec.\<close>

record 'd DockerClient =
  dc_ImageInspectWithRaw :: "string \<Rightarrow> 'd \<Rightarrow> goerr option \<times> 'd"
  dc_ImagePull :: "string \<Rightarrow> 'd \<Rightarrow> goerr option \<times> 'd"
  dc_ContainerCreate :: "ContainerConfig \<Rightarrow> HostConfig \<Rightarrow> string \<Rightarrow> 'd \<Rightarrow> (goerr + string) \<times> 'd"
  dc_ContainerStart :: "string \<Rightarrow> 'd \<Rightarrow> goerr option \<times> 'd"
  dc_ContainerStop :: "string \<Rightarrow> int \<Rightarrow> 'd \<Rightarrow> goerr option \<times> 'd"
  dc_ContainerRemove :: "string \<Rightarrow> bool \<Rightarrow> bool \<Rightarrow> 'd \<Rightarrow> goerr option \<times> 'd"
  dc_ContainerExecCreate :: "string \<Rightarrow> ExecOptions \<Rightarrow> 'd \<Rightarrow> (goerr + string) \<times> 'd"
  dc_ContainerExecAttach :: "string \<Rightarrow> bool \<Rightarrow> 'd \<Rightarrow> (goerr + reader) \<times> 'd"
  dc_ConnWrite :: "string \<Rightarrow> bytes \<Rightarrow> 'd \<Rightarrow> (goerr + nat) \<times> 'd"
  dc_ConnClose :: "string \<Rightarrow> 'd \<Rightarrow> goerr option \<times> 'd"
  dc_ContainerExecResize :: "string \<Rightarrow> nat \<Rightarrow> nat \<Rightarrow> 'd \<Rightarrow> goerr option \<times> 'd"
  dc_ContainerExecInspect :: "string \<Rightarrow> 'd \<Rightarrow> (goerr + int) \<times> 'd"
  dc_CopyFromContainer :: "string \<Rightarrow> string \<Rightarrow> 'd \<Rightarrow> (goerr + reader) \<times> 'd"
  dc_CopyToContainer :: "string \<Rightarrow> string \<Rightarrow> bytes \<Rightarrow> 'd \<Rightarrow> goerr option \<times> 'd"
  dc_ContainerCommit :: "string \<Rightarrow> CommitOptions \<Rightarrow> 'd \<Rightarrow> (goerr + string) \<times> 'd"
  dc_ImageRemove :: "string \<Rightarrow> bool \<Rightarrow> 'd \<Rightarrow> goerr option \<times> 'd"

text \<open>\<open>archive/tar\<close> and \<open>stdcopy\<close>: the block a header is written as, the content of the first entry
  of an archive, and the standard output and error of a multiplexed stream.\<close>

record tar_file =
  tf_Name :: string
  tf_Mode :: int
  tf_Size :: int64

record formats =
  fmt_tar_header :: "tar_file \<Rightarrow> goerr + bytes"
  fmt_tar_Next :: "reader \<Rightarrow> goerr + reader"
  fmt_StdCopy :: "reader \<Rightarrow> goerr + bytes \<times> bytes"

section \<open>Containers\<close>

definition NewDockerEngine ::
  "(string option \<Rightarrow> goerr + 'd DockerClient) \<Rightarrow> ('d DockerClient \<Rightarrow> goerr option) \<Rightarrow> Config \<Rightarrow>
   goerr + 'd DockerClient" where
  "NewDockerEngine NewClientWithOpts Ping cfg =
     (case NewClientWithOpts (if cfg_DockerHost cfg \<noteq> [] then Some (cfg_DockerHost cfg) else None) of
        Inl err \<Rightarrow> Inl (Context ''docker client'' err)
      | Inr cli \<Rightarrow>
          (case Ping cli of
             Some err \<Rightarrow> Inl (Context ''docker ping'' err)
           | None \<Rightarrow> Inr cli))"

definition ensure_image :: "'d DockerClient \<Rightarrow> string \<Rightarrow> 'd \<Rightarrow> goerr option \<times> 'd" where
  "ensure_image C img d =
     (case dc_ImageInspectWithRaw C img d of
        (Some _, d1) \<Rightarrow>
          (case dc_ImagePull C img d1 of
             (Some err, d2) \<Rightarrow> (Some (Context ''image pull'' err), d2)
           | (None, d2) \<Rightarrow> (None, d2))
      | (None, d1) \<Rightarrow> (None, d1))"

definition hostConfig :: "EnvironmentSpec \<Rightarrow> HostConfig" where
  "hostConfig spec = (securityHostConfig spec)\<lparr>hc_NetworkMode := networkMode (NetworkPolicy spec)\<rparr>"

definition DockerEngine_CreateContainer ::
  "'d DockerClient \<Rightarrow> Environment \<Rightarrow> 'd \<Rightarrow> (goerr + string) \<times> 'd" where
  "DockerEngine_CreateContainer C env d =
     (case ensure_image C (Image (env_Spec env)) d of
        (Some err, d1) \<Rightarrow> (Inl err, d1)
      | (None, d1) \<Rightarrow>
          (case dc_ContainerCreate C (containerConfig env) (hostConfig (env_Spec env)) (''haas-'' @ env_ID env) d1 of
             (Inl err, d2) \<Rightarrow> (Inl (Context ''container create'' err), d2)
           | (Inr i, d2) \<Rightarrow> (Inr i, d2)))"

definition DockerEngine_StartContainer :: "'d DockerClient \<Rightarrow> string \<Rightarrow> 'd \<Rightarrow> goerr option \<times> 'd" where
  "DockerEngine_StartContainer C containerID d =
     (case dc_ContainerStart C containerID d of
        (Some err, d1) \<Rightarrow> (Some (Context ''container start'' err), d1)
      | (None, d1) \<Rightarrow> (None, d1))"

definition DockerEngine_StopContainer :: "'d DockerClient \<Rightarrow> string \<Rightarrow> 'd \<Rightarrow> goerr option \<times> 'd" where
  "DockerEngine_StopContainer C containerID d =
     (case dc_ContainerStop C containerID 10 d of
        (_, d1) \<Rightarrow>
          (case dc_ContainerRemove C containerID True True d1 of
             (Some err, d2) \<Rightarrow> (Some (Context ''container remove'' err), d2)
           | (None, d2) \<Rightarrow> (None, d2)))"

section \<open>Commands\<close>

definition exec_options :: "bool \<Rightarrow> ExecRequest \<Rightarrow> ExecOptions" where
  "exec_options tty req = \<lparr>xo_Cmd = er_Command req,
     xo_WorkingDir = (if er_WorkingDir req \<noteq> [] then er_WorkingDir req else []),
     xo_AttachStdin = tty, xo_AttachStdout = True, xo_AttachStderr = True, xo_Tty = tty\<rparr>"

definition exec_attach ::
  "'d DockerClient \<Rightarrow> string \<Rightarrow> string \<Rightarrow> string \<Rightarrow> ExecOptions \<Rightarrow> bool \<Rightarrow> 'd \<Rightarrow> (goerr + string \<times> reader) \<times> 'd" where
  "exec_attach C create_msg attach_msg containerID cfg tty d =
     (case dc_ContainerExecCreate C containerID cfg d of
        (Inl err, d1) \<Rightarrow> (Inl (Context create_msg err), d1)
      | (Inr execID, d1) \<Rightarrow>
          (case dc_ContainerExecAttach C execID tty d1 of
             (Inl err, d2) \<Rightarrow> (Inl (Context attach_msg err), d2)
           | (Inr r, d2) \<Rightarrow> (Inr (execID, r), d2)))"

definition DockerEngine_Exec ::
  "'d DockerClient \<Rightarrow> string \<Rightarrow> ExecRequest \<Rightarrow> 'd \<Rightarrow> (goerr + exec_reader) \<times> 'd" where
  "DockerEngine_Exec C containerID req d =
     (case exec_attach C ''exec create'' ''exec attach'' containerID (exec_options False req) False d of
        (Inl err, d1) \<Rightarrow> (Inl err, d1)
      | (Inr (execID, r), d1) \<Rightarrow> (Inr \<lparr>xr_reader = r, xr_execID = Some execID\<rparr>, d1))"

definition interactiveSession :: "'d DockerClient \<Rightarrow> string \<Rightarrow> 'd InteractiveSession" where
  "interactiveSession C execID = \<lparr>ses_Write = dc_ConnWrite C execID,
     ses_Resize = (\<lambda>cols rows. dc_ContainerExecResize C execID cols rows),
     ses_Close = dc_ConnClose C execID, ses_ExecID = execID\<rparr>"

definition DockerEngine_ExecInteractive ::
  "'d DockerClient \<Rightarrow> string \<Rightarrow> ExecRequest \<Rightarrow> 'd \<Rightarrow> (goerr + 'd InteractiveSession) \<times> 'd" where
  "DockerEngine_ExecInteractive C containerID req d =
     (case exec_attach C ''exec create'' ''exec attach'' containerID (exec_options True req) True d of
        (Inl err, d1) \<Rightarrow> (Inl err, d1)
      | (Inr (execID, r), d1) \<Rightarrow> (Inr (interactiveSession C execID), d1))"

definition DockerEngine_ExecExitCode :: "'d DockerClient \<Rightarrow> string \<Rightarrow> 'd \<Rightarrow> (goerr + int) \<times> 'd" where
  "DockerEngine_ExecExitCode C execID d =
     (case dc_ContainerExecInspect C execID d of
        (Inl err, d1) \<Rightarrow> (Inl (Context ''exec inspect'' err), d1)
      | (Inr code, d1) \<Rightarrow> (Inr code, d1))"

section \<open>Files\<close>

definition listing_command :: "string list \<Rightarrow> ExecOptions" where
  "listing_command cmd = \<lparr>xo_Cmd = cmd, xo_WorkingDir = [], xo_AttachStdin = False, xo_AttachStdout = True,
     xo_AttachStderr = True, xo_Tty = False\<rparr>"

definition listFilesWithLS ::
  "'d DockerClient \<Rightarrow> formats \<Rightarrow> string \<Rightarrow> string \<Rightarrow> 'd \<Rightarrow> (goerr + FileInfo list) \<times> 'd" where
  "listFilesWithLS C F containerID path d =
     (case exec_attach C ''exec create for ls fallback'' ''exec attach for ls fallback'' containerID
             (listing_command [''ls'', ''-la'', path]) False d of
        (Inl err, d1) \<Rightarrow> (Inl err, d1)
      | (Inr (execID, r), d1) \<Rightarrow>
          (case fmt_StdCopy F r of
             Inl err \<Rightarrow> (Inl (Context ''reading ls fallback output'' err), snd (dc_ConnClose C execID d1))
           | Inr (out, _) \<Rightarrow> (Inr (parseLSOutput path out), snd (dc_ConnClose C execID d1))))"

text \<open>The format of \<open>find\<close>: the backslashes are for \<open>find\<close> to read.\<close>

definition find_format :: string where
  "find_format = ''%f'' @ [CHR 0x5C] @ ''t%s'' @ [CHR 0x5C] @ ''t%T@'' @ [CHR 0x5C] @ ''t%y'' @ [CHR 0x5C] @ ''n''"

definition DockerEngine_ListFiles ::
  "'d DockerClient \<Rightarrow> formats \<Rightarrow> string \<Rightarrow> string \<Rightarrow> 'd \<Rightarrow> (goerr + FileInfo list) \<times> 'd" where
  "DockerEngine_ListFiles C F containerID path0 d =
     (let path = (if path0 = [] then ''/'' else path0) in
      case exec_attach C ''exec create for ls'' ''exec attach for ls'' containerID
             (listing_command [''find'', path, ''-maxdepth'', ''1'', ''-printf'', find_format]) False d of
        (Inl err, d1) \<Rightarrow> (Inl err, d1)
      | (Inr (execID, r), d1) \<Rightarrow>
          (case fmt_StdCopy F r of
             Inl err \<Rightarrow> (Inl (Context ''reading ls output'' err), snd (dc_ConnClose C execID d1))
           | Inr (out, errs) \<Rightarrow>
               if errs \<noteq> [] \<and> out = []
               then case listFilesWithLS C F containerID path d1 of (r, d2) \<Rightarrow> (r, snd (dc_ConnClose C execID d2))
               else (Inr (parseFileList path out), snd (dc_ConnClose C execID d1))))"

definition DockerEngine_ReadFile ::
  "'d DockerClient \<Rightarrow> formats \<Rightarrow> string \<Rightarrow> string \<Rightarrow> 'd \<Rightarrow> (goerr + reader) \<times> 'd" where
  "DockerEngine_ReadFile C F containerID path d =
     (case dc_CopyFromContainer C containerID path d of
        (Inl err, d1) \<Rightarrow> (Inl (Context ''copy from container'' err), d1)
      | (Inr r, d1) \<Rightarrow>
          (case fmt_tar_Next F r of
             Inl err \<Rightarrow> (Inl (Context ''reading tar header'' err), d1)
           | Inr content \<Rightarrow> (Inr content, d1)))"

text \<open>The archive of one file as \<open>tar.Writer\<close> builds it: the header, the content, which must have
  the size the header announced, padding to a multiple of 512 bytes and two empty blocks.\<close>

definition zeros :: "nat \<Rightarrow> bytes" where
  "zeros n = replicate n (CHR 0x00)"

definition tar_Write :: "int64 \<Rightarrow> bytes \<Rightarrow> goerr + bytes" where
  "tar_Write n data = (if int (length data) > n then Inl (Opaque ''archive/tar: write too long'') else Inr data)"

definition tar_Close :: "int64 \<Rightarrow> bytes \<Rightarrow> goerr + bytes" where
  "tar_Close n data =
     (if int (length data) < n then Inl (Opaque ''archive/tar: missed writing bytes'')
      else Inr (zeros (nat ((- n) mod 512)) @ zeros 1024))"

definition single_file_tar :: "formats \<Rightarrow> string \<Rightarrow> bytes \<Rightarrow> goerr + bytes" where
  "single_file_tar F fileName data =
     (let hdr = \<lparr>tf_Name = fileName, tf_Mode = 420, tf_Size = int (length data)\<rparr> in
      case fmt_tar_header F hdr of
        Inl err \<Rightarrow> Inl (Context ''writing tar header'' err)
      | Inr h \<Rightarrow>
          (case tar_Write (tf_Size hdr) data of
             Inl err \<Rightarrow> Inl (Context ''writing tar body'' err)
           | Inr b \<Rightarrow>
               (case tar_Close (tf_Size hdr) b of
                  Inl err \<Rightarrow> Inl (Context ''closing tar'' err)
                | Inr t \<Rightarrow> Inr (h @ b @ t))))"

definition DockerEngine_WriteFile ::
  "'d DockerClient \<Rightarrow> formats \<Rightarrow> string \<Rightarrow> string \<Rightarrow> bytes \<Rightarrow> 'd \<Rightarrow> goerr option \<times> 'd" where
  "DockerEngine_WriteFile C F containerID path data d =
     (let (dir, fileName) = splitPath path in
      case single_file_tar F fileName data of
        Inl err \<Rightarrow> (Some err, d)
      | Inr buf \<Rightarrow>
          (case dc_CopyToContainer C containerID dir buf d of
             (Some err, d1) \<Rightarrow> (Some (Context ''copy to container'' err), d1)
           | (None, d1) \<Rightarrow> (None, d1)))"

definition DockerEngine_ExtractArchive ::
  "'d DockerClient \<Rightarrow> string \<Rightarrow> string \<Rightarrow> bytes \<Rightarrow> 'd \<Rightarrow> goerr option \<times> 'd" where
  "DockerEngine_ExtractArchive C containerID destDir tarStream d =
     (case DockerEngine_Exec C containerID
             \<lparr>er_Command = [''mkdir'', ''-p'', destDir], er_WorkingDir = [], er_TimeoutSeconds = 0, er_CaptureOutput = False\<rparr> d of
        (Inl err, d1) \<Rightarrow> (Some (Context ''create dest dir'' err), d1)
      | (Inr mkdir, d1) \<Rightarrow>
          let d2 = (case xr_execID mkdir of None \<Rightarrow> d1 | Some x \<Rightarrow> snd (dc_ConnClose C x d1)) in
          (case dc_CopyToContainer C containerID destDir tarStream d2 of
             (Some err, d3) \<Rightarrow> (Some (Context ''copy to container'' err), d3)
           | (None, d3) \<Rightarrow> (None, d3)))"

section \<open>Snapshots\<close>

definition DockerEngine_SnapshotContainer ::
  "'d DockerClient \<Rightarrow> string \<Rightarrow> string \<Rightarrow> 'd \<Rightarrow> (goerr + string) \<times> 'd" where
  "DockerEngine_SnapshotContainer C containerID snapshotID d =
     (let ref = ''haas-snapshots:'' @ snapshotID in
      case dc_ContainerCommit C containerID
             \<lparr>co_Reference = ref, co_Pause = True, co_Comment = ''HaaS snapshot '' @ snapshotID\<rparr> d of
        (Inl err, d1) \<Rightarrow> (Inl (Context ''container commit'' err), d1)
      | (Inr i, d1) \<Rightarrow> (Inr i, d1))"

definition DockerEngine_DeleteSnapshotImage :: "'d DockerClient \<Rightarrow> string \<Rightarrow> 'd \<Rightarrow> goerr option \<times> 'd" where
  "DockerEngine_DeleteSnapshotImage C imageID d =
     (case dc_ImageRemove C imageID True d of
        (Some err, d1) \<Rightarrow> (Some (Context ''image remove'' err), d1)
      | (None, d1) \<Rightarrow> (None, d1))"

definition docker_engine :: "'d DockerClient \<Rightarrow> formats \<Rightarrow> 'd Engine" where
  "docker_engine C F = \<lparr>eng_CreateContainer = DockerEngine_CreateContainer C,
     eng_StartContainer = DockerEngine_StartContainer C, eng_StopContainer = DockerEngine_StopContainer C,
     eng_Exec = DockerEngine_Exec C, eng_ExecInteractive = DockerEngine_ExecInteractive C,
     eng_ExecExitCode = DockerEngine_ExecExitCode C, eng_ListFiles = DockerEngine_ListFiles C F,
     eng_ReadFile = DockerEngine_ReadFile C F, eng_WriteFile = DockerEngine_WriteFile C F,
     eng_ExtractArchive = DockerEngine_ExtractArchive C,
     eng_SnapshotContainer = DockerEngine_SnapshotContainer C,
     eng_DeleteSnapshotImage = DockerEngine_DeleteSnapshotImage C\<rparr>"

section \<open>Writing and reading a file\<close>

text \<open>What the daemon promises of its files: an archive of one file copied into a directory leaves
  that file there, and a file is copied out as an archive that starts with it.  \<open>files\<close> is the
  content of the regular file at a path, given by its elements.\<close>

definition keeps_files :: "'d DockerClient \<Rightarrow> formats \<Rightarrow> ('d \<Rightarrow> string \<Rightarrow> string list \<Rightarrow> bytes option) \<Rightarrow> bool" where
  "keeps_files C F files \<longleftrightarrow>
     (\<forall>cid dir name data buf d d'. path_IsAbs dir \<longrightarrow> proper_elem name \<longrightarrow> single_file_tar F name data = Inr buf \<longrightarrow>
        dc_CopyToContainer C cid dir buf d = (None, d') \<longrightarrow> files d' cid (path_elems dir @ [name]) = Some data) \<and>
     (\<forall>cid path data d. path_IsAbs path \<longrightarrow> files d cid (path_elems path) = Some data \<longrightarrow>
        (\<exists>r. dc_CopyFromContainer C cid path d = (Inr r, d) \<and> fmt_tar_Next F r = Inr \<lparr>rd_data = data, rd_err = None\<rparr>))"

lemma split_on_snoc: "c \<notin> set b \<Longrightarrow> split_on c (a @ c # b) = split_on c a @ [b]"
  by (induction a) (auto split: list.splits)

lemma splitPath_dir: "splitPath p = (dir, file) \<Longrightarrow> dir \<noteq> []"
  by (auto simp: splitPath_def split: option.splits if_splits)

text \<open>The directory and the file of a cleaned path.\<close>

lemma splitPath_elems:
  assumes "\<forall>c \<in> set es. proper_elem c" and "es \<noteq> []"
    and "p = CHR ''/'' # strings_Join es ''/''" and "splitPath p = (dir, file)"
  shows "path_IsAbs dir \<and> path_elems dir = butlast es \<and> file = last es"
proof -
  have sp: "split_on (CHR ''/'') p = [] # es"
    using split_join [of "[] # es" "CHR ''/''"] assms(1-3) by (auto simp: strings_Join_Cons proper_elem_def)
  have two: "\<not> strings_HasPrefix p ''//''"
  proof
    assume "strings_HasPrefix p ''//''"
    then obtain z where "p = ''//'' @ z" by (auto simp: strings_HasPrefix_def prefix_def)
    with sp have "hd es = []" by (auto split: list.splits)
    with assms(1,2) show False by (cases es) (auto simp: proper_elem_def)
  qed
  have re: "p = (if dir = ''/'' then ''/'' else dir @ ''/'') @ file" "CHR ''/'' \<notin> set file"
    using splitPath_rejoin [OF _ two assms(4)] assms(3) by simp_all
  show ?thesis
  proof (cases "dir = ''/''")
    case True
    with re have "split_on (CHR ''/'') p = [[], file]" by simp
    with sp have "es = [file]" by simp
    with True show ?thesis using path_elems_rooted [of "[]"] by simp
  next
    case False
    with re have "split_on (CHR ''/'') p = split_on (CHR ''/'') dir @ [file]" by (simp add: split_on_snoc)
    with sp assms(2) have f: "file = last es" "split_on (CHR ''/'') dir = [] # butlast es"
      by (cases es rule: rev_cases; simp)+
    have d: "dir = strings_Join ([] # butlast es) ''/''" using join_split [of "CHR ''/''" dir] f(2) by simp
    with splitPath_dir [OF assms(4)] have "butlast es \<noteq> []" by auto
    with d have "dir = CHR ''/'' # strings_Join (butlast es) ''/''" by (simp add: strings_Join_Cons)
    with path_elems_rooted [of "butlast es"] f(1) assms(1) show ?thesis by (auto dest: in_set_butlastD)
  qed
qed

lemma docker_write_read:
  assumes "keeps_files C F files" and "sanitizePath raw = Inr path" and "path \<noteq> ''/''"
    and "DockerEngine_WriteFile C F cid path data d = (None, d')"
  shows "files d' cid (path_elems path) = Some data"
    and "DockerEngine_ReadFile C F cid path d' = (Inr \<lparr>rd_data = data, rd_err = None\<rparr>, d')"
proof -
  note s = sanitizePath_ok [OF assms(2)]
  have ne: "path_elems path \<noteq> []" using s(3) assms(3) by auto
  obtain dir fname where sp: "splitPath path = (dir, fname)" by (meson surj_pair)
  note e = splitPath_elems [OF s(2) ne s(3) sp]
  obtain buf where b: "single_file_tar F fname data = Inr buf" "dc_CopyToContainer C cid dir buf d = (None, d')"
    using assms(4) sp by (auto simp: DockerEngine_WriteFile_def split: sum.splits prod.splits option.splits)
  have "proper_elem fname" using e s(2) ne by simp
  with assms(1) e b have "files d' cid (butlast (path_elems path) @ [last (path_elems path)]) = Some data"
    unfolding keeps_files_def by metis
  with ne show f: "files d' cid (path_elems path) = Some data" by simp
  from assms(1) s(1) f obtain r where "dc_CopyFromContainer C cid path d' = (Inr r, d')"
      "fmt_tar_Next F r = Inr \<lparr>rd_data = data, rd_err = None\<rparr>"
    unfolding keeps_files_def by blast
  then show "DockerEngine_ReadFile C F cid path d' = (Inr \<lparr>rd_data = data, rd_err = None\<rparr>, d')"
    by (simp add: DockerEngine_ReadFile_def)
qed

end
