(* ===== verification/Engine_Invariant.thy ===== *)
theory Engine_Invariant
  imports API_Isolation Reaper Docker_Engine
begin

text \<open>
  What the service does to its engine: a property of the engine's state that every call within the
  limits keeps is kept by every operation of the services, by every request and by the reaper.
  \<open>CreateContainer\<close> has to keep it only for specifications within the limits, so the theory also
  shows that no other specification ever reaches the engine.
\<close>

section \<open>Invariants of an engine\<close>

definition session_keeps :: "('e \<Rightarrow> bool) \<Rightarrow> 'e InteractiveSession \<Rightarrow> bool" where
  "session_keeps P ses \<longleftrightarrow> (\<forall>e. P e \<longrightarrow> (\<forall>p. P (snd (ses_Write ses p e))) \<and>
     (\<forall>cols rows. P (snd (ses_Resize ses cols rows e))) \<and> P (snd (ses_Close ses e)))"

definition engine_keeps :: "('e \<Rightarrow> bool) \<Rightarrow> 'e Engine \<Rightarrow> bool" where
  "engine_keeps P E \<longleftrightarrow> (\<forall>e. P e \<longrightarrow>
     (\<forall>env. valid_spec (env_Spec env) \<longrightarrow> P (snd (eng_CreateContainer E env e))) \<and>
     (\<forall>c. P (snd (eng_StartContainer E c e))) \<and> (\<forall>c. P (snd (eng_StopContainer E c e))) \<and>
     (\<forall>c req. P (snd (eng_Exec E c req e))) \<and>
     (\<forall>c req. P (snd (eng_ExecInteractive E c req e)) \<and>
        (\<forall>ses. fst (eng_ExecInteractive E c req e) = Inr ses \<longrightarrow> session_keeps P ses)) \<and>
     (\<forall>x. P (snd (eng_ExecExitCode E x e))) \<and> (\<forall>c p. P (snd (eng_ListFiles E c p e))) \<and>
     (\<forall>c p. P (snd (eng_ReadFile E c p e))) \<and> (\<forall>c p t. P (snd (eng_WriteFile E c p t e))) \<and>
     (\<forall>c p t. P (snd (eng_ExtractArchive E c p t e))) \<and> (\<forall>c i. P (snd (eng_SnapshotContainer E c i e))) \<and>
     (\<forall>i. P (snd (eng_DeleteSnapshotImage E i e))))"

lemma session_keepsD:
  assumes "session_keeps P ses" and "P e"
  shows "ses_Write ses p e = (n, e') \<Longrightarrow> P e'" "ses_Resize ses cols rows e = (r, e') \<Longrightarrow> P e'"
    "ses_Close ses e = (r, e') \<Longrightarrow> P e'"
  using assms unfolding session_keeps_def by (metis snd_conv)+

lemma engine_keepsD:
  assumes "engine_keeps P E" and "P e"
  shows "valid_spec (env_Spec env) \<Longrightarrow> eng_CreateContainer E env e = (x, e') \<Longrightarrow> P e'"
    "eng_StartContainer E c e = (r, e') \<Longrightarrow> P e'" "eng_StopContainer E c e = (r, e') \<Longrightarrow> P e'"
    "eng_Exec E c req e = (y, e') \<Longrightarrow> P e'" "eng_ExecInteractive E c req e = (z, e') \<Longrightarrow> P e'"
    "eng_ExecInteractive E c req e = (Inr ses, e') \<Longrightarrow> session_keeps P ses"
    "eng_ExecExitCode E i e = (n, e') \<Longrightarrow> P e'" "eng_ListFiles E c p e = (fs, e') \<Longrightarrow> P e'"
    "eng_ReadFile E c p e = (rd, e') \<Longrightarrow> P e'" "eng_WriteFile E c p t e = (r, e') \<Longrightarrow> P e'"
    "eng_ExtractArchive E c p t e = (r, e') \<Longrightarrow> P e'" "eng_SnapshotContainer E c i e = (img, e') \<Longrightarrow> P e'"
    "eng_DeleteSnapshotImage E i e = (r, e') \<Longrightarrow> P e'"
  using assms unfolding engine_keeps_def by (metis fst_conv snd_conv)+

lemma on_engine_keeps:
  assumes "engine_keeps P E"
  shows "on_engine (eng_StartContainer E c) w = (r, w') \<Longrightarrow> P (w_eng w) \<Longrightarrow> P (w_eng w')"
    "on_engine (eng_StopContainer E c) w = (r, w') \<Longrightarrow> P (w_eng w) \<Longrightarrow> P (w_eng w')"
    "on_engine (eng_Exec E c req) w = (y, w') \<Longrightarrow> P (w_eng w) \<Longrightarrow> P (w_eng w')"
    "on_engine (eng_ExecInteractive E c req) w = (z, w') \<Longrightarrow> P (w_eng w) \<Longrightarrow> P (w_eng w')"
    "on_engine (eng_ExecExitCode E i) w = (n, w') \<Longrightarrow> P (w_eng w) \<Longrightarrow> P (w_eng w')"
    "on_engine (eng_ListFiles E c p) w = (fs, w') \<Longrightarrow> P (w_eng w) \<Longrightarrow> P (w_eng w')"
    "on_engine (eng_ReadFile E c p) w = (rd, w') \<Longrightarrow> P (w_eng w) \<Longrightarrow> P (w_eng w')"
    "on_engine (eng_WriteFile E c p t) w = (r, w') \<Longrightarrow> P (w_eng w) \<Longrightarrow> P (w_eng w')"
    "on_engine (eng_ExtractArchive E c p t) w = (r, w') \<Longrightarrow> P (w_eng w) \<Longrightarrow> P (w_eng w')"
    "on_engine (eng_SnapshotContainer E c i) w = (img, w') \<Longrightarrow> P (w_eng w) \<Longrightarrow> P (w_eng w')"
    "on_engine (eng_DeleteSnapshotImage E i) w = (r, w') \<Longrightarrow> P (w_eng w) \<Longrightarrow> P (w_eng w')"
  by (metis on_engine_result engine_keepsD [OF assms])+

lemma on_engine_create:
  "engine_keeps P E \<Longrightarrow> on_engine (eng_CreateContainer E env) w = (x, w') \<Longrightarrow> valid_spec (env_Spec env) \<Longrightarrow>
    P (w_eng w) \<Longrightarrow> P (w_eng w')"
  by (metis on_engine_result engine_keepsD(1))

lemma on_engine_session:
  "engine_keeps P E \<Longrightarrow> on_engine (eng_ExecInteractive E c req) w = (Inr ses, w') \<Longrightarrow> P (w_eng w) \<Longrightarrow> session_keeps P ses"
  by (metis on_engine_result engine_keepsD(6))

lemma on_store_eng: "on_store f w = (r, w') \<Longrightarrow> w_eng w' = w_eng w"
  by (simp add: on_store_result)

lemma on_store_keeps: "on_store f w = (r, w') \<Longrightarrow> P (w_eng w) \<Longrightarrow> P (w_eng w')"
  by (simp add: on_store_eng)

lemma assign_eng [simp]: "w_eng (assign_env p e w) = w_eng w"
  by (simp add: assign_env_def)

lemma store_snd_eng [simp]: "w_eng (snd (on_store f w)) = w_eng w"
  by (metis on_store_eng prod.collapse)

lemma updateLastUsed_eng [simp]: "w_eng (updateLastUsed S now p w) = w_eng w"
  by (simp add: updateLastUsed_def)

lemma ws_touch_eng [simp]: "w_eng (ws_touch S p now w) = w_eng w"
  by (simp add: ws_touch_def)

lemma running_eng: "getRunningEnv S i u w = (r, w') \<Longrightarrow> w_eng w' = w_eng w"
  by (auto simp: getRunningEnv_def split: prod.splits sum.splits if_splits dest: on_store_eng)

section \<open>The services\<close>

lemma inject_loop_engine:
  assumes "engine_keeps P E"
  shows "P (w_eng w) \<Longrightarrow> P (w_eng (inject_loop S E cfg u cid skills w))"
proof (induction skills arbitrary: w)
  case (Cons skill skills)
  then show ?case
    by (auto split: prod.splits sum.splits dest: on_store_keeps [of _ _ _ _ P] on_engine_keeps [OF assms])
qed simp

lemma injectSkills_engine:
  assumes "engine_keeps P E" and "P (w_eng w)"
  shows "P (w_eng (injectSkills S E cfg u cid w))"
  using assms(2)
  by (auto simp: injectSkills_def inject_loop_engine [OF assms(1)] split: prod.splits sum.splits
      dest: on_store_keeps [of _ _ _ _ P])

lemma container_engine:
  assumes "engine_keeps P E" and "P (w_eng w)" and "valid_spec (env_Spec (deref p w))"
    and "CreateEnvironment_container S E cfg u p w = (r, w')"
  shows "P (w_eng w')"
  using assms(2-4)
  by (auto simp: CreateEnvironment_container_def Let_def split: prod.splits sum.splits option.splits
      dest!: on_store_keeps [of _ _ _ _ P] on_engine_create [OF assms(1)] on_engine_keeps [OF assms(1)]
      intro!: injectSkills_engine [OF assms(1)])

lemma stop_engine:
  "engine_keeps P E \<Longrightarrow> P (w_eng w) \<Longrightarrow> P (w_eng (snd (on_engine (eng_StopContainer E c) w)))"
  by (rule on_engine_keeps(2) [OF _ prod.collapse [symmetric]])

lemma DestroyEnvironment_engine:
  assumes "engine_keeps P E" and "P (w_eng w)" and "DestroyEnvironment S E i u w = (r, w')"
  shows "P (w_eng w')"
  using assms(2,3)
  by (auto simp: DestroyEnvironment_def Let_def split: prod.splits sum.splits option.splits if_splits
      dest!: on_store_keeps [of _ _ _ _ P] intro: stop_engine [OF assms(1)])

lemma file_service_engine:
  assumes "engine_keeps P E" and "P (w_eng w)"
  shows "FileService_ListFiles S E now i u raw w = (x, w') \<Longrightarrow> P (w_eng w')"
    and "FileService_ReadFile S E now i u raw w = (y, w') \<Longrightarrow> P (w_eng w')"
    and "FileService_WriteFile S E bound now i u raw rd w = (z, w') \<Longrightarrow> P (w_eng w')"
  using assms(2)
  by (auto simp: FileService_ListFiles_def FileService_ReadFile_def FileService_WriteFile_def
      split: prod.splits sum.splits option.splits if_splits
      dest!: running_eng on_engine_keeps [OF assms(1)])

lemma snapshot_service_engine:
  assumes "engine_keeps P E" and "P (w_eng w)"
  shows "CreateSnapshot S E now uuid t u i label w = (x, w') \<Longrightarrow> P (w_eng w')"
    and "DeleteSnapshot S E i u w = (y, w') \<Longrightarrow> P (w_eng w')"
  using assms(2)
  by (auto simp: CreateSnapshot_def DeleteSnapshot_def Let_def
      split: prod.splits sum.splits option.splits if_splits
      dest!: on_store_keeps [of _ _ _ _ P] on_engine_keeps [OF assms(1)])

lemma installed_loop_engine:
  assumes "engine_keeps P E"
  shows "P (w_eng w) \<Longrightarrow> installed_loop E s cid entries w = (r, w') \<Longrightarrow> P (w_eng w')"
proof (induction entries arbitrary: w r)
  case (Cons entry entries)
  then show ?case
    by (auto simp: Let_def split: if_splits prod.splits sum.splits dest!: on_engine_keeps [OF assms])
qed simp

lemma skill_service_engine:
  assumes "engine_keeps P E" and "P (w_eng w)"
  shows "InstallSkillToEnvironment S E s i u name archive w = (x, w') \<Longrightarrow> P (w_eng w')"
    and "ListInstalledSkills S E s i u w = (y, w') \<Longrightarrow> P (w_eng w')"
  using assms(2) installed_loop_engine [OF assms(1)]
  by (auto simp: InstallSkillToEnvironment_def ListInstalledSkills_def getRunningEnv_same Let_def
      split: prod.splits sum.splits option.splits if_splits
      dest!: running_eng on_engine_keeps [OF assms(1)])

section \<open>Commands, sessions and the reaper\<close>

lemma exec_engine:
  assumes "engine_keeps P E" and "P (w_eng w)"
  shows "StartExec S E now p req w = (x, w') \<Longrightarrow> P (w_eng w')" and "ExitCode E ses w = (y, w') \<Longrightarrow> P (w_eng w')"
  using assms(2)
  by (auto simp: StartExec_def ExitCode_def Let_def split: prod.splits sum.splits if_splits
      dest!: on_engine_keeps [OF assms(1)])

lemma ExecHandler_engine:
  assumes "engine_keeps P (api_engine d)" and "P (w_eng w)" and "ExecHandler_Exec d i r w = (out, w')"
  shows "P (w_eng w')"
  using assms(2,3)
  by (auto simp: ExecHandler_Exec_def PrepareExec_eq split: prod.splits sum.splits
      dest!: running_eng exec_engine(1) [OF assms(1), rotated] exec_engine(2) [OF assms(1), rotated])

lemma on_ws_engine_keeps:
  assumes "session_keeps P ses" and "P (w_eng (ws_world st))"
  shows "on_ws_engine (ses_Write ses p) st = (n, st') \<Longrightarrow> P (w_eng (ws_world st'))"
    "on_ws_engine (ses_Resize ses cols rows) st = (r, st') \<Longrightarrow> P (w_eng (ws_world st'))"
    "on_ws_engine (ses_Close ses) st = (r, st') \<Longrightarrow> P (w_eng (ws_world st'))"
  using session_keepsD [OF assms] by (auto simp: on_ws_engine_def on_engine_def split: prod.splits)

lemma closeAll_engine:
  assumes "session_keeps P ses" and "P (w_eng (ws_world st))"
  shows "P (w_eng (ws_world (closeAll ses st)))"
  using assms on_ws_engine_keeps(3) [OF assms(1) _ prod.collapse [symmetric], of "st\<lparr>ws_cancelled := True, ws_open := False\<rparr>"]
  by (simp add: closeAll_def)

lemma ws_step_engine:
  assumes "engine_keeps P E" and "session_keeps P ses" and "P (w_eng (ws_world st))"
  shows "P (w_eng (ws_world (ws_step S E n p ses ev st)))"
proof (cases ev)
  case (PtyOutput data)
  then show ?thesis
    using assms by (auto simp: ws_output_def wsSend_def closeAll_engine split: prod.splits option.splits if_splits)
next
  case PtyEnd
  obtain c st1 where c: "on_ws_engine (eng_ExecExitCode E (ses_ExecID ses)) st = (c, st1)" by (meson surj_pair)
  with engine_keepsD(7) [OF assms(1,3)] have "P (w_eng (ws_world st1))"
    by (auto simp: on_ws_engine_def on_engine_def split: prod.splits)
  with PtyEnd c assms(2,3) show ?thesis
    by (simp add: ws_end_def wsSend_def Let_def closeAll_engine)
next
  case (ClientMessage m)
  have r: "P (w_eng (ws_world (snd (on_ws_engine (ses_Resize ses a b) st))))" for a b
    using on_ws_engine_keeps(2) [OF assms(2,3) prod.collapse [symmetric]] .
  show ?thesis
    using assms ClientMessage r
    by (auto simp: ws_input_def split: prod.splits sum.splits option.splits
        dest!: on_ws_engine_keeps(1) [OF assms(2,3)] intro!: closeAll_engine [of P])
qed (use assms in \<open>auto simp: ws_client_gone_def intro!: closeAll_engine [of P]\<close>)

lemma ws_run_engine:
  assumes "engine_keeps P E" and "session_keeps P ses"
  shows "P (w_eng (ws_world st)) \<Longrightarrow> P (w_eng (ws_world (ws_run S E n p ses evs st)))"
  by (induction evs arbitrary: st) (simp_all add: ws_run_def ws_step_engine [OF assms])

lemma ExecWS_engine:
  assumes "engine_keeps P E" and "P (w_eng w)" and "Exec_WS.ExecWS S E now up evs i r w = (out, w')"
  shows "P (w_eng w')"
proof -
  have ses: "P (w_eng (ws_world (closeAll ses (ws_run S E n p ses evs st))))"
    if "on_engine (eng_ExecInteractive E c req) v = (Inr ses, v')" "P (w_eng v)" "P (w_eng (ws_world st))" for ses n p st c req v v'
    by (rule closeAll_engine, rule on_engine_session [where E = E and w = v])
      (use assms(1) that in \<open>auto intro!: ws_run_engine elim!: on_engine_session\<close>)
  show ?thesis
    using assms(2,3)
    by (auto simp: Exec_WS.ExecWS_def Let_def split: prod.splits sum.splits option.splits if_splits
        dest!: on_store_eng dest: on_engine_keeps(4) [OF assms(1)] intro!: ses)
qed

lemma reap_loop_engine:
  assumes "engine_keeps P E"
  shows "P (w_eng w) \<Longrightarrow> P (w_eng (reap_loop S E envs w))"
proof (induction envs arbitrary: w)
  case (Cons p envs)
  then show ?case by (simp add: Let_def stop_engine [OF assms])
qed simp

lemma reap_engine:
  assumes "engine_keeps P E" and "P (w_eng w)"
  shows "P (w_eng (reap S E now w))"
  using assms(2) by (auto simp: reap_def on_store_eng reap_loop_engine [OF assms(1)] split: prod.splits sum.splits)

section \<open>Requests\<close>

text \<open>The operations that never call the engine.\<close>

lemma queries_eng:
  "w_eng (snd (GetEnvironment S i u w)) = w_eng w" "w_eng (snd (ListEnvironments S u w)) = w_eng w"
  "w_eng (snd (ListTenantEnvironments S t w)) = w_eng w" "w_eng (snd (ListSnapshots S u w)) = w_eng w"
  "w_eng (snd (GetSnapshot S i u w)) = w_eng w" "w_eng (snd (ListTenantSnapshots S t w)) = w_eng w"
  "w_eng (snd (RegisterSkill S s now uuid t u name archive w)) = w_eng w" "w_eng (snd (ListSkills S u w)) = w_eng w"
  "w_eng (snd (GetSkill S i u w)) = w_eng w" "w_eng (snd (ListTenantSkills S t w)) = w_eng w"
  "w_eng (snd (DeleteSkill S i u w)) = w_eng w"
  by (auto simp: GetEnvironment_def ListEnvironments_def ListTenantEnvironments_def ListSnapshots_def GetSnapshot_def
      ListTenantSnapshots_def RegisterSkill_def ListSkills_def GetSkill_def ListTenantSkills_def DeleteSkill_def Let_def
      on_store_eng split: prod.splits sum.splits option.splits)

context store_client
begin

lemma CreateEnvironment_engine:
  assumes "engine_keeps P E" and "P (w_eng w)" and "inv (w_mem w)" and "a_envs (\<alpha> (w_mem w)) (new_ID ''env_'' uuid) = None"
    and "CreateEnvironment S E cfg now uuid t u input w = (r, w')"
  shows "P (w_eng w')"
proof -
  obtain q w1 where q: "CreateEnvironment_record S cfg now uuid t u input w = (q, w1)" by (meson surj_pair)
  show ?thesis
  proof (cases q)
    case (Inl e)
    with q have "w_eng w1 = w_eng w"
      by (rule_tac record_cases [OF q]) (auto dest!: on_store_eng simp: alloc_env_def new_env_def
          dest: resolve_image_writes [OF assms(3)])
    with q Inl assms(2,5) show ?thesis by (simp add: CreateEnvironment_def)
  next
    case (Inr p)
    note ok = record_ok [OF assms(3,4) q [unfolded Inr]]
    from ok(1) obtain req where "check_limits req = None" "deref p w1 = build_environment cfg now uuid t u req" by blast
    with check_limits_valid have "valid_spec (env_Spec (deref p w1))" by simp
    with container_engine [OF assms(1), of w1 p S cfg u r w'] ok(4) q Inr assms(2,5) show ?thesis
      by (simp add: CreateEnvironment_def)
  qed
qed

lemma serve_engine:
  assumes "engine_keeps P (api_engine d)" and "P (w_eng w)" and "inv (w_mem w)" and "api_store d = S"
    and "fresh_IDs (api_uuid d) (\<alpha> (w_mem w))" and "serve d rt i r w = (out, w')"
  shows "P (w_eng w')"
proof -
  have w': "w' = snd (serve d rt i r w)" using assms(6) by simp
  note pc = prod.collapse [symmetric]
  show ?thesis
  proof (cases rt)
    case Env_Create
    then show ?thesis
      using assms(2-6) CreateEnvironment_engine [OF assms(1-3)]
      by (auto simp: EnvironmentHandler_Create_def fresh_IDs_def split: sum.splits prod.splits)
  next
    case Exec
    then show ?thesis using ExecHandler_engine [OF assms(1,2)] assms(6) by simp
  next
    case ExecWS
    then show ?thesis using ExecWS_engine [OF assms(1,2)] assms(6) by simp
  qed (use assms(2) in \<open>simp_all add: w' handler_world healthz_def queries_eng DestroyEnvironment_engine [OF assms(1,2) pc] file_service_engine(1) [OF assms(1,2) pc]
      file_service_engine(2) [OF assms(1,2) pc] file_service_engine(3) [OF assms(1,2) pc]
      snapshot_service_engine(1) [OF assms(1,2) pc] snapshot_service_engine(2) [OF assms(1,2) pc]
      skill_service_engine(1) [OF assms(1,2) pc] skill_service_engine(2) [OF assms(1,2) pc]\<close>)
qed

lemma router_engine:
  assumes "engine_keeps P (api_engine d)" and "P (w_eng w)" and "inv (w_mem w)" and "api_store d = S"
    and "fresh_IDs (api_uuid d) (\<alpha> (w_mem w))" and "uuid_ok (api_hashing d)"
    and "NewRouter d (New (api_hashing d) keys) r w = (out, w')"
  shows "P (w_eng w')"
  using assms(6,7) by (cases rule: NewRouter_cases) (use assms(2) serve_engine [OF assms(1-5)] in auto)

end

section \<open>The Docker daemon\<close>

text \<open>What every container is created with, and what a property of the daemon has to survive.\<close>

definition confined :: "HostConfig \<Rightarrow> bool" where
  "confined hc \<longleftrightarrow> \<not> hc_Privileged hc \<and> hc_CapDrop hc = [''ALL''] \<and> set (hc_CapAdd hc) \<subseteq> {''NET_BIND_SERVICE''} \<and>
     hc_SecurityOpt hc = [''no-new-privileges''] \<and> hc_PidsLimit hc = 256 \<and>
     128 * 2 ^ 20 \<le> hc_Memory hc \<and> hc_Memory hc \<le> 8192 * 2 ^ 20 \<and> hc_MemorySwap hc = hc_Memory hc \<and>
     (case hc_NanoCPUs hc of None \<Rightarrow> True | Some n \<Rightarrow> 10 ^ 8 \<le> n \<and> n \<le> 4 * 10 ^ 9) \<and>
     hc_NetworkMode hc \<in> {''none'', ''bridge''}"

definition client_keeps :: "('d \<Rightarrow> bool) \<Rightarrow> 'd DockerClient \<Rightarrow> bool" where
  "client_keeps P C \<longleftrightarrow> (\<forall>d. P d \<longrightarrow>
     (\<forall>i. P (snd (dc_ImageInspectWithRaw C i d))) \<and> (\<forall>i. P (snd (dc_ImagePull C i d))) \<and>
     (\<forall>cfg hc name. confined hc \<longrightarrow> (''haas.managed'', ''true'') \<in> set (cc_Labels cfg) \<longrightarrow>
        P (snd (dc_ContainerCreate C cfg hc name d))) \<and>
     (\<forall>c. P (snd (dc_ContainerStart C c d))) \<and> (\<forall>c t. P (snd (dc_ContainerStop C c t d))) \<and>
     (\<forall>c f v. P (snd (dc_ContainerRemove C c f v d))) \<and> (\<forall>c opts. P (snd (dc_ContainerExecCreate C c opts d))) \<and>
     (\<forall>x tty. P (snd (dc_ContainerExecAttach C x tty d))) \<and> (\<forall>x p. P (snd (dc_ConnWrite C x p d))) \<and>
     (\<forall>x. P (snd (dc_ConnClose C x d))) \<and> (\<forall>x a b. P (snd (dc_ContainerExecResize C x a b d))) \<and>
     (\<forall>x. P (snd (dc_ContainerExecInspect C x d))) \<and> (\<forall>c p. P (snd (dc_CopyFromContainer C c p d))) \<and>
     (\<forall>c p t. P (snd (dc_CopyToContainer C c p t d))) \<and> (\<forall>c opts. P (snd (dc_ContainerCommit C c opts d))) \<and>
     (\<forall>i f. P (snd (dc_ImageRemove C i f d))))"

lemma client_keepsD:
  assumes "client_keeps P C" and "P d"
  shows "dc_ImageInspectWithRaw C i d = (r, d') \<Longrightarrow> P d'" "dc_ImagePull C i d = (r, d') \<Longrightarrow> P d'"
    "confined hc \<Longrightarrow> (''haas.managed'', ''true'') \<in> set (cc_Labels cfg) \<Longrightarrow> dc_ContainerCreate C cfg hc name d = (s, d') \<Longrightarrow> P d'"
    "dc_ContainerStart C c d = (r, d') \<Longrightarrow> P d'" "dc_ContainerStop C c t d = (r, d') \<Longrightarrow> P d'"
    "dc_ContainerRemove C c f v d = (r, d') \<Longrightarrow> P d'" "dc_ContainerExecCreate C c opts d = (s, d') \<Longrightarrow> P d'"
    "dc_ContainerExecAttach C x tty d = (rd, d') \<Longrightarrow> P d'" "dc_ConnWrite C x p d = (n, d') \<Longrightarrow> P d'"
    "dc_ConnClose C x d = (r, d') \<Longrightarrow> P d'" "dc_ContainerExecResize C x a b d = (r, d') \<Longrightarrow> P d'"
    "dc_ContainerExecInspect C x d = (code, d') \<Longrightarrow> P d'" "dc_CopyFromContainer C c q d = (rd, d') \<Longrightarrow> P d'"
    "dc_CopyToContainer C c q u d = (r, d') \<Longrightarrow> P d'" "dc_ContainerCommit C c co d = (s, d') \<Longrightarrow> P d'"
    "dc_ImageRemove C i f d = (r, d') \<Longrightarrow> P d'"
  using assms unfolding client_keeps_def by (metis snd_conv)+

lemma close_keeps: "client_keeps P C \<Longrightarrow> P d \<Longrightarrow> P (snd (dc_ConnClose C x d))"
  by (rule client_keepsD(10) [OF _ _ prod.collapse [symmetric]])

lemma hostConfig_confined:
  assumes "valid_spec spec"
  shows "confined (hostConfig spec)"
proof -
  have m: "in_int64 (MemoryMB spec * 1024)" "in_int64 (MemoryMB spec * 1024 * 1024)"
    using assms by (simp_all add: valid_spec_def in_int64_def)
  have n: "case float_to_int64 (fmul (CPU spec) 1000000000) of None \<Rightarrow> True | Some n \<Rightarrow> 10 ^ 8 \<le> n \<and> n \<le> 4 * 10 ^ 9"
  proof (cases "CPU spec = NaN")
    case False
    with valid_spec_CPU [OF assms] obtain q where "CPU spec = Fin q" "double_tenth \<le> q" "q \<le> 4" by blast
    with NanoCPUs_range [of q] show ?thesis by auto
  qed simp
  show ?thesis
    using assms m n
    by (auto simp: confined_def hostConfig_def securityHostConfig_def pidsLimit_def networkMode_def valid_spec_def)
qed

lemma exec_attach_keeps:
  "client_keeps P C \<Longrightarrow> P d \<Longrightarrow> exec_attach C m1 m2 c cfg tty d = (r, d') \<Longrightarrow> P d'"
  by (auto simp: exec_attach_def split: prod.splits sum.splits dest: client_keepsD(7,8))

lemma docker_create_keeps:
  assumes "client_keeps P C" and "P d" and "valid_spec (env_Spec env)" and "DockerEngine_CreateContainer C env d = (r, d')"
  shows "P d'"
  using assms(2,4) hostConfig_confined [OF assms(3)]
  by (auto simp: DockerEngine_CreateContainer_def ensure_image_def containerConfig_def split: prod.splits option.splits sum.splits
      dest: client_keepsD(1,2) [OF assms(1)] dest!: client_keepsD(3) [OF assms(1), rotated 3])

lemma listing_keeps:
  assumes "client_keeps P C"
  shows "P d \<Longrightarrow> listFilesWithLS C F c p d = (r, d') \<Longrightarrow> P d'" and "P d \<Longrightarrow> DockerEngine_ListFiles C F c p d = (r, d') \<Longrightarrow> P d'"
proof -
  show ls: "P d \<Longrightarrow> listFilesWithLS C F c p d = (r, d') \<Longrightarrow> P d'" for d p r d'
    by (auto simp: listFilesWithLS_def split: prod.splits sum.splits dest: exec_attach_keeps [OF assms] intro: close_keeps [of P, OF assms])
  show "P d \<Longrightarrow> DockerEngine_ListFiles C F c p d = (r, d') \<Longrightarrow> P d'"
    by (auto simp: DockerEngine_ListFiles_def Let_def split: prod.splits sum.splits if_splits dest: exec_attach_keeps [OF assms] ls
        intro!: close_keeps [of P, OF assms])
qed

lemma docker_engine_keeps:
  assumes "client_keeps P C"
  shows "engine_keeps P (docker_engine C F)"
proof -
  note pc = prod.collapse [symmetric]
  note k = client_keepsD [OF assms]
  have ses: "session_keeps P (interactiveSession C x)" for x
    using k(9) [OF _ pc] k(10) [OF _ pc] k(11) [OF _ pc] by (simp add: session_keeps_def interactiveSession_def)
  have ex: "P d \<Longrightarrow> DockerEngine_Exec C c req d = (r, d') \<Longrightarrow> P d'" for d c req r d'
    by (auto simp: DockerEngine_Exec_def split: prod.splits sum.splits dest: exec_attach_keeps [OF assms])
  have st: "P (snd (DockerEngine_StartContainer C c d))" "P (snd (DockerEngine_StopContainer C c d))"
    "P (snd (DockerEngine_ExecExitCode C x d))" "P (snd (DockerEngine_ReadFile C F c p d))"
    "P (snd (DockerEngine_WriteFile C F c p t d))" "P (snd (DockerEngine_SnapshotContainer C c i d))"
    "P (snd (DockerEngine_DeleteSnapshotImage C i d))" if "P d" for d c x p t i
    using that
    by (auto simp: DockerEngine_StartContainer_def DockerEngine_StopContainer_def DockerEngine_ExecExitCode_def
        DockerEngine_ReadFile_def DockerEngine_WriteFile_def DockerEngine_SnapshotContainer_def
        DockerEngine_DeleteSnapshotImage_def Let_def split: prod.splits sum.splits option.splits dest: k)
  have ar: "P (snd (DockerEngine_ExtractArchive C c p t d))" if d: "P d" for d c p t
  proof -
    obtain r d1 where r: "DockerEngine_Exec C c \<lparr>er_Command = [''mkdir'', ''-p'', p], er_WorkingDir = [],
        er_TimeoutSeconds = 0, er_CaptureOutput = False\<rparr> d = (r, d1)" by (meson surj_pair)
    define d2 where "d2 = (case r of Inl _ \<Rightarrow> d1 | Inr m \<Rightarrow> (case xr_execID m of None \<Rightarrow> d1 | Some x \<Rightarrow> snd (dc_ConnClose C x d1)))"
    have "P d2" using ex [OF d r] close_keeps [OF assms] by (simp add: d2_def split: sum.split option.split)
    moreover obtain q d3 where q: "dc_CopyToContainer C c p t d2 = (q, d3)" by (meson surj_pair)
    ultimately have "P d3" using k(14) by blast
    with q ex [OF d r] show ?thesis
      by (cases r) (simp_all add: DockerEngine_ExtractArchive_def r d2_def split: option.split)
  qed
  have it: "P (snd (DockerEngine_ExecInteractive C c req d)) \<and>
      (\<forall>s. fst (DockerEngine_ExecInteractive C c req d) = Inr s \<longrightarrow> session_keeps P s)" if "P d" for d c req
    using that ses by (auto simp: DockerEngine_ExecInteractive_def split: prod.splits sum.splits dest: exec_attach_keeps [OF assms])
  show ?thesis
    using docker_create_keeps [OF assms _ _ pc] listing_keeps(2) [OF assms _ pc] ex [OF _ pc] st ar it
    by (simp add: engine_keeps_def docker_engine_def)
qed

end
