(* ===== verification/Memory_Store.thy ===== *)
theory Memory_Store
  imports Store_Interface
begin

text \<open>
  \<open>store.MemoryStore\<close> (\<open>internal/store/memory.go\<close>): three maps behind one mutex.  Each method
  holds the mutex for its whole body, so a method is one step.  The map of environments
  holds pointers, so its entries are addresses of the heap the services write through; the
  map of skills holds records the store owns (\<open>UpsertSkill\<close> stores a copy).

  The store interprets the contract \<open>store\<close> with an abstraction that follows the pointers:
  it rounds nothing and never fails.
\<close>

section \<open>State and operations\<close>

record skillRecord =
  rec_skill :: Skill
  rec_archive :: bytes

record MemoryStore =
  ms_envs :: "(string \<times> nat) list"
  ms_snapshots :: "(string \<times> Snapshot) list"
  ms_skills :: "(string \<times> skillRecord) list"
  ms_idleTimeout :: duration
  ms_maxLifetime :: duration

definition NewMemoryStore :: "duration \<Rightarrow> duration \<Rightarrow> MemoryStore" where
  "NewMemoryStore idle life =
     \<lparr>ms_envs = [], ms_snapshots = [], ms_skills = [], ms_idleTimeout = idle, ms_maxLifetime = life\<rparr>"

fun MemoryStore_Create :: "nat \<Rightarrow> MemoryStore mem \<Rightarrow> goerr option \<times> MemoryStore mem" where
  "MemoryStore_Create env (h, s) =
     (None, h, s\<lparr>ms_envs := AList.update (env_ID (h ! env)) env (ms_envs s)\<rparr>)"

fun MemoryStore_Get :: "string \<Rightarrow> string \<Rightarrow> MemoryStore mem \<Rightarrow> (goerr + nat) \<times> MemoryStore mem" where
  "MemoryStore_Get i userID (h, s) =
     (case map_of (ms_envs s) i of
        None \<Rightarrow> (Inl (Sentinel ErrNotFound), h, s)
      | Some env \<Rightarrow>
          if userID \<noteq> [] \<and> env_UserID (h ! env) \<noteq> userID
          then (Inl (Sentinel ErrNotFound), h, s)
          else (Inr env, h, s))"

fun MemoryStore_Update :: "nat \<Rightarrow> MemoryStore mem \<Rightarrow> goerr option \<times> MemoryStore mem" where
  "MemoryStore_Update env (h, s) =
     (case map_of (ms_envs s) (env_ID (h ! env)) of
        None \<Rightarrow> (Some (Sentinel ErrNotFound), h, s)
      | Some existing \<Rightarrow>
          if env_UserID (h ! existing) \<noteq> env_UserID (h ! env)
          then (Some (Sentinel ErrNotFound), h, s)
          else (None, h, s\<lparr>ms_envs := AList.update (env_ID (h ! env)) env (ms_envs s)\<rparr>))"

fun MemoryStore_Delete :: "string \<Rightarrow> string \<Rightarrow> MemoryStore mem \<Rightarrow> goerr option \<times> MemoryStore mem" where
  "MemoryStore_Delete i userID (h, s) =
     (case map_of (ms_envs s) i of
        None \<Rightarrow> (Some (Sentinel ErrNotFound), h, s)
      | Some env \<Rightarrow>
          if userID \<noteq> [] \<and> env_UserID (h ! env) \<noteq> userID
          then (Some (Sentinel ErrNotFound), h, s)
          else (None, h, s\<lparr>ms_envs := AList.delete i (ms_envs s)\<rparr>))"

fun MemoryStore_List :: "string \<Rightarrow> MemoryStore mem \<Rightarrow> (goerr + nat list) \<times> MemoryStore mem" where
  "MemoryStore_List userID (h, s) =
     (Inr (filter (\<lambda>env. \<not> (userID \<noteq> [] \<and> env_UserID (h ! env) \<noteq> userID)) (map snd (ms_envs s))), h, s)"

fun MemoryStore_ListByTenant :: "string \<Rightarrow> MemoryStore mem \<Rightarrow> (goerr + nat list) \<times> MemoryStore mem" where
  "MemoryStore_ListByTenant tenantID (h, s) =
     (Inr (filter (\<lambda>env. env_TenantID (h ! env) = tenantID) (map snd (ms_envs s))), h, s)"

text \<open>The test of the loop body of \<open>ListExpired\<close>.\<close>

definition mem_expired :: "MemoryStore \<Rightarrow> time \<Rightarrow> Environment \<Rightarrow> bool" where
  "mem_expired s now env \<longleftrightarrow>
     \<not> (env_Status env = StatusDestroyed \<or> env_Status env = StatusStopped) \<and>
     (let idleExpired = time_Sub now (env_LastUsedAt env) > ms_idleTimeout s;
          lifetimeExpired = now > env_ExpiresAt env
      in idleExpired \<or> lifetimeExpired)"

fun MemoryStore_ListExpired :: "time \<Rightarrow> MemoryStore mem \<Rightarrow> (goerr + nat list) \<times> MemoryStore mem" where
  "MemoryStore_ListExpired now (h, s) =
     (Inr (filter (\<lambda>env. mem_expired s now (h ! env)) (map snd (ms_envs s))), h, s)"

fun MemoryStore_BootstrapUser ::
  "time \<Rightarrow> string \<Rightarrow> string \<Rightarrow> MemoryStore mem \<Rightarrow> goerr option \<times> MemoryStore mem" where
  "MemoryStore_BootstrapUser now keyHash userID m = (None, m)"

fun MemoryStore_CreateSnapshot :: "Snapshot \<Rightarrow> MemoryStore mem \<Rightarrow> goerr option \<times> MemoryStore mem" where
  "MemoryStore_CreateSnapshot snap (h, s) =
     (None, h, s\<lparr>ms_snapshots := AList.update (snap_ID snap) snap (ms_snapshots s)\<rparr>)"

fun MemoryStore_GetSnapshot ::
  "string \<Rightarrow> string \<Rightarrow> MemoryStore mem \<Rightarrow> (goerr + Snapshot) \<times> MemoryStore mem" where
  "MemoryStore_GetSnapshot i userID (h, s) =
     (case map_of (ms_snapshots s) i of
        None \<Rightarrow> (Inl (Sentinel ErrNotFound), h, s)
      | Some snap \<Rightarrow>
          if userID \<noteq> [] \<and> snap_UserID snap \<noteq> userID
          then (Inl (Sentinel ErrNotFound), h, s)
          else (Inr snap, h, s))"

fun MemoryStore_ListSnapshots ::
  "string \<Rightarrow> MemoryStore mem \<Rightarrow> (goerr + Snapshot list) \<times> MemoryStore mem" where
  "MemoryStore_ListSnapshots userID (h, s) =
     (Inr (filter (\<lambda>snap. \<not> (userID \<noteq> [] \<and> snap_UserID snap \<noteq> userID)) (map snd (ms_snapshots s))), h, s)"

fun MemoryStore_DeleteSnapshot ::
  "string \<Rightarrow> string \<Rightarrow> MemoryStore mem \<Rightarrow> goerr option \<times> MemoryStore mem" where
  "MemoryStore_DeleteSnapshot i userID (h, s) =
     (case map_of (ms_snapshots s) i of
        None \<Rightarrow> (Some (Sentinel ErrNotFound), h, s)
      | Some snap \<Rightarrow>
          if userID \<noteq> [] \<and> snap_UserID snap \<noteq> userID
          then (Some (Sentinel ErrNotFound), h, s)
          else (None, h, s\<lparr>ms_snapshots := AList.delete i (ms_snapshots s)\<rparr>))"

fun MemoryStore_ListSnapshotsByTenant ::
  "string \<Rightarrow> MemoryStore mem \<Rightarrow> (goerr + Snapshot list) \<times> MemoryStore mem" where
  "MemoryStore_ListSnapshotsByTenant tenantID (h, s) =
     (Inr (filter (\<lambda>snap. snap_TenantID snap = tenantID) (map snd (ms_snapshots s))), h, s)"

text \<open>The loop of \<open>UpsertSkill\<close>: the first record of the same user and name is rewritten in
  place and its identity handed back to the caller; \<open>None\<close> when the loop falls through.\<close>

fun upsert_loop ::
  "Skill \<Rightarrow> bytes \<Rightarrow> (string \<times> skillRecord) list \<Rightarrow> (Skill \<times> (string \<times> skillRecord) list) option" where
  "upsert_loop skill archive [] = None"
| "upsert_loop skill archive ((i, r) # rs) =
     (if skill_UserID (rec_skill r) = skill_UserID skill \<and> skill_Name (rec_skill r) = skill_Name skill
      then
        let r' = r\<lparr>rec_skill := (rec_skill r)\<lparr>skill_SizeBytes := skill_SizeBytes skill,
                      skill_UpdatedAt := skill_UpdatedAt skill\<rparr>,
                   rec_archive := archive\<rparr>
        in Some (skill\<lparr>skill_ID := skill_ID (rec_skill r'), skill_CreatedAt := skill_CreatedAt (rec_skill r')\<rparr>,
                 (i, r') # rs)
      else map_option (map_prod id (\<lambda>rs'. (i, r) # rs')) (upsert_loop skill archive rs))"

fun MemoryStore_UpsertSkill ::
  "Skill \<Rightarrow> bytes \<Rightarrow> MemoryStore mem \<Rightarrow> (goerr option \<times> Skill) \<times> MemoryStore mem" where
  "MemoryStore_UpsertSkill skill archive (h, s) =
     (case upsert_loop skill archive (ms_skills s) of
        Some (skill', rs) \<Rightarrow> ((None, skill'), h, s\<lparr>ms_skills := rs\<rparr>)
      | None \<Rightarrow> ((None, skill), h,
          s\<lparr>ms_skills := AList.update (skill_ID skill) \<lparr>rec_skill = skill, rec_archive = archive\<rparr> (ms_skills s)\<rparr>))"

fun MemoryStore_GetSkill ::
  "string \<Rightarrow> string \<Rightarrow> MemoryStore mem \<Rightarrow> (goerr + Skill) \<times> MemoryStore mem" where
  "MemoryStore_GetSkill i userID (h, s) =
     (case map_of (ms_skills s) i of
        None \<Rightarrow> (Inl (Sentinel ErrNotFound), h, s)
      | Some r \<Rightarrow>
          if userID \<noteq> [] \<and> skill_UserID (rec_skill r) \<noteq> userID
          then (Inl (Sentinel ErrNotFound), h, s)
          else (Inr (rec_skill r), h, s))"

fun MemoryStore_GetSkillArchive ::
  "string \<Rightarrow> string \<Rightarrow> MemoryStore mem \<Rightarrow> (goerr + bytes) \<times> MemoryStore mem" where
  "MemoryStore_GetSkillArchive i userID (h, s) =
     (case map_of (ms_skills s) i of
        None \<Rightarrow> (Inl (Sentinel ErrNotFound), h, s)
      | Some r \<Rightarrow>
          if userID \<noteq> [] \<and> skill_UserID (rec_skill r) \<noteq> userID
          then (Inl (Sentinel ErrNotFound), h, s)
          else (Inr (rec_archive r), h, s))"

fun MemoryStore_ListSkills ::
  "string \<Rightarrow> MemoryStore mem \<Rightarrow> (goerr + Skill list) \<times> MemoryStore mem" where
  "MemoryStore_ListSkills userID (h, s) =
     (Inr (map rec_skill (filter (\<lambda>r. \<not> (userID \<noteq> [] \<and> skill_UserID (rec_skill r) \<noteq> userID))
        (map snd (ms_skills s)))), h, s)"

fun MemoryStore_DeleteSkill ::
  "string \<Rightarrow> string \<Rightarrow> MemoryStore mem \<Rightarrow> goerr option \<times> MemoryStore mem" where
  "MemoryStore_DeleteSkill i userID (h, s) =
     (case map_of (ms_skills s) i of
        None \<Rightarrow> (Some (Sentinel ErrNotFound), h, s)
      | Some r \<Rightarrow>
          if userID \<noteq> [] \<and> skill_UserID (rec_skill r) \<noteq> userID
          then (Some (Sentinel ErrNotFound), h, s)
          else (None, h, s\<lparr>ms_skills := AList.delete i (ms_skills s)\<rparr>))"

fun MemoryStore_ListSkillsByTenant ::
  "string \<Rightarrow> MemoryStore mem \<Rightarrow> (goerr + Skill list) \<times> MemoryStore mem" where
  "MemoryStore_ListSkillsByTenant tenantID (h, s) =
     (Inr (map rec_skill (filter (\<lambda>r. skill_TenantID (rec_skill r) = tenantID)
        (map snd (ms_skills s)))), h, s)"

text \<open>A \<open>*MemoryStore\<close> as a value of the interface.\<close>

definition memory_store :: "MemoryStore Store" where
  "memory_store = \<lparr>
     sto_Create = MemoryStore_Create,
     sto_Get = MemoryStore_Get,
     sto_Update = MemoryStore_Update,
     sto_Delete = MemoryStore_Delete,
     sto_List = MemoryStore_List,
     sto_ListExpired = MemoryStore_ListExpired,
     sto_BootstrapUser = MemoryStore_BootstrapUser,
     sto_ListByTenant = MemoryStore_ListByTenant,
     sto_CreateSnapshot = MemoryStore_CreateSnapshot,
     sto_GetSnapshot = MemoryStore_GetSnapshot,
     sto_ListSnapshots = MemoryStore_ListSnapshots,
     sto_DeleteSnapshot = MemoryStore_DeleteSnapshot,
     sto_ListSnapshotsByTenant = MemoryStore_ListSnapshotsByTenant,
     sto_UpsertSkill = MemoryStore_UpsertSkill,
     sto_GetSkill = MemoryStore_GetSkill,
     sto_GetSkillArchive = MemoryStore_GetSkillArchive,
     sto_ListSkills = MemoryStore_ListSkills,
     sto_DeleteSkill = MemoryStore_DeleteSkill,
     sto_ListSkillsByTenant = MemoryStore_ListSkillsByTenant\<rparr>"

section \<open>Abstraction and invariant\<close>

fun mem_abs :: "MemoryStore mem \<Rightarrow> abs_store" where
  "mem_abs (h, s) = \<lparr>
     a_envs = (\<lambda>i. map_option (\<lambda>p. h ! p) (map_of (ms_envs s) i)),
     a_snaps = map_of (ms_snapshots s),
     a_skills = (\<lambda>i. map_option (\<lambda>r. (rec_skill r, rec_archive r)) (map_of (ms_skills s) i))\<rparr>"

definition envs_ok :: "heap \<Rightarrow> (string \<times> nat) list \<Rightarrow> bool" where
  "envs_ok h al \<longleftrightarrow> distinct (map fst al) \<and> (\<forall>(i, p) \<in> set al. p < length h \<and> env_ID (h ! p) = i)"

definition snaps_ok :: "(string \<times> Snapshot) list \<Rightarrow> bool" where
  "snaps_ok al \<longleftrightarrow> distinct (map fst al) \<and> (\<forall>(i, x) \<in> set al. snap_ID x = i)"

definition skills_ok :: "(string \<times> skillRecord) list \<Rightarrow> bool" where
  "skills_ok al \<longleftrightarrow> distinct (map fst al) \<and> (\<forall>(i, r) \<in> set al. skill_ID (rec_skill r) = i) \<and>
     (\<forall>(i, r) \<in> set al. \<forall>(j, r') \<in> set al. same_skill (rec_skill r) (rec_skill r') \<longrightarrow> i = j)"

fun mem_inv :: "MemoryStore mem \<Rightarrow> bool" where
  "mem_inv (h, s) \<longleftrightarrow> envs_ok h (ms_envs s) \<and> snaps_ok (ms_snapshots s) \<and> skills_ok (ms_skills s)"

section \<open>The invariant, read through lookups\<close>

declare map_of_eq_Some_iff [simp del]

lemma ball_entries:
  "distinct (map fst al) \<Longrightarrow> (\<forall>(i, v) \<in> set al. P i v) \<longleftrightarrow> (\<forall>i v. map_of al i = Some v \<longrightarrow> P i v)"
  by (auto simp: map_of_mem_iff)

lemma envs_ok_lookup:
  "envs_ok h al \<longleftrightarrow> distinct (map fst al) \<and>
     (\<forall>i p. map_of al i = Some p \<longrightarrow> p < length h \<and> env_ID (h ! p) = i)"
  by (simp add: envs_ok_def ball_entries cong: conj_cong)

lemma snaps_ok_lookup:
  "snaps_ok al \<longleftrightarrow> distinct (map fst al) \<and> (\<forall>i x. map_of al i = Some x \<longrightarrow> snap_ID x = i)"
  by (simp add: snaps_ok_def ball_entries cong: conj_cong)

lemma skills_ok_lookup:
  "skills_ok al \<longleftrightarrow> distinct (map fst al) \<and>
     (\<forall>i r. map_of al i = Some r \<longrightarrow> skill_ID (rec_skill r) = i) \<and>
     (\<forall>i r j r'. map_of al i = Some r \<longrightarrow> map_of al j = Some r' \<longrightarrow>
        same_skill (rec_skill r) (rec_skill r') \<longrightarrow> i = j)"
  by (simp add: skills_ok_def ball_entries cong: conj_cong; blast)

lemma envs_okD: "envs_ok h al \<Longrightarrow> map_of al i = Some p \<Longrightarrow> p < length h \<and> env_ID (h ! p) = i"
  by (simp add: envs_ok_lookup)

lemma snaps_okD: "snaps_ok al \<Longrightarrow> map_of al i = Some x \<Longrightarrow> snap_ID x = i"
  by (simp add: snaps_ok_lookup)

lemma skills_okD: "skills_ok al \<Longrightarrow> map_of al i = Some r \<Longrightarrow> skill_ID (rec_skill r) = i"
  by (simp add: skills_ok_lookup)

lemma skills_ok_unique:
  "skills_ok al \<Longrightarrow> map_of al i = Some r \<Longrightarrow> map_of al j = Some r' \<Longrightarrow>
   same_skill (rec_skill r) (rec_skill r') \<Longrightarrow> i = j"
  unfolding skills_ok_lookup by blast

section \<open>Every update of a map keeps it\<close>

lemma envs_ok_put [simp]:
  "envs_ok h al \<Longrightarrow> p < length h \<Longrightarrow> envs_ok h (AList.update (env_ID (h ! p)) p al)"
  by (simp add: envs_ok_lookup)

lemma envs_ok_drop [simp]: "envs_ok h al \<Longrightarrow> envs_ok h (AList.delete i al)"
  by (simp add: envs_ok_lookup)

lemma envs_ok_alloc [simp]: "envs_ok h al \<Longrightarrow> envs_ok (h @ [e]) al"
  by (auto simp: envs_ok_lookup nth_append less_Suc_eq)

lemma env_ID_assign: "env_ID e = env_ID (h ! p) \<Longrightarrow> env_ID (h[p := e] ! q) = env_ID (h ! q)"
  by (cases "p < length h"; cases "p = q") (simp_all add: list_update_beyond)

lemma envs_ok_assign [simp]: "envs_ok h al \<Longrightarrow> env_ID e = env_ID (h ! p) \<Longrightarrow> envs_ok (h[p := e]) al"
  by (simp add: envs_ok_lookup env_ID_assign)

lemma snaps_ok_put [simp]: "snaps_ok al \<Longrightarrow> snaps_ok (AList.update (snap_ID x) x al)"
  by (simp add: snaps_ok_lookup)

lemma snaps_ok_drop [simp]: "snaps_ok al \<Longrightarrow> snaps_ok (AList.delete i al)"
  by (simp add: snaps_ok_lookup)

lemma skills_ok_drop [simp]: "skills_ok al \<Longrightarrow> skills_ok (AList.delete i al)"
  unfolding skills_ok_lookup by (simp; blast)

lemma skills_ok_put:
  assumes "skills_ok al" and "\<forall>i r. map_of al i = Some r \<longrightarrow> \<not> same_skill (rec_skill r) k"
  shows "skills_ok (AList.update (skill_ID k) \<lparr>rec_skill = k, rec_archive = a\<rparr> al)"
proof -
  have "\<not> same_skill k (rec_skill r)" if "map_of al i = Some r" for i r
    using assms(2) that by (metis same_skill_def)
  then show ?thesis
    using assms unfolding skills_ok_lookup by (simp; blast)
qed

text \<open>Rewriting records in place keeps the invariant when it keeps their identity.\<close>

lemma skills_ok_mono:
  assumes "skills_ok al" and "map fst bl = map fst al"
    and "\<And>i r. map_of bl i = Some r \<Longrightarrow> \<exists>r0. map_of al i = Some r0 \<and>
      skill_ID (rec_skill r) = skill_ID (rec_skill r0) \<and> same_skill (rec_skill r) (rec_skill r0)"
  shows "skills_ok bl"
proof -
  have "i = j" if i: "map_of bl i = Some r" and j: "map_of bl j = Some r'"
    and same: "same_skill (rec_skill r) (rec_skill r')" for i j r r'
  proof -
    obtain r0 r0' where "map_of al i = Some r0" "map_of al j = Some r0'"
      "same_skill (rec_skill r) (rec_skill r0)" "same_skill (rec_skill r') (rec_skill r0')"
      using assms(3) [OF i] assms(3) [OF j] by blast
    moreover from calculation same have "same_skill (rec_skill r0) (rec_skill r0')"
      by (simp add: same_skill_def)
    ultimately show ?thesis
      using skills_ok_unique [OF assms(1)] by blast
  qed
  moreover have "skill_ID (rec_skill r) = i" if "map_of bl i = Some r" for i r
    using assms(3) [OF that] skills_okD [OF assms(1)] by fastforce
  moreover have "distinct (map fst bl)"
    using assms(1,2) by (simp add: skills_ok_def)
  ultimately show ?thesis
    unfolding skills_ok_lookup by blast
qed

section \<open>Loops\<close>

text \<open>The values a loop over a map of pointers visits are the values of the abstract map.\<close>

lemma loop_values:
  assumes "distinct (map fst al)"
  shows "f ` set (filter P (map snd al)) = f ` {v \<in> ran (map_of al). P v}"
  using values_map_of [OF assms] by auto

lemma ran_map_option: "ran (\<lambda>i. map_option f (m i)) = f ` ran m"
  by (auto simp: ran_def image_iff)

lemma distinct_loop_ids:
  assumes "distinct (map fst al)" and "\<forall>(i, v) \<in> set al. g v = i"
  shows "distinct (map g (filter P (map snd al)))"
proof -
  have "map g (map snd al) = map fst al"
    using assms(2) by (auto intro!: map_cong)
  with assms(1) show ?thesis
    by (simp add: distinct_map_filter del: map_map)
qed

text \<open>The loop of \<open>UpsertSkill\<close>.\<close>

lemma upsert_loop_None:
  "upsert_loop k a rs = None \<longleftrightarrow> (\<forall>(i, r) \<in> set rs. \<not> same_skill (rec_skill r) k)"
  by (induction k a rs rule: upsert_loop.induct) (auto simp: same_skill_def Let_def)

definition rewritten :: "Skill \<Rightarrow> bytes \<Rightarrow> skillRecord \<Rightarrow> skillRecord" where
  "rewritten k a r = r\<lparr>rec_skill := (rec_skill r)\<lparr>skill_SizeBytes := skill_SizeBytes k,
     skill_UpdatedAt := skill_UpdatedAt k\<rparr>, rec_archive := a\<rparr>"

lemma upsert_loop_Some:
  assumes "upsert_loop k a rs = Some (k', rs')" and "distinct (map fst rs)"
  shows "\<exists>i r. map_of rs i = Some r \<and> same_skill (rec_skill r) k \<and>
     k' = k\<lparr>skill_ID := skill_ID (rec_skill r), skill_CreatedAt := skill_CreatedAt (rec_skill r)\<rparr> \<and>
     map fst rs' = map fst rs \<and> map_of rs' = (map_of rs)(i \<mapsto> rewritten k a r)"
  using assms
proof (induction k a rs arbitrary: rs' rule: upsert_loop.induct)
  case (1 k a)
  then show ?case by simp
next
  case (2 k a i r rs)
  show ?case
  proof (cases "same_skill (rec_skill r) k")
    case True
    with 2 show ?thesis
      by (intro exI [of _ i] exI [of _ r]) (auto simp: same_skill_def Let_def rewritten_def)
  next
    case False
    with 2 obtain rs1 where rs1: "upsert_loop k a rs = Some (k', rs1)" and rs': "rs' = (i, r) # rs1"
      by (auto simp: same_skill_def)
    from 2 False rs1 obtain j q where
      *: "map_of rs j = Some q" "same_skill (rec_skill q) k"
        "k' = k\<lparr>skill_ID := skill_ID (rec_skill q), skill_CreatedAt := skill_CreatedAt (rec_skill q)\<rparr>"
        "map fst rs1 = map fst rs" "map_of rs1 = (map_of rs)(j \<mapsto> rewritten k a q)"
      by (fastforce simp: same_skill_def)
    moreover from 2(3) *(1) have "j \<noteq> i"
      by (auto dest!: map_of_SomeD simp: rev_image_eqI)
    ultimately show ?thesis
      by (intro exI [of _ j] exI [of _ q]) (auto simp: rs')
  qed
qed

section \<open>The store keeps its contract\<close>

lemma mem_fields [simp]:
  "a_envs (mem_abs (h, s)) i = map_option ((!) h) (map_of (ms_envs s) i)"
  "a_snaps (mem_abs (h, s)) = map_of (ms_snapshots s)"
  "a_skills (mem_abs (h, s)) i = map_option (\<lambda>r. (rec_skill r, rec_archive r)) (map_of (ms_skills s) i)"
  by simp_all

lemma mem_abs_alloc: "mem_inv (h, s) \<Longrightarrow> mem_abs (h @ [e], s) = mem_abs (h, s)"
  by (auto simp: envs_ok_lookup nth_append fun_eq_iff intro!: map_option_cong)

lemma mem_abs_assign:
  assumes "mem_inv (h, s)" and "p < length h" and "env_ID e = env_ID (h ! p)"
  shows "mem_abs (h[p := e], s) =
    (if map_of (ms_envs s) (env_ID e) = Some p
     then (mem_abs (h, s))\<lparr>a_envs := (a_envs (mem_abs (h, s)))(env_ID e \<mapsto> e)\<rparr>
     else mem_abs (h, s))"
proof -
  have ok: "envs_ok h (ms_envs s)"
    using assms(1) by simp
  have "map_option ((!) (h[p := e])) (map_of (ms_envs s) i) =
      (if map_of (ms_envs s) (env_ID e) = Some p \<and> i = env_ID e then Some e
       else map_option ((!) h) (map_of (ms_envs s) i))" for i
  proof (cases "map_of (ms_envs s) i")
    case None
    then show ?thesis by auto
  next
    case (Some q)
    then show ?thesis
      using envs_okD [OF ok Some] assms(2,3) by (cases "q = p") auto
  qed
  then show ?thesis by (simp add: fun_eq_iff)
qed

lemma mem_env_loop:
  assumes "mem_inv (h, s)" and "ps = filter (\<lambda>p. P (h ! p)) (map snd (ms_envs s))"
  shows "set ps \<subseteq> {..<length h} \<and> distinct (map (\<lambda>p. env_ID (h ! p)) ps) \<and>
    (\<lambda>p. h ! p) ` set ps = {e \<in> ran (a_envs (mem_abs (h, s))). P e}"
proof -
  have d: "distinct (map fst (ms_envs s))" and b: "\<forall>(i, p) \<in> set (ms_envs s). p < length h \<and> env_ID (h ! p) = i"
    using assms(1) by (auto simp: envs_ok_def)
  have "distinct (map (\<lambda>p. env_ID (h ! p)) ps)"
    unfolding assms(2) using d b by (intro distinct_loop_ids) auto
  moreover have "(\<lambda>p. h ! p) ` set ps = {e \<in> ran (a_envs (mem_abs (h, s))). P e}"
    unfolding assms(2) loop_values [OF d] by (auto simp: ran_map_option)
  ultimately show ?thesis
    using b by (auto simp: assms(2))
qed

lemma mem_expired_config [simp]:
  "mem_expired (s\<lparr>ms_envs := a\<rparr>) = mem_expired s"
  "mem_expired (s\<lparr>ms_snapshots := b\<rparr>) = mem_expired s"
  "mem_expired (s\<lparr>ms_skills := c\<rparr>) = mem_expired s"
  by (simp_all add: fun_eq_iff mem_expired_def)

lemmas mem_contract = contract_defs memory_store_def scoped_def

lemma mem_list_law:
  assumes inv: "mem_inv m" and m: "m = (h, s)" and m': "m' = (h, s)"
    and ps: "ps = filter (\<lambda>p. P (h ! p)) (map snd (ms_envs s))"
  shows "store_base.reads mem_abs mem_inv (\<lambda>_. True) (\<lambda>_. id) (\<lambda>_. id) mem_expired m m' \<and> set ps \<subseteq> {..<length (fst m')} \<and>
    distinct (map (\<lambda>p. env_ID (fst m' ! p)) ps) \<and>
    (\<lambda>p. fst m' ! p) ` set ps = {e \<in> ran (a_envs (mem_abs m)). P e}"
proof -
  have "store_base.reads mem_abs mem_inv (\<lambda>_. True) (\<lambda>_. id) (\<lambda>_. id) mem_expired m m'"
    using inv by (simp add: contract_defs m m')
  with mem_env_loop [OF inv [unfolded m] ps] show ?thesis
    unfolding m m' fst_conv by blast
qed

interpretation mem: env_store memory_store mem_abs mem_inv "\<lambda>_. True" id "\<lambda>_. id" "\<lambda>_. id" mem_expired
proof (unfold_locales, goal_cases)
  case (1 m i e)
  then show ?case by (cases m) (auto dest: envs_okD)
next
  case (2 h s e)
  then show ?case using mem_abs_alloc [of h s e] by (auto simp: contract_defs)
next
  case (3 h s p e)
  then show ?case
    using mem_abs_assign [OF 3(1,2), of e] by (auto simp: same_identity_def contract_defs)
next
  case (4 m p m')
  then show ?case by (cases m) (auto simp: mem_contract fun_eq_iff)
next
  case (5 m p er m')
  then show ?case by (cases m) (auto simp: mem_contract)
next
  case (6 m i u p m')
  then show ?case
    by (cases m) (auto simp: mem_contract split: option.splits if_splits dest: envs_okD)
next
  case (7 m i u er m')
  then show ?case
    by (cases m) (auto simp: mem_contract owned_env_def split: option.splits if_splits)
next
  case (8 m p m')
  then show ?case
    by (cases m) (auto simp: mem_contract fun_eq_iff split: option.splits if_splits)
next
  case (9 m p er m')
  then show ?case
    by (cases m) (auto simp: mem_contract split: option.splits if_splits)
next
  case (10 m i u m')
  then show ?case
    by (cases m) (auto simp: mem_contract owned_env_def fun_eq_iff split: option.splits if_splits)
next
  case (11 m i u er m')
  then show ?case
    by (cases m) (auto simp: mem_contract owned_env_def split: option.splits if_splits)
next
  case (12 m u ps m')
  obtain h s where m: "m = (h, s)" by (cases m)
  with 12 show ?case
    by (intro mem_list_law [where P = "\<lambda>e. scoped u (env_UserID e)", OF 12(1) m]) (auto simp: mem_contract)
next
  case (13 m u er m')
  then show ?case by (cases m) (simp add: mem_contract)
next
  case (14 m t ps m')
  obtain h s where m: "m = (h, s)" by (cases m)
  with 14 show ?case
    by (intro mem_list_law [where P = "\<lambda>e. env_TenantID e = t", OF 14(1) m]) (auto simp: mem_contract)
next
  case (15 m t er m')
  then show ?case by (cases m) (simp add: mem_contract)
next
  case (16 m now ps m')
  obtain h s where m: "m = (h, s)" by (cases m)
  with 16 show ?case
    by (intro mem_list_law [where P = "\<lambda>e. mem_expired (snd m) now e", OF 16(1) m]) (auto simp: mem_contract)
next
  case (17 m now er m')
  then show ?case by (cases m) (simp add: mem_contract)
next
  case (18 m i e)
  then show ?case by simp
qed


lemma loop_distinct:
  assumes "distinct (map fst al)" and "\<forall>(i, v) \<in> set al. g v = i"
  shows "distinct (filter P (map snd al))"
  using distinct_loop_ids [OF assms] by (rule distinct_map [THEN iffD1, THEN conjunct1])

lemma loop_set: "distinct (map fst al) \<Longrightarrow> set (filter P (map snd al)) = {v \<in> ran (map_of al). P v}"
  using loop_values [of al "\<lambda>x. x"] by simp

lemma mem_snap_loop:
  assumes "snaps_ok al" and "xs = filter P (map snd al)"
  shows "distinct xs \<and> set xs = {x \<in> ran (map_of al). P x}"
  using assms loop_distinct [of al snap_ID] loop_set [of al] by (simp add: snaps_ok_def)

lemma mem_snap_list_law:
  assumes inv: "mem_inv m" and m: "m = (h, s)" and m': "m' = (h, s)"
    and xs: "xs = filter P (map snd (ms_snapshots s))"
  shows "store_base.writes mem_abs mem_inv (\<lambda>_. True) (\<lambda>_. id) (\<lambda>_. id) mem_expired m (mem_abs m) m' \<and> distinct xs \<and>
    set xs = {x \<in> ran (a_snaps (mem_abs m)). P x}"
proof -
  have "store_base.writes mem_abs mem_inv (\<lambda>_. True) (\<lambda>_. id) (\<lambda>_. id) mem_expired m (mem_abs m) m'" and "snaps_ok (ms_snapshots s)"
    using inv by (simp_all add: contract_defs m m')
  with mem_snap_loop [OF _ xs] show ?thesis
    unfolding m mem_fields by blast
qed

interpretation mem: snap_store memory_store mem_abs mem_inv "\<lambda>_. True" id "\<lambda>_. id" "\<lambda>_. id" mem_expired
proof (unfold_locales, goal_cases)
  case (1 m i x)
  then show ?case by (cases m) (auto dest: snaps_okD)
next
  case (2 m x m')
  then show ?case by (cases m) (auto simp: mem_contract)
next
  case (3 m x e m')
  then show ?case by (cases m) (auto simp: mem_contract)
next
  case (4 m i u x m')
  then show ?case by (cases m) (auto simp: mem_contract split: option.splits if_splits)
next
  case (5 m i u e m')
  then show ?case
    by (cases m) (auto simp: mem_contract owned_snap_def split: option.splits if_splits)
next
  case (6 m u xs m')
  obtain h s where m: "m = (h, s)" by (cases m)
  with 6 show ?case
    by (intro mem_snap_list_law [where P = "\<lambda>x. scoped u (snap_UserID x)", OF 6(1) m]) (auto simp: mem_contract)
next
  case (7 m u e m')
  then show ?case by (cases m) (auto simp: mem_contract)
next
  case (8 m t xs m')
  obtain h s where m: "m = (h, s)" by (cases m)
  with 8 show ?case
    by (intro mem_snap_list_law [where P = "\<lambda>x. snap_TenantID x = t", OF 8(1) m]) (auto simp: mem_contract)
next
  case (9 m t e m')
  then show ?case by (cases m) (auto simp: mem_contract)
next
  case (10 m i u m')
  then show ?case
    by (cases m) (auto simp: mem_contract owned_snap_def split: option.splits if_splits)
next
  case (11 m i u e m')
  then show ?case
    by (cases m) (auto simp: mem_contract owned_snap_def split: option.splits if_splits)
qed


lemma mem_skill_loop:
  assumes "skills_ok al" and "ks = map rec_skill (filter (\<lambda>r. P (rec_skill r)) (map snd al))"
  shows "distinct (map skill_ID ks) \<and>
    set ks = {k \<in> fst ` ran (\<lambda>i. map_option (\<lambda>r. (rec_skill r, rec_archive r)) (map_of al i)). P k}"
proof
  have d: "distinct (map fst al)" "\<forall>(i, r) \<in> set al. skill_ID (rec_skill r) = i"
    using assms(1) by (auto simp: skills_ok_def)
  show "distinct (map skill_ID ks)"
    using distinct_loop_ids [OF d, of "\<lambda>r. P (rec_skill r)"] by (simp add: assms(2) o_def)
  show "set ks = {k \<in> fst ` ran (\<lambda>i. map_option (\<lambda>r. (rec_skill r, rec_archive r)) (map_of al i)). P k}"
    unfolding assms(2) set_map loop_set [OF d(1)] ran_map_option by force
qed

lemma mem_skill_list_law:
  assumes inv: "mem_inv m" and m: "m = (h, s)" and m': "m' = (h, s)"
    and ks: "ks = map rec_skill (filter (\<lambda>r. P (rec_skill r)) (map snd (ms_skills s)))"
  shows "store_base.writes mem_abs mem_inv (\<lambda>_. True) (\<lambda>_. id) (\<lambda>_. id) mem_expired m (mem_abs m) m' \<and> distinct (map skill_ID ks) \<and>
    set ks = {k \<in> fst ` ran (a_skills (mem_abs m)). P k}"
proof -
  have w: "store_base.writes mem_abs mem_inv (\<lambda>_. True) (\<lambda>_. id) (\<lambda>_. id) mem_expired m (mem_abs m) m'" and ok: "skills_ok (ms_skills s)"
    using inv by (simp_all add: contract_defs m m')
  have "a_skills (mem_abs m) = (\<lambda>i. map_option (\<lambda>r. (rec_skill r, rec_archive r)) (map_of (ms_skills s) i))"
    by (simp add: m)
  with w mem_skill_loop [OF ok ks] show ?thesis
    by simp
qed

lemma mem_upsert_new:
  assumes "mem_inv (h, s)" and "\<forall>i k0 a0. a_skills (mem_abs (h, s)) i = Some (k0, a0) \<longrightarrow> \<not> same_skill k0 k"
  shows "MemoryStore_UpsertSkill k a (h, s) = ((None, k), h,
      s\<lparr>ms_skills := AList.update (skill_ID k) \<lparr>rec_skill = k, rec_archive = a\<rparr> (ms_skills s)\<rparr>)"
    and "mem_inv (h, s\<lparr>ms_skills := AList.update (skill_ID k) \<lparr>rec_skill = k, rec_archive = a\<rparr> (ms_skills s)\<rparr>)"
proof -
  have none: "\<forall>i r. map_of (ms_skills s) i = Some r \<longrightarrow> \<not> same_skill (rec_skill r) k"
    using assms(2) by auto
  moreover have "distinct (map fst (ms_skills s))"
    using assms(1) by (simp add: skills_ok_def)
  ultimately have "upsert_loop k a (ms_skills s) = None"
    unfolding upsert_loop_None by (subst ball_entries) auto
  then show "MemoryStore_UpsertSkill k a (h, s) = ((None, k), h,
      s\<lparr>ms_skills := AList.update (skill_ID k) \<lparr>rec_skill = k, rec_archive = a\<rparr> (ms_skills s)\<rparr>)"
    by simp
  show "mem_inv (h, s\<lparr>ms_skills := AList.update (skill_ID k) \<lparr>rec_skill = k, rec_archive = a\<rparr> (ms_skills s)\<rparr>)"
    using assms(1) skills_ok_put [OF _ none] by simp
qed

lemma mem_upsert_old:
  assumes "mem_inv (h, s)" and "map_of (ms_skills s) i = Some r" and "same_skill (rec_skill r) k"
  shows "\<exists>rs. MemoryStore_UpsertSkill k a (h, s) =
      ((None, k\<lparr>skill_ID := i, skill_CreatedAt := skill_CreatedAt (rec_skill r)\<rparr>), h, s\<lparr>ms_skills := rs\<rparr>) \<and>
    mem_inv (h, s\<lparr>ms_skills := rs\<rparr>) \<and> map_of rs = (map_of (ms_skills s))(i \<mapsto> rewritten k a r)"
proof -
  have ok: "skills_ok (ms_skills s)" and d: "distinct (map fst (ms_skills s))"
    using assms(1) by (simp_all add: skills_ok_def)
  have "upsert_loop k a (ms_skills s) \<noteq> None"
    using assms(2,3) map_of_SomeD [OF assms(2)] unfolding upsert_loop_None by fastforce
  then obtain k' rs where up: "upsert_loop k a (ms_skills s) = Some (k', rs)"
    by fastforce
  obtain j q where j: "map_of (ms_skills s) j = Some q" "same_skill (rec_skill q) k"
    "k' = k\<lparr>skill_ID := skill_ID (rec_skill q), skill_CreatedAt := skill_CreatedAt (rec_skill q)\<rparr>"
    "map fst rs = map fst (ms_skills s)" "map_of rs = (map_of (ms_skills s))(j \<mapsto> rewritten k a q)"
    using upsert_loop_Some [OF up d] by blast
  have "same_skill (rec_skill q) (rec_skill r)"
    using assms(3) j(2) by (simp add: same_skill_def)
  then have "j = i"
    using skills_ok_unique [OF ok j(1) assms(2)] by simp
  with j assms(2) have [simp]: "q = r" by simp
  have "skills_ok rs"
    using j \<open>j = i\<close> by (intro skills_ok_mono [OF ok]) (auto simp: same_skill_def rewritten_def split: if_splits)
  with assms(1) up j \<open>j = i\<close> show ?thesis
    using skills_okD [OF ok j(1)] by (intro exI [of _ rs]) simp
qed

interpretation mem: skill_store memory_store mem_abs mem_inv "\<lambda>_. True" id "\<lambda>_. id" "\<lambda>_. id" mem_expired
proof (unfold_locales, goal_cases)
  case (1 m i k a)
  then show ?case by (cases m) (auto dest: skills_okD)
next
  case (2 m i k a j k' a')
  then show ?case by (cases m) (auto dest: skills_ok_unique)
next
  case (3 m k a k' m')
  then show ?case
    using mem_upsert_new [of "fst m" "snd m" k a]
    by (cases m) (auto simp: mem_contract fun_eq_iff simp del: MemoryStore_UpsertSkill.simps mem_inv.simps)
next
  case (4 m k i k0 a0 a k' m')
  then show ?case
    using mem_upsert_old [of "fst m" "snd m" i _ k a]
    by (cases m) (fastforce simp: mem_contract fun_eq_iff rewritten_def simp del: MemoryStore_UpsertSkill.simps mem_inv.simps)
next
  case (5 m k a e k' m')
  then show ?case by (cases m) (auto simp: mem_contract split: option.splits)
next
  case (6 m i u k m')
  then show ?case by (cases m) (auto simp: mem_contract split: option.splits if_splits)
next
  case (7 m i u e m')
  then show ?case by (cases m) (auto simp: mem_contract owned_skill_def split: option.splits if_splits)
next
  case (8 m i u a m')
  then show ?case by (cases m) (auto simp: mem_contract split: option.splits if_splits)
next
  case (9 m i u e m')
  then show ?case by (cases m) (auto simp: mem_contract owned_skill_def split: option.splits if_splits)
next
  case (10 m u ks m')
  obtain h s where m: "m = (h, s)" by (cases m)
  with 10 show ?case
    by (intro mem_skill_list_law [where P = "\<lambda>k. scoped u (skill_UserID k)", OF 10(1) m]) (auto simp: mem_contract)
next
  case (11 m u e m')
  then show ?case by (cases m) (auto simp: mem_contract)
next
  case (12 m t ks m')
  obtain h s where m: "m = (h, s)" by (cases m)
  with 12 show ?case
    by (intro mem_skill_list_law [where P = "\<lambda>k. skill_TenantID k = t", OF 12(1) m]) (auto simp: mem_contract)
next
  case (13 m t e m')
  then show ?case by (cases m) (auto simp: mem_contract)
next
  case (14 m i u m')
  then show ?case
    by (cases m) (auto simp: mem_contract owned_skill_def fun_eq_iff split: option.splits if_splits)
next
  case (15 m i u e m')
  then show ?case by (cases m) (auto simp: mem_contract owned_skill_def split: option.splits if_splits)
qed

interpretation mem: store memory_store mem_abs mem_inv "\<lambda>_. True" id "\<lambda>_. id" "\<lambda>_. id" mem_expired
  by unfold_locales

end
