(* ===== verification/SQL_Store.thy ===== *)
theory SQL_Store
  imports Store_Interface
begin

text \<open>
  \<open>store.SQLStore\<close> (\<open>internal/store/sql.go\<close>).  The statements of the source are SQL text;
  here each is the function on tables that the statement means (insertion under the primary
  key and the uniqueness constraint, selection, update and deletion by a condition).  A table
  is a list of rows; \<open>SELECT\<close> without \<open>ORDER BY\<close> answers in an order the database chooses, which
  is the order of the list.

  The database may fail: the list of pending faults says, call by call, whether the call goes
  through, fails before it has any effect, or fails after its effect (a connection lost after
  the commit).  Instants are stored in seconds, the CPU share in a \<open>REAL\<close> column (single
  precision on PostgreSQL), the environment variables as JSON: \<open>encoding/json\<close> on
  \<open>map[string]string\<close> is the pair of functions \<open>sq_json_Marshal\<close>, \<open>sq_json_Unmarshal\<close>, and
  \<open>codec_ok\<close> is what the store relies on, that what was marshalled can be unmarshalled.

  The tables are the migrated ones; \<open>SQL_Migration\<close> models how they come about.
\<close>

section \<open>Tables\<close>

record env_row =
  r_id :: string
  r_user_id :: string
  r_tenant_id :: string
  r_status :: string
  r_container_id :: string
  r_created_at :: int64
  r_last_used_at :: int64
  r_expires_at :: int64
  r_spec_image :: string
  r_spec_cpu :: float64
  r_spec_memory_mb :: int64
  r_spec_disk_mb :: int64
  r_spec_network_policy :: string
  r_spec_env_vars :: string

record snap_row =
  s_id :: string
  s_user_id :: string
  s_tenant_id :: string
  s_environment_id :: string
  s_image_id :: string
  s_label :: string
  s_size :: int64
  s_created_at :: int64

record skill_row =
  k_id :: string
  k_user_id :: string
  k_tenant_id :: string
  k_name :: string
  k_archive :: bytes
  k_size :: int64
  k_created_at :: int64
  k_updated_at :: int64

datatype fault = NoFault | FailBefore string | FailAfter string

record Database =
  t_users :: "(string \<times> int64) list"
  t_api_keys :: "(string \<times> string \<times> int64) list"
  t_environments :: "env_row list"
  t_snapshots :: "snap_row list"
  t_skills :: "skill_row list"
  db_faults :: "fault list"

record SQLStore =
  sq_db :: Database
  sq_isPG :: bool
  sq_idleTimeout :: duration
  sq_maxLifetime :: duration
  sq_json_Marshal :: "(string \<times> string) list \<Rightarrow> goerr + string"
  sq_json_Unmarshal :: "string \<Rightarrow> goerr + string_map"

definition next_fault :: "Database \<Rightarrow> fault \<times> Database" where
  "next_fault d = (case db_faults d of [] \<Rightarrow> (NoFault, d) | f # fs \<Rightarrow> (f, d\<lparr>db_faults := fs\<rparr>))"

text \<open>A statement answers a constraint error or the number of affected rows and the new tables.\<close>

type_synonym stmt = "Database \<Rightarrow> goerr + nat \<times> Database"

definition db_exec :: "stmt \<Rightarrow> Database \<Rightarrow> (goerr + nat) \<times> Database" where
  "db_exec st d =
     (case next_fault d of
        (FailBefore m, d1) \<Rightarrow> (Inl (Opaque m), d1)
      | (FailAfter m, d1) \<Rightarrow> (Inl (Opaque m), case st d1 of Inl _ \<Rightarrow> d1 | Inr (_, d2) \<Rightarrow> d2)
      | (NoFault, d1) \<Rightarrow> (case st d1 of Inl e \<Rightarrow> (Inl e, d1) | Inr (n, d2) \<Rightarrow> (Inr n, d2)))"

definition db_query :: "(Database \<Rightarrow> 'r) \<Rightarrow> Database \<Rightarrow> (goerr + 'r) \<times> Database" where
  "db_query q d =
     (case next_fault d of
        (NoFault, d1) \<Rightarrow> (Inr (q d1), d1)
      | (FailBefore m, d1) \<Rightarrow> (Inl (Opaque m), d1)
      | (FailAfter m, d1) \<Rightarrow> (Inl (Opaque m), d1))"

section \<open>Statements\<close>

definition insert_environment :: "env_row \<Rightarrow> stmt" where
  "insert_environment row d =
     (if r_id row \<in> set (map r_id (t_environments d))
      then Inl (Opaque ''UNIQUE constraint failed: environments.id'')
      else Inr (1, d\<lparr>t_environments := t_environments d @ [row]\<rparr>))"

text \<open>\<open>UPDATE environments SET \<dots> WHERE id = ? AND user_id = ?\<close>: the columns the statement sets.\<close>

definition set_environment :: "env_row \<Rightarrow> env_row \<Rightarrow> env_row" where
  "set_environment v r = r\<lparr>r_status := r_status v, r_container_id := r_container_id v,
     r_last_used_at := r_last_used_at v, r_expires_at := r_expires_at v, r_spec_cpu := r_spec_cpu v,
     r_spec_memory_mb := r_spec_memory_mb v, r_spec_disk_mb := r_spec_disk_mb v,
     r_spec_env_vars := r_spec_env_vars v\<rparr>"

definition update_environment :: "env_row \<Rightarrow> stmt" where
  "update_environment v d =
     (let hit = (\<lambda>r. r_id r = r_id v \<and> r_user_id r = r_user_id v) in
      Inr (length (filter hit (t_environments d)),
           d\<lparr>t_environments := map (\<lambda>r. if hit r then set_environment v r else r) (t_environments d)\<rparr>))"

definition delete_environments :: "(env_row \<Rightarrow> bool) \<Rightarrow> stmt" where
  "delete_environments c d =
     Inr (length (filter c (t_environments d)),
          d\<lparr>t_environments := filter (\<lambda>r. \<not> c r) (t_environments d)\<rparr>)"

definition insert_snapshot :: "snap_row \<Rightarrow> stmt" where
  "insert_snapshot row d =
     (if s_id row \<in> set (map s_id (t_snapshots d))
      then Inl (Opaque ''UNIQUE constraint failed: snapshots.id'')
      else Inr (1, d\<lparr>t_snapshots := t_snapshots d @ [row]\<rparr>))"

definition delete_snapshots :: "(snap_row \<Rightarrow> bool) \<Rightarrow> stmt" where
  "delete_snapshots c d =
     Inr (length (filter c (t_snapshots d)), d\<lparr>t_snapshots := filter (\<lambda>r. \<not> c r) (t_snapshots d)\<rparr>)"

text \<open>\<open>INSERT \<dots> ON CONFLICT (user_id, name) DO UPDATE SET archive, size, updated_at\<close>.\<close>

definition upsert_skill :: "skill_row \<Rightarrow> stmt" where
  "upsert_skill v d =
     (let hit = (\<lambda>r. k_user_id r = k_user_id v \<and> k_name r = k_name v) in
      if list_ex hit (t_skills d)
      then Inr (1, d\<lparr>t_skills := map (\<lambda>r. if hit r then r\<lparr>k_archive := k_archive v, k_size := k_size v,
             k_updated_at := k_updated_at v\<rparr> else r) (t_skills d)\<rparr>)
      else if k_id v \<in> set (map k_id (t_skills d))
      then Inl (Opaque ''UNIQUE constraint failed: skills.id'')
      else Inr (1, d\<lparr>t_skills := t_skills d @ [v]\<rparr>))"

definition delete_skills :: "(skill_row \<Rightarrow> bool) \<Rightarrow> stmt" where
  "delete_skills c d =
     Inr (length (filter c (t_skills d)), d\<lparr>t_skills := filter (\<lambda>r. \<not> c r) (t_skills d)\<rparr>)"

definition upsert_user :: "string \<Rightarrow> int64 \<Rightarrow> stmt" where
  "upsert_user userID now d =
     (if userID \<in> set (map fst (t_users d)) then Inr (0, d)
      else Inr (1, d\<lparr>t_users := t_users d @ [(userID, now)]\<rparr>))"

definition upsert_api_key :: "string \<Rightarrow> string \<Rightarrow> int64 \<Rightarrow> stmt" where
  "upsert_api_key keyHash userID now d =
     (if userID \<notin> set (map fst (t_users d))
      then Inl (Opaque ''FOREIGN KEY constraint failed'')
      else if keyHash \<in> set (map fst (t_api_keys d))
      then Inr (1, d\<lparr>t_api_keys := map (\<lambda>(h, u, t). if h = keyHash then (h, userID, t) else (h, u, t)) (t_api_keys d)\<rparr>)
      else Inr (1, d\<lparr>t_api_keys := t_api_keys d @ [(keyHash, userID, now)]\<rparr>))"

section \<open>Helpers of the source\<close>

text \<open>\<open>rebind\<close> replaces the placeholders by numbered ones for PostgreSQL, except inside quotes.\<close>

fun rebind_loop :: "nat \<Rightarrow> bool \<Rightarrow> string \<Rightarrow> string" where
  "rebind_loop n inStr [] = []"
| "rebind_loop n inStr (c # q) =
     (let inStr' = (if c = CHR 0x27 then \<not> inStr else inStr) in
      if c = CHR ''?'' \<and> \<not> inStr'
      then (CHR ''$'' # show_nat (Suc n)) @ rebind_loop (Suc n) inStr' q
      else c # rebind_loop n inStr' q)"

definition SQLStore_rebind :: "SQLStore \<Rightarrow> string \<Rightarrow> string" where
  "SQLStore_rebind s q = (if \<not> sq_isPG s then q else rebind_loop 0 False q)"

definition marshalEnvVars :: "SQLStore \<Rightarrow> string_map \<Rightarrow> goerr + string" where
  "marshalEnvVars s v =
     (case v of
        None \<Rightarrow> Inr ''{}''
      | Some m \<Rightarrow> if m = [] then Inr ''{}''
         else (case sq_json_Marshal s m of
                 Inl e \<Rightarrow> Inl (Context ''marshal env_vars'' e) | Inr b \<Rightarrow> Inr b))"

definition unmarshalEnvVars :: "SQLStore \<Rightarrow> string \<Rightarrow> goerr + string_map" where
  "unmarshalEnvVars s t =
     (if t = [] \<or> t = ''{}'' then Inr None
      else (case sq_json_Unmarshal s t of
              Inl e \<Rightarrow> Inl (Context ''unmarshal env_vars'' e) | Inr m \<Rightarrow> Inr m))"

definition scanEnv :: "SQLStore \<Rightarrow> env_row \<Rightarrow> goerr + Environment" where
  "scanEnv s r =
     (case unmarshalEnvVars s (r_spec_env_vars r) of
        Inl e \<Rightarrow> Inl e
      | Inr v \<Rightarrow> Inr \<lparr>
          env_ID = r_id r, env_TenantID = r_tenant_id r, env_UserID = r_user_id r,
          env_Spec = \<lparr>Image = r_spec_image r, CPU = r_spec_cpu r, MemoryMB = r_spec_memory_mb r,
            DiskMB = r_spec_disk_mb r, NetworkPolicy = r_spec_network_policy r, EnvVars = v\<rparr>,
          env_Status = r_status r, env_ContainerID = r_container_id r,
          env_CreatedAt = unix_Time (r_created_at r), env_LastUsedAt = unix_Time (r_last_used_at r),
          env_ExpiresAt = unix_Time (r_expires_at r)\<rparr>)"

fun scanEnvs :: "SQLStore \<Rightarrow> env_row list \<Rightarrow> goerr + Environment list" where
  "scanEnvs s [] = Inr []"
| "scanEnvs s (r # rs) =
     (case scanEnv s r of
        Inl e \<Rightarrow> Inl e
      | Inr env \<Rightarrow> (case scanEnvs s rs of Inl e \<Rightarrow> Inl e | Inr envs \<Rightarrow> Inr (env # envs)))"

definition scanSnapshot :: "snap_row \<Rightarrow> Snapshot" where
  "scanSnapshot r = \<lparr>snap_ID = s_id r, snap_TenantID = s_tenant_id r, snap_UserID = s_user_id r,
     snap_EnvironmentID = s_environment_id r, snap_ImageID = s_image_id r, snap_Label = s_label r,
     snap_Size = s_size r, snap_CreatedAt = unix_Time (s_created_at r)\<rparr>"

definition scanSkill :: "skill_row \<Rightarrow> Skill" where
  "scanSkill r = \<lparr>skill_ID = k_id r, skill_TenantID = k_tenant_id r, skill_UserID = k_user_id r,
     skill_Name = k_name r, skill_SizeBytes = k_size r, skill_CreatedAt = unix_Time (k_created_at r),
     skill_UpdatedAt = unix_Time (k_updated_at r)\<rparr>"

text \<open>The arguments of the insertion: the values as the columns hold them.\<close>

definition real_column :: "SQLStore \<Rightarrow> float64 \<Rightarrow> float64" where
  "real_column s c = (if sq_isPG s then to_single c else c)"

definition env_to_row :: "SQLStore \<Rightarrow> string \<Rightarrow> Environment \<Rightarrow> env_row" where
  "env_to_row s envVars env = \<lparr>r_id = env_ID env, r_user_id = env_UserID env, r_tenant_id = env_TenantID env,
     r_status = env_Status env, r_container_id = env_ContainerID env,
     r_created_at = time_Unix (env_CreatedAt env), r_last_used_at = time_Unix (env_LastUsedAt env),
     r_expires_at = time_Unix (env_ExpiresAt env), r_spec_image = Image (env_Spec env),
     r_spec_cpu = real_column s (CPU (env_Spec env)), r_spec_memory_mb = MemoryMB (env_Spec env),
     r_spec_disk_mb = DiskMB (env_Spec env), r_spec_network_policy = NetworkPolicy (env_Spec env),
     r_spec_env_vars = envVars\<rparr>"

definition snap_to_row :: "Snapshot \<Rightarrow> snap_row" where
  "snap_to_row x = \<lparr>s_id = snap_ID x, s_user_id = snap_UserID x, s_tenant_id = snap_TenantID x,
     s_environment_id = snap_EnvironmentID x, s_image_id = snap_ImageID x, s_label = snap_Label x,
     s_size = snap_Size x, s_created_at = time_Unix (snap_CreatedAt x)\<rparr>"

definition skill_to_row :: "bytes \<Rightarrow> Skill \<Rightarrow> skill_row" where
  "skill_to_row archive k = \<lparr>k_id = skill_ID k, k_user_id = skill_UserID k, k_tenant_id = skill_TenantID k,
     k_name = skill_Name k, k_archive = archive, k_size = skill_SizeBytes k,
     k_created_at = time_Unix (skill_CreatedAt k), k_updated_at = time_Unix (skill_UpdatedAt k)\<rparr>"

section \<open>Operations\<close>

text \<open>The optional condition on the owner that \<open>Get\<close>, \<open>Delete\<close> and the listings add to the
  \<open>WHERE\<close> clause.\<close>

definition and_user :: "('r \<Rightarrow> string) \<Rightarrow> string \<Rightarrow> ('r \<Rightarrow> bool) \<Rightarrow> 'r \<Rightarrow> bool" where
  "and_user owner userID c = (if userID = [] then c else (\<lambda>r. c r \<and> owner r = userID))"

definition begin_tx :: "Database \<Rightarrow> (goerr + unit) \<times> Database" where
  "begin_tx = db_query (\<lambda>_. ())"

text \<open>Rolling back restores the tables; the faults that were spent stay spent.\<close>

definition rollback :: "Database \<Rightarrow> Database \<Rightarrow> Database" where
  "rollback d0 d = d0\<lparr>db_faults := db_faults d\<rparr>"

definition commit :: "Database \<Rightarrow> Database \<Rightarrow> goerr option \<times> Database" where
  "commit d0 d =
     (case next_fault d of
        (NoFault, d1) \<Rightarrow> (None, d1)
      | (FailBefore m, d1) \<Rightarrow> (Some (Opaque m), rollback d0 d1)
      | (FailAfter m, d1) \<Rightarrow> (Some (Opaque m), d1))"

fun SQLStore_BootstrapUser :: "time \<Rightarrow> string \<Rightarrow> string \<Rightarrow> SQLStore mem \<Rightarrow> goerr option \<times> SQLStore mem" where
  "SQLStore_BootstrapUser now0 keyHash userID (h, s) =
     (let now = time_Unix now0 in
      case begin_tx (sq_db s) of
        (Inl e, d) \<Rightarrow> (Some (Context ''begin transaction'' e), h, s\<lparr>sq_db := d\<rparr>)
      | (Inr _, d0) \<Rightarrow>
          (case db_exec (upsert_user userID now) d0 of
             (Inl e, d) \<Rightarrow> (Some (Context ''upsert user'' e), h, s\<lparr>sq_db := rollback d0 d\<rparr>)
           | (Inr _, d1) \<Rightarrow>
               (case db_exec (upsert_api_key keyHash userID now) d1 of
                  (Inl e, d) \<Rightarrow> (Some (Context ''upsert api_key'' e), h, s\<lparr>sq_db := rollback d0 d\<rparr>)
                | (Inr _, d2) \<Rightarrow>
                    (case commit d0 d2 of
                       (Some e, d) \<Rightarrow> (Some (Context ''commit'' e), h, s\<lparr>sq_db := d\<rparr>)
                     | (None, d) \<Rightarrow> (None, h, s\<lparr>sq_db := d\<rparr>)))))"

fun SQLStore_Create :: "nat \<Rightarrow> SQLStore mem \<Rightarrow> goerr option \<times> SQLStore mem" where
  "SQLStore_Create env (h, s) =
     (case marshalEnvVars s (EnvVars (env_Spec (h ! env))) of
        Inl e \<Rightarrow> (Some e, h, s)
      | Inr envVars \<Rightarrow>
          (case db_exec (insert_environment (env_to_row s envVars (h ! env))) (sq_db s) of
             (Inl e, d) \<Rightarrow> (Some e, h, s\<lparr>sq_db := d\<rparr>)
           | (Inr _, d) \<Rightarrow> (None, h, s\<lparr>sq_db := d\<rparr>)))"

definition select_environments :: "(env_row \<Rightarrow> bool) \<Rightarrow> Database \<Rightarrow> env_row list" where
  "select_environments c d = filter c (t_environments d)"

fun SQLStore_Get :: "string \<Rightarrow> string \<Rightarrow> SQLStore mem \<Rightarrow> (goerr + nat) \<times> SQLStore mem" where
  "SQLStore_Get i userID (h, s) =
     (case db_query (select_environments (and_user r_user_id userID (\<lambda>r. r_id r = i))) (sq_db s) of
        (Inl e, d) \<Rightarrow> (Inl e, h, s\<lparr>sq_db := d\<rparr>)
      | (Inr [], d) \<Rightarrow> (Inl (Sentinel ErrNotFound), h, s\<lparr>sq_db := d\<rparr>)
      | (Inr (r # _), d) \<Rightarrow>
          (case scanEnv s r of
             Inl e \<Rightarrow> (Inl e, h, s\<lparr>sq_db := d\<rparr>)
           | Inr env \<Rightarrow> (Inr (length h), h @ [env], s\<lparr>sq_db := d\<rparr>)))"

text \<open>A statement whose count of affected rows decides between success and \<open>ErrNotFound\<close>.\<close>

definition exec_count :: "stmt \<Rightarrow> SQLStore mem \<Rightarrow> goerr option \<times> SQLStore mem" where
  "exec_count st m =
     (case db_exec st (sq_db (snd m)) of
        (Inl e, d) \<Rightarrow> (Some e, fst m, (snd m)\<lparr>sq_db := d\<rparr>)
      | (Inr n, d) \<Rightarrow> (if n = 0 then Some (Sentinel ErrNotFound) else None, fst m, (snd m)\<lparr>sq_db := d\<rparr>))"

fun SQLStore_Update :: "nat \<Rightarrow> SQLStore mem \<Rightarrow> goerr option \<times> SQLStore mem" where
  "SQLStore_Update env (h, s) =
     (case marshalEnvVars s (EnvVars (env_Spec (h ! env))) of
        Inl e \<Rightarrow> (Some e, h, s)
      | Inr envVars \<Rightarrow> exec_count (update_environment (env_to_row s envVars (h ! env))) (h, s))"

definition SQLStore_Delete :: "string \<Rightarrow> string \<Rightarrow> SQLStore mem \<Rightarrow> goerr option \<times> SQLStore mem" where
  "SQLStore_Delete i userID = exec_count (delete_environments (and_user r_user_id userID (\<lambda>r. r_id r = i)))"

text \<open>The listings of environments: the query, then \<open>scanEnvs\<close>, which allocates the objects.\<close>

fun query_envs :: "(env_row \<Rightarrow> bool) \<Rightarrow> SQLStore mem \<Rightarrow> (goerr + nat list) \<times> SQLStore mem" where
  "query_envs c (h, s) =
     (case db_query (select_environments c) (sq_db s) of
        (Inl e, d) \<Rightarrow> (Inl e, h, s\<lparr>sq_db := d\<rparr>)
      | (Inr rows, d) \<Rightarrow>
          (case scanEnvs s rows of
             Inl e \<Rightarrow> (Inl e, h, s\<lparr>sq_db := d\<rparr>)
           | Inr envs \<Rightarrow> (Inr [length h ..< length h + length envs], h @ envs, s\<lparr>sq_db := d\<rparr>)))"

definition SQLStore_List :: "string \<Rightarrow> SQLStore mem \<Rightarrow> (goerr + nat list) \<times> SQLStore mem" where
  "SQLStore_List userID = query_envs (and_user r_user_id userID (\<lambda>r. True))"

definition SQLStore_ListByTenant :: "string \<Rightarrow> SQLStore mem \<Rightarrow> (goerr + nat list) \<times> SQLStore mem" where
  "SQLStore_ListByTenant tenantID = query_envs (\<lambda>r. r_tenant_id r = tenantID)"

definition SQLStore_ListExpired :: "time \<Rightarrow> SQLStore mem \<Rightarrow> (goerr + nat list) \<times> SQLStore mem" where
  "SQLStore_ListExpired now m =
     (let idleCutoff = time_Unix (now - sq_idleTimeout (snd m));
          expiryCutoff = time_Unix now
      in query_envs (\<lambda>r. r_status r \<notin> {''stopped'', ''destroyed''} \<and>
           (r_last_used_at r < idleCutoff \<or> r_expires_at r < expiryCutoff)) m)"

fun SQLStore_CreateSnapshot :: "Snapshot \<Rightarrow> SQLStore mem \<Rightarrow> goerr option \<times> SQLStore mem" where
  "SQLStore_CreateSnapshot snap (h, s) =
     (case db_exec (insert_snapshot (snap_to_row snap)) (sq_db s) of
        (Inl e, d) \<Rightarrow> (Some e, h, s\<lparr>sq_db := d\<rparr>)
      | (Inr _, d) \<Rightarrow> (None, h, s\<lparr>sq_db := d\<rparr>))"

definition select_snapshots :: "(snap_row \<Rightarrow> bool) \<Rightarrow> Database \<Rightarrow> snap_row list" where
  "select_snapshots c d = filter c (t_snapshots d)"

fun SQLStore_GetSnapshot :: "string \<Rightarrow> string \<Rightarrow> SQLStore mem \<Rightarrow> (goerr + Snapshot) \<times> SQLStore mem" where
  "SQLStore_GetSnapshot i userID (h, s) =
     (case db_query (select_snapshots (and_user s_user_id userID (\<lambda>r. s_id r = i))) (sq_db s) of
        (Inl e, d) \<Rightarrow> (Inl e, h, s\<lparr>sq_db := d\<rparr>)
      | (Inr [], d) \<Rightarrow> (Inl (Sentinel ErrNotFound), h, s\<lparr>sq_db := d\<rparr>)
      | (Inr (r # _), d) \<Rightarrow> (Inr (scanSnapshot r), h, s\<lparr>sq_db := d\<rparr>))"

fun query_snapshots :: "(snap_row \<Rightarrow> bool) \<Rightarrow> SQLStore mem \<Rightarrow> (goerr + Snapshot list) \<times> SQLStore mem" where
  "query_snapshots c (h, s) =
     (case db_query (select_snapshots c) (sq_db s) of
        (Inl e, d) \<Rightarrow> (Inl e, h, s\<lparr>sq_db := d\<rparr>)
      | (Inr rows, d) \<Rightarrow> (Inr (map scanSnapshot rows), h, s\<lparr>sq_db := d\<rparr>))"

definition SQLStore_ListSnapshots :: "string \<Rightarrow> SQLStore mem \<Rightarrow> (goerr + Snapshot list) \<times> SQLStore mem" where
  "SQLStore_ListSnapshots userID = query_snapshots (and_user s_user_id userID (\<lambda>r. True))"

definition SQLStore_ListSnapshotsByTenant :: "string \<Rightarrow> SQLStore mem \<Rightarrow> (goerr + Snapshot list) \<times> SQLStore mem" where
  "SQLStore_ListSnapshotsByTenant tenantID = query_snapshots (\<lambda>r. s_tenant_id r = tenantID)"

definition SQLStore_DeleteSnapshot :: "string \<Rightarrow> string \<Rightarrow> SQLStore mem \<Rightarrow> goerr option \<times> SQLStore mem" where
  "SQLStore_DeleteSnapshot i userID = exec_count (delete_snapshots (and_user s_user_id userID (\<lambda>r. s_id r = i)))"

definition select_skills :: "(skill_row \<Rightarrow> bool) \<Rightarrow> Database \<Rightarrow> skill_row list" where
  "select_skills c d = filter c (t_skills d)"

text \<open>\<open>QueryRow\<close> on skills with a column list: the first row, or \<open>ErrNotFound\<close>.\<close>

fun query_skill_row ::
  "(skill_row \<Rightarrow> bool) \<Rightarrow> (skill_row \<Rightarrow> 'c) \<Rightarrow> SQLStore mem \<Rightarrow> (goerr + 'c) \<times> SQLStore mem" where
  "query_skill_row c columns (h, s) =
     (case db_query (select_skills c) (sq_db s) of
        (Inl e, d) \<Rightarrow> (Inl e, h, s\<lparr>sq_db := d\<rparr>)
      | (Inr [], d) \<Rightarrow> (Inl (Sentinel ErrNotFound), h, s\<lparr>sq_db := d\<rparr>)
      | (Inr (r # _), d) \<Rightarrow> (Inr (columns r), h, s\<lparr>sq_db := d\<rparr>))"

definition SQLStore_getSkillByName :: "string \<Rightarrow> string \<Rightarrow> SQLStore mem \<Rightarrow> (goerr + Skill) \<times> SQLStore mem" where
  "SQLStore_getSkillByName userID name =
     query_skill_row (\<lambda>r. k_user_id r = userID \<and> k_name r = name) scanSkill"

fun SQLStore_UpsertSkill :: "Skill \<Rightarrow> bytes \<Rightarrow> SQLStore mem \<Rightarrow> (goerr option \<times> Skill) \<times> SQLStore mem" where
  "SQLStore_UpsertSkill skill archive (h, s) =
     (case db_exec (upsert_skill (skill_to_row archive skill)) (sq_db s) of
        (Inl e, d) \<Rightarrow> ((Some e, skill), h, s\<lparr>sq_db := d\<rparr>)
      | (Inr _, d) \<Rightarrow>
          (case SQLStore_getSkillByName (skill_UserID skill) (skill_Name skill) (h, s\<lparr>sq_db := d\<rparr>) of
             (Inl e, m) \<Rightarrow> ((Some e, skill), m)
           | (Inr persisted, m) \<Rightarrow>
               ((None, skill\<lparr>skill_ID := skill_ID persisted, skill_CreatedAt := skill_CreatedAt persisted\<rparr>), m)))"

definition SQLStore_GetSkill :: "string \<Rightarrow> string \<Rightarrow> SQLStore mem \<Rightarrow> (goerr + Skill) \<times> SQLStore mem" where
  "SQLStore_GetSkill i userID = query_skill_row (and_user k_user_id userID (\<lambda>r. k_id r = i)) scanSkill"

definition SQLStore_GetSkillArchive :: "string \<Rightarrow> string \<Rightarrow> SQLStore mem \<Rightarrow> (goerr + bytes) \<times> SQLStore mem" where
  "SQLStore_GetSkillArchive i userID = query_skill_row (and_user k_user_id userID (\<lambda>r. k_id r = i)) k_archive"

fun query_skills :: "(skill_row \<Rightarrow> bool) \<Rightarrow> SQLStore mem \<Rightarrow> (goerr + Skill list) \<times> SQLStore mem" where
  "query_skills c (h, s) =
     (case db_query (select_skills c) (sq_db s) of
        (Inl e, d) \<Rightarrow> (Inl e, h, s\<lparr>sq_db := d\<rparr>)
      | (Inr rows, d) \<Rightarrow> (Inr (map scanSkill rows), h, s\<lparr>sq_db := d\<rparr>))"

definition SQLStore_ListSkills :: "string \<Rightarrow> SQLStore mem \<Rightarrow> (goerr + Skill list) \<times> SQLStore mem" where
  "SQLStore_ListSkills userID = query_skills (and_user k_user_id userID (\<lambda>r. True))"

definition SQLStore_ListSkillsByTenant :: "string \<Rightarrow> SQLStore mem \<Rightarrow> (goerr + Skill list) \<times> SQLStore mem" where
  "SQLStore_ListSkillsByTenant tenantID = query_skills (\<lambda>r. k_tenant_id r = tenantID)"

definition SQLStore_DeleteSkill :: "string \<Rightarrow> string \<Rightarrow> SQLStore mem \<Rightarrow> goerr option \<times> SQLStore mem" where
  "SQLStore_DeleteSkill i userID = exec_count (delete_skills (and_user k_user_id userID (\<lambda>r. k_id r = i)))"

definition sql_store :: "SQLStore Store" where
  "sql_store = \<lparr>sto_Create = SQLStore_Create, sto_Get = SQLStore_Get, sto_Update = SQLStore_Update,
     sto_Delete = SQLStore_Delete, sto_List = SQLStore_List, sto_ListExpired = SQLStore_ListExpired,
     sto_BootstrapUser = SQLStore_BootstrapUser, sto_ListByTenant = SQLStore_ListByTenant,
     sto_CreateSnapshot = SQLStore_CreateSnapshot, sto_GetSnapshot = SQLStore_GetSnapshot,
     sto_ListSnapshots = SQLStore_ListSnapshots, sto_DeleteSnapshot = SQLStore_DeleteSnapshot,
     sto_ListSnapshotsByTenant = SQLStore_ListSnapshotsByTenant,
     sto_UpsertSkill = SQLStore_UpsertSkill, sto_GetSkill = SQLStore_GetSkill,
     sto_GetSkillArchive = SQLStore_GetSkillArchive, sto_ListSkills = SQLStore_ListSkills,
     sto_DeleteSkill = SQLStore_DeleteSkill, sto_ListSkillsByTenant = SQLStore_ListSkillsByTenant\<rparr>"

section \<open>Abstraction and invariant\<close>

text \<open>A table as a map from its primary key.\<close>

definition index :: "('r \<Rightarrow> 'k) \<Rightarrow> 'r list \<Rightarrow> 'k \<rightharpoonup> 'r" where
  "index key rows = map_of (map (\<lambda>r. (key r, r)) rows)"

definition decode_env :: "SQLStore \<Rightarrow> env_row \<Rightarrow> Environment option" where
  "decode_env s r = (case scanEnv s r of Inl _ \<Rightarrow> None | Inr e \<Rightarrow> Some e)"

definition tables_abs :: "SQLStore \<Rightarrow> Database \<Rightarrow> abs_store" where
  "tables_abs s d = \<lparr>
     a_envs = (\<lambda>i. Option.bind (index r_id (t_environments d) i) (decode_env s)),
     a_snaps = (\<lambda>i. map_option scanSnapshot (index s_id (t_snapshots d) i)),
     a_skills = (\<lambda>i. map_option (\<lambda>r. (scanSkill r, k_archive r)) (index k_id (t_skills d) i))\<rparr>"

definition sql_abs :: "SQLStore mem \<Rightarrow> abs_store" where
  "sql_abs m = tables_abs (snd m) (sq_db (snd m))"

text \<open>What the store relies on of \<open>encoding/json\<close> for \<open>map[string]string\<close>: marshalling never
  fails and its output unmarshals.\<close>

definition codec_ok :: "SQLStore \<Rightarrow> bool" where
  "codec_ok s \<longleftrightarrow> (\<forall>v. \<exists>t w. marshalEnvVars s v = Inr t \<and> unmarshalEnvVars s t = Inr w)"

definition tables_ok :: "SQLStore \<Rightarrow> Database \<Rightarrow> bool" where
  "tables_ok s d \<longleftrightarrow> distinct (map r_id (t_environments d)) \<and>
     (\<forall>r \<in> set (t_environments d). decode_env s r \<noteq> None) \<and>
     distinct (map s_id (t_snapshots d)) \<and> distinct (map k_id (t_skills d)) \<and>
     distinct (map (\<lambda>r. (k_user_id r, k_name r)) (t_skills d))"

definition sql_inv :: "SQLStore mem \<Rightarrow> bool" where
  "sql_inv m \<longleftrightarrow> codec_ok (snd m) \<and> tables_ok (snd m) (sq_db (snd m))"

definition db_healthy :: "Database \<Rightarrow> bool" where
  "db_healthy d \<longleftrightarrow> list_all (\<lambda>f. f = NoFault) (db_faults d)"

definition sql_healthy :: "SQLStore \<Rightarrow> bool" where
  "sql_healthy s = db_healthy (sq_db s)"

definition second :: "time \<Rightarrow> time" where
  "second t = unix_Time (time_Unix t)"

definition json_norm :: "SQLStore \<Rightarrow> string_map \<Rightarrow> string_map" where
  "json_norm s v =
     (case marshalEnvVars s v of
        Inl _ \<Rightarrow> None
      | Inr t \<Rightarrow> (case unmarshalEnvVars s t of Inl _ \<Rightarrow> None | Inr w \<Rightarrow> w))"

definition sql_expired :: "SQLStore \<Rightarrow> time \<Rightarrow> Environment \<Rightarrow> bool" where
  "sql_expired s now e \<longleftrightarrow> env_Status e \<noteq> StatusStopped \<and> env_Status e \<noteq> StatusDestroyed \<and>
     (time_Unix (env_LastUsedAt e) < time_Unix (now - sq_idleTimeout s) \<or>
      time_Unix (env_ExpiresAt e) < time_Unix now)"

section \<open>Tables and faults\<close>

definition tick :: "Database \<Rightarrow> Database" where
  "tick d = snd (next_fault d)"

lemma tick_tables [simp]:
  "t_environments (tick d) = t_environments d" "t_snapshots (tick d) = t_snapshots d"
  "t_skills (tick d) = t_skills d"
  by (auto simp: tick_def next_fault_def split: list.splits)

lemma tick_healthy: "db_healthy d \<Longrightarrow> db_healthy (tick d)"
  by (auto simp: tick_def next_fault_def db_healthy_def split: list.splits)

lemma next_fault_healthy: "db_healthy d \<Longrightarrow> next_fault d = (NoFault, tick d)"
  by (auto simp: tick_def next_fault_def db_healthy_def split: list.splits)

lemma db_exec_ok: "db_exec st d = (Inr n, d') \<Longrightarrow> st (tick d) = Inr (n, d')"
  by (auto simp: db_exec_def tick_def split: prod.splits fault.splits sum.splits)

lemma db_exec_err:
  assumes "db_exec st d = (Inl e, d')"
  shows "d' = tick d \<and> st (tick d) = Inl e \<or>
    (\<exists>msg. e = Opaque msg) \<and> \<not> db_healthy d \<and> (d' = tick d \<or> (\<exists>n. st (tick d) = Inr (n, d')))"
proof (cases "db_healthy d")
  case True
  with assms show ?thesis
    by (auto simp: db_exec_def next_fault_healthy split: sum.splits)
next
  case False
  with assms show ?thesis
    by (auto simp: db_exec_def tick_def split: prod.splits fault.splits sum.splits)
qed

lemma db_query_ok: "db_query q d = (Inr x, d') \<Longrightarrow> d' = tick d \<and> x = q (tick d)"
  by (auto simp: db_query_def tick_def split: prod.splits fault.splits)

lemma db_query_err:
  assumes "db_query q d = (Inl e, d')"
  shows "d' = tick d \<and> (\<exists>msg. e = Opaque msg) \<and> \<not> db_healthy d"
proof (cases "db_healthy d")
  case True
  with assms show ?thesis by (simp add: db_query_def next_fault_healthy)
next
  case False
  with assms show ?thesis
    by (auto simp: db_query_def tick_def split: prod.splits fault.splits)
qed

lemma index_Some_iff:
  "distinct (map key rows) \<Longrightarrow> index key rows i = Some r \<longleftrightarrow> r \<in> set rows \<and> key r = i"
  unfolding index_def by (subst map_of_mem_iff) (auto simp: o_def)

lemma index_None_iff: "index key rows i = None \<longleftrightarrow> i \<notin> key ` set rows"
  by (auto simp: index_def map_of_eq_None_iff image_iff)

lemma index_append:
  "key r \<notin> key ` set rows \<Longrightarrow> index key (rows @ [r]) = (index key rows)(key r \<mapsto> r)"
  by (induction rows) (auto simp: index_def fun_eq_iff)

lemma index_map:
  "(\<And>r. key (f r) = key r) \<Longrightarrow> index key (map f rows) i = map_option f (index key rows i)"
  by (induction rows) (auto simp: index_def)

lemma index_filter:
  assumes "distinct (map key rows)"
  shows "index key (filter P rows) i = (case index key rows i of None \<Rightarrow> None | Some r \<Rightarrow> if P r then Some r else None)"
  using assms
  by (induction rows) (auto simp: index_def map_of_eq_None_iff split: option.splits dest: map_of_SomeD)

lemma distinct_map_keep: "(\<And>r. key (f r) = key r) \<Longrightarrow> map key (map f rows) = map key rows"
  by simp

lemma filter_key:
  assumes "distinct (map key rows)"
  shows "filter (\<lambda>r. key r = i \<and> P r) rows =
    (case index key rows i of None \<Rightarrow> [] | Some r \<Rightarrow> if P r then [r] else [])"
  using assms
proof (induction rows)
  case Nil
  then show ?case by (simp add: index_def)
next
  case (Cons a rows)
  have "filter (\<lambda>r. key r = key a \<and> P r) rows = []"
    using Cons.prems by (simp add: filter_empty_conv) (metis imageI)
  then show ?case
    using Cons by (auto simp: index_def split: option.splits)
qed

text \<open>The condition of a lookup by key and owner.\<close>

lemma and_user_key:
  "and_user owner u (\<lambda>r. key r = i) = (\<lambda>r. key r = i \<and> scoped u (owner r))"
  by (auto simp: and_user_def scoped_def fun_eq_iff)

lemma and_user_True: "and_user owner u (\<lambda>r. True) = (\<lambda>r. scoped u (owner r))"
  by (auto simp: and_user_def scoped_def fun_eq_iff)

lemma marshal_db [simp]: "marshalEnvVars (s\<lparr>sq_db := d\<rparr>) = marshalEnvVars s"
  by (auto simp: fun_eq_iff marshalEnvVars_def split: option.splits)

lemma unmarshal_db [simp]: "unmarshalEnvVars (s\<lparr>sq_db := d\<rparr>) = unmarshalEnvVars s"
  by (simp add: fun_eq_iff unmarshalEnvVars_def)

lemma scanEnv_db [simp]: "scanEnv (s\<lparr>sq_db := d\<rparr>) = scanEnv s"
  by (simp add: fun_eq_iff scanEnv_def)

lemma decode_env_db [simp]: "decode_env (s\<lparr>sq_db := d\<rparr>) = decode_env s"
  by (simp add: fun_eq_iff decode_env_def)

lemma json_norm_db [simp]: "json_norm (s\<lparr>sq_db := d\<rparr>) = json_norm s"
  by (auto simp: fun_eq_iff json_norm_def split: sum.splits)

lemma config_db [simp]:
  "tables_abs (s\<lparr>sq_db := d\<rparr>) = tables_abs s"
  "tables_ok (s\<lparr>sq_db := d\<rparr>) = tables_ok s" "codec_ok (s\<lparr>sq_db := d\<rparr>) = codec_ok s"
  by (simp_all only: fun_eq_iff tables_abs_def tables_ok_def codec_ok_def marshal_db unmarshal_db
      decode_env_db simp_thms)

lemma columns_db [simp]:
  "real_column (s\<lparr>sq_db := d\<rparr>) = real_column s"
  "sql_expired (s\<lparr>sq_db := d\<rparr>) = sql_expired s" "sql_healthy (s\<lparr>sq_db := d\<rparr>) = db_healthy d"
  by (simp_all add: fun_eq_iff real_column_def sql_expired_def sql_healthy_def)

lemma tables_tick [simp]: "tables_abs s (tick d) = tables_abs s d" "tables_ok s (tick d) = tables_ok s d"
  by (simp_all add: tables_abs_def tables_ok_def)

abbreviation sql_reads :: "SQLStore mem \<Rightarrow> SQLStore mem \<Rightarrow> bool" where
  "sql_reads \<equiv> store_base.reads sql_abs sql_inv sql_healthy real_column json_norm sql_expired"

abbreviation sql_writes :: "SQLStore mem \<Rightarrow> abs_store \<Rightarrow> SQLStore mem \<Rightarrow> bool" where
  "sql_writes \<equiv> store_base.writes sql_abs sql_inv sql_healthy real_column json_norm sql_expired"

abbreviation sql_crashes :: "SQLStore mem \<Rightarrow> abs_store \<Rightarrow> SQLStore mem \<Rightarrow> bool" where
  "sql_crashes \<equiv> store_base.crashes sql_abs sql_inv sql_healthy real_column json_norm sql_expired"

lemma sql_writes_iff:
  assumes "sql_inv (h, s)"
  shows "sql_writes (h, s) A (h', s\<lparr>sq_db := d\<rparr>) \<longleftrightarrow>
    tables_ok s d \<and> tables_abs s d = A \<and> h' = h \<and> (sql_healthy s \<longrightarrow> db_healthy d)"
  using assms by (auto simp: store_base.writes_def store_base.stable_def sql_abs_def sql_inv_def)

lemma sql_reads_iff:
  assumes "sql_inv (h, s)"
  shows "sql_reads (h, s) (h', s\<lparr>sq_db := d\<rparr>) \<longleftrightarrow>
    tables_ok s d \<and> tables_abs s d = tables_abs s (sq_db s) \<and> heap_ext h h' \<and> (sql_healthy s \<longrightarrow> db_healthy d)"
  using assms by (auto simp: store_base.reads_def store_base.stable_def sql_abs_def sql_inv_def)

lemma sql_tick:
  assumes "sql_inv (h, s)"
  shows "sql_writes (h, s) (sql_abs (h, s)) (h, s\<lparr>sq_db := tick (sq_db s)\<rparr>)"
    and "heap_ext h h' \<Longrightarrow> sql_reads (h, s) (h', s\<lparr>sq_db := tick (sq_db s)\<rparr>)"
  using assms
  by (auto simp: sql_writes_iff sql_reads_iff sql_abs_def sql_inv_def sql_healthy_def tick_healthy)

section \<open>What the statements do to the abstract state\<close>

lemma index_key: "index key rows i = Some r \<Longrightarrow> key r = i \<and> r \<in> set rows"
  by (auto simp: index_def dest!: map_of_SomeD)

lemma index_delete:
  assumes "distinct (map key rows)"
  shows "index key (filter (\<lambda>r. key r = i \<longrightarrow> \<not> P r) rows) =
    (case index key rows i of None \<Rightarrow> index key rows
     | Some r \<Rightarrow> if P r then (index key rows)(i := None) else index key rows)"
proof
  fix j
  show "index key (filter (\<lambda>r. key r = i \<longrightarrow> \<not> P r) rows) j =
    (case index key rows i of None \<Rightarrow> index key rows
     | Some r \<Rightarrow> if P r then (index key rows)(i := None) else index key rows) j"
    unfolding index_filter [OF assms]
    by (cases "index key rows j"; cases "j = i") (auto split: option.splits dest: index_key)
qed

lemma index_update:
  assumes "\<And>r. key (f r) = key r"
  shows "index key (map (\<lambda>r. if key r = i \<and> P r then f r else r) rows) =
    (case index key rows i of None \<Rightarrow> index key rows
     | Some r \<Rightarrow> if P r then (index key rows)(i \<mapsto> f r) else index key rows)"
proof
  fix j
  have "index key (map (\<lambda>r. if key r = i \<and> P r then f r else r) rows) j =
      map_option (\<lambda>r. if key r = i \<and> P r then f r else r) (index key rows j)"
    by (rule index_map) (simp add: assms)
  then show "index key (map (\<lambda>r. if key r = i \<and> P r then f r else r) rows) j =
    (case index key rows i of None \<Rightarrow> index key rows
     | Some r \<Rightarrow> if P r then (index key rows)(i \<mapsto> f r) else index key rows) j"
    by (cases "index key rows j"; cases "j = i") (auto split: option.splits dest: index_key)
qed

lemma a_envs_iff:
  assumes "tables_ok s d"
  shows "a_envs (tables_abs s d) i = Some e \<longleftrightarrow>
    (\<exists>r \<in> set (t_environments d). r_id r = i \<and> decode_env s r = Some e)"
  using assms by (auto simp: tables_abs_def tables_ok_def bind_eq_Some_conv index_Some_iff)

lemma decode_fields:
  assumes "decode_env s r = Some e"
  shows "env_ID e = r_id r" "env_UserID e = r_user_id r" "env_TenantID e = r_tenant_id r"
    "env_Status e = r_status r" "env_LastUsedAt e = unix_Time (r_last_used_at r)"
    "env_ExpiresAt e = unix_Time (r_expires_at r)"
  using assms by (auto simp: decode_env_def scanEnv_def split: sum.splits)

lemma decode_env_to_row:
  assumes "codec_ok s" and "marshalEnvVars s (EnvVars (env_Spec e)) = Inr t"
  shows "decode_env s (env_to_row s t e) = Some (norm_env second (real_column s) (json_norm s) e)"
proof -
  have "unmarshalEnvVars s t = Inr (json_norm s (EnvVars (env_Spec e)))"
    using assms unfolding codec_ok_def json_norm_def by (auto dest: spec [of _ "EnvVars (env_Spec e)"])
  then show ?thesis
    by (simp add: decode_env_def scanEnv_def env_to_row_def norm_env_def second_def)
qed

lemma marshal_total: "codec_ok s \<Longrightarrow> \<exists>t. marshalEnvVars s v = Inr t"
  unfolding codec_ok_def by blast

lemma decode_set_environment:
  assumes "codec_ok s" and "marshalEnvVars s (EnvVars (env_Spec e)) = Inr t"
    and "decode_env s r = Some old"
    and "same_identity old (norm_env second (real_column s) (json_norm s) e)"
  shows "decode_env s (set_environment (env_to_row s t e) r) =
    Some (norm_env second (real_column s) (json_norm s) e)"
proof -
  have "unmarshalEnvVars s t = Inr (json_norm s (EnvVars (env_Spec e)))"
    using assms(1,2) unfolding codec_ok_def json_norm_def by (auto dest: spec [of _ "EnvVars (env_Spec e)"])
  with assms(3,4) show ?thesis
    by (auto simp: decode_env_def scanEnv_def env_to_row_def norm_env_def second_def set_environment_def
        same_identity_def split: sum.splits)
qed

lemma decode_set_environment_total:
  assumes "codec_ok s" and "marshalEnvVars s (EnvVars (env_Spec e)) = Inr t"
  shows "decode_env s (set_environment (env_to_row s t e) r) \<noteq> None"
proof -
  obtain w where "unmarshalEnvVars s t = Inr w"
    using assms unfolding codec_ok_def by (metis sum.inject(2))
  then show ?thesis
    by (simp add: decode_env_def scanEnv_def env_to_row_def set_environment_def)
qed

lemma insert_environment_law:
  assumes "tables_ok s d" and "decode_env s row = Some e" and "a_envs (tables_abs s d) (env_ID e) = None"
  shows "\<exists>d'. insert_environment row d = Inr (1, d') \<and> tables_ok s d' \<and> db_faults d' = db_faults d \<and>
    tables_abs s d' = (tables_abs s d)\<lparr>a_envs := (a_envs (tables_abs s d))(env_ID e \<mapsto> e)\<rparr>"
proof -
  have id: "env_ID e = r_id row" using decode_fields [OF assms(2)] by simp
  have "r_id row \<notin> r_id ` set (t_environments d)"
  proof
    assume "r_id row \<in> r_id ` set (t_environments d)"
    then obtain r where "index r_id (t_environments d) (r_id row) = Some r"
      by (metis index_None_iff option.exhaust)
    with assms(1,3) index_key [OF this] show False
      by (auto simp: tables_abs_def tables_ok_def id)
  qed
  with assms(1,2) id show ?thesis
    by (auto simp: insert_environment_def tables_ok_def tables_abs_def index_append fun_eq_iff)
qed

lemma delete_environments_law:
  assumes "tables_ok s d"
  shows "\<exists>d'. delete_environments (and_user r_user_id u (\<lambda>r. r_id r = i)) d =
      Inr (if owned_env (a_envs (tables_abs s d)) i u then 1 else 0, d') \<and>
    tables_ok s d' \<and> db_faults d' = db_faults d \<and>
    tables_abs s d' = (if owned_env (a_envs (tables_abs s d)) i u
      then (tables_abs s d)\<lparr>a_envs := (a_envs (tables_abs s d))(i := None)\<rparr> else tables_abs s d)"
proof -
  have d: "distinct (map r_id (t_environments d))"
    using assms by (simp add: tables_ok_def)
  have dec: "index r_id (t_environments d) i = Some r \<Longrightarrow> \<exists>e. decode_env s r = Some e" for r
    using assms by (auto simp: tables_ok_def index_Some_iff)
  show ?thesis
    using assms dec
    by (cases "index r_id (t_environments d) i")
      (auto simp: delete_environments_def and_user_key filter_key [OF d] index_delete [OF d] tables_abs_def
        tables_ok_def distinct_map_filter owned_env_def fun_eq_iff decode_fields)
qed

lemma update_environment_law:
  assumes "tables_ok s d" and "codec_ok s" and "marshalEnvVars s (EnvVars (env_Spec e)) = Inr t"
    and old: "a_envs (tables_abs s d) (env_ID e) = Some old" "env_UserID old = env_UserID e"
      "same_identity old (norm_env second (real_column s) (json_norm s) e)"
  shows "\<exists>d'. update_environment (env_to_row s t e) d = Inr (1, d') \<and> tables_ok s d' \<and>
    db_faults d' = db_faults d \<and>
    tables_abs s d' = (tables_abs s d)\<lparr>a_envs :=
      (a_envs (tables_abs s d))(env_ID e \<mapsto> norm_env second (real_column s) (json_norm s) e)\<rparr>"
proof -
  obtain r where r: "index r_id (t_environments d) (env_ID e) = Some r" "decode_env s r = Some old"
    using old(1) by (auto simp: tables_abs_def bind_eq_Some_conv)
  have u: "r_user_id r = env_UserID e"
    using decode_fields [OF r(2)] old(2) by simp
  have d: "distinct (map r_id (t_environments d))"
    using assms(1) by (simp add: tables_ok_def)
  have key: "r_id (set_environment v r) = r_id r" for v r
    by (simp add: set_environment_def)
  have keep: "map r_id (map (\<lambda>r. if c r then set_environment v r else r) rows) = map r_id rows" for c v rows
    by (rule distinct_map_keep) (simp add: key)
  have ids: "r_id (env_to_row s t e) = env_ID e" "r_user_id (env_to_row s t e) = env_UserID e"
    by (simp_all add: env_to_row_def)
  show ?thesis
    using assms(1) r(1) u decode_set_environment [OF assms(2,3) r(2) old(3)]
      decode_set_environment_total [OF assms(2,3)]
    by (auto simp: update_environment_def Let_def ids filter_key [OF d] index_update [of r_id "set_environment (env_to_row s t e)", OF key] tables_abs_def
        tables_ok_def fun_eq_iff keep simp del: map_map)
qed

lemma update_environment_count:
  assumes "tables_ok s d"
  shows "\<exists>d'. update_environment (env_to_row s t e) d =
      Inr (if \<exists>old. a_envs (tables_abs s d) (env_ID e) = Some old \<and> env_UserID old = env_UserID e then 1 else 0, d') \<and>
    ((\<nexists>old. a_envs (tables_abs s d) (env_ID e) = Some old \<and> env_UserID old = env_UserID e) \<longrightarrow> d' = d)"
proof -
  have d: "distinct (map r_id (t_environments d))"
    using assms by (simp add: tables_ok_def)
  have dec: "index r_id (t_environments d) i = Some r \<Longrightarrow> \<exists>e. decode_env s r = Some e" for r i
    using assms by (auto simp: tables_ok_def dest: index_key)
  have ids: "r_id (env_to_row s t e) = env_ID e" "r_user_id (env_to_row s t e) = env_UserID e"
    by (simp_all add: env_to_row_def)
  show ?thesis
  proof (cases "\<exists>r. index r_id (t_environments d) (env_ID e) = Some r \<and> r_user_id r = env_UserID e")
    case True
    with dec show ?thesis
      by (fastforce simp: update_environment_def Let_def ids filter_key [OF d] tables_abs_def decode_fields)
  next
    case False
    then have "\<not> (r_id r = env_ID e \<and> r_user_id r = env_UserID e)" if "r \<in> set (t_environments d)" for r
      using that by (simp add: index_Some_iff [OF d])
    then have "map (\<lambda>r. if r_id r = env_ID e \<and> r_user_id r = env_UserID e then f r else r) (t_environments d) =
        t_environments d" for f
      by (intro map_idI) auto
    with False dec show ?thesis
      by (auto simp: update_environment_def Let_def ids filter_key [OF d] tables_abs_def decode_fields
          split: option.splits bind_splits)
  qed
qed

lemma insert_snapshot_law:
  assumes "tables_ok s d" and "a_snaps (tables_abs s d) (snap_ID x) = None"
  shows "\<exists>d'. insert_snapshot (snap_to_row x) d = Inr (1, d') \<and> tables_ok s d' \<and> db_faults d' = db_faults d \<and>
    tables_abs s d' = (tables_abs s d)\<lparr>a_snaps := (a_snaps (tables_abs s d))(snap_ID x \<mapsto> norm_snap second x)\<rparr>"
proof -
  have "snap_ID x \<notin> s_id ` set (t_snapshots d)"
    using assms(2) by (simp add: tables_abs_def index_None_iff)
  moreover have "s_id (snap_to_row x) = snap_ID x" and "scanSnapshot (snap_to_row x) = norm_snap second x"
    by (simp_all add: snap_to_row_def scanSnapshot_def norm_snap_def second_def)
  ultimately show ?thesis
    using assms(1) by (auto simp: insert_snapshot_def tables_ok_def tables_abs_def index_append fun_eq_iff)
qed

lemma delete_snapshots_law:
  assumes "tables_ok s d"
  shows "\<exists>d'. delete_snapshots (and_user s_user_id u (\<lambda>r. s_id r = i)) d =
      Inr (if owned_snap (a_snaps (tables_abs s d)) i u then 1 else 0, d') \<and>
    tables_ok s d' \<and> db_faults d' = db_faults d \<and>
    tables_abs s d' = (if owned_snap (a_snaps (tables_abs s d)) i u
      then (tables_abs s d)\<lparr>a_snaps := (a_snaps (tables_abs s d))(i := None)\<rparr> else tables_abs s d)"
proof -
  have d: "distinct (map s_id (t_snapshots d))"
    using assms by (simp add: tables_ok_def)
  show ?thesis
    using assms
    by (cases "index s_id (t_snapshots d) i")
      (auto simp: delete_snapshots_def and_user_key filter_key [OF d] index_delete [OF d] tables_abs_def
        tables_ok_def distinct_map_filter owned_snap_def fun_eq_iff scanSnapshot_def)
qed

lemma delete_skills_law:
  assumes "tables_ok s d"
  shows "\<exists>d'. delete_skills (and_user k_user_id u (\<lambda>r. k_id r = i)) d =
      Inr (if owned_skill (a_skills (tables_abs s d)) i u then 1 else 0, d') \<and>
    tables_ok s d' \<and> db_faults d' = db_faults d \<and>
    tables_abs s d' = (if owned_skill (a_skills (tables_abs s d)) i u
      then (tables_abs s d)\<lparr>a_skills := (a_skills (tables_abs s d))(i := None)\<rparr> else tables_abs s d)"
proof -
  have d: "distinct (map k_id (t_skills d))"
    using assms by (simp add: tables_ok_def)
  show ?thesis
    using assms
    by (cases "index k_id (t_skills d) i")
      (auto simp: delete_skills_def and_user_key filter_key [OF d] index_delete [OF d] tables_abs_def
        tables_ok_def distinct_map_filter owned_skill_def fun_eq_iff scanSkill_def)
qed

text \<open>\<open>UpsertSkill\<close> on a new name appends the row; on a name in use it rewrites that row.\<close>

definition rewritten_row :: "skill_row \<Rightarrow> skill_row \<Rightarrow> skill_row" where
  "rewritten_row v r = r\<lparr>k_archive := k_archive v, k_size := k_size v, k_updated_at := k_updated_at v\<rparr>"

lemma rewritten_row_keys [simp]:
  "k_id (rewritten_row v r) = k_id r" "k_user_id (rewritten_row v r) = k_user_id r"
  "k_name (rewritten_row v r) = k_name r" "k_archive (rewritten_row v r) = k_archive v"
  by (simp_all add: rewritten_row_def)

lemma skill_row_fields [simp]:
  "k_id (skill_to_row a k) = skill_ID k" "k_user_id (skill_to_row a k) = skill_UserID k"
  "k_name (skill_to_row a k) = skill_Name k" "k_archive (skill_to_row a k) = a"
  "scanSkill (skill_to_row a k) = norm_skill second k"
  by (simp_all add: skill_to_row_def scanSkill_def norm_skill_def second_def)

lemma scan_rewritten [simp]:
  "scanSkill (rewritten_row (skill_to_row a k) r) =
     (scanSkill r)\<lparr>skill_SizeBytes := skill_SizeBytes k, skill_UpdatedAt := second (skill_UpdatedAt k)\<rparr>"
  by (simp add: rewritten_row_def skill_to_row_def scanSkill_def second_def)

lemma filter_name:
  assumes "distinct (map (\<lambda>r. (k_user_id r, k_name r)) rows)" and "r \<in> set rows"
  shows "filter (\<lambda>r'. k_user_id r' = k_user_id r \<and> k_name r' = k_name r) rows = [r]"
proof -
  have "index (\<lambda>r. (k_user_id r, k_name r)) rows (k_user_id r, k_name r) = Some r"
    using assms by (simp add: index_Some_iff)
  with filter_key [OF assms(1), of "(k_user_id r, k_name r)" "\<lambda>_. True"] show ?thesis
    by simp
qed

lemma upsert_skill_new_law:
  assumes "tables_ok s d" and "a_skills (tables_abs s d) (skill_ID k) = None"
    and "\<forall>i k0 a0. a_skills (tables_abs s d) i = Some (k0, a0) \<longrightarrow> \<not> same_skill k0 k"
  shows "\<exists>d'. upsert_skill (skill_to_row a k) d = Inr (1, d') \<and> tables_ok s d' \<and> db_faults d' = db_faults d \<and>
    tables_abs s d' = (tables_abs s d)\<lparr>a_skills := (a_skills (tables_abs s d))(skill_ID k \<mapsto> (norm_skill second k, a))\<rparr> \<and>
    select_skills (\<lambda>r. k_user_id r = skill_UserID k \<and> k_name r = skill_Name k) d' = [skill_to_row a k]"
proof -
  have d: "distinct (map k_id (t_skills d))"
    using assms(1) by (simp add: tables_ok_def)
  have id: "skill_ID k \<notin> k_id ` set (t_skills d)"
    using assms(2) by (simp add: tables_abs_def index_None_iff)
  have no: "\<not> (k_user_id r = skill_UserID k \<and> k_name r = skill_Name k)" if "r \<in> set (t_skills d)" for r
  proof -
    have "a_skills (tables_abs s d) (k_id r) = Some (scanSkill r, k_archive r)"
      using that d by (auto simp: tables_abs_def index_Some_iff)
    with assms(3) have "\<not> same_skill (scanSkill r) k" by blast
    then show ?thesis by (simp add: same_skill_def scanSkill_def)
  qed
  then have "\<not> list_ex (\<lambda>r. k_user_id r = skill_UserID k \<and> k_name r = skill_Name k) (t_skills d)"
    and "filter (\<lambda>r. k_user_id r = skill_UserID k \<and> k_name r = skill_Name k) (t_skills d) = []"
    and "(skill_UserID k, skill_Name k) \<notin> (\<lambda>r. (k_user_id r, k_name r)) ` set (t_skills d)"
    by (fastforce simp: list_ex_iff filter_empty_conv)+
  with assms(1) id show ?thesis
    by (auto simp: upsert_skill_def Let_def tables_ok_def tables_abs_def index_append fun_eq_iff select_skills_def)
qed

lemma upsert_skill_old_law:
  assumes "tables_ok s d" and "a_skills (tables_abs s d) i = Some (k0, a0)" and "same_skill k0 k"
  shows "\<exists>d' r. upsert_skill (skill_to_row a k) d = Inr (1, d') \<and> tables_ok s d' \<and> db_faults d' = db_faults d \<and>
    tables_abs s d' = (tables_abs s d)\<lparr>a_skills := (a_skills (tables_abs s d))(i \<mapsto>
      (k0\<lparr>skill_SizeBytes := skill_SizeBytes k, skill_UpdatedAt := second (skill_UpdatedAt k)\<rparr>, a))\<rparr> \<and>
    select_skills (\<lambda>r. k_user_id r = skill_UserID k \<and> k_name r = skill_Name k) d' =
      [rewritten_row (skill_to_row a k) r] \<and> k_id r = i \<and> scanSkill r = k0"
proof -
  have d: "distinct (map k_id (t_skills d))" "distinct (map (\<lambda>r. (k_user_id r, k_name r)) (t_skills d))"
    using assms(1) by (simp_all add: tables_ok_def)
  obtain r where r: "index k_id (t_skills d) i = Some r" "scanSkill r = k0" "k_archive r = a0"
    using assms(2) by (auto simp: tables_abs_def)
  have r': "r \<in> set (t_skills d)" "k_id r = i"
    using index_key [OF r(1)] by auto
  have un: "k_user_id r = skill_UserID k" "k_name r = skill_Name k"
    using assms(3) r(2) by (auto simp: same_skill_def scanSkill_def)
  let ?hit = "\<lambda>x. k_user_id x = skill_UserID k \<and> k_name x = skill_Name k"
  let ?f = "rewritten_row (skill_to_row a k)"
  let ?rows = "map (\<lambda>x. if ?hit x then ?f x else x) (t_skills d)"
  have hit: "?hit x \<longleftrightarrow> k_id x = i \<and> True" if "x \<in> set (t_skills d)" for x
    using that r' un d by (auto simp: distinct_map inj_on_def)
  have rows: "?rows = map (\<lambda>x. if k_id x = i \<and> True then ?f x else x) (t_skills d)"
    using hit by (intro map_cong) auto
  have up: "upsert_skill (skill_to_row a k) d = Inr (1, d\<lparr>t_skills := ?rows\<rparr>)"
    using r' un by (auto simp: upsert_skill_def Let_def list_ex_iff rewritten_row_def)
  have idx: "index k_id ?rows = (index k_id (t_skills d))(i \<mapsto> ?f r)"
    unfolding rows by (subst index_update) (simp_all add: r(1))
  have keep: "map k_id ?rows = map k_id (t_skills d)"
    "map (\<lambda>r. (k_user_id r, k_name r)) ?rows = map (\<lambda>r. (k_user_id r, k_name r)) (t_skills d)"
    by (intro distinct_map_keep; simp)+
  have "?f r \<in> set ?rows"
    using r' un by force
  from filter_name [OF _ this] have sel: "filter ?hit ?rows = [?f r]"
    using d(2) by (simp add: keep(2) un del: map_map)
  show ?thesis
    using assms(1) r' r(2)
    by (intro exI [of _ "d\<lparr>t_skills := ?rows\<rparr>"] exI [of _ r])
      (auto simp: up tables_ok_def tables_abs_def select_skills_def sel idx keep fun_eq_iff simp del: map_map)
qed

section \<open>Failures\<close>

text \<open>A statement with a count: \<open>P\<close> says whether it hits a row, \<open>A\<close> what it makes of the
  abstract state then.\<close>

lemma sql_writes_law:
  assumes "sql_inv (h, s)" and "tables_ok s d'" and "db_faults d' = db_faults (tick (sq_db s))"
  shows "sql_writes (h, s) (tables_abs s d') (h, s\<lparr>sq_db := d'\<rparr>)"
proof -
  have "db_healthy d' = db_healthy (tick (sq_db s))"
    using assms(3) by (simp add: db_healthy_def)
  with assms show ?thesis
    by (simp add: sql_writes_iff sql_healthy_def tick_healthy)
qed

lemma exec_law:
  assumes "sql_inv (h, s)" and "st (tick (sq_db s)) = Inr (n, d')" and "tables_ok s d'"
    and "db_faults d' = db_faults (tick (sq_db s))"
  shows "db_exec st (sq_db s) = (Inr n', d) \<Longrightarrow> n' = n \<and> sql_writes (h, s) (tables_abs s d') (h, s\<lparr>sq_db := d\<rparr>)"
    and "db_exec st (sq_db s) = (Inl e, d) \<Longrightarrow>
      \<not> errors_Is e t \<and> sql_crashes (h, s) (tables_abs s d') (h, s\<lparr>sq_db := d\<rparr>)"
proof -
  show "db_exec st (sq_db s) = (Inr n', d) \<Longrightarrow> n' = n \<and> sql_writes (h, s) (tables_abs s d') (h, s\<lparr>sq_db := d\<rparr>)"
    using db_exec_ok [of st "sq_db s" n' d] sql_writes_law [OF assms(1,3,4)] assms(2) by simp
  show "\<not> errors_Is e t \<and> sql_crashes (h, s) (tables_abs s d') (h, s\<lparr>sq_db := d\<rparr>)"
    if "db_exec st (sq_db s) = (Inl e, d)"
    using db_exec_err [OF that] sql_writes_law [OF assms(1,3,4)] sql_tick(1) [OF assms(1)] assms(2)
    by (auto simp: store_base.crashes_def sql_healthy_def)
qed

lemma count_law:
  assumes inv: "sql_inv (h, s)"
    and st: "\<exists>d'. st (tick (sq_db s)) = Inr (if P then 1 else 0, d') \<and> tables_ok s d' \<and>
      db_faults d' = db_faults (tick (sq_db s)) \<and>
      tables_abs s d' = (if P then A else tables_abs s (tick (sq_db s)))"
  shows "exec_count st (h, s) = (None, m') \<Longrightarrow> P \<and> sql_writes (h, s) A m'"
    and "exec_count st (h, s) = (Some e, m') \<Longrightarrow>
      e = Sentinel ErrNotFound \<and> sql_writes (h, s) (sql_abs (h, s)) m' \<and> \<not> P \<or>
      \<not> errors_Is e ErrNotFound \<and> sql_crashes (h, s) (if P then A else sql_abs (h, s)) m'"
proof -
  obtain d' where d': "st (tick (sq_db s)) = Inr (if P then 1 else 0, d')" "tables_ok s d'"
      "db_faults d' = db_faults (tick (sq_db s))" "tables_abs s d' = (if P then A else sql_abs (h, s))"
    using st by (auto simp: sql_abs_def)
  note law = exec_law [of h s st, OF inv d'(1-3), unfolded d'(4)]
  show "exec_count st (h, s) = (None, m') \<Longrightarrow> P \<and> sql_writes (h, s) A m'"
    using law(1) by (auto simp: exec_count_def split: prod.splits sum.splits if_splits)
  show "exec_count st (h, s) = (Some e, m') \<Longrightarrow>
      e = Sentinel ErrNotFound \<and> sql_writes (h, s) (sql_abs (h, s)) m' \<and> \<not> P \<or>
      \<not> errors_Is e ErrNotFound \<and> sql_crashes (h, s) (if P then A else sql_abs (h, s)) m'"
    using law by (auto simp: exec_count_def split: prod.splits sum.splits if_splits)
qed

section \<open>Lookups and listings\<close>

lemma select_env_key:
  assumes "tables_ok s d"
  shows "select_environments (and_user r_user_id u (\<lambda>r. r_id r = i)) d =
    (case index r_id (t_environments d) i of None \<Rightarrow> []
     | Some r \<Rightarrow> if scoped u (r_user_id r) then [r] else [])"
  using assms by (simp add: select_environments_def and_user_key filter_key tables_ok_def)

lemma select_snap_key:
  assumes "tables_ok s d"
  shows "select_snapshots (and_user s_user_id u (\<lambda>r. s_id r = i)) d =
    (case index s_id (t_snapshots d) i of None \<Rightarrow> []
     | Some r \<Rightarrow> if scoped u (s_user_id r) then [r] else [])"
  using assms by (simp add: select_snapshots_def and_user_key filter_key tables_ok_def)

lemma select_skill_key:
  assumes "tables_ok s d"
  shows "select_skills (and_user k_user_id u (\<lambda>r. k_id r = i)) d =
    (case index k_id (t_skills d) i of None \<Rightarrow> []
     | Some r \<Rightarrow> if scoped u (k_user_id r) then [r] else [])"
  using assms by (simp add: select_skills_def and_user_key filter_key tables_ok_def)

lemma scanEnvs_ok:
  "(\<forall>r \<in> set rows. decode_env s r \<noteq> None) \<Longrightarrow> scanEnvs s rows = Inr (map (the \<circ> decode_env s) rows)"
  by (induction rows) (auto simp: decode_env_def split: sum.splits)

lemma fresh_block: "map (\<lambda>p. (h @ envs) ! p) [length h ..< length h + length envs] = envs"
  by (rule nth_equalityI) (auto simp: nth_append)

lemma the_image: "\<forall>r \<in> R. f r \<noteq> None \<Longrightarrow> (the \<circ> f) ` R = {e. \<exists>r \<in> R. f r = Some e}"
  by force

lemma sql_list_law:
  assumes inv: "sql_inv (h, s)" and c: "\<And>r e. decode_env s r = Some e \<Longrightarrow> c r \<longleftrightarrow> P e"
    and q: "query_envs c (h, s) = (Inr ps, m')"
  shows "sql_reads (h, s) m' \<and> set ps \<subseteq> {..<length (fst m')} \<and> distinct (map (\<lambda>p. env_ID (fst m' ! p)) ps) \<and>
    (\<lambda>p. fst m' ! p) ` set ps = {e \<in> ran (a_envs (sql_abs (h, s))). P e}"
proof -
  let ?rows = "filter c (t_environments (sq_db s))"
  let ?envs = "map (the \<circ> decode_env s) ?rows"
  have ok: "tables_ok s (sq_db s)" using inv by (simp add: sql_inv_def)
  have dec: "\<forall>r \<in> set ?rows. decode_env s r \<noteq> None" using ok by (simp add: tables_ok_def)
  obtain x d where x: "db_query (select_environments c) (sq_db s) = (Inr x, d)"
    using q by (auto split: prod.splits sum.splits)
  have "x = ?rows" and d: "d = tick (sq_db s)"
    using db_query_ok [OF x] by (simp_all add: select_environments_def)
  with q x scanEnvs_ok [OF dec] have
    m': "m' = (h @ ?envs, s\<lparr>sq_db := tick (sq_db s)\<rparr>)" and
    ps: "ps = [length h ..< length h + length ?envs]" by auto
  have objs: "map (\<lambda>p. fst m' ! p) ps = ?envs"
    unfolding m' ps fst_conv by (rule fresh_block)
  have "map env_ID ?envs = map r_id ?rows"
    using dec by (auto simp: decode_fields)
  then have "distinct (map env_ID (map (\<lambda>p. fst m' ! p) ps))"
    using ok unfolding objs by (simp add: tables_ok_def distinct_map_filter del: map_map)
  moreover have "(\<lambda>p. fst m' ! p) ` set ps = {e \<in> ran (a_envs (sql_abs (h, s))). P e}"
  proof -
    have "(\<lambda>p. fst m' ! p) ` set ps = set ?envs"
      unfolding objs [symmetric] by simp
    also have "\<dots> = {e \<in> ran (a_envs (sql_abs (h, s))). P e}"
      unfolding set_map the_image [OF dec] using c by (auto simp: ran_def sql_abs_def a_envs_iff [OF ok])
    finally show ?thesis .
  qed
  ultimately show ?thesis
    using sql_tick(2) [OF inv] by (auto simp: m' ps o_def)
qed

lemma sql_list_err:
  assumes inv: "sql_inv (h, s)" and q: "query_envs c (h, s) = (Inl e, m')"
  shows "sql_reads (h, s) m' \<and> \<not> sql_healthy s"
proof -
  have "scanEnvs s (filter c (t_environments (sq_db s))) \<noteq> Inl e'" for e'
    using inv by (subst scanEnvs_ok) (auto simp: sql_inv_def tables_ok_def)
  with q show ?thesis
    by (auto simp: sql_healthy_def select_environments_def sql_tick(2) [OF inv] split: prod.splits sum.splits
        dest!: db_query_ok db_query_err)
qed

lemma sql_snap_list_law:
  assumes inv: "sql_inv (h, s)" and c: "\<And>r. c r \<longleftrightarrow> P (scanSnapshot r)"
    and q: "query_snapshots c (h, s) = (Inr xs, m')"
  shows "sql_writes (h, s) (sql_abs (h, s)) m' \<and> distinct xs \<and>
    set xs = {x \<in> ran (a_snaps (sql_abs (h, s))). P x}"
proof -
  have d: "distinct (map s_id (t_snapshots (sq_db s)))"
    using inv by (simp add: sql_inv_def tables_ok_def)
  have xs: "xs = map scanSnapshot (filter c (t_snapshots (sq_db s)))" and
    m': "m' = (h, s\<lparr>sq_db := tick (sq_db s)\<rparr>)"
    using q by (auto simp: select_snapshots_def split: prod.splits sum.splits dest!: db_query_ok)
  have "map snap_ID xs = map s_id (filter c (t_snapshots (sq_db s)))"
    by (simp add: xs scanSnapshot_def)
  with d have "distinct xs"
    by (metis distinct_map distinct_map_filter)
  moreover have "set xs = {x \<in> ran (a_snaps (sql_abs (h, s))). P x}"
    using c by (auto simp: xs sql_abs_def tables_abs_def ran_def index_Some_iff [OF d])
  ultimately show ?thesis
    using sql_tick(1) [OF inv] by (simp add: m')
qed

lemma sql_skill_list_law:
  assumes inv: "sql_inv (h, s)" and c: "\<And>r. c r \<longleftrightarrow> P (scanSkill r)"
    and q: "query_skills c (h, s) = (Inr ks, m')"
  shows "sql_writes (h, s) (sql_abs (h, s)) m' \<and> distinct (map skill_ID ks) \<and>
    set ks = {k \<in> fst ` ran (a_skills (sql_abs (h, s))). P k}"
proof -
  have d: "distinct (map k_id (t_skills (sq_db s)))"
    using inv by (simp add: sql_inv_def tables_ok_def)
  have ks: "ks = map scanSkill (filter c (t_skills (sq_db s)))" and
    m': "m' = (h, s\<lparr>sq_db := tick (sq_db s)\<rparr>)"
    using q by (auto simp: select_skills_def split: prod.splits sum.splits dest!: db_query_ok)
  have "map skill_ID ks = map k_id (filter c (t_skills (sq_db s)))"
    by (simp add: ks scanSkill_def)
  with d have "distinct (map skill_ID ks)"
    by (metis distinct_map_filter)
  moreover have "ran (a_skills (sql_abs (h, s))) = (\<lambda>r. (scanSkill r, k_archive r)) ` set (t_skills (sq_db s))"
    by (auto simp: sql_abs_def tables_abs_def ran_def index_Some_iff [OF d])
  then have "set ks = {k \<in> fst ` ran (a_skills (sql_abs (h, s))). P k}"
    using c by (auto simp: ks image_image)
  ultimately show ?thesis
    using sql_tick(1) [OF inv] by (simp add: m')
qed

lemma sql_query_err:
  assumes "sql_inv (h, s)" and "db_query q (sq_db s) = (Inl e, d)"
  shows "sql_writes (h, s) (sql_abs (h, s)) (h, s\<lparr>sq_db := d\<rparr>) \<and> \<not> sql_healthy s \<and> \<not> errors_Is e t"
  using sql_tick(1) [OF assms(1)] db_query_err [OF assms(2)] by (auto simp: sql_healthy_def)

section \<open>The store keeps its contract\<close>

lemma sql_store_sel [simp]:
  "sto_Create sql_store = SQLStore_Create" "sto_Get sql_store = SQLStore_Get"
  "sto_Update sql_store = SQLStore_Update" "sto_Delete sql_store = SQLStore_Delete"
  "sto_List sql_store = SQLStore_List" "sto_ListExpired sql_store = SQLStore_ListExpired"
  "sto_ListByTenant sql_store = SQLStore_ListByTenant"
  "sto_CreateSnapshot sql_store = SQLStore_CreateSnapshot" "sto_GetSnapshot sql_store = SQLStore_GetSnapshot"
  "sto_ListSnapshots sql_store = SQLStore_ListSnapshots" "sto_DeleteSnapshot sql_store = SQLStore_DeleteSnapshot"
  "sto_ListSnapshotsByTenant sql_store = SQLStore_ListSnapshotsByTenant"
  "sto_UpsertSkill sql_store = SQLStore_UpsertSkill" "sto_GetSkill sql_store = SQLStore_GetSkill"
  "sto_GetSkillArchive sql_store = SQLStore_GetSkillArchive" "sto_ListSkills sql_store = SQLStore_ListSkills"
  "sto_DeleteSkill sql_store = SQLStore_DeleteSkill"
  "sto_ListSkillsByTenant sql_store = SQLStore_ListSkillsByTenant"
  by (simp_all add: sql_store_def)

lemma sql_Create_law:
  assumes inv: "sql_inv (h, s)" and new: "a_envs (sql_abs (h, s)) (env_ID (h ! p)) = None"
  defines "A \<equiv> (sql_abs (h, s))\<lparr>a_envs := (a_envs (sql_abs (h, s)))(env_ID (h ! p) \<mapsto>
      norm_env second (real_column s) (json_norm s) (h ! p))\<rparr>"
  shows "SQLStore_Create p (h, s) = (None, m') \<Longrightarrow> sql_writes (h, s) A m'"
    and "SQLStore_Create p (h, s) = (Some e, m') \<Longrightarrow> sql_crashes (h, s) A m'"
proof -
  have ok: "codec_ok s" "tables_ok s (tick (sq_db s))" using inv by (simp_all add: sql_inv_def)
  obtain t where t: "marshalEnvVars s (EnvVars (env_Spec (h ! p))) = Inr t"
    using marshal_total [OF ok(1)] by blast
  obtain d' where d': "insert_environment (env_to_row s t (h ! p)) (tick (sq_db s)) = Inr (1, d')"
    "tables_ok s d'" "db_faults d' = db_faults (tick (sq_db s))" "tables_abs s d' = A"
    using insert_environment_law [OF ok(2) decode_env_to_row [OF ok(1) t]] new
    by (auto simp: A_def sql_abs_def norm_env_def)
  note law = exec_law [of h s "insert_environment (env_to_row s t (h ! p))", OF inv d'(1-3), unfolded d'(4)]
  show "SQLStore_Create p (h, s) = (None, m') \<Longrightarrow> sql_writes (h, s) A m'"
    using law(1) t by (auto split: prod.splits sum.splits)
  show "SQLStore_Create p (h, s) = (Some e, m') \<Longrightarrow> sql_crashes (h, s) A m'"
    using law(2) t by (auto split: prod.splits sum.splits)
qed

lemma exec_count_cases:
  assumes "st (tick (sq_db s)) = Inr (n, d')"
  shows "exec_count st (h, s) = (None, m') \<Longrightarrow> n \<noteq> 0"
    and "exec_count st (h, s) = (Some e, m') \<Longrightarrow> n = 0 \<or> \<not> errors_Is e ErrNotFound \<and> \<not> sql_healthy s"
  using assms
  by (auto simp: exec_count_def sql_healthy_def split: prod.splits sum.splits if_splits
      dest!: db_exec_ok db_exec_err)

lemma sql_Update_law:
  fixes p :: nat
  assumes inv: "sql_inv (h, s)"
  defines "nv \<equiv> norm_env second (real_column s) (json_norm s) (h ! p)"
  defines "A \<equiv> (sql_abs (h, s))\<lparr>a_envs := (a_envs (sql_abs (h, s)))(env_ID (h ! p) \<mapsto> nv)\<rparr>"
  defines "hit \<equiv> \<lambda>old. a_envs (sql_abs (h, s)) (env_ID (h ! p)) = Some old \<and> env_UserID old = env_UserID (h ! p)"
  shows "SQLStore_Update p (h, s) = (None, m') \<Longrightarrow>
      \<exists>old. hit old \<and> (same_identity old nv \<longrightarrow> sql_writes (h, s) A m')"
    and "SQLStore_Update p (h, s) = (Some e, m') \<Longrightarrow>
      e = Sentinel ErrNotFound \<and> sql_writes (h, s) (sql_abs (h, s)) m' \<and> (\<nexists>old. hit old) \<or>
      \<not> errors_Is e ErrNotFound \<and> \<not> sql_healthy s \<and>
      ((\<nexists>old. hit old) \<longrightarrow> sql_writes (h, s) (sql_abs (h, s)) m') \<and>
      (\<forall>old. hit old \<longrightarrow> same_identity old nv \<longrightarrow> sql_crashes (h, s) A m')"
proof -
  have ok: "codec_ok s" "tables_ok s (tick (sq_db s))" using inv by (simp_all add: sql_inv_def)
  obtain t where t: "marshalEnvVars s (EnvVars (env_Spec (h ! p))) = Inr t"
    using marshal_total [OF ok(1)] by blast
  let ?st = "update_environment (env_to_row s t (h ! p))"
  have up: "SQLStore_Update p (h, s) = exec_count ?st (h, s)" by (simp add: t)
  obtain d1 where d1: "?st (tick (sq_db s)) = Inr (if \<exists>old. hit old then 1 else 0, d1)"
    "(\<nexists>old. hit old) \<longrightarrow> d1 = tick (sq_db s)"
    using update_environment_count [OF ok(2), of t "h ! p"] by (auto simp: hit_def sql_abs_def)
  consider (same) old where "hit old" "same_identity old nv"
    | (diff) old where "hit old" "\<not> same_identity old nv" | (none) "\<nexists>old. hit old" by blast
  then have "(SQLStore_Update p (h, s) = (None, m') \<longrightarrow>
      (\<exists>old. hit old \<and> (same_identity old nv \<longrightarrow> sql_writes (h, s) A m'))) \<and>
    (SQLStore_Update p (h, s) = (Some e, m') \<longrightarrow>
      e = Sentinel ErrNotFound \<and> sql_writes (h, s) (sql_abs (h, s)) m' \<and> (\<nexists>old. hit old) \<or>
      \<not> errors_Is e ErrNotFound \<and> \<not> sql_healthy s \<and>
      ((\<nexists>old. hit old) \<longrightarrow> sql_writes (h, s) (sql_abs (h, s)) m') \<and>
      (\<forall>old. hit old \<longrightarrow> same_identity old nv \<longrightarrow> sql_crashes (h, s) A m'))"
  proof cases
    case same
    have "\<exists>d'. ?st (tick (sq_db s)) = Inr (if True then 1 else 0, d') \<and> tables_ok s d' \<and>
      db_faults d' = db_faults (tick (sq_db s)) \<and>
      tables_abs s d' = (if True then A else tables_abs s (tick (sq_db s)))"
      using update_environment_law [OF ok(2,1) t, of old] same by (simp add: A_def nv_def hit_def sql_abs_def)
    from count_law [of h s ?st True, OF inv this] same show ?thesis
      unfolding up by (auto simp: store_base.crashes_def)
  next
    case diff
    then have "\<not> same_identity x nv" if "hit x" for x
      using that by (simp add: hit_def)
    moreover have "?st (tick (sq_db s)) = Inr (1, d1)"
      using diff d1 by auto
    note exec_count_cases [of ?st, OF this]
    ultimately show ?thesis
      unfolding up using diff by fastforce
  next
    case none
    with d1 ok(2) have "\<exists>d'. ?st (tick (sq_db s)) = Inr (if False then 1 else 0, d') \<and> tables_ok s d' \<and>
      db_faults d' = db_faults (tick (sq_db s)) \<and>
      tables_abs s d' = (if False then A else tables_abs s (tick (sq_db s)))" by simp
    from count_law(1) [of h s ?st False A m', OF inv this] count_law(2) [of h s ?st False A e m', OF inv this]
      none show ?thesis
      unfolding up by (auto simp: store_base.crashes_def)
  qed
  then show "SQLStore_Update p (h, s) = (None, m') \<Longrightarrow>
      \<exists>old. hit old \<and> (same_identity old nv \<longrightarrow> sql_writes (h, s) A m')"
    and "SQLStore_Update p (h, s) = (Some e, m') \<Longrightarrow>
      e = Sentinel ErrNotFound \<and> sql_writes (h, s) (sql_abs (h, s)) m' \<and> (\<nexists>old. hit old) \<or>
      \<not> errors_Is e ErrNotFound \<and> \<not> sql_healthy s \<and>
      ((\<nexists>old. hit old) \<longrightarrow> sql_writes (h, s) (sql_abs (h, s)) m') \<and>
      (\<forall>old. hit old \<longrightarrow> same_identity old nv \<longrightarrow> sql_crashes (h, s) A m')"
    by blast+
qed

lemma sql_key:
  assumes "sql_inv m"
  shows "a_envs (sql_abs m) i = Some e \<Longrightarrow> env_ID e = i"
    and "a_snaps (sql_abs m) i = Some x \<Longrightarrow> snap_ID x = i"
    and "a_skills (sql_abs m) i = Some (k, a) \<Longrightarrow> skill_ID k = i"
  by (auto simp: sql_abs_def tables_abs_def bind_eq_Some_conv decode_fields scanSnapshot_def scanSkill_def
      dest!: index_key)

lemma sql_Get_law:
  assumes inv: "sql_inv (h, s)"
  shows "SQLStore_Get i u (h, s) = (Inr p, m') \<Longrightarrow> sql_reads (h, s) m' \<and> p < length (fst m') \<and>
      a_envs (sql_abs (h, s)) i = Some (fst m' ! p) \<and> scoped u (env_UserID (fst m' ! p))"
    and "SQLStore_Get i u (h, s) = (Inl e, m') \<Longrightarrow> sql_reads (h, s) m' \<and>
      fails_with (\<not> owned_env (a_envs (sql_abs (h, s))) i u) (\<not> sql_healthy s) e"
proof -
  have ok: "tables_ok s (tick (sq_db s))" using inv by (simp add: sql_inv_def)
  have row: "\<exists>env. scanEnv s r = Inr env \<and> decode_env s r = Some env \<and> env_UserID env = r_user_id r"
    if "index r_id (t_environments (sq_db s)) i = Some r" for r
  proof -
    have "decode_env s r \<noteq> None"
      using ok index_key [OF that] by (simp add: tables_ok_def)
    then obtain env where "scanEnv s r = Inr env" "decode_env s r = Some env"
      by (auto simp: decode_env_def split: sum.splits)
    then show ?thesis by (simp add: decode_fields)
  qed
  have abs: "a_envs (sql_abs (h, s)) i = Option.bind (index r_id (t_environments (sq_db s)) i) (decode_env s)"
    by (simp add: sql_abs_def tables_abs_def)
  obtain q d where q: "db_query (select_environments (and_user r_user_id u (\<lambda>r. r_id r = i))) (sq_db s) = (q, d)"
    by fastforce
  have "(SQLStore_Get i u (h, s) = (Inr p, m') \<longrightarrow> sql_reads (h, s) m' \<and> p < length (fst m') \<and>
      a_envs (sql_abs (h, s)) i = Some (fst m' ! p) \<and> scoped u (env_UserID (fst m' ! p))) \<and>
    (SQLStore_Get i u (h, s) = (Inl e, m') \<longrightarrow> sql_reads (h, s) m' \<and>
      fails_with (\<not> owned_env (a_envs (sql_abs (h, s))) i u) (\<not> sql_healthy s) e)"
  proof (cases q)
    case (Inl x)
    with db_query_err [OF q [unfolded Inl]] show ?thesis
      using q sql_tick(2) [OF inv] by (auto simp: fails_with_def sql_healthy_def)
  next
    case (Inr rows)
    with db_query_ok [OF q [unfolded Inr]] have q': "q = Inr (select_environments (and_user r_user_id u (\<lambda>r. r_id r = i)) (tick (sq_db s)))"
      and d: "d = tick (sq_db s)" by simp_all
    show ?thesis
      using q row sql_tick(2) [OF inv] unfolding q' d select_env_key [OF ok]
      by (cases "index r_id (t_environments (sq_db s)) i") (auto simp: abs split: if_splits)
  qed
  then show "SQLStore_Get i u (h, s) = (Inr p, m') \<Longrightarrow> sql_reads (h, s) m' \<and> p < length (fst m') \<and>
      a_envs (sql_abs (h, s)) i = Some (fst m' ! p) \<and> scoped u (env_UserID (fst m' ! p))"
    and "SQLStore_Get i u (h, s) = (Inl e, m') \<Longrightarrow> sql_reads (h, s) m' \<and>
      fails_with (\<not> owned_env (a_envs (sql_abs (h, s))) i u) (\<not> sql_healthy s) e"
    by blast+
qed

interpretation sql: env_store sql_store sql_abs sql_inv sql_healthy second real_column json_norm sql_expired
proof (unfold_locales, goal_cases)
  case (1 m i e)
  then show ?case by (rule sql_key)
next
  case (2 h s e)
  then show ?case by (simp add: contract_defs sql_abs_def sql_inv_def)
next
  case (3 h s p e)
  then show ?case by (simp add: sql_abs_def sql_inv_def)
next
  case (4 m p m')
  then show ?case by (cases m) (simp add: store_base.nenv_def sql_Create_law(1))
next
  case (5 m p er m')
  then show ?case by (cases m) (simp add: store_base.nenv_def sql_Create_law(2))
next
  case (6 m i u p m')
  then show ?case by (cases m) (simp add: sql_Get_law(1))
next
  case (7 m i u er m')
  then show ?case by (cases m) (simp add: sql_Get_law(2))
next
  case (8 m p m')
  obtain h s where m: "m = (h, s)" by (cases m)
  show ?case using 8 sql_Update_law(1) [of h s p m'] unfolding m store_base.nenv_def by auto
next
  case (9 m p er m')
  obtain h s where m: "m = (h, s)" by (cases m)
  show ?case using 9 sql_Update_law(2) [of h s p er m'] unfolding m store_base.nenv_def
    by (auto simp: same_identity_def norm_env_def split: option.splits)
next
  case (10 m i u m')
  obtain h s where m: "m = (h, s)" by (cases m)
  then have "tables_ok s (tick (sq_db s))" using 10(1) by (simp add: sql_inv_def)
  from count_law(1) [where st = "delete_environments (and_user r_user_id u (\<lambda>r. r_id r = i))", OF 10(1) [unfolded m] delete_environments_law [OF this],
      unfolded tables_tick sql_abs_def snd_conv] 10(2) show ?case
    unfolding m sql_store_sel SQLStore_Delete_def sql_abs_def snd_conv by blast
next
  case (11 m i u er m')
  obtain h s where m: "m = (h, s)" by (cases m)
  then have "tables_ok s (tick (sq_db s))" using 11(1) by (simp add: sql_inv_def)
  from count_law(2) [where st = "delete_environments (and_user r_user_id u (\<lambda>r. r_id r = i))", OF 11(1) [unfolded m] delete_environments_law [OF this],
      unfolded tables_tick sql_abs_def snd_conv] 11(2) show ?case
    unfolding m sql_store_sel SQLStore_Delete_def sql_abs_def snd_conv by blast
next
  case (12 m u ps m')
  obtain h s where m: "m = (h, s)" by (cases m)
  with 12 show ?case unfolding m
    by (intro sql_list_law [where P = "\<lambda>e. scoped u (env_UserID e)"])
      (auto simp: SQLStore_List_def and_user_True decode_fields)
next
  case (13 m u er m')
  then show ?case by (cases m) (auto simp: SQLStore_List_def dest: sql_list_err)
next
  case (14 m t ps m')
  obtain h s where m: "m = (h, s)" by (cases m)
  with 14 show ?case unfolding m
    by (intro sql_list_law [where P = "\<lambda>e. env_TenantID e = t"])
      (auto simp: SQLStore_ListByTenant_def decode_fields)
next
  case (15 m t er m')
  then show ?case by (cases m) (auto simp: SQLStore_ListByTenant_def dest: sql_list_err)
next
  case (16 m now ps m')
  obtain h s where m: "m = (h, s)" by (cases m)
  with 16 show ?case unfolding m snd_conv
    by (intro sql_list_law [where P = "sql_expired s now"])
      (auto simp: SQLStore_ListExpired_def sql_expired_def decode_fields status_defs)
next
  case (17 m now er m')
  then show ?case by (cases m) (auto simp: SQLStore_ListExpired_def Let_def dest: sql_list_err)
next
  case (18 m i e)
  then obtain r where "decode_env (snd m) r = Some e"
    by (auto simp: sql_abs_def tables_abs_def bind_eq_Some_conv)
  then have "env_CreatedAt e = unix_Time (r_created_at r)"
    by (auto simp: decode_env_def scanEnv_def split: sum.splits)
  then show ?case by (simp add: second_def)
qed

lemma sql_CreateSnapshot_law:
  assumes inv: "sql_inv (h, s)" and new: "a_snaps (sql_abs (h, s)) (snap_ID x) = None"
  defines "A \<equiv> (sql_abs (h, s))\<lparr>a_snaps := (a_snaps (sql_abs (h, s)))(snap_ID x \<mapsto> norm_snap second x)\<rparr>"
  shows "SQLStore_CreateSnapshot x (h, s) = (None, m') \<Longrightarrow> sql_writes (h, s) A m'"
    and "SQLStore_CreateSnapshot x (h, s) = (Some e, m') \<Longrightarrow> sql_crashes (h, s) A m'"
proof -
  have ok: "tables_ok s (tick (sq_db s))" using inv by (simp add: sql_inv_def)
  obtain d' where d': "insert_snapshot (snap_to_row x) (tick (sq_db s)) = Inr (1, d')"
    "tables_ok s d'" "db_faults d' = db_faults (tick (sq_db s))" "tables_abs s d' = A"
    using insert_snapshot_law [OF ok] new by (auto simp: A_def sql_abs_def)
  note law = exec_law [of h s "insert_snapshot (snap_to_row x)", OF inv d'(1-3), unfolded d'(4)]
  show "SQLStore_CreateSnapshot x (h, s) = (None, m') \<Longrightarrow> sql_writes (h, s) A m'"
    using law(1) by (auto split: prod.splits sum.splits)
  show "SQLStore_CreateSnapshot x (h, s) = (Some e, m') \<Longrightarrow> sql_crashes (h, s) A m'"
    using law(2) by (auto split: prod.splits sum.splits)
qed

lemma sql_GetSnapshot_law:
  assumes inv: "sql_inv (h, s)"
  shows "SQLStore_GetSnapshot i u (h, s) = (Inr x, m') \<Longrightarrow> sql_writes (h, s) (sql_abs (h, s)) m' \<and>
      a_snaps (sql_abs (h, s)) i = Some x \<and> scoped u (snap_UserID x)"
    and "SQLStore_GetSnapshot i u (h, s) = (Inl e, m') \<Longrightarrow> sql_writes (h, s) (sql_abs (h, s)) m' \<and>
      fails_with (\<not> owned_snap (a_snaps (sql_abs (h, s))) i u) (\<not> sql_healthy s) e"
proof -
  have ok: "tables_ok s (tick (sq_db s))" using inv by (simp add: sql_inv_def)
  note facts = select_snap_key [OF ok] sql_tick(1) [OF inv] sql_query_err [OF inv]
  have abs: "a_snaps (sql_abs (h, s)) i = map_option scanSnapshot (index s_id (t_snapshots (sq_db s)) i)"
    by (simp add: sql_abs_def tables_abs_def)
  show "SQLStore_GetSnapshot i u (h, s) = (Inr x, m') \<Longrightarrow> sql_writes (h, s) (sql_abs (h, s)) m' \<and>
      a_snaps (sql_abs (h, s)) i = Some x \<and> scoped u (snap_UserID x)"
    by (auto simp: facts abs scanSnapshot_def split: prod.splits sum.splits list.splits option.splits if_splits
        dest!: db_query_ok)
  show "SQLStore_GetSnapshot i u (h, s) = (Inl e, m') \<Longrightarrow> sql_writes (h, s) (sql_abs (h, s)) m' \<and>
      fails_with (\<not> owned_snap (a_snaps (sql_abs (h, s))) i u) (\<not> sql_healthy s) e"
    by (auto simp: facts abs scanSnapshot_def fails_with_def owned_snap_def
        split: prod.splits sum.splits list.splits option.splits if_splits
        dest!: db_query_ok dest: sql_query_err [OF inv])
qed

interpretation sql: snap_store sql_store sql_abs sql_inv sql_healthy second real_column json_norm sql_expired
proof (unfold_locales, goal_cases)
  case (1 m i x)
  then show ?case by (rule sql_key)
next
  case (2 m x m')
  then show ?case by (cases m) (simp add: sql_CreateSnapshot_law(1))
next
  case (3 m x e m')
  then show ?case by (cases m) (simp add: sql_CreateSnapshot_law(2))
next
  case (4 m i u x m')
  then show ?case by (cases m) (simp add: sql_GetSnapshot_law(1))
next
  case (5 m i u e m')
  then show ?case by (cases m) (simp add: sql_GetSnapshot_law(2))
next
  case (6 m u xs m')
  obtain h s where m: "m = (h, s)" by (cases m)
  with 6 show ?case unfolding m
    by (intro sql_snap_list_law [where P = "\<lambda>x. scoped u (snap_UserID x)"])
      (auto simp: SQLStore_ListSnapshots_def and_user_True scanSnapshot_def)
next
  case (7 m u e m')
  then show ?case
    by (cases m) (auto simp: SQLStore_ListSnapshots_def split: prod.splits sum.splits dest: sql_query_err)
next
  case (8 m t xs m')
  obtain h s where m: "m = (h, s)" by (cases m)
  with 8 show ?case unfolding m
    by (intro sql_snap_list_law [where P = "\<lambda>x. snap_TenantID x = t"])
      (auto simp: SQLStore_ListSnapshotsByTenant_def scanSnapshot_def)
next
  case (9 m t e m')
  then show ?case
    by (cases m) (auto simp: SQLStore_ListSnapshotsByTenant_def split: prod.splits sum.splits dest: sql_query_err)
next
  case (10 m i u m')
  obtain h s where m: "m = (h, s)" by (cases m)
  then have "tables_ok s (tick (sq_db s))" using 10(1) by (simp add: sql_inv_def)
  from count_law(1) [where st = "delete_snapshots (and_user s_user_id u (\<lambda>r. s_id r = i))", OF 10(1) [unfolded m]
      delete_snapshots_law [OF this], unfolded tables_tick sql_abs_def snd_conv] 10(2) show ?case
    unfolding m sql_store_sel SQLStore_DeleteSnapshot_def sql_abs_def snd_conv by blast
next
  case (11 m i u e m')
  obtain h s where m: "m = (h, s)" by (cases m)
  then have "tables_ok s (tick (sq_db s))" using 11(1) by (simp add: sql_inv_def)
  from count_law(2) [where st = "delete_snapshots (and_user s_user_id u (\<lambda>r. s_id r = i))", OF 11(1) [unfolded m]
      delete_snapshots_law [OF this], unfolded tables_tick sql_abs_def snd_conv] 11(2) show ?case
    unfolding m sql_store_sel SQLStore_DeleteSnapshot_def sql_abs_def snd_conv by blast
qed

lemma sql_GetSkill_law:
  fixes u i :: string
  assumes inv: "sql_inv (h, s)"
  defines "c \<equiv> and_user k_user_id u (\<lambda>r. k_id r = i)"
  shows "query_skill_row c f (h, s) = (Inr x, m') \<Longrightarrow> sql_writes (h, s) (sql_abs (h, s)) m' \<and>
      (\<exists>r. a_skills (sql_abs (h, s)) i = Some (scanSkill r, k_archive r) \<and> x = f r \<and> scoped u (k_user_id r))"
    and "query_skill_row c f (h, s) = (Inl e, m') \<Longrightarrow> sql_writes (h, s) (sql_abs (h, s)) m' \<and>
      fails_with (\<not> owned_skill (a_skills (sql_abs (h, s))) i u) (\<not> sql_healthy s) e"
proof -
  have ok: "tables_ok s (tick (sq_db s))" using inv by (simp add: sql_inv_def)
  note facts = c_def select_skill_key [OF ok] sql_tick(1) [OF inv]
  have abs: "a_skills (sql_abs (h, s)) i = map_option (\<lambda>r. (scanSkill r, k_archive r)) (index k_id (t_skills (sq_db s)) i)"
    by (simp add: sql_abs_def tables_abs_def)
  show "query_skill_row c f (h, s) = (Inr x, m') \<Longrightarrow> sql_writes (h, s) (sql_abs (h, s)) m' \<and>
      (\<exists>r. a_skills (sql_abs (h, s)) i = Some (scanSkill r, k_archive r) \<and> x = f r \<and> scoped u (k_user_id r))"
    by (auto simp: facts abs split: prod.splits sum.splits list.splits option.splits if_splits dest!: db_query_ok)
  show "query_skill_row c f (h, s) = (Inl e, m') \<Longrightarrow> sql_writes (h, s) (sql_abs (h, s)) m' \<and>
      fails_with (\<not> owned_skill (a_skills (sql_abs (h, s))) i u) (\<not> sql_healthy s) e"
    by (auto simp: facts abs scanSkill_def fails_with_def owned_skill_def
        split: prod.splits sum.splits list.splits option.splits if_splits
        dest!: db_query_ok dest: sql_query_err [OF inv])
qed

lemma sql_upsert_step:
  assumes inv: "sql_inv (h, s)" and ok: "upsert_skill (skill_to_row a k) (tick (sq_db s)) = Inr (1, d')" "tables_ok s d'"
      "db_faults d' = db_faults (tick (sq_db s))"
    and row: "select_skills (\<lambda>r. k_user_id r = skill_UserID k \<and> k_name r = skill_Name k) d' = [r]"
  shows "SQLStore_UpsertSkill k a (h, s) = ((None, k'), m') \<Longrightarrow> sql_writes (h, s) (tables_abs s d') m' \<and>
      k' = k\<lparr>skill_ID := k_id r, skill_CreatedAt := unix_Time (k_created_at r)\<rparr>"
    and "SQLStore_UpsertSkill k a (h, s) = ((Some e, k'), m') \<Longrightarrow>
      (sql_writes (h, s) (tables_abs s d') m' \<or> sql_writes (h, s) (sql_abs (h, s)) m') \<and> \<not> sql_healthy s"
proof -
  have sel: "select_skills c (tick d) = select_skills c d" for c d
    by (simp add: select_skills_def)
  have w: "sql_writes (h, s) (tables_abs s d') (h, s\<lparr>sq_db := tick d'\<rparr>)"
    using ok inv by (simp add: sql_writes_iff sql_healthy_def tick_healthy db_healthy_def)
      (metis db_healthy_def tick_healthy)
  have sick: "\<not> db_healthy d' \<Longrightarrow> \<not> sql_healthy s"
    using ok(3) tick_healthy [of "sq_db s"] by (auto simp: sql_healthy_def db_healthy_def)
  show "SQLStore_UpsertSkill k a (h, s) = ((None, k'), m') \<Longrightarrow> sql_writes (h, s) (tables_abs s d') m' \<and>
      k' = k\<lparr>skill_ID := k_id r, skill_CreatedAt := unix_Time (k_created_at r)\<rparr>"
    using ok row w
    by (auto simp: SQLStore_getSkillByName_def sel scanSkill_def split: prod.splits sum.splits list.splits
        dest!: db_exec_ok db_query_ok)
  show "SQLStore_UpsertSkill k a (h, s) = ((Some e, k'), m') \<Longrightarrow>
      (sql_writes (h, s) (tables_abs s d') m' \<or> sql_writes (h, s) (sql_abs (h, s)) m') \<and> \<not> sql_healthy s"
    using ok row w sick exec_law(2) [of h s "upsert_skill (skill_to_row a k)", OF inv ok]
    by (auto simp: SQLStore_getSkillByName_def sel store_base.crashes_def split: prod.splits sum.splits list.splits
        dest!: db_exec_ok db_query_ok db_query_err)
qed

lemma sql_UpsertSkill_new:
  assumes inv: "sql_inv (h, s)" and new: "a_skills (sql_abs (h, s)) (skill_ID k) = None"
    "\<forall>i k0 a0. a_skills (sql_abs (h, s)) i = Some (k0, a0) \<longrightarrow> \<not> same_skill k0 k"
  shows "SQLStore_UpsertSkill k a (h, s) = ((None, k'), m') \<Longrightarrow>
      sql_writes (h, s) ((sql_abs (h, s))\<lparr>a_skills := (a_skills (sql_abs (h, s)))(skill_ID k \<mapsto> (norm_skill second k, a))\<rparr>) m' \<and>
      k' = k\<lparr>skill_CreatedAt := second (skill_CreatedAt k)\<rparr>"
    and "SQLStore_UpsertSkill k a (h, s) = ((Some e, k'), m') \<Longrightarrow>
      sql_writes (h, s) (sql_abs m') m' \<and> a_envs (sql_abs m') = a_envs (sql_abs (h, s)) \<and>
      a_snaps (sql_abs m') = a_snaps (sql_abs (h, s)) \<and>
      skill_diff k (a_skills (sql_abs (h, s))) (a_skills (sql_abs m')) \<and> \<not> sql_healthy s"
proof -
  let ?A = "(sql_abs (h, s))\<lparr>a_skills := (a_skills (sql_abs (h, s)))(skill_ID k \<mapsto> (norm_skill second k, a))\<rparr>"
  have ok: "tables_ok s (tick (sq_db s))" using inv by (simp add: sql_inv_def)
  obtain d' where d': "upsert_skill (skill_to_row a k) (tick (sq_db s)) = Inr (1, d')" "tables_ok s d'"
    "db_faults d' = db_faults (tick (sq_db s))" "tables_abs s d' = ?A"
    "select_skills (\<lambda>r. k_user_id r = skill_UserID k \<and> k_name r = skill_Name k) d' = [skill_to_row a k]"
    using upsert_skill_new_law [OF ok, of k a] new unfolding sql_abs_def snd_conv tables_tick by blast
  have cr: "unix_Time (k_created_at (skill_to_row a k)) = second (skill_CreatedAt k)"
    by (simp add: skill_to_row_def second_def)
  note step = sql_upsert_step [OF inv d'(1-3,5), unfolded d'(4)]
  show "SQLStore_UpsertSkill k a (h, s) = ((None, k'), m') \<Longrightarrow> sql_writes (h, s) ?A m' \<and>
      k' = k\<lparr>skill_CreatedAt := second (skill_CreatedAt k)\<rparr>"
    using step(1) cr by (fastforce simp del: SQLStore_UpsertSkill.simps)
  show "sql_writes (h, s) (sql_abs m') m' \<and> a_envs (sql_abs m') = a_envs (sql_abs (h, s)) \<and>
      a_snaps (sql_abs m') = a_snaps (sql_abs (h, s)) \<and>
      skill_diff k (a_skills (sql_abs (h, s))) (a_skills (sql_abs m')) \<and> \<not> sql_healthy s"
    if "SQLStore_UpsertSkill k a (h, s) = ((Some e, k'), m')"
    using step(2) [OF that] new by (auto simp: store_base.writes_def skill_diff_def same_skill_def split: if_splits)
qed

lemma sql_UpsertSkill_old:
  assumes inv: "sql_inv (h, s)" and old: "a_skills (sql_abs (h, s)) i = Some (k0, a0)" "same_skill k0 k"
  shows "SQLStore_UpsertSkill k a (h, s) = ((None, k'), m') \<Longrightarrow>
      sql_writes (h, s) ((sql_abs (h, s))\<lparr>a_skills := (a_skills (sql_abs (h, s)))(i \<mapsto>
        (k0\<lparr>skill_SizeBytes := skill_SizeBytes k, skill_UpdatedAt := second (skill_UpdatedAt k)\<rparr>, a))\<rparr>) m' \<and>
      k' = k\<lparr>skill_ID := i, skill_CreatedAt := skill_CreatedAt k0\<rparr>"
    and "SQLStore_UpsertSkill k a (h, s) = ((Some e, k'), m') \<Longrightarrow>
      sql_writes (h, s) (sql_abs m') m' \<and> a_envs (sql_abs m') = a_envs (sql_abs (h, s)) \<and>
      a_snaps (sql_abs m') = a_snaps (sql_abs (h, s)) \<and>
      skill_diff k (a_skills (sql_abs (h, s))) (a_skills (sql_abs m')) \<and> \<not> sql_healthy s"
proof -
  let ?A = "(sql_abs (h, s))\<lparr>a_skills := (a_skills (sql_abs (h, s)))(i \<mapsto>
        (k0\<lparr>skill_SizeBytes := skill_SizeBytes k, skill_UpdatedAt := second (skill_UpdatedAt k)\<rparr>, a))\<rparr>"
  have ok: "tables_ok s (tick (sq_db s))" using inv by (simp add: sql_inv_def)
  obtain d' r where d': "upsert_skill (skill_to_row a k) (tick (sq_db s)) = Inr (1, d')" "tables_ok s d'"
    "db_faults d' = db_faults (tick (sq_db s))" "tables_abs s d' = ?A"
    "select_skills (\<lambda>r. k_user_id r = skill_UserID k \<and> k_name r = skill_Name k) d' =
      [rewritten_row (skill_to_row a k) r]" "k_id r = i" "scanSkill r = k0"
    using upsert_skill_old_law [OF ok, of i k0 a0 k a] old unfolding sql_abs_def snd_conv tables_tick by blast
  have cr: "unix_Time (k_created_at (rewritten_row (skill_to_row a k) r)) = skill_CreatedAt k0"
    using d'(7) by (auto simp: rewritten_row_def scanSkill_def)
  note step = sql_upsert_step [OF inv d'(1-3,5), unfolded d'(4)]
  show "SQLStore_UpsertSkill k a (h, s) = ((None, k'), m') \<Longrightarrow> sql_writes (h, s) ?A m' \<and>
      k' = k\<lparr>skill_ID := i, skill_CreatedAt := skill_CreatedAt k0\<rparr>"
    using step(1) cr d'(6) by (fastforce simp del: SQLStore_UpsertSkill.simps)
  show "sql_writes (h, s) (sql_abs m') m' \<and> a_envs (sql_abs m') = a_envs (sql_abs (h, s)) \<and>
      a_snaps (sql_abs m') = a_snaps (sql_abs (h, s)) \<and>
      skill_diff k (a_skills (sql_abs (h, s))) (a_skills (sql_abs m')) \<and> \<not> sql_healthy s"
    if "SQLStore_UpsertSkill k a (h, s) = ((Some e, k'), m')"
    using step(2) [OF that] old by (auto simp: store_base.writes_def skill_diff_def same_skill_def split: if_splits)
qed

interpretation sql: skill_store sql_store sql_abs sql_inv sql_healthy second real_column json_norm sql_expired
proof (unfold_locales, goal_cases)
  case (1 m i k a)
  then show ?case by (rule sql_key)
next
  case (2 m i k a j k' a')
  let ?T = "t_skills (sq_db (snd m))"
  have inj: "inj_on (\<lambda>r. (k_user_id r, k_name r)) (set ?T)"
    using 2(1) by (simp add: sql_inv_def tables_ok_def distinct_map)
  obtain r r' where r: "index k_id ?T i = Some r" "scanSkill r = k" "index k_id ?T j = Some r'" "scanSkill r' = k'"
    using 2(2,3) by (auto simp: sql_abs_def tables_abs_def)
  have "(k_user_id r, k_name r) = (k_user_id r', k_name r')"
    using 2(4) r(2,4) by (auto simp: same_skill_def scanSkill_def)
  with inj have "r = r'"
    using index_key [OF r(1)] index_key [OF r(3)] by (simp add: inj_on_def)
  then show ?case
    using index_key [OF r(1)] index_key [OF r(3)] by simp
next
  case (3 m k a k' m')
  then show ?case using sql_UpsertSkill_new(1) [of "fst m" "snd m" k a k' m'] by simp
next
  case (4 m k i k0 a0 a k' m')
  then show ?case using sql_UpsertSkill_old(1) [of "fst m" "snd m" i k0 a0 k a k' m'] by simp
next
  case (5 m k a e k' m')
  then show ?case
    using sql_UpsertSkill_new(2) [of "fst m" "snd m" k a e k' m'] sql_UpsertSkill_old(2) [of "fst m" "snd m" _ _ _ k a e k' m']
    by (simp del: SQLStore_UpsertSkill.simps) blast
next
  case (6 m i u k m')
  then show ?case using sql_GetSkill_law(1) [of "fst m" "snd m" u i scanSkill k m']
    by (auto simp: SQLStore_GetSkill_def scanSkill_def simp del: query_skill_row.simps)
next
  case (7 m i u e m')
  then show ?case by (cases m) (simp add: SQLStore_GetSkill_def sql_GetSkill_law(2) del: query_skill_row.simps)
next
  case (8 m i u a m')
  then show ?case using sql_GetSkill_law(1) [of "fst m" "snd m" u i k_archive a m']
    by (auto simp: SQLStore_GetSkillArchive_def scanSkill_def simp del: query_skill_row.simps)
next
  case (9 m i u e m')
  then show ?case by (cases m) (simp add: SQLStore_GetSkillArchive_def sql_GetSkill_law(2) del: query_skill_row.simps)
next
  case (10 m u ks m')
  obtain h s where m: "m = (h, s)" by (cases m)
  with 10 show ?case unfolding m
    by (intro sql_skill_list_law [where P = "\<lambda>x. scoped u (skill_UserID x)"])
      (auto simp: SQLStore_ListSkills_def and_user_True scanSkill_def)
next
  case (11 m u e m')
  then show ?case
    by (cases m) (auto simp: SQLStore_ListSkills_def split: prod.splits sum.splits dest: sql_query_err)
next
  case (12 m t ks m')
  obtain h s where m: "m = (h, s)" by (cases m)
  with 12 show ?case unfolding m
    by (intro sql_skill_list_law [where P = "\<lambda>x. skill_TenantID x = t"])
      (auto simp: SQLStore_ListSkillsByTenant_def scanSkill_def)
next
  case (13 m t e m')
  then show ?case
    by (cases m) (auto simp: SQLStore_ListSkillsByTenant_def split: prod.splits sum.splits dest: sql_query_err)
next
  case (14 m i u m')
  obtain h s where m: "m = (h, s)" by (cases m)
  then have "tables_ok s (tick (sq_db s))" using 14(1) by (simp add: sql_inv_def)
  from count_law(1) [where st = "delete_skills (and_user k_user_id u (\<lambda>r. k_id r = i))", OF 14(1) [unfolded m]
      delete_skills_law [OF this], unfolded tables_tick sql_abs_def snd_conv] 14(2) show ?case
    unfolding m sql_store_sel SQLStore_DeleteSkill_def sql_abs_def snd_conv by blast
next
  case (15 m i u e m')
  obtain h s where m: "m = (h, s)" by (cases m)
  then have "tables_ok s (tick (sq_db s))" using 15(1) by (simp add: sql_inv_def)
  from count_law(2) [where st = "delete_skills (and_user k_user_id u (\<lambda>r. k_id r = i))", OF 15(1) [unfolded m]
      delete_skills_law [OF this], unfolded tables_tick sql_abs_def snd_conv] 15(2) show ?case
    unfolding m sql_store_sel SQLStore_DeleteSkill_def sql_abs_def snd_conv by blast
qed

interpretation sql: store sql_store sql_abs sql_inv sql_healthy second real_column json_norm sql_expired
  by unfold_locales

end
