(* ===== verification/Stores.thy ===== *)
theory Stores
  imports Engine_Invariant Memory_Store SQL_Store
begin

text \<open>
  The services, the router and the reaper on the two stores of the program: the client lemmas of
  the store contract, interpreted for the memory store and for the SQL store.
\<close>

interpretation mem_svc: store_client memory_store mem_abs mem_inv "\<lambda>_. True" id "\<lambda>_. id" "\<lambda>_. id" mem_expired
  by (rule store_client.intro) (rule mem.store_axioms)

interpretation sql_svc: store_client sql_store sql_abs sql_inv sql_healthy second real_column json_norm sql_expired
  by (rule store_client.intro) (rule sql.store_axioms)

section \<open>A small deployment\<close>

text \<open>Two tenants, one environment each, on the memory store with the engine of the tests.  The
  hash and the UUIDs of the example are readable strings.\<close>

definition ex_hashing :: hashing where
  "ex_hashing = \<lparr>sha256_hex = (\<lambda>k. ''#'' @ k), uuid_NewSHA1 = (\<lambda>ns d. ''u/'' @ ns @ ''/'' @ d), uuid_Parse = Some\<rparr>"

definition ex_tenant :: "string \<Rightarrow> string" where
  "ex_tenant key = ''u/'' @ haasNamespace @ ''/#'' @ key"

definition ex_cfg :: Config where
  "ex_cfg = Load (\<lambda>_. []) (\<lambda>_. None) (\<lambda>_. None)"

definition ex_env :: "string \<Rightarrow> string \<Rightarrow> string \<Rightarrow> Environment" where
  "ex_env i key cid = \<lparr>env_ID = i, env_TenantID = ex_tenant key, env_UserID = ex_tenant key,
     env_Spec = \<lparr>Image = ''alpine:3'', CPU = Fin 1, MemoryMB = 2048, DiskMB = 4096, NetworkPolicy = NetworkNone,
       EnvVars = None\<rparr>,
     env_Status = StatusRunning, env_ContainerID = cid, env_CreatedAt = 0, env_LastUsedAt = 0,
     env_ExpiresAt = seconds 3600\<rparr>"

definition ex_heap :: heap where
  "ex_heap = [ex_env ''env_a'' ''alice'' ''ca'', ex_env ''env_b'' ''bob'' ''cb'']"

definition ex_memory :: MemoryStore where
  "ex_memory = (NewMemoryStore (seconds 600) (seconds 3600))\<lparr>ms_envs := [(''env_a'', 0), (''env_b'', 1)]\<rparr>"

definition ex_mock :: "unit MockEngine" where
  "ex_mock = \<lparr>me_CreateContainerFn = None, me_StartContainerFn = None, me_StopContainerFn = None, me_ExecFn = None,
     me_ExecInteractiveFn = None, me_ExecExitCodeFn = None, me_ListFilesFn = None, me_ReadFileFn = None,
     me_WriteFileFn = None, me_ExtractArchiveFn = None, me_SnapshotContainerFn = None,
     me_DeleteSnapshotImageFn = None, me_ExtractedArchives = [], me_user = ()\<rparr>"

definition ex_world :: "(MemoryStore, unit MockEngine) world" where
  "ex_world = \<lparr>w_mem = (ex_heap, ex_memory), w_eng = ex_mock\<rparr>"

definition ex_request :: "string \<Rightarrow> string \<Rightarrow> string \<Rightarrow> request" where
  "ex_request meth path auth = \<lparr>rq_Method = meth, rq_Path = path,
     rq_Header = (\<lambda>k. if k = ''Authorization'' then auth else []), rq_Query = (\<lambda>_. []),
     rq_Body = \<lparr>rd_data = [], rd_err = None\<rparr>, rq_Writes = None, rq_ctx_request_id = None,
     rq_ctx_tenant_id = None, rq_ctx_user_id = None\<rparr>"

definition ex_api :: "'s Store \<Rightarrow> ('s, unit MockEngine) api" where
  "ex_api S = \<lparr>api_store = S, api_engine = mock_engine, api_cfg = ex_cfg, api_hashing = ex_hashing,
     api_now = seconds 60, api_uuid = ''0123-456789abcdef'',
     api_decode_create = (\<lambda>_. Inl io_EOF), api_decode_exec = (\<lambda>_. Inl io_EOF), api_decode_label = (\<lambda>_. []),
     api_TypeByExtension = (\<lambda>_. []), api_FormatMediaType = (\<lambda>f. ''attachment; filename='' @ f),
     api_Quote = (\<lambda>s. s), api_gunzip = ss_gunzip example_skills, api_tar = ss_tar_entries example_skills,
     api_upgrade = (\<lambda>_. None), api_ws_events = [],
     api_match = (\<lambda>table meth path.
        if path = ''/v1/environments/env_a/'' then Some (if meth = ''GET'' then Env_Get else Env_Destroy, ''env_a'')
        else if path = ''/healthz'' then Some (Healthz, []) else None),
     api_grouped = (\<lambda>gs path. \<exists>g \<in> set gs. strings_HasPrefix path (g @ ''/'')),
     api_no_match = (\<lambda>_ _. WriteHeader 404)\<rparr>"

lemma ex_uuid_ok [simp]: "uuid_ok ex_hashing"
  by (simp add: uuid_ok_def ex_hashing_def)

lemma TrimSpace_Nil [simp]: "strings_TrimSpace [] = []"
  by (simp add: strings_TrimSpace_def trim_lead.simps)

lemma ex_caller [simp]:
  "caller ex_hashing [''alice'', ''bob''] (ex_request m p ''Bearer alice'') = Some (ex_tenant ''alice'', ex_tenant ''alice'')"
  "caller ex_hashing [''alice'', ''bob''] (ex_request m p ''Bearer bob'') = Some (ex_tenant ''bob'', ex_tenant ''bob'')"
  "caller ex_hashing [''alice'', ''bob''] (ex_request m p ''Bearer eve'') = None"
  by (simp_all add: caller_def ex_request_def strings_TrimPrefix_def strings_HasPrefix_def HashKey_def deriveUserID_def
      ex_hashing_def ex_tenant_def Let_def)

lemma ex_api_fields [simp]:
  "api_hashing (ex_api S) = ex_hashing" "api_store (ex_api S) = S"
  "api_match (ex_api S) t m ''/v1/environments/env_a/'' = Some (if m = ''GET'' then Env_Get else Env_Destroy, ''env_a'')"
  "api_uuid (ex_api S) = ''0123-456789abcdef''"
  by (simp_all add: ex_api_def)

lemma ex_request_fields [simp]:
  "rq_Method (ex_request m p a) = m" "rq_Path (ex_request m p a) = p"
  by (simp_all add: ex_request_def)

lemma ex_mem_inv [simp]: "mem_inv (w_mem ex_world)"
  by (simp add: ex_world_def ex_memory_def NewMemoryStore_def ex_heap_def ex_env_def envs_ok_def snaps_ok_def skills_ok_def)

lemma ex_fresh [simp]: "fresh_IDs ''0123-456789abcdef'' (mem_abs (w_mem ex_world))"
  by (simp add: fresh_IDs_def ex_world_def ex_memory_def NewMemoryStore_def new_ID_def)

text \<open>The same records in a database, with every column as the store writes it.\<close>

definition ex_sql :: SQLStore where
  "ex_sql = \<lparr>sq_db = \<lparr>t_users = [], t_api_keys = [], t_environments = [], t_snapshots = [], t_skills = [],
       db_faults = []\<rparr>,
     sq_isPG = True, sq_idleTimeout = seconds 600, sq_maxLifetime = seconds 3600,
     sq_json_Marshal = (\<lambda>_. Inr ''[]''), sq_json_Unmarshal = (\<lambda>_. Inr (Some []))\<rparr>"

definition ex_database :: SQLStore where
  "ex_database = ex_sql\<lparr>sq_db := (sq_db ex_sql)\<lparr>t_environments := map (env_to_row ex_sql ''{}'') ex_heap\<rparr>\<rparr>"

definition ex_sql_world :: "(SQLStore, unit MockEngine) world" where
  "ex_sql_world = \<lparr>w_mem = ([], ex_database), w_eng = ex_mock\<rparr>"

lemma row_of_env:
  "r_id (env_to_row s t e) = env_ID e" "decode_env s' (env_to_row s ''{}'' e) \<noteq> None"
  by (simp_all add: env_to_row_def decode_env_def scanEnv_def unmarshalEnvVars_def)

lemma ex_rows: "t_environments (sq_db ex_database) = map (env_to_row ex_sql ''{}'') ex_heap"
  "t_snapshots (sq_db ex_database) = []" "t_skills (sq_db ex_database) = []" "db_faults (sq_db ex_database) = []"
  by (simp_all add: ex_database_def ex_sql_def)

lemma ex_heap_IDs: "map env_ID ex_heap = [''env_a'', ''env_b'']"
  by (simp add: ex_heap_def ex_env_def)

lemma ex_sql_inv [simp]: "sql_inv (w_mem ex_sql_world)"
proof -
  have j: "sq_json_Marshal ex_database = (\<lambda>_. Inr ''[]'')" "sq_json_Unmarshal ex_database = (\<lambda>_. Inr (Some []))"
    by (simp_all add: ex_database_def ex_sql_def)
  have "\<exists>t w. marshalEnvVars ex_database v = Inr t \<and> unmarshalEnvVars ex_database t = Inr w" for v
  proof (cases "v = None \<or> v = Some []")
    case True
    then show ?thesis by (intro exI [of _ "''{}''"] exI [of _ None]) (auto simp: marshalEnvVars_def unmarshalEnvVars_def)
  next
    case False
    then obtain y where "v = Some y" "y \<noteq> []" by auto
    then show ?thesis
      by (intro exI [of _ "''[]''"] exI [of _ "Some []"]) (simp add: marshalEnvVars_def unmarshalEnvVars_def j)
  qed
  then have "codec_ok ex_database" by (simp add: codec_ok_def)
  then show ?thesis
    by (simp add: sql_inv_def ex_sql_world_def tables_ok_def ex_rows row_of_env comp_def ex_heap_IDs del: not_None_eq)
qed

lemma ex_sql_healthy [simp]: "sql_healthy (snd (w_mem ex_sql_world))"
  by (simp add: sql_healthy_def db_healthy_def ex_sql_world_def ex_rows)

lemma ex_sql_fresh [simp]: "fresh_IDs ''0123-456789abcdef'' (sql_abs (w_mem ex_sql_world))"
proof -
  have "new_ID ''env_'' ''0123-456789abcdef'' \<notin> set (map env_ID ex_heap)"
    by (simp add: ex_heap_IDs new_ID_def)
  then have "index r_id (map (env_to_row ex_sql ''{}'') ex_heap) (new_ID ''env_'' ''0123-456789abcdef'') = None"
    by (auto simp: index_def map_of_eq_None_iff row_of_env)
  then show ?thesis
    by (simp add: fresh_IDs_def ex_sql_world_def sql_abs_def tables_abs_def ex_rows) (simp add: index_def)
qed

section \<open>A small Docker daemon\<close>

text \<open>A daemon that keeps the configurations of its containers and the files written into them.\<close>

record ex_daemon =
  dm_containers :: "(string \<times> HostConfig) list"
  dm_files :: "((string \<times> string list) \<times> bytes) list"

text \<open>Its archives: a header block is the name and, in unary, the size.\<close>

definition ex_formats :: formats where
  "ex_formats = \<lparr>fmt_tar_header = (\<lambda>h. if CHR 0x00 \<in> set (tf_Name h) then Inl (Opaque ''bad name'')
       else Inr (tf_Name h @ CHR 0x00 # replicate (nat (tf_Size h)) (CHR ''x'') @ [CHR 0x00])),
     fmt_tar_Next = Inr, fmt_StdCopy = (\<lambda>r. Inr (rd_data r, []))\<rparr>"

definition ex_untar :: "bytes \<Rightarrow> string \<times> bytes" where
  "ex_untar t = (let name = takeWhile (\<lambda>x. x \<noteq> CHR 0x00) t;
       rest = drop (Suc (length name)) t; n = length (takeWhile (\<lambda>x. x \<noteq> CHR 0x00) rest)
     in (name, take n (drop (Suc n) rest)))"

lemma ex_untar_header: "CHR 0x00 \<notin> set name \<Longrightarrow>
    ex_untar (name @ CHR 0x00 # replicate (length data) (CHR ''x'') @ CHR 0x00 # data @ rest) = (name, data)"
proof -
  have t: "c \<notin> set a \<Longrightarrow> takeWhile (\<lambda>x. x \<noteq> c) (a @ c # b) = a" for a b and c :: char
    by (induction a) auto
  assume "CHR 0x00 \<notin> set name"
  then show ?thesis by (simp add: ex_untar_def t Let_def)
qed

definition ex_client :: "ex_daemon DockerClient" where
  "ex_client = \<lparr>dc_ImageInspectWithRaw = (\<lambda>_ d. (None, d)), dc_ImagePull = (\<lambda>_ d. (None, d)),
     dc_ContainerCreate = (\<lambda>_ hc name d. (Inr name, d\<lparr>dm_containers := (name, hc) # dm_containers d\<rparr>)),
     dc_ContainerStart = (\<lambda>_ d. (None, d)), dc_ContainerStop = (\<lambda>_ _ d. (None, d)),
     dc_ContainerRemove = (\<lambda>c _ _ d. (None, d\<lparr>dm_containers := filter (\<lambda>x. fst x \<noteq> c) (dm_containers d)\<rparr>)),
     dc_ContainerExecCreate = (\<lambda>_ _ d. (Inr ''exec'', d)), dc_ContainerExecAttach = (\<lambda>_ _ d. (Inr \<lparr>rd_data = [], rd_err = None\<rparr>, d)),
     dc_ConnWrite = (\<lambda>_ p d. (Inr (length p), d)), dc_ConnClose = (\<lambda>_ d. (None, d)),
     dc_ContainerExecResize = (\<lambda>_ _ _ d. (None, d)), dc_ContainerExecInspect = (\<lambda>_ d. (Inr 0, d)),
     dc_CopyFromContainer = (\<lambda>c p d. (case map_of (dm_files d) (c, path_elems p) of
        None \<Rightarrow> (Inl (Opaque ''no such file''), d) | Some t \<Rightarrow> (Inr \<lparr>rd_data = t, rd_err = None\<rparr>, d))),
     dc_CopyToContainer = (\<lambda>c dir t d. (None, d\<lparr>dm_files := ((c, path_elems dir @ [fst (ex_untar t)]),
        snd (ex_untar t)) # dm_files d\<rparr>)),
     dc_ContainerCommit = (\<lambda>_ _ d. (Inr ''sha256:0'', d)), dc_ImageRemove = (\<lambda>_ _ d. (None, d))\<rparr>"

lemma ex_keeps_files: "keeps_files ex_client ex_formats (\<lambda>d c es. map_of (dm_files d) (c, es))"
proof -
  have w: "single_file_tar ex_formats name data = Inr buf \<Longrightarrow> ex_untar buf = (name, data)" for name data buf
    using ex_untar_header [of name data]
    by (auto simp: single_file_tar_def ex_formats_def tar_Write_def tar_Close_def Let_def split: if_splits)
  show ?thesis
    unfolding keeps_files_def by (auto simp: ex_client_def w) (simp_all add: ex_formats_def)
qed

lemma ex_client_keeps: "client_keeps (\<lambda>d. \<forall>(c, hc) \<in> set (dm_containers d). confined hc) ex_client"
  by (auto simp: client_keeps_def ex_client_def split: option.splits)

definition ex_docker_world :: "(SQLStore, ex_daemon) world" where
  "ex_docker_world = \<lparr>w_mem = w_mem ex_sql_world, w_eng = \<lparr>dm_containers = [], dm_files = []\<rparr>\<rparr>"

definition ex_docker_api :: "'s Store \<Rightarrow> ('s, ex_daemon) api" where
  "ex_docker_api S = \<lparr>api_store = S, api_engine = docker_engine ex_client ex_formats, api_cfg = ex_cfg, api_hashing = ex_hashing,
     api_now = seconds 60, api_uuid = ''0123-456789abcdef'',
     api_decode_create = (\<lambda>_. Inr (\<lparr>cq_Image = ''alpine:3'', cq_CPU = Fin 0, cq_MemoryMB = 0, cq_DiskMB = 0,
       cq_NetworkPolicy = [], cq_EnvVars = None, cq_SnapshotID = []\<rparr>, False)),
     api_decode_exec = (\<lambda>_. Inl io_EOF), api_decode_label = (\<lambda>_. []),
     api_TypeByExtension = (\<lambda>_. []), api_FormatMediaType = (\<lambda>f. ''attachment; filename='' @ f),
     api_Quote = (\<lambda>s. s), api_gunzip = ss_gunzip example_skills, api_tar = ss_tar_entries example_skills,
     api_upgrade = (\<lambda>_. None), api_ws_events = [],
     api_match = (\<lambda>table meth path. if meth = ''POST'' \<and> path = ''/v1/environments/'' then Some (Env_Create, []) else None),
     api_grouped = (\<lambda>gs path. True), api_no_match = (\<lambda>_ _. WriteHeader 404)\<rparr>"

lemma ex_docker_api_fields [simp]:
  "api_hashing (ex_docker_api S) = ex_hashing" "api_store (ex_docker_api S) = S"
  "api_engine (ex_docker_api S) = docker_engine ex_client ex_formats" "api_uuid (ex_docker_api S) = ''0123-456789abcdef''"
  by (simp_all add: ex_docker_api_def)

text \<open>A request for the smallest environment.\<close>

definition ex_input :: CreateEnvironmentInput where
  "ex_input = \<lparr>ci_Image = ''alpine:3'', ci_CPU = Fin 0, ci_MemoryMB = 0, ci_DiskMB = 0, ci_NetworkPolicy = [],
     ci_EnvVars = None, ci_SnapshotID = []\<rparr>"

lemma ex_defaults:
  "apply_defaults ex_cfg ex_input = ex_input\<lparr>ci_CPU := Fin 1, ci_MemoryMB := 2048, ci_DiskMB := 4096,
     ci_NetworkPolicy := ''none''\<rparr>"
  by (simp add: apply_defaults_def ex_cfg_def ex_input_def Load_def envOrDefaultFloat_def envOrDefaultInt_def envOrDefault_def)

lemma ex_limits: "check_limits (ex_input\<lparr>ci_CPU := Fin 1, ci_MemoryMB := 2048, ci_DiskMB := 4096,
     ci_NetworkPolicy := ''none''\<rparr>) = None"
  by (simp add: check_limits_def ex_input_def double_tenth_def NetworkPolicy_Valid_def network_defs)

lemma ex_image: "resolve_image S ex_cfg u ex_input w = (Inr ex_input, w)"
  by (simp add: resolve_image_def ex_input_def ex_cfg_def Load_def envOrDefaultStringSlice_def)

text \<open>The same request on the database succeeds.\<close>

lemma ex_sql_create:
  assumes "env_ID e = new_ID ''env_'' ''0123-456789abcdef''" and "EnvVars (env_Spec e) = None"
  shows "\<exists>s. SQLStore_Create 0 ([e], ex_database) = (None, [e], s)"
proof -
  have "r_id (env_to_row ex_database v e) \<notin> set (map r_id (t_environments (sq_db ex_database)))" for v
    using assms(1) ex_heap_IDs unfolding ex_rows list.map_comp by (simp add: row_of_env comp_def new_ID_def)
  then show ?thesis
    by (simp add: marshalEnvVars_def assms(2) db_exec_def next_fault_def ex_rows insert_environment_def image_image)
qed

lemma ex_sql_created: "\<exists>w. CreateEnvironment sql_store mock_engine ex_cfg 0 ''0123-456789abcdef'' ''t'' ''u'' ex_input ex_sql_world = (Inr 0, w)"
proof -
  let ?e = "build_environment ex_cfg 0 ''0123-456789abcdef'' ''t'' ''u'' (ex_input\<lparr>ci_CPU := Fin 1, ci_MemoryMB := 2048, ci_DiskMB := 4096,
     ci_NetworkPolicy := ''none''\<rparr>)"
  have "env_ID ?e = new_ID ''env_'' ''0123-456789abcdef''" "EnvVars (env_Spec ?e) = None"
    by (simp_all add: build_environment_def ex_input_def)
  from ex_sql_create [OF this] obtain s where c: "SQLStore_Create 0 ([?e], ex_database) = (None, [?e], s)" by blast
  have "CreateEnvironment_record sql_store ex_cfg 0 ''0123-456789abcdef'' ''t'' ''u'' ex_input ex_sql_world =
      (Inr 0, \<lparr>w_mem = ([?e], s), w_eng = ex_mock\<rparr>)"
    using c by (simp add: CreateEnvironment_record_def ex_image ex_defaults ex_limits Let_def alloc_env_def new_env_def on_store_def
        ex_sql_world_def sql_store_def del: SQLStore_Create.simps)
  then show ?thesis
    by (auto simp: CreateEnvironment_def CreateEnvironment_container_def Let_def on_engine_def mock_engine_def MockEngine_StartContainer_def
        MockEngine_CreateContainer_def run_mock_def assign_env_def on_store_def ex_mock_def split: prod.splits option.splits)
qed

end
