(* ===== verification/SDK_Client.thy ===== *)
theory SDK_Client
  imports API
begin

text \<open>
  \<open>pkg/sdk/client.go\<close>: the client of the REST API, one operation per method.  The HTTP client of
  the standard library is the record \<open>http_client\<close> of what it checks and what it does with a
  request on a state of the network; JSON is the record \<open>codecs\<close> of encoders and decoders,
  which \<open>Wire\<close> makes concrete.  The types of \<open>pkg/apitypes\<close> have the fields of the server's, so the
  records are shared.  Closing a body has no effect.
\<close>

section \<open>The network and JSON\<close>

record http_request =
  hr_Method :: string
  hr_URL :: string
  hr_Header :: "(string \<times> string) list"
  hr_Body :: reader

record http_response =
  hp_StatusCode :: int
  hp_Body :: reader

record 'w http_client =
  hc_NewRequest :: "string \<Rightarrow> string \<Rightarrow> goerr option"
  hc_Do :: "http_request \<Rightarrow> 'w \<Rightarrow> (goerr + http_response) \<times> 'w"

text \<open>\<open>hc_NewRequest\<close> is the error of building a request with this method and this URL.  The fields
  of \<open>codecs\<close>: \<open>json.Marshal\<close> of a request, decoding a response from a body, \<open>json.Unmarshal\<close> of an
  event, \<open>json.MarshalIndent\<close> of a result.\<close>

record codecs =
  js_create :: "CreateEnvironmentRequest \<Rightarrow> goerr + bytes"
  js_exec :: "ExecRequest \<Rightarrow> goerr + bytes"
  js_label :: "string \<Rightarrow> goerr + bytes"
  js_ErrorResponse :: "reader \<Rightarrow> goerr + ErrorResponse"
  js_Created :: "reader \<Rightarrow> goerr + CreateEnvironmentResponse"
  js_Environment :: "reader \<Rightarrow> goerr + Environment"
  js_Environments :: "reader \<Rightarrow> goerr + Environment list"
  js_Files :: "reader \<Rightarrow> goerr + FileInfo list"
  js_Snapshot :: "reader \<Rightarrow> goerr + Snapshot"
  js_Snapshots :: "reader \<Rightarrow> goerr + Snapshot list"
  js_Skill :: "reader \<Rightarrow> goerr + Skill"
  js_Skills :: "reader \<Rightarrow> goerr + Skill list"
  js_Installed :: "reader \<Rightarrow> goerr + InstalledSkill list"
  js_event :: "bytes \<Rightarrow> goerr + ExecEvent"
  js_indent :: "json \<Rightarrow> goerr + string"

section \<open>URLs\<close>

text \<open>\<open>url.QueryEscape\<close>, and what a server reads from a query string: \<open>url.QueryUnescape\<close> and
  \<open>url.ParseQuery\<close> without its error.\<close>

definition hex_digits :: string where
  "hex_digits = ''0123456789ABCDEF''"

definition hex_digit :: "nat \<Rightarrow> char" where
  "hex_digit n = hex_digits ! (n mod 16)"

definition unhex :: "char \<Rightarrow> nat option" where
  "unhex c = (let n = of_char c :: nat in
     if 48 \<le> n \<and> n \<le> 57 then Some (n - 48)
     else if 65 \<le> n \<and> n \<le> 70 then Some (n - 55)
     else if 97 \<le> n \<and> n \<le> 102 then Some (n - 87) else None)"

definition query_escape_char :: "char \<Rightarrow> string" where
  "query_escape_char c =
     (if is_alnum c \<or> c \<in> set ''-_.~'' then [c]
      else if c = CHR '' '' then ''+''
      else [CHR ''%'', hex_digit (of_char c div 16), hex_digit (of_char c)])"

definition url_QueryEscape :: "string \<Rightarrow> string" where
  "url_QueryEscape s = concat (map query_escape_char s)"

fun url_QueryUnescape :: "string \<Rightarrow> string option" where
  "url_QueryUnescape [] = Some []"
| "url_QueryUnescape (c # cs) =
     (if c = CHR ''%'' then
        (case cs of
           a # b # cs' \<Rightarrow>
             (case (unhex a, unhex b) of
                (Some x, Some y) \<Rightarrow> map_option ((#) (char_of (16 * x + y))) (url_QueryUnescape cs')
              | _ \<Rightarrow> None)
         | _ \<Rightarrow> None)
      else map_option ((#) (if c = CHR ''+'' then CHR '' '' else c)) (url_QueryUnescape cs))"

definition query_pair :: "string \<Rightarrow> (string \<times> string) option" where
  "query_pair part =
     (if part = [] \<or> CHR '';'' \<in> set part then None
      else case strings_Cut part (CHR ''='') of (k, v, _) \<Rightarrow>
        (case (url_QueryUnescape k, url_QueryUnescape v) of
           (Some k', Some v') \<Rightarrow> Some (k', v')
         | _ \<Rightarrow> None))"

definition url_ParseQuery :: "string \<Rightarrow> string \<Rightarrow> string list" where
  "url_ParseQuery query key =
     map snd (filter (\<lambda>kv. fst kv = key) (List.map_filter query_pair (split_on (CHR ''&'') query)))"

section \<open>Requests\<close>

record Client =
  cl_baseURL :: string
  cl_apiKey :: string
  cl_endUserID :: string

definition Client_New :: "string \<Rightarrow> string \<Rightarrow> Client" where
  "Client_New baseURL apiKey = \<lparr>cl_baseURL = strings_TrimRight baseURL ''/'', cl_apiKey = apiKey, cl_endUserID = []\<rparr>"

definition ForUser :: "Client \<Rightarrow> string \<Rightarrow> Client" where
  "ForUser c externalUserID = c\<lparr>cl_endUserID := strings_TrimSpace externalUserID\<rparr>"

definition readAPIError :: "codecs \<Rightarrow> http_response \<Rightarrow> goerr" where
  "readAPIError J resp =
     (case js_ErrorResponse J (hp_Body resp) of
        Inl _ \<Rightarrow> Opaque (''HTTP '' @ show_int (hp_StatusCode resp))
      | Inr apiErr \<Rightarrow>
          if er_Detail apiErr \<noteq> [] then Opaque (er_Error apiErr @ '': '' @ er_Detail apiErr)
          else Opaque (er_Error apiErr))"

definition send ::
  "'w http_client \<Rightarrow> Client \<Rightarrow> string \<Rightarrow> string \<Rightarrow> (string \<times> string) list \<Rightarrow> reader \<Rightarrow> string \<Rightarrow> 'w \<Rightarrow>
   (goerr + http_response) \<times> 'w" where
  "send T c method path headers body what w =
     (case hc_NewRequest T method (cl_baseURL c @ path) of
        Some err \<Rightarrow> (Inl (Context ''build request'' err), w)
      | None \<Rightarrow>
          (case hc_Do T \<lparr>hr_Method = method, hr_URL = cl_baseURL c @ path, hr_Header = headers, hr_Body = body\<rparr> w of
             (Inl err, w1) \<Rightarrow> (Inl (Context what err), w1)
           | (Inr resp, w1) \<Rightarrow> (Inr resp, w1)))"

definition auth_headers :: "Client \<Rightarrow> (string \<times> string) list" where
  "auth_headers c = (''Authorization'', ''Bearer '' @ cl_apiKey c) #
     (if cl_endUserID c \<noteq> [] then [(''X-Haas-User-ID'', cl_endUserID c)] else [])"

definition no_reader :: reader where
  "no_reader = \<lparr>rd_data = [], rd_err = None\<rparr>"

text \<open>A body is what \<open>json.Marshal\<close> made of the value, if there is one.\<close>

definition Client_do ::
  "'w http_client \<Rightarrow> Client \<Rightarrow> string \<Rightarrow> string \<Rightarrow> (goerr + bytes) option \<Rightarrow> 'w \<Rightarrow> (goerr + http_response) \<times> 'w" where
  "Client_do T c method path body w =
     (case body of
        Some (Inl err) \<Rightarrow> (Inl (Context ''marshal request'' err), w)
      | Some (Inr data) \<Rightarrow>
          send T c method path (auth_headers c @ [(''Content-Type'', ''application/json'')])
            \<lparr>rd_data = data, rd_err = None\<rparr> (''http '' @ method @ '' '' @ path) w
      | None \<Rightarrow> send T c method path (auth_headers c) no_reader (''http '' @ method @ '' '' @ path) w)"

definition raw_headers :: "Client \<Rightarrow> (string \<times> string) list" where
  "raw_headers c = [(''Authorization'', ''Bearer '' @ cl_apiKey c), (''Content-Type'', ''application/octet-stream'')] @
     (if cl_endUserID c \<noteq> [] then [(''X-Haas-User-ID'', cl_endUserID c)] else [])"

definition Client_doRaw ::
  "'w http_client \<Rightarrow> Client \<Rightarrow> string \<Rightarrow> string \<Rightarrow> reader \<Rightarrow> 'w \<Rightarrow> (goerr + http_response) \<times> 'w" where
  "Client_doRaw T c method path body w =
     send T c method path (raw_headers c) body (''http '' @ method @ '' '' @ path) w"

text \<open>The end of every method: the status it expects, then the decoder of its result.\<close>

definition expect ::
  "codecs \<Rightarrow> int \<Rightarrow> (reader \<Rightarrow> goerr + 'a) \<Rightarrow> (goerr + http_response) \<times> 'w \<Rightarrow> (goerr + 'a) \<times> 'w" where
  "expect J code dec answer =
     (case answer of
        (Inl err, w) \<Rightarrow> (Inl err, w)
      | (Inr resp, w) \<Rightarrow>
          if hp_StatusCode resp \<noteq> code then (Inl (readAPIError J resp), w)
          else (dec (hp_Body resp), w))"

definition decoded :: "(reader \<Rightarrow> goerr + 'a) \<Rightarrow> reader \<Rightarrow> goerr + 'a" where
  "decoded dec r = (case dec r of Inl err \<Rightarrow> Inl (Context ''decode response'' err) | Inr x \<Rightarrow> Inr x)"

definition ignored :: "reader \<Rightarrow> goerr + unit" where
  "ignored r = Inr ()"

section \<open>Environments\<close>

definition Client_CreateEnvironment ::
  "'w http_client \<Rightarrow> codecs \<Rightarrow> Client \<Rightarrow> CreateEnvironmentRequest \<Rightarrow> 'w \<Rightarrow> (goerr + CreateEnvironmentResponse) \<times> 'w" where
  "Client_CreateEnvironment T J c req w =
     expect J 201 (decoded (js_Created J)) (Client_do T c ''POST'' ''/v1/environments'' (Some (js_create J req)) w)"

definition Client_ListEnvironments ::
  "'w http_client \<Rightarrow> codecs \<Rightarrow> Client \<Rightarrow> 'w \<Rightarrow> (goerr + Environment list) \<times> 'w" where
  "Client_ListEnvironments T J c w =
     expect J 200 (decoded (js_Environments J)) (Client_do T c ''GET'' ''/v1/environments'' None w)"

definition Client_GetEnvironment ::
  "'w http_client \<Rightarrow> codecs \<Rightarrow> Client \<Rightarrow> string \<Rightarrow> 'w \<Rightarrow> (goerr + Environment) \<times> 'w" where
  "Client_GetEnvironment T J c i w =
     expect J 200 (decoded (js_Environment J)) (Client_do T c ''GET'' (''/v1/environments/'' @ i) None w)"

definition Client_DestroyEnvironment ::
  "'w http_client \<Rightarrow> codecs \<Rightarrow> Client \<Rightarrow> string \<Rightarrow> 'w \<Rightarrow> (goerr + unit) \<times> 'w" where
  "Client_DestroyEnvironment T J c i w =
     expect J 204 ignored (Client_do T c ''DELETE'' (''/v1/environments/'' @ i) None w)"

section \<open>Commands\<close>

record ExecResult =
  res_Stdout :: bytes
  res_Stderr :: bytes
  res_ExitCode :: bytes

text \<open>\<open>bufio.Scanner\<close> over lines: the buffer of 64 KB has to hold a line with its end, so a longer one
  is an error; the last line needs no end, and an end of line may be preceded by a carriage return.\<close>

definition drop_cr :: "bytes \<Rightarrow> bytes" where
  "drop_cr l = (if l \<noteq> [] \<and> last l = CHR 0x0D then butlast l else l)"

definition MaxScanTokenSize :: nat where
  "MaxScanTokenSize = 65536"

definition scan_lines :: "reader \<Rightarrow> bytes list \<times> goerr option" where
  "scan_lines r =
     (let ls = split_on (CHR 0x0A) (rd_data r);
          ls' = (if last ls = [] then butlast ls else ls);
          ok = takeWhile (\<lambda>l. length l < MaxScanTokenSize) ls'
      in (map drop_cr ok,
          if length ok < length ls' then Some (Opaque ''bufio.Scanner: token too long'') else rd_err r))"

fun collect_events :: "codecs \<Rightarrow> bytes list \<Rightarrow> ExecResult \<Rightarrow> ExecResult" where
  "collect_events J [] result = result"
| "collect_events J (line # lines) result =
     (if line = [] then collect_events J lines result
      else case js_event J line of
             Inl _ \<Rightarrow> collect_events J lines result
           | Inr event \<Rightarrow>
               collect_events J lines
                 (if ev_Stream event = ''stdout'' then result\<lparr>res_Stdout := res_Stdout result @ ev_Data event\<rparr>
                  else if ev_Stream event = ''stderr'' then result\<lparr>res_Stderr := res_Stderr result @ ev_Data event\<rparr>
                  else if ev_Stream event = ''exit'' then result\<lparr>res_ExitCode := ev_Data event\<rparr>
                  else result))"

definition exec_result :: "codecs \<Rightarrow> reader \<Rightarrow> goerr + ExecResult" where
  "exec_result J r =
     (case scan_lines r of
        (lines, err) \<Rightarrow>
          let result = collect_events J lines \<lparr>res_Stdout = [], res_Stderr = [], res_ExitCode = []\<rparr> in
          (case err of Some e \<Rightarrow> Inl (Context ''reading exec stream'' e) | None \<Rightarrow> Inr result))"

definition Client_Exec ::
  "'w http_client \<Rightarrow> codecs \<Rightarrow> Client \<Rightarrow> string \<Rightarrow> ExecRequest \<Rightarrow> 'w \<Rightarrow> (goerr + ExecResult) \<times> 'w" where
  "Client_Exec T J c envID req w =
     expect J 200 (exec_result J)
       (Client_do T c ''POST'' (''/v1/environments/'' @ envID @ ''/exec'') (Some (js_exec J req)) w)"

definition Client_ExecStream ::
  "'w http_client \<Rightarrow> codecs \<Rightarrow> Client \<Rightarrow> string \<Rightarrow> ExecRequest \<Rightarrow> 'w \<Rightarrow> (goerr + reader) \<times> 'w" where
  "Client_ExecStream T J c envID req w =
     expect J 200 Inr
       (Client_do T c ''POST'' (''/v1/environments/'' @ envID @ ''/exec'') (Some (js_exec J req)) w)"

section \<open>Files\<close>

definition Client_ListFiles ::
  "'w http_client \<Rightarrow> codecs \<Rightarrow> Client \<Rightarrow> string \<Rightarrow> string \<Rightarrow> 'w \<Rightarrow> (goerr + FileInfo list) \<times> 'w" where
  "Client_ListFiles T J c envID path w =
     expect J 200 (decoded (js_Files J))
       (Client_do T c ''GET'' (''/v1/environments/'' @ envID @ ''/files?path='' @ url_QueryEscape path) None w)"

definition Client_ReadFile ::
  "'w http_client \<Rightarrow> codecs \<Rightarrow> Client \<Rightarrow> string \<Rightarrow> string \<Rightarrow> 'w \<Rightarrow> (goerr + bytes) \<times> 'w" where
  "Client_ReadFile T J c envID path w =
     expect J 200 io_ReadAll
       (Client_do T c ''GET'' (''/v1/environments/'' @ envID @ ''/files/content?path='' @ url_QueryEscape path) None w)"

definition Client_WriteFile ::
  "'w http_client \<Rightarrow> codecs \<Rightarrow> Client \<Rightarrow> string \<Rightarrow> string \<Rightarrow> bytes \<Rightarrow> 'w \<Rightarrow> (goerr + unit) \<times> 'w" where
  "Client_WriteFile T J c envID path content w =
     expect J 204 ignored
       (send T c ''PUT'' (''/v1/environments/'' @ envID @ ''/files/content?path='' @ url_QueryEscape path) (raw_headers c)
          \<lparr>rd_data = content, rd_err = None\<rparr> ''http PUT /files/content'' w)"

section \<open>Snapshots\<close>

definition Client_CreateSnapshot ::
  "'w http_client \<Rightarrow> codecs \<Rightarrow> Client \<Rightarrow> string \<Rightarrow> string \<Rightarrow> 'w \<Rightarrow> (goerr + Snapshot) \<times> 'w" where
  "Client_CreateSnapshot T J c envID label w =
     expect J 201 (decoded (js_Snapshot J))
       (Client_do T c ''POST'' (''/v1/environments/'' @ envID @ ''/snapshots'') (Some (js_label J label)) w)"

definition Client_ListSnapshots ::
  "'w http_client \<Rightarrow> codecs \<Rightarrow> Client \<Rightarrow> 'w \<Rightarrow> (goerr + Snapshot list) \<times> 'w" where
  "Client_ListSnapshots T J c w =
     expect J 200 (decoded (js_Snapshots J)) (Client_do T c ''GET'' ''/v1/snapshots'' None w)"

definition Client_GetSnapshot ::
  "'w http_client \<Rightarrow> codecs \<Rightarrow> Client \<Rightarrow> string \<Rightarrow> 'w \<Rightarrow> (goerr + Snapshot) \<times> 'w" where
  "Client_GetSnapshot T J c i w =
     expect J 200 (decoded (js_Snapshot J)) (Client_do T c ''GET'' (''/v1/snapshots/'' @ i) None w)"

definition Client_DeleteSnapshot ::
  "'w http_client \<Rightarrow> codecs \<Rightarrow> Client \<Rightarrow> string \<Rightarrow> 'w \<Rightarrow> (goerr + unit) \<times> 'w" where
  "Client_DeleteSnapshot T J c i w =
     expect J 204 ignored (Client_do T c ''DELETE'' (''/v1/snapshots/'' @ i) None w)"

definition Client_RestoreSnapshot ::
  "'w http_client \<Rightarrow> codecs \<Rightarrow> Client \<Rightarrow> string \<Rightarrow> CreateEnvironmentRequest \<Rightarrow> 'w \<Rightarrow>
   (goerr + CreateEnvironmentResponse) \<times> 'w" where
  "Client_RestoreSnapshot T J c snapshotID req w =
     Client_CreateEnvironment T J c (req\<lparr>cq_SnapshotID := snapshotID\<rparr>) w"

section \<open>Skills\<close>

definition Client_RegisterSkill ::
  "'w http_client \<Rightarrow> codecs \<Rightarrow> Client \<Rightarrow> string \<Rightarrow> reader \<Rightarrow> 'w \<Rightarrow> (goerr + Skill) \<times> 'w" where
  "Client_RegisterSkill T J c name archive w =
     expect J 201 (decoded (js_Skill J))
       (Client_doRaw T c ''POST'' (''/v1/skills?name='' @ url_QueryEscape name) archive w)"

definition Client_ListSkills ::
  "'w http_client \<Rightarrow> codecs \<Rightarrow> Client \<Rightarrow> 'w \<Rightarrow> (goerr + Skill list) \<times> 'w" where
  "Client_ListSkills T J c w =
     expect J 200 (decoded (js_Skills J)) (Client_do T c ''GET'' ''/v1/skills'' None w)"

definition Client_GetSkill ::
  "'w http_client \<Rightarrow> codecs \<Rightarrow> Client \<Rightarrow> string \<Rightarrow> 'w \<Rightarrow> (goerr + Skill) \<times> 'w" where
  "Client_GetSkill T J c i w =
     expect J 200 (decoded (js_Skill J)) (Client_do T c ''GET'' (''/v1/skills/'' @ i) None w)"

definition Client_DeleteSkill ::
  "'w http_client \<Rightarrow> codecs \<Rightarrow> Client \<Rightarrow> string \<Rightarrow> 'w \<Rightarrow> (goerr + unit) \<times> 'w" where
  "Client_DeleteSkill T J c i w =
     expect J 204 ignored (Client_do T c ''DELETE'' (''/v1/skills/'' @ i) None w)"

definition Client_ListInstalledSkills ::
  "'w http_client \<Rightarrow> codecs \<Rightarrow> Client \<Rightarrow> string \<Rightarrow> 'w \<Rightarrow> (goerr + InstalledSkill list) \<times> 'w" where
  "Client_ListInstalledSkills T J c envID w =
     expect J 200 (decoded (js_Installed J)) (Client_do T c ''GET'' (''/v1/environments/'' @ envID @ ''/skills'') None w)"

definition Client_InstallSkillToEnvironment ::
  "'w http_client \<Rightarrow> codecs \<Rightarrow> Client \<Rightarrow> string \<Rightarrow> string \<Rightarrow> reader \<Rightarrow> 'w \<Rightarrow> (goerr + unit) \<times> 'w" where
  "Client_InstallSkillToEnvironment T J c envID name archive w =
     expect J 204 ignored
       (Client_doRaw T c ''POST'' (''/v1/environments/'' @ envID @ ''/skills?name='' @ url_QueryEscape name) archive w)"

section \<open>Escaping\<close>

lemma hex_char: "n < 16 \<Longrightarrow> unhex (hex_digits ! n) = Some n \<and> is_alnum (hex_digits ! n)"
proof -
  assume "n < 16"
  then have "n \<in> {0, 1, 2, 3, 4, 5, 6, 7, 8, 9, 10, 11, 12, 13, 14, 15}" by (simp; presburger)
  then show ?thesis by (auto simp: hex_digits_def unhex_def is_alnum_def)
qed

lemma unhex_hex [simp]: "unhex (hex_digit n) = Some (n mod 16)"
  using hex_char [of "n mod 16"] by (simp add: hex_digit_def)

lemma char_less: "of_char c < (256 :: nat)"
  by simp

lemma unescape_append: "url_QueryUnescape (query_escape_char c @ s) = map_option ((#) c) (url_QueryUnescape s)"
proof (cases "is_alnum c \<or> c \<in> set ''-_.~''")
  case True
  then have "c \<noteq> CHR ''%''" "c \<noteq> CHR ''+''" by (auto simp: is_alnum_def)
  with True show ?thesis by (simp add: query_escape_char_def)
next
  case False
  have "16 * (of_char c div 16 mod 16) + of_char c mod 16 = (of_char c :: nat)"
    using char_less [of c] less_mult_imp_div_less [of "of_char c :: nat" 16 16] by simp
  with False show ?thesis by (simp add: query_escape_char_def)
qed

lemma QueryUnescape_QueryEscape [simp]: "url_QueryUnescape (url_QueryEscape s) = Some s"
  by (induction s) (simp_all add: url_QueryEscape_def unescape_append)

lemma escape_chars: "d \<in> set (query_escape_char c) \<Longrightarrow> is_alnum d \<or> d \<in> set ''-_.~+%''"
  using hex_char [of "of_char c mod 16"] hex_char [of "of_char c div 16 mod 16"]
  by (auto simp: query_escape_char_def hex_digit_def split: if_splits)

lemma QueryEscape_chars: "d \<in> set (url_QueryEscape s) \<Longrightarrow> is_alnum d \<or> d \<in> set ''-_.~+%''"
  using escape_chars by (auto simp: url_QueryEscape_def)

lemma QueryEscape_plain:
  "CHR ''&'' \<notin> set (url_QueryEscape s)" "CHR ''='' \<notin> set (url_QueryEscape s)" "CHR '';'' \<notin> set (url_QueryEscape s)"
  "CHR ''?'' \<notin> set (url_QueryEscape s)" "CHR ''#'' \<notin> set (url_QueryEscape s)" "CHR ''/'' \<notin> set (url_QueryEscape s)"
  using QueryEscape_chars [of _ s] by (auto simp: is_alnum_def dest!: QueryEscape_chars)

text \<open>A query of one parameter, as the client writes it and the server reads it.\<close>

lemma ParseQuery_single:
  assumes "\<forall>c \<in> set key. is_alnum c" and "key \<noteq> []"
  shows "url_ParseQuery (key @ ''='' @ url_QueryEscape v) k = (if k = key then [v] else [])"
proof -
  have k: "CHR ''='' \<notin> set key" "CHR ''&'' \<notin> set key" "CHR '';'' \<notin> set key"
    using assms(1) by (auto simp: is_alnum_def)
  have "url_QueryEscape key = key"
    using assms(1) by (induction key) (simp_all add: url_QueryEscape_def query_escape_char_def)
  with QueryUnescape_QueryEscape [of key] have u: "url_QueryUnescape key = Some key" by simp
  have "takeWhile (\<lambda>x. x \<noteq> CHR ''='') (key @ CHR ''='' # url_QueryEscape v) = key"
    using k(1) by (induction key) auto
  then have "strings_Cut (key @ CHR ''='' # url_QueryEscape v) (CHR ''='') = (key, url_QueryEscape v, True)"
    by (simp add: strings_Cut_def)
  with k u QueryEscape_plain [of v] show ?thesis
    by (simp add: url_ParseQuery_def query_pair_def List.map_filter_simps)
qed

section \<open>Streams of events\<close>

text \<open>The server writes one encoded event per line.\<close>

definition ndjson_bytes :: "(ExecEvent \<Rightarrow> bytes) \<Rightarrow> ExecEvent list \<Rightarrow> bytes" where
  "ndjson_bytes enc evs = concat (map (\<lambda>ev. enc ev @ [CHR 0x0A]) evs)"

text \<open>What decoding gives back of an encoded event.\<close>

definition event_codec :: "codecs \<Rightarrow> (ExecEvent \<Rightarrow> bytes) \<Rightarrow> ExecEvent \<Rightarrow> bool" where
  "event_codec J enc ev \<longleftrightarrow> js_event J (enc ev) = Inr ev \<and> enc ev \<noteq> [] \<and> CHR 0x0A \<notin> set (enc ev) \<and> last (enc ev) \<noteq> CHR 0x0D"

definition stream_data :: "string \<Rightarrow> ExecEvent list \<Rightarrow> bytes" where
  "stream_data s evs = concat (map ev_Data (filter (\<lambda>ev. ev_Stream ev = s) evs))"

definition last_data :: "string \<Rightarrow> bytes \<Rightarrow> ExecEvent list \<Rightarrow> bytes" where
  "last_data s d evs = last (d # map ev_Data (filter (\<lambda>ev. ev_Stream ev = s) evs))"

lemma split_ndjson:
  assumes "\<forall>ev \<in> set evs. CHR 0x0A \<notin> set (enc ev)"
  shows "split_on (CHR 0x0A) (ndjson_bytes enc evs) = map enc evs @ [[]]"
  using assms by (induction evs) (simp_all add: ndjson_bytes_def split_on_append)

text \<open>\<open>g\<close>: what the client decodes of each event.\<close>

lemma collect_all:
  assumes "\<forall>ev \<in> set evs. js_event J (enc ev) = Inr (g ev) \<and> enc ev \<noteq> []"
  shows "collect_events J (map enc evs) r =
    \<lparr>res_Stdout = res_Stdout r @ stream_data ''stdout'' (map g evs), res_Stderr = res_Stderr r @ stream_data ''stderr'' (map g evs),
     res_ExitCode = last_data ''exit'' (res_ExitCode r) (map g evs)\<rparr>"
  using assms
  by (induction evs arbitrary: r) (auto simp: stream_data_def last_data_def)

definition line_ok :: "bytes \<Rightarrow> bool" where
  "line_ok l \<longleftrightarrow> l \<noteq> [] \<and> CHR 0x0A \<notin> set l \<and> last l \<noteq> CHR 0x0D \<and> length l < 65536"

lemma exec_result_lines:
  assumes "\<forall>ev \<in> set evs. js_event J (enc ev) = Inr (g ev) \<and> line_ok (enc ev)"
  shows "exec_result J \<lparr>rd_data = ndjson_bytes enc evs, rd_err = None\<rparr> =
    Inr \<lparr>res_Stdout = stream_data ''stdout'' (map g evs), res_Stderr = stream_data ''stderr'' (map g evs),
      res_ExitCode = last_data ''exit'' [] (map g evs)\<rparr>"
proof -
  have s: "split_on (CHR 0x0A) (ndjson_bytes enc evs) = map enc evs @ [[]]"
    using assms by (intro split_ndjson) (simp add: line_ok_def)
  have t: "takeWhile (\<lambda>l. length l < MaxScanTokenSize) (map enc evs) = map enc evs"
    using assms by (simp add: takeWhile_eq_all_conv MaxScanTokenSize_def line_ok_def)
  have c: "map drop_cr (map enc evs) = map enc evs"
    using assms by (auto simp: drop_cr_def line_ok_def)
  have "collect_events J (map enc evs) \<lparr>res_Stdout = [], res_Stderr = [], res_ExitCode = []\<rparr> =
      \<lparr>res_Stdout = stream_data ''stdout'' (map g evs), res_Stderr = stream_data ''stderr'' (map g evs),
       res_ExitCode = last_data ''exit'' [] (map g evs)\<rparr>"
    using assms by (subst collect_all [where g = g]) (auto simp: line_ok_def)
  then show ?thesis
    unfolding exec_result_def scan_lines_def reader.simps s by (simp add: Let_def t c del: map_map)
qed

lemma exec_result_events:
  assumes "\<forall>ev \<in> set evs. event_codec J enc ev \<and> length (enc ev) < 65536"
  shows "exec_result J \<lparr>rd_data = ndjson_bytes enc evs, rd_err = None\<rparr> =
    Inr \<lparr>res_Stdout = stream_data ''stdout'' evs, res_Stderr = stream_data ''stderr'' evs, res_ExitCode = last_data ''exit'' [] evs\<rparr>"
  using exec_result_lines [of evs J enc id] assms by (simp add: event_codec_def line_ok_def)

lemma long_line:
  assumes "\<forall>ev \<in> set evs. CHR 0x0A \<notin> set (enc ev)" and "ev \<in> set evs" and "65536 \<le> length (enc ev)"
  shows "exec_result J \<lparr>rd_data = ndjson_bytes enc evs, rd_err = None\<rparr> =
    Inl (Context ''reading exec stream'' (Opaque ''bufio.Scanner: token too long''))"
proof -
  note s = split_ndjson [OF assms(1)]
  have "takeWhile (\<lambda>l. length l < MaxScanTokenSize) (map enc evs) \<noteq> map enc evs"
    using assms(2,3) by (auto simp: takeWhile_eq_all_conv MaxScanTokenSize_def not_less)
  then have "length (takeWhile (\<lambda>l. length l < MaxScanTokenSize) (map enc evs)) < length (map enc evs)"
    by (metis length_takeWhile_le le_neq_implies_less takeWhile_eq_take take_all)
  then show ?thesis
    unfolding exec_result_def scan_lines_def reader.simps s by (simp add: Let_def)
qed

text \<open>C38: one event too long for the buffer of the scanner loses the whole result: when some line the
  server sends has 64 KB or more, the client answers an error, whatever the command printed besides.\<close>

theorem exec_long_line_fails:
  assumes "\<forall>ev \<in> set evs. CHR 0x0A \<notin> set (enc ev)" and "ev \<in> set evs" and "65536 \<le> length (enc ev)"
  shows "exec_result J \<lparr>rd_data = ndjson_bytes enc evs, rd_err = None\<rparr> =
    Inl (Context ''reading exec stream'' (Opaque ''bufio.Scanner: token too long''))"
  using assms by (rule long_line)

text \<open>A concrete encoding: a brace, the stream, a colon, the data.\<close>

definition ex_codecs :: codecs where
  "ex_codecs = \<lparr>js_create = (\<lambda>_. Inr []), js_exec = (\<lambda>_. Inr []), js_label = Inr,
     js_ErrorResponse = (\<lambda>_. Inl io_EOF), js_Created = (\<lambda>_. Inl io_EOF), js_Environment = (\<lambda>_. Inl io_EOF),
     js_Environments = (\<lambda>_. Inr []), js_Files = (\<lambda>_. Inr []), js_Snapshot = (\<lambda>_. Inl io_EOF), js_Snapshots = (\<lambda>_. Inr []),
     js_Skill = (\<lambda>_. Inl io_EOF), js_Skills = (\<lambda>_. Inr []), js_Installed = (\<lambda>_. Inr []),
     js_event = (\<lambda>l. case strings_Cut (drop 1 l) (CHR '':'') of (s, d, f) \<Rightarrow>
        if f then Inr \<lparr>ev_Stream = s, ev_Data = d\<rparr> else Inl io_EOF),
     js_indent = (\<lambda>_. Inr [])\<rparr>"

definition ex_enc :: "ExecEvent \<Rightarrow> bytes" where
  "ex_enc ev = ''{'' @ ev_Stream ev @ '':'' @ ev_Data ev"

theorem exec_long_line_fails_witness:
  "exec_result ex_codecs \<lparr>rd_data = ndjson_bytes ex_enc [\<lparr>ev_Stream = ''stdout'', ev_Data = replicate 65536 (CHR ''x'')\<rparr>], rd_err = None\<rparr> =
    Inl (Context ''reading exec stream'' (Opaque ''bufio.Scanner: token too long''))"
  using exec_long_line_fails [of "[\<lparr>ev_Stream = ''stdout'', ev_Data = replicate 65536 (CHR ''x'')\<rparr>]" ex_enc]
  by (simp add: ex_enc_def)

text \<open>The events of a complete stream of frames, and of the exit code.\<close>

definition frame_event :: "nat \<times> bytes \<Rightarrow> ExecEvent" where
  "frame_event f = \<lparr>ev_Stream = stream_name (fst f), ev_Data = snd f\<rparr>"

lemma deliver_emit: "deliver (emit None) fs out = (None, out @ map frame_event fs)"
  by (induction fs arbitrary: out) (auto simp: emit_def frame_event_def)

lemma demux_emit:
  "\<forall>f \<in> set fs. frame_ok f \<Longrightarrow>
    DemuxDockerStream (emit None) \<lparr>rd_data = concat (map frame fs), rd_err = None\<rparr> out = (None, out @ map frame_event fs)"
  using demux_frames [of fs "emit None" "[]" None out] by (simp add: deliver_emit demux_end)

lemma stream_data_frames:
  "stream_data ''stdout'' (map frame_event fs @ [\<lparr>ev_Stream = ''exit'', ev_Data = c\<rparr>]) = concat (map snd (filter (\<lambda>f. fst f \<noteq> 2) fs))"
  "stream_data ''stderr'' (map frame_event fs @ [\<lparr>ev_Stream = ''exit'', ev_Data = c\<rparr>]) = concat (map snd (filter (\<lambda>f. fst f = 2) fs))"
  "last_data ''exit'' d (map frame_event fs @ [\<lparr>ev_Stream = ''exit'', ev_Data = c\<rparr>]) = c"
  by (induction fs) (auto simp: stream_data_def last_data_def frame_event_def stream_name_def)

section \<open>What a client sends\<close>

text \<open>A request of a client: below \<open>/v1/\<close> of its base URL, with its key and its end user.  A method
  sends at most one.\<close>

definition own_request :: "Client \<Rightarrow> http_request \<Rightarrow> bool" where
  "own_request c req \<longleftrightarrow>
     (\<exists>rest. hr_URL req = cl_baseURL c @ ''/v1/'' @ rest) \<and>
     map_of (hr_Header req) ''Authorization'' = Some (''Bearer '' @ cl_apiKey c) \<and>
     map_of (hr_Header req) ''X-Haas-User-ID'' = (if cl_endUserID c = [] then None else Some (cl_endUserID c))"

definition one_request :: "'w http_client \<Rightarrow> Client \<Rightarrow> 'w \<Rightarrow> 'w \<Rightarrow> bool" where
  "one_request T c w w' \<longleftrightarrow> w' = w \<or> (\<exists>req. own_request c req \<and> w' = snd (hc_Do T req w))"

named_theorems client_requests

lemma one_request_refl [simp]: "one_request T c w w"
  by (simp add: one_request_def)

lemma send_one:
  assumes "own_request c \<lparr>hr_Method = method, hr_URL = cl_baseURL c @ path, hr_Header = headers, hr_Body = body\<rparr>"
  shows "one_request T c w (snd (send T c method path headers body what w))"
  using assms by (force simp: one_request_def send_def split: option.splits prod.splits sum.splits)

lemma do_one: "path = ''/v1/'' @ rest \<Longrightarrow> one_request T c w (snd (Client_do T c method path body w))"
  by (auto simp: Client_do_def own_request_def auth_headers_def intro!: send_one split: option.splits sum.splits)

lemma doRaw_one: "path = ''/v1/'' @ rest \<Longrightarrow> one_request T c w (snd (Client_doRaw T c method path body w))"
  by (auto simp: Client_doRaw_def own_request_def raw_headers_def intro!: send_one)

lemma expect_world [simp]: "snd (expect J code dec answer) = snd answer"
  by (simp add: expect_def split: prod.splits sum.splits)

lemmas client_ops =
  Client_CreateEnvironment_def Client_ListEnvironments_def Client_GetEnvironment_def Client_DestroyEnvironment_def
  Client_Exec_def Client_ExecStream_def Client_ListFiles_def Client_ReadFile_def Client_CreateSnapshot_def
  Client_ListSnapshots_def Client_GetSnapshot_def Client_DeleteSnapshot_def Client_RestoreSnapshot_def
  Client_ListSkills_def Client_GetSkill_def Client_DeleteSkill_def Client_ListInstalledSkills_def

lemma client_json_one [client_requests]:
  "one_request T c w (snd (Client_CreateEnvironment T J c req w))"
  "one_request T c w (snd (Client_ListEnvironments T J c w))"
  "one_request T c w (snd (Client_GetEnvironment T J c i w))"
  "one_request T c w (snd (Client_DestroyEnvironment T J c i w))"
  "one_request T c w (snd (Client_Exec T J c i xreq w))"
  "one_request T c w (snd (Client_ExecStream T J c i xreq w))"
  "one_request T c w (snd (Client_ListFiles T J c i p w))"
  "one_request T c w (snd (Client_ReadFile T J c i p w))"
  "one_request T c w (snd (Client_CreateSnapshot T J c i l w))"
  "one_request T c w (snd (Client_ListSnapshots T J c w))"
  "one_request T c w (snd (Client_GetSnapshot T J c i w))"
  "one_request T c w (snd (Client_DeleteSnapshot T J c i w))"
  "one_request T c w (snd (Client_RestoreSnapshot T J c i req w))"
  "one_request T c w (snd (Client_ListSkills T J c w))"
  "one_request T c w (snd (Client_GetSkill T J c i w))"
  "one_request T c w (snd (Client_DeleteSkill T J c i w))"
  "one_request T c w (snd (Client_ListInstalledSkills T J c i w))"
  by (simp_all add: client_ops, (rule do_one, simp)+)

lemma client_raw_one [client_requests]:
  "one_request T c w (snd (Client_WriteFile T J c i p content w))"
  "one_request T c w (snd (Client_RegisterSkill T J c i archive w))"
  "one_request T c w (snd (Client_InstallSkillToEnvironment T J c i name archive w))"
proof -
  show "one_request T c w (snd (Client_WriteFile T J c i p content w))"
    unfolding Client_WriteFile_def expect_world
    by (rule send_one) (simp add: own_request_def raw_headers_def)
qed (simp_all add: Client_RegisterSkill_def Client_InstallSkillToEnvironment_def, (rule doRaw_one, simp)+)

end
