(* ===== verification/SDK_Tools.thy ===== *)
theory SDK_Tools
  imports SDK_Client
begin

text \<open>
  \<open>pkg/sdk/tools.go\<close>: the tool definitions that are handed to a model, and \<open>Dispatch\<close>, which turns
  a tool call into a call of the client.  An input schema is the value that is encoded, its properties
  and its required fields.  \<open>json.Unmarshal\<close> into the input of each tool is a field of
  \<open>tool_inputs\<close>; what a JSON text leaves out is the zero value of its field.
\<close>

section \<open>Inputs\<close>

record exec_input =
  xi_EnvironmentID :: string
  xi_Command :: string
  xi_WorkingDir :: string
  xi_TimeoutSeconds :: int64

record path_input =
  pi_EnvironmentID :: string
  pi_Path :: string

record write_input =
  wr_EnvironmentID :: string
  wr_Path :: string
  wr_Content :: bytes

record label_input =
  li_EnvironmentID :: string
  li_Label :: string

record restore_input =
  ri_SnapshotID :: string
  ri_CPU :: float64
  ri_MemoryMB :: int64
  ri_DiskMB :: int64
  ri_NetworkPolicy :: string

record tool_inputs =
  ti_create :: "bytes \<Rightarrow> goerr + CreateEnvironmentRequest"
  ti_environment :: "bytes \<Rightarrow> goerr + string"
  ti_exec :: "bytes \<Rightarrow> goerr + exec_input"
  ti_path :: "bytes \<Rightarrow> goerr + path_input"
  ti_write :: "bytes \<Rightarrow> goerr + write_input"
  ti_label :: "bytes \<Rightarrow> goerr + label_input"
  ti_restore :: "bytes \<Rightarrow> goerr + restore_input"
  ti_snapshot :: "bytes \<Rightarrow> goerr + string"

text \<open>The input of a call: an input that does not parse makes no request.\<close>

definition with_input ::
  "(bytes \<Rightarrow> goerr + 'i) \<Rightarrow> bytes \<Rightarrow> ('i \<Rightarrow> 'w \<Rightarrow> (goerr + string) \<times> 'w) \<Rightarrow> 'w \<Rightarrow> (goerr + string) \<times> 'w" where
  "with_input unmarshal raw k w =
     (case unmarshal raw of Inl err \<Rightarrow> (Inl (Context ''parse input'' err), w) | Inr input \<Rightarrow> k input w)"

text \<open>The result of a call of the client, shown as a text.\<close>

definition shown :: "('a \<Rightarrow> goerr + string) \<Rightarrow> (goerr + 'a) \<times> 'w \<Rightarrow> (goerr + string) \<times> 'w" where
  "shown present answer =
     (case answer of (Inl err, w) \<Rightarrow> (Inl err, w) | (Inr x, w) \<Rightarrow> (present x, w))"

definition encoded :: "codecs \<Rightarrow> json \<Rightarrow> goerr + string" where
  "encoded J v = (case js_indent J v of Inl err \<Rightarrow> Inl (Context ''encode response'' err) | Inr s \<Rightarrow> Inr s)"

definition newline :: string where
  "newline = [CHR 0x0A]"

definition environment_text :: "string \<Rightarrow> CreateEnvironmentResponse \<Rightarrow> string" where
  "environment_text title env = title @ newline @ ''ID: '' @ cr_ID env @ newline @ ''Status: '' @ cr_Status env @
     newline @ ''Image: '' @ cr_Image env"

definition snapshot_text :: "Snapshot \<Rightarrow> string" where
  "snapshot_text snap = ''Snapshot created.'' @ newline @ ''ID: '' @ snap_ID snap @ newline @ ''Environment: '' @
     snap_EnvironmentID snap @ newline @ ''Label: '' @ snap_Label snap @ newline @ ''Size: '' @
     show_int (snap_Size snap) @ '' bytes''"

definition or_empty :: "bytes \<Rightarrow> bytes" where
  "or_empty s = (if s \<noteq> [] then s else ''(empty)'' @ newline)"

definition exec_text :: "ExecResult \<Rightarrow> string" where
  "exec_text result = ''Exit code: '' @ res_ExitCode result @ newline @
     newline @ ''=== stdout ==='' @ newline @ or_empty (res_Stdout result) @
     newline @ ''=== stderr ==='' @ newline @ or_empty (res_Stderr result)"

section \<open>Dispatch\<close>

definition dispatchCreateEnvironment ::
  "'w http_client \<Rightarrow> codecs \<Rightarrow> tool_inputs \<Rightarrow> Client \<Rightarrow> bytes \<Rightarrow> 'w \<Rightarrow> (goerr + string) \<times> 'w" where
  "dispatchCreateEnvironment T J N c raw =
     with_input (ti_create N) raw (\<lambda>input w.
       shown (\<lambda>env. Inr (environment_text ''Environment created.'' env)) (Client_CreateEnvironment T J c input w))"

definition dispatchListEnvironments ::
  "'w http_client \<Rightarrow> codecs \<Rightarrow> Client \<Rightarrow> 'w \<Rightarrow> (goerr + string) \<times> 'w" where
  "dispatchListEnvironments T J c w =
     shown (\<lambda>envs. if envs = [] then Inr ''No active environments.'' else encoded J (JEnvironments envs))
       (Client_ListEnvironments T J c w)"

definition dispatchGetEnvironment ::
  "'w http_client \<Rightarrow> codecs \<Rightarrow> tool_inputs \<Rightarrow> Client \<Rightarrow> bytes \<Rightarrow> 'w \<Rightarrow> (goerr + string) \<times> 'w" where
  "dispatchGetEnvironment T J N c raw =
     with_input (ti_environment N) raw (\<lambda>i w. shown (\<lambda>env. encoded J (JEnvironment env)) (Client_GetEnvironment T J c i w))"

definition dispatchDestroyEnvironment ::
  "'w http_client \<Rightarrow> codecs \<Rightarrow> tool_inputs \<Rightarrow> Client \<Rightarrow> bytes \<Rightarrow> 'w \<Rightarrow> (goerr + string) \<times> 'w" where
  "dispatchDestroyEnvironment T J N c raw =
     with_input (ti_environment N) raw (\<lambda>i w.
       shown (\<lambda>_. Inr (''Environment '' @ i @ '' destroyed.'')) (Client_DestroyEnvironment T J c i w))"

definition dispatchExec ::
  "'w http_client \<Rightarrow> codecs \<Rightarrow> tool_inputs \<Rightarrow> Client \<Rightarrow> bytes \<Rightarrow> 'w \<Rightarrow> (goerr + string) \<times> 'w" where
  "dispatchExec T J N c raw =
     with_input (ti_exec N) raw (\<lambda>input w.
       let timeout = (if xi_TimeoutSeconds input = 0 then 30 else xi_TimeoutSeconds input)
       in shown (\<lambda>result. Inr (exec_text result))
            (Client_Exec T J c (xi_EnvironmentID input)
               \<lparr>er_Command = [''sh'', ''-c'', xi_Command input], er_WorkingDir = xi_WorkingDir input,
                er_TimeoutSeconds = timeout, er_CaptureOutput = False\<rparr> w))"

definition dispatchListFiles ::
  "'w http_client \<Rightarrow> codecs \<Rightarrow> tool_inputs \<Rightarrow> Client \<Rightarrow> bytes \<Rightarrow> 'w \<Rightarrow> (goerr + string) \<times> 'w" where
  "dispatchListFiles T J N c raw =
     with_input (ti_path N) raw (\<lambda>input w.
       let path = (if pi_Path input = [] then ''/'' else pi_Path input)
       in shown (\<lambda>files. if files = [] then Inr (''No files found at '' @ path) else encoded J (JFiles files))
            (Client_ListFiles T J c (pi_EnvironmentID input) path w))"

definition dispatchReadFile ::
  "'w http_client \<Rightarrow> codecs \<Rightarrow> tool_inputs \<Rightarrow> Client \<Rightarrow> bytes \<Rightarrow> 'w \<Rightarrow> (goerr + string) \<times> 'w" where
  "dispatchReadFile T J N c raw =
     with_input (ti_path N) raw (\<lambda>input w.
       shown (\<lambda>content. Inr content) (Client_ReadFile T J c (pi_EnvironmentID input) (pi_Path input) w))"

definition dispatchWriteFile ::
  "'w http_client \<Rightarrow> codecs \<Rightarrow> tool_inputs \<Rightarrow> Client \<Rightarrow> bytes \<Rightarrow> 'w \<Rightarrow> (goerr + string) \<times> 'w" where
  "dispatchWriteFile T J N c raw =
     with_input (ti_write N) raw (\<lambda>input w.
       shown (\<lambda>_. Inr (''File written to '' @ wr_Path input))
         (Client_WriteFile T J c (wr_EnvironmentID input) (wr_Path input) (wr_Content input) w))"

definition dispatchCreateSnapshot ::
  "'w http_client \<Rightarrow> codecs \<Rightarrow> tool_inputs \<Rightarrow> Client \<Rightarrow> bytes \<Rightarrow> 'w \<Rightarrow> (goerr + string) \<times> 'w" where
  "dispatchCreateSnapshot T J N c raw =
     with_input (ti_label N) raw (\<lambda>input w.
       shown (\<lambda>snap. Inr (snapshot_text snap))
         (Client_CreateSnapshot T J c (li_EnvironmentID input) (li_Label input) w))"

definition dispatchListSnapshots ::
  "'w http_client \<Rightarrow> codecs \<Rightarrow> Client \<Rightarrow> 'w \<Rightarrow> (goerr + string) \<times> 'w" where
  "dispatchListSnapshots T J c w =
     shown (\<lambda>snaps. if snaps = [] then Inr ''No snapshots found.'' else encoded J (JSnapshots snaps))
       (Client_ListSnapshots T J c w)"

definition dispatchRestoreSnapshot ::
  "'w http_client \<Rightarrow> codecs \<Rightarrow> tool_inputs \<Rightarrow> Client \<Rightarrow> bytes \<Rightarrow> 'w \<Rightarrow> (goerr + string) \<times> 'w" where
  "dispatchRestoreSnapshot T J N c raw =
     with_input (ti_restore N) raw (\<lambda>input w.
       shown (\<lambda>env. Inr (environment_text ''Environment restored from snapshot.'' env))
         (Client_RestoreSnapshot T J c (ri_SnapshotID input)
            \<lparr>cq_Image = [], cq_CPU = ri_CPU input, cq_MemoryMB = ri_MemoryMB input, cq_DiskMB = ri_DiskMB input,
             cq_NetworkPolicy = ri_NetworkPolicy input, cq_EnvVars = None, cq_SnapshotID = []\<rparr> w))"

definition dispatchDeleteSnapshot ::
  "'w http_client \<Rightarrow> codecs \<Rightarrow> tool_inputs \<Rightarrow> Client \<Rightarrow> bytes \<Rightarrow> 'w \<Rightarrow> (goerr + string) \<times> 'w" where
  "dispatchDeleteSnapshot T J N c raw =
     with_input (ti_snapshot N) raw (\<lambda>i w.
       shown (\<lambda>_. Inr (''Snapshot '' @ i @ '' deleted.'')) (Client_DeleteSnapshot T J c i w))"

definition Dispatch ::
  "'w http_client \<Rightarrow> codecs \<Rightarrow> tool_inputs \<Rightarrow> Client \<Rightarrow> string \<Rightarrow> bytes \<Rightarrow> 'w \<Rightarrow> (goerr + string) \<times> 'w" where
  "Dispatch T J N c toolName rawInput w =
     (if toolName = ''haas_create_environment'' then dispatchCreateEnvironment T J N c rawInput w
      else if toolName = ''haas_list_environments'' then dispatchListEnvironments T J c w
      else if toolName = ''haas_get_environment'' then dispatchGetEnvironment T J N c rawInput w
      else if toolName = ''haas_destroy_environment'' then dispatchDestroyEnvironment T J N c rawInput w
      else if toolName = ''haas_exec'' then dispatchExec T J N c rawInput w
      else if toolName = ''haas_list_files'' then dispatchListFiles T J N c rawInput w
      else if toolName = ''haas_read_file'' then dispatchReadFile T J N c rawInput w
      else if toolName = ''haas_write_file'' then dispatchWriteFile T J N c rawInput w
      else if toolName = ''haas_create_snapshot'' then dispatchCreateSnapshot T J N c rawInput w
      else if toolName = ''haas_list_snapshots'' then dispatchListSnapshots T J c w
      else if toolName = ''haas_restore_snapshot'' then dispatchRestoreSnapshot T J N c rawInput w
      else if toolName = ''haas_delete_snapshot'' then dispatchDeleteSnapshot T J N c rawInput w
      else (Inl (Opaque (''unknown tool: '' @ toolName)), w))"

section \<open>Definitions of the tools\<close>

record tool_prop =
  prop_Type :: string
  prop_Description :: string

record input_schema =
  sch_properties :: "(string \<times> tool_prop) list"
  sch_required :: "string list"

definition schema :: "(string \<times> tool_prop) list \<Rightarrow> string list \<Rightarrow> input_schema" where
  "schema props required = \<lparr>sch_properties = props, sch_required = required\<rparr>"

record ToolDefinition =
  td_Name :: string
  td_Description :: string
  td_InputSchema :: input_schema

definition toolCreateEnvironment :: ToolDefinition where
  "toolCreateEnvironment = \<lparr>td_Name = ''haas_create_environment'',
     td_Description = ''Create a new sandboxed Docker container environment. Returns an environment ID used in subsequent calls. Provide either '' @ [CHR 0x27] @ ''image'' @ [CHR 0x27] @ '' or '' @ [CHR 0x27] @ ''snapshot_id'' @ [CHR 0x27] @ '' (not both).'',
     td_InputSchema = schema
      [(''image'', \<lparr>prop_Type = ''string'', prop_Description = ''Docker image to use (e.g. '' @ [CHR 0x27] @ ''ubuntu:22.04'' @ [CHR 0x27] @ '', '' @ [CHR 0x27] @ ''python:3.12'' @ [CHR 0x27] @ '', '' @ [CHR 0x27] @ ''node:20'' @ [CHR 0x27] @ ''). Omit when restoring from a snapshot.''\<rparr>),
       (''snapshot_id'', \<lparr>prop_Type = ''string'', prop_Description = ''Snapshot ID to restore from. Omit when creating a fresh environment from an image.''\<rparr>),
       (''cpu'', \<lparr>prop_Type = ''number'', prop_Description = ''CPU cores to allocate (0.1'' @ [CHR 0xE2, CHR 0x80, CHR 0x93] @ ''4.0, default 1.0)''\<rparr>),
       (''memory_mb'', \<lparr>prop_Type = ''number'', prop_Description = ''Memory in MB (128'' @ [CHR 0xE2, CHR 0x80, CHR 0x93] @ ''8192, default 2048)''\<rparr>),
       (''disk_mb'', \<lparr>prop_Type = ''number'', prop_Description = ''Disk space in MB (default 4096)''\<rparr>),
       (''network_policy'', \<lparr>prop_Type = ''string'', prop_Description = ''Network access: '' @ [CHR 0x27] @ ''none'' @ [CHR 0x27] @ '' (isolated), '' @ [CHR 0x27] @ ''egress-limited'' @ [CHR 0x27] @ '', or '' @ [CHR 0x27] @ ''full'' @ [CHR 0x27] @ '' (default: '' @ [CHR 0x27] @ ''none'' @ [CHR 0x27] @ '')''\<rparr>)] []\<rparr>"

definition toolListEnvironments :: ToolDefinition where
  "toolListEnvironments = \<lparr>td_Name = ''haas_list_environments'',
     td_Description = ''List all active container environments.'',
     td_InputSchema = schema
      [] []\<rparr>"

definition toolGetEnvironment :: ToolDefinition where
  "toolGetEnvironment = \<lparr>td_Name = ''haas_get_environment'',
     td_Description = ''Get details and current status of a specific environment.'',
     td_InputSchema = schema
      [(''environment_id'', \<lparr>prop_Type = ''string'', prop_Description = ''The environment ID (e.g. '' @ [CHR 0x27] @ ''env_a1b2c3d4'' @ [CHR 0x27] @ '')''\<rparr>)] [''environment_id'']\<rparr>"

definition toolDestroyEnvironment :: ToolDefinition where
  "toolDestroyEnvironment = \<lparr>td_Name = ''haas_destroy_environment'',
     td_Description = ''Stop and permanently destroy a container environment.'',
     td_InputSchema = schema
      [(''environment_id'', \<lparr>prop_Type = ''string'', prop_Description = ''The environment ID to destroy''\<rparr>)] [''environment_id'']\<rparr>"

definition toolExec :: ToolDefinition where
  "toolExec = \<lparr>td_Name = ''haas_exec'',
     td_Description = ''Execute a shell command inside a container environment. Returns stdout, stderr, and exit code.'',
     td_InputSchema = schema
      [(''environment_id'', \<lparr>prop_Type = ''string'', prop_Description = ''The environment ID''\<rparr>),
       (''command'', \<lparr>prop_Type = ''string'', prop_Description = ''Shell command to run (e.g. '' @ [CHR 0x27] @ ''ls -la /tmp'' @ [CHR 0x27] @ '')''\<rparr>),
       (''working_dir'', \<lparr>prop_Type = ''string'', prop_Description = ''Working directory inside the container (default: container default)''\<rparr>),
       (''timeout_seconds'', \<lparr>prop_Type = ''number'', prop_Description = ''Max seconds to wait for the command (default: 30)''\<rparr>)] [''environment_id'', ''command'']\<rparr>"

definition toolListFiles :: ToolDefinition where
  "toolListFiles = \<lparr>td_Name = ''haas_list_files'',
     td_Description = ''List files and directories at a path inside a container environment.'',
     td_InputSchema = schema
      [(''environment_id'', \<lparr>prop_Type = ''string'', prop_Description = ''The environment ID''\<rparr>),
       (''path'', \<lparr>prop_Type = ''string'', prop_Description = ''Directory path to list (default: '' @ [CHR 0x27] @ ''/'' @ [CHR 0x27] @ '')''\<rparr>)] [''environment_id'']\<rparr>"

definition toolReadFile :: ToolDefinition where
  "toolReadFile = \<lparr>td_Name = ''haas_read_file'',
     td_Description = ''Read the contents of a file inside a container environment.'',
     td_InputSchema = schema
      [(''environment_id'', \<lparr>prop_Type = ''string'', prop_Description = ''The environment ID''\<rparr>),
       (''path'', \<lparr>prop_Type = ''string'', prop_Description = ''Absolute path to the file (e.g. '' @ [CHR 0x27] @ ''/app/main.py'' @ [CHR 0x27] @ '')''\<rparr>)] [''environment_id'', ''path'']\<rparr>"

definition toolWriteFile :: ToolDefinition where
  "toolWriteFile = \<lparr>td_Name = ''haas_write_file'',
     td_Description = ''Write text content to a file inside a container environment. Creates parent directories as needed.'',
     td_InputSchema = schema
      [(''environment_id'', \<lparr>prop_Type = ''string'', prop_Description = ''The environment ID''\<rparr>),
       (''path'', \<lparr>prop_Type = ''string'', prop_Description = ''Absolute path to write (e.g. '' @ [CHR 0x27] @ ''/app/main.py'' @ [CHR 0x27] @ '')''\<rparr>),
       (''content'', \<lparr>prop_Type = ''string'', prop_Description = ''Text content to write to the file''\<rparr>)] [''environment_id'', ''path'', ''content'']\<rparr>"

definition toolCreateSnapshot :: ToolDefinition where
  "toolCreateSnapshot = \<lparr>td_Name = ''haas_create_snapshot'',
     td_Description = ''Save a snapshot of a running environment'' @ [CHR 0x27] @ ''s filesystem. Snapshots capture installed packages, files, and configuration '' @ [CHR 0xE2, CHR 0x80, CHR 0x94] @ '' but not running processes. Use haas_restore_snapshot to spin up a new environment from a snapshot.'',
     td_InputSchema = schema
      [(''environment_id'', \<lparr>prop_Type = ''string'', prop_Description = ''The environment ID to snapshot''\<rparr>),
       (''label'', \<lparr>prop_Type = ''string'', prop_Description = ''Optional human-readable label (e.g. '' @ [CHR 0x27] @ ''before-migration'' @ [CHR 0x27] @ '', '' @ [CHR 0x27] @ ''deps-installed'' @ [CHR 0x27] @ '')''\<rparr>)] [''environment_id'']\<rparr>"

definition toolListSnapshots :: ToolDefinition where
  "toolListSnapshots = \<lparr>td_Name = ''haas_list_snapshots'',
     td_Description = ''List all saved snapshots.'',
     td_InputSchema = schema
      [] []\<rparr>"

definition toolRestoreSnapshot :: ToolDefinition where
  "toolRestoreSnapshot = \<lparr>td_Name = ''haas_restore_snapshot'',
     td_Description = ''Create a new environment restored from a snapshot. The new environment starts with the exact filesystem state from when the snapshot was taken.'',
     td_InputSchema = schema
      [(''snapshot_id'', \<lparr>prop_Type = ''string'', prop_Description = ''The snapshot ID to restore from''\<rparr>),
       (''cpu'', \<lparr>prop_Type = ''number'', prop_Description = ''CPU cores to allocate (0.1'' @ [CHR 0xE2, CHR 0x80, CHR 0x93] @ ''4.0, default 1.0)''\<rparr>),
       (''memory_mb'', \<lparr>prop_Type = ''number'', prop_Description = ''Memory in MB (128'' @ [CHR 0xE2, CHR 0x80, CHR 0x93] @ ''8192, default 2048)''\<rparr>),
       (''disk_mb'', \<lparr>prop_Type = ''number'', prop_Description = ''Disk space in MB (default 4096)''\<rparr>),
       (''network_policy'', \<lparr>prop_Type = ''string'', prop_Description = ''Network access: '' @ [CHR 0x27] @ ''none'' @ [CHR 0x27] @ '' (isolated), '' @ [CHR 0x27] @ ''egress-limited'' @ [CHR 0x27] @ '', or '' @ [CHR 0x27] @ ''full'' @ [CHR 0x27] @ '' (default: '' @ [CHR 0x27] @ ''none'' @ [CHR 0x27] @ '')''\<rparr>)] [''snapshot_id'']\<rparr>"

definition toolDeleteSnapshot :: ToolDefinition where
  "toolDeleteSnapshot = \<lparr>td_Name = ''haas_delete_snapshot'',
     td_Description = ''Delete a snapshot and free its storage. This cannot be undone.'',
     td_InputSchema = schema
      [(''snapshot_id'', \<lparr>prop_Type = ''string'', prop_Description = ''The snapshot ID to delete''\<rparr>)] [''snapshot_id'']\<rparr>"


definition Tools :: "ToolDefinition list" where
  "Tools = [toolCreateEnvironment, toolListEnvironments, toolGetEnvironment, toolDestroyEnvironment, toolExec,
     toolListFiles, toolReadFile, toolWriteFile, toolCreateSnapshot, toolListSnapshots, toolRestoreSnapshot,
     toolDeleteSnapshot]"

section \<open>Lemmas\<close>

lemmas dispatch_ops =
  dispatchCreateEnvironment_def dispatchListEnvironments_def dispatchGetEnvironment_def dispatchDestroyEnvironment_def
  dispatchExec_def dispatchListFiles_def dispatchReadFile_def dispatchWriteFile_def dispatchCreateSnapshot_def
  dispatchListSnapshots_def dispatchRestoreSnapshot_def dispatchDeleteSnapshot_def

lemmas tool_definitions =
  toolCreateEnvironment_def toolListEnvironments_def toolGetEnvironment_def toolDestroyEnvironment_def toolExec_def
  toolListFiles_def toolReadFile_def toolWriteFile_def toolCreateSnapshot_def toolListSnapshots_def
  toolRestoreSnapshot_def toolDeleteSnapshot_def

lemma shown_world [simp]: "snd (shown present answer) = snd answer"
  by (simp add: shown_def split: prod.splits sum.splits)

lemma with_input_one:
  "(\<And>input. one_request T c w (snd (k input w))) \<Longrightarrow> one_request T c w (snd (with_input unmarshal raw k w))"
  by (simp add: with_input_def split: sum.splits)

lemma dispatch_one [client_requests]:
  "one_request T c w (snd (dispatchCreateEnvironment T J N c raw w))"
  "one_request T c w (snd (dispatchListEnvironments T J c w))"
  "one_request T c w (snd (dispatchGetEnvironment T J N c raw w))"
  "one_request T c w (snd (dispatchDestroyEnvironment T J N c raw w))"
  "one_request T c w (snd (dispatchExec T J N c raw w))"
  "one_request T c w (snd (dispatchListFiles T J N c raw w))"
  "one_request T c w (snd (dispatchReadFile T J N c raw w))"
  "one_request T c w (snd (dispatchWriteFile T J N c raw w))"
  "one_request T c w (snd (dispatchCreateSnapshot T J N c raw w))"
  "one_request T c w (snd (dispatchListSnapshots T J c w))"
  "one_request T c w (snd (dispatchRestoreSnapshot T J N c raw w))"
  "one_request T c w (snd (dispatchDeleteSnapshot T J N c raw w))"
  by (auto simp: dispatch_ops Let_def client_requests intro!: with_input_one)

lemma tool_names:
  "map td_Name Tools = [''haas_create_environment'', ''haas_list_environments'', ''haas_get_environment'',
     ''haas_destroy_environment'', ''haas_exec'', ''haas_list_files'', ''haas_read_file'', ''haas_write_file'',
     ''haas_create_snapshot'', ''haas_list_snapshots'', ''haas_restore_snapshot'', ''haas_delete_snapshot'']"
  by (simp add: Tools_def tool_definitions)

text \<open>What each tool is for: the one request it makes of its input, as method, path and body.  None
  where the input does not parse or cannot be encoded.\<close>

definition asks :: "goerr + 'i \<Rightarrow> ('i \<Rightarrow> (string \<times> string \<times> bytes) option) \<Rightarrow> (string \<times> string \<times> bytes) option" where
  "asks input f = (case input of Inl _ \<Rightarrow> None | Inr i \<Rightarrow> f i)"

definition posts :: "string \<Rightarrow> goerr + bytes \<Rightarrow> (string \<times> string \<times> bytes) option" where
  "posts path body = (case body of Inl _ \<Rightarrow> None | Inr data \<Rightarrow> Some (''POST'', path, data))"

definition tool_requests :: "codecs \<Rightarrow> tool_inputs \<Rightarrow> bytes \<Rightarrow> (string \<times> (string \<times> string \<times> bytes) option) list" where
  "tool_requests J N raw =
    [(''haas_create_environment'', asks (ti_create N raw) (\<lambda>q. posts ''/v1/environments'' (js_create J q))),
     (''haas_list_environments'', Some (''GET'', ''/v1/environments'', [])),
     (''haas_get_environment'', asks (ti_environment N raw) (\<lambda>i. Some (''GET'', ''/v1/environments/'' @ i, []))),
     (''haas_destroy_environment'', asks (ti_environment N raw) (\<lambda>i. Some (''DELETE'', ''/v1/environments/'' @ i, []))),
     (''haas_exec'', asks (ti_exec N raw) (\<lambda>x. posts (''/v1/environments/'' @ xi_EnvironmentID x @ ''/exec'')
        (js_exec J \<lparr>er_Command = [''sh'', ''-c'', xi_Command x], er_WorkingDir = xi_WorkingDir x,
           er_TimeoutSeconds = (if xi_TimeoutSeconds x = 0 then 30 else xi_TimeoutSeconds x), er_CaptureOutput = False\<rparr>))),
     (''haas_list_files'', asks (ti_path N raw) (\<lambda>x. Some (''GET'', ''/v1/environments/'' @ pi_EnvironmentID x @
        ''/files?path='' @ url_QueryEscape (if pi_Path x = [] then ''/'' else pi_Path x), []))),
     (''haas_read_file'', asks (ti_path N raw) (\<lambda>x. Some (''GET'', ''/v1/environments/'' @ pi_EnvironmentID x @
        ''/files/content?path='' @ url_QueryEscape (pi_Path x), []))),
     (''haas_write_file'', asks (ti_write N raw) (\<lambda>x. Some (''PUT'', ''/v1/environments/'' @ wr_EnvironmentID x @
        ''/files/content?path='' @ url_QueryEscape (wr_Path x), wr_Content x))),
     (''haas_create_snapshot'', asks (ti_label N raw) (\<lambda>x. posts (''/v1/environments/'' @ li_EnvironmentID x @ ''/snapshots'')
        (js_label J (li_Label x)))),
     (''haas_list_snapshots'', Some (''GET'', ''/v1/snapshots'', [])),
     (''haas_restore_snapshot'', asks (ti_restore N raw) (\<lambda>x. posts ''/v1/environments''
        (js_create J \<lparr>cq_Image = [], cq_CPU = ri_CPU x, cq_MemoryMB = ri_MemoryMB x, cq_DiskMB = ri_DiskMB x,
           cq_NetworkPolicy = ri_NetworkPolicy x, cq_EnvVars = None, cq_SnapshotID = ri_SnapshotID x\<rparr>))),
     (''haas_delete_snapshot'', asks (ti_snapshot N raw) (\<lambda>i. Some (''DELETE'', ''/v1/snapshots/'' @ i, [])))]"

text \<open>A network that records the requests, whatever it answers.\<close>

definition recording :: "(http_request \<Rightarrow> goerr + http_response) \<Rightarrow> http_request list http_client" where
  "recording ans = \<lparr>hc_NewRequest = (\<lambda>_ _. None), hc_Do = (\<lambda>req w. (ans req, w @ [req]))\<rparr>"

definition seen :: "http_request \<Rightarrow> (string \<times> string \<times> bytes) \<times> string option \<times> string option" where
  "seen r = ((hr_Method r, hr_URL r, rd_data (hr_Body r)),
     map_of (hr_Header r) ''Authorization'', map_of (hr_Header r) ''X-Haas-User-ID'')"

lemma recorded_send [simp]:
  "snd (send (recording ans) c m path headers body what w) =
    w @ [\<lparr>hr_Method = m, hr_URL = cl_baseURL c @ path, hr_Header = headers, hr_Body = body\<rparr>]"
  by (simp add: send_def recording_def split: sum.splits)

lemma recorded_do:
  "map seen (snd (Client_do (recording ans) c m path None w)) = map seen w @
    [((m, cl_baseURL c @ path, []), Some (''Bearer '' @ cl_apiKey c), if cl_endUserID c = [] then None else Some (cl_endUserID c))]"
  "map seen (snd (Client_do (recording ans) c m path (Some (Inr data)) w)) = map seen w @
    [((m, cl_baseURL c @ path, data), Some (''Bearer '' @ cl_apiKey c), if cl_endUserID c = [] then None else Some (cl_endUserID c))]"
  "Client_do (recording ans) c m path (Some (Inl err)) w = (Inl (Context ''marshal request'' err), w)"
  by (simp_all add: Client_do_def seen_def auth_headers_def no_reader_def)

lemmas tool_methods = Client_CreateEnvironment_def Client_ListEnvironments_def Client_GetEnvironment_def
  Client_DestroyEnvironment_def Client_Exec_def Client_ListFiles_def Client_ReadFile_def Client_WriteFile_def
  Client_CreateSnapshot_def Client_ListSnapshots_def Client_RestoreSnapshot_def Client_DeleteSnapshot_def

lemma seen_raw: "seen \<lparr>hr_Method = m, hr_URL = u, hr_Header = raw_headers c, hr_Body = body\<rparr> =
    ((m, u, rd_data body), Some (''Bearer '' @ cl_apiKey c), if cl_endUserID c = [] then None else Some (cl_endUserID c))"
  by (simp add: seen_def raw_headers_def)

text \<open>\<open>sent f c q\<close>: run on the recording network, \<open>f\<close> sends the request \<open>q\<close> of client \<open>c\<close>.\<close>

definition sent :: "(goerr + 'a) \<times> http_request list \<Rightarrow> Client \<Rightarrow> (string \<times> string \<times> bytes) option \<Rightarrow> bool" where
  "sent out c q \<longleftrightarrow>
     (case q of
        Some (m, path, data) \<Rightarrow>
          map seen (snd out) = [((m, cl_baseURL c @ path, data), Some (''Bearer '' @ cl_apiKey c),
            if cl_endUserID c = [] then None else Some (cl_endUserID c))]
      | None \<Rightarrow> \<exists>e. out = (Inl e, []))"

lemma sent_input:
  assumes "\<And>x. sent (k x []) c (f x)"
  shows "sent (with_input unmarshal raw k []) c (asks (unmarshal raw) f)"
  using assms by (cases "unmarshal raw") (simp_all add: sent_def asks_def with_input_def)

lemma sent_shown: "sent out c q \<Longrightarrow> sent (shown present out) c q"
  by (auto simp: sent_def split: option.splits prod.splits) (auto simp: shown_def)

lemma sent_expect: "sent out c q \<Longrightarrow> sent (expect J code dec out) c q"
  by (auto simp: sent_def split: option.splits prod.splits) (auto simp: expect_def)

lemma sent_do:
  "sent (Client_do (recording ans) c m path None []) c (Some (m, path, []))"
  "sent (Client_do (recording ans) c ''POST'' path (Some body) []) c (posts path body)"
  "sent (send (recording ans) c m path (raw_headers c) \<lparr>rd_data = data, rd_err = e\<rparr> what []) c (Some (m, path, data))"
  by (simp_all add: sent_def recorded_do posts_def seen_raw split: sum.splits)

lemmas sent_rules = sent_input sent_shown sent_expect sent_do

lemma tool_sent:
  assumes "(n, q) \<in> set (tool_requests J N raw)"
  shows "sent (Dispatch (recording ans) J N c n raw []) c q"
  using assms unfolding tool_requests_def list.set insert_iff prod.inject empty_iff
  by (elim disjE conjE FalseE; hypsubst; simp add: Dispatch_def dispatch_ops tool_methods Let_def;
      intro sent_rules)

section \<open>Properties\<close>

text \<open>C37: every tool sends its own request and no other: on a network that records what it is sent,
  a call of a tool of the table leaves exactly the request of its name, with its method, path and
  body, below the client's base URL and with the client's key and end user; a call whose input does
  not parse or cannot be encoded sends nothing and is an error; and so is a name that is not in the
  table, which is the table of the definitions that are handed to the model.\<close>

theorem tool_sends_its_request:
  "map fst (tool_requests J N raw) = map td_Name Tools \<and>
   (case map_of (tool_requests J N raw) n of
      Some (Some (m, path, data)) \<Rightarrow>
        map seen (snd (Dispatch (recording ans) J N c n raw [])) =
          [((m, cl_baseURL c @ path, data), Some (''Bearer '' @ cl_apiKey c),
            if cl_endUserID c = [] then None else Some (cl_endUserID c))]
    | _ \<Rightarrow> \<exists>e. Dispatch (recording ans) J N c n raw [] = (Inl e, []))"
proof (intro conjI)
  show names: "map fst (tool_requests J N raw) = map td_Name Tools" unfolding tool_names by (simp add: tool_requests_def)
  show "case map_of (tool_requests J N raw) n of
      Some (Some (m, path, data)) \<Rightarrow>
        map seen (snd (Dispatch (recording ans) J N c n raw [])) =
          [((m, cl_baseURL c @ path, data), Some (''Bearer '' @ cl_apiKey c),
            if cl_endUserID c = [] then None else Some (cl_endUserID c))]
    | _ \<Rightarrow> \<exists>e. Dispatch (recording ans) J N c n raw [] = (Inl e, [])"
  proof (cases "map_of (tool_requests J N raw) n")
    case None
    then have "n \<notin> set (map td_Name Tools)"
      by (simp add: names [symmetric] map_of_eq_None_iff)
    then show ?thesis unfolding None tool_names by (simp add: Dispatch_def)
  next
    case (Some q)
    from tool_sent [OF map_of_SomeD [OF Some]] show ?thesis
      unfolding Some by (cases q) (simp_all add: sent_def split: prod.splits)
  qed
qed

text \<open>A tool call sends at most one request, below the client's base URL and with the client's
  own key and end user.\<close>

theorem dispatch_own_request: "one_request T c w (snd (Dispatch T J N c toolName raw w))"
  by (simp add: Dispatch_def client_requests)

end
