(* ===== verification/MCP_Client.thy ===== *)
theory MCP_Client
  imports SDK_Tools
begin

text \<open>
  \<open>internal/mcpserver/client.go\<close>: the client the MCP server talks to the REST API with.  It is a
  second implementation of the same protocol, written out here method by method; the network and JSON
  are those of the SDK's model.  The last section shows that both clients send the same requests and
  read the same answers.
\<close>

section \<open>Requests\<close>

record haasClient =
  mc_baseURL :: string
  mc_apiKey :: string
  mc_userID :: string

definition newHaasClient :: "string \<Rightarrow> string \<Rightarrow> haasClient" where
  "newHaasClient baseURL apiKey =
     \<lparr>mc_baseURL = strings_TrimRight baseURL ''/'', mc_apiKey = apiKey, mc_userID = []\<rparr>"

definition withUserID :: "haasClient \<Rightarrow> string \<Rightarrow> haasClient" where
  "withUserID c userID = c\<lparr>mc_userID := userID\<rparr>"

definition haas_readAPIError :: "codecs \<Rightarrow> http_response \<Rightarrow> goerr" where
  "haas_readAPIError J resp =
     (case js_ErrorResponse J (hp_Body resp) of
        Inl _ \<Rightarrow> Opaque (''HTTP '' @ show_int (hp_StatusCode resp))
      | Inr apiErr \<Rightarrow>
          if er_Detail apiErr \<noteq> [] then Opaque (er_Error apiErr @ '': '' @ er_Detail apiErr)
          else Opaque (er_Error apiErr))"

definition haasClient_headers :: "haasClient \<Rightarrow> bool \<Rightarrow> (string \<times> string) list" where
  "haasClient_headers c has_body =
     [(''Authorization'', ''Bearer '' @ mc_apiKey c)] @
     (if mc_userID c \<noteq> [] then [(''X-Haas-User-ID'', mc_userID c)] else []) @
     (if has_body then [(''Content-Type'', ''application/json'')] else [])"

definition haasClient_do ::
  "'w http_client \<Rightarrow> haasClient \<Rightarrow> string \<Rightarrow> string \<Rightarrow> (goerr + bytes) option \<Rightarrow> 'w \<Rightarrow> (goerr + http_response) \<times> 'w" where
  "haasClient_do T c method path body w =
     (case body of
        Some (Inl err) \<Rightarrow> (Inl (Context ''marshal request'' err), w)
      | _ \<Rightarrow>
          let bodyReader = (case body of Some (Inr data) \<Rightarrow> \<lparr>rd_data = data, rd_err = None\<rparr> | _ \<Rightarrow> no_reader) in
          (case hc_NewRequest T method (mc_baseURL c @ path) of
             Some err \<Rightarrow> (Inl (Context ''build request'' err), w)
           | None \<Rightarrow>
               (case hc_Do T \<lparr>hr_Method = method, hr_URL = mc_baseURL c @ path,
                        hr_Header = haasClient_headers c (body \<noteq> None), hr_Body = bodyReader\<rparr> w of
                  (Inl err, w1) \<Rightarrow> (Inl (Context (''http '' @ method @ '' '' @ path) err), w1)
                | (Inr resp, w1) \<Rightarrow> (Inr resp, w1))))"

definition haas_expect ::
  "codecs \<Rightarrow> int \<Rightarrow> (reader \<Rightarrow> goerr + 'a) \<Rightarrow> (goerr + http_response) \<times> 'w \<Rightarrow> (goerr + 'a) \<times> 'w" where
  "haas_expect J code dec answer =
     (case answer of
        (Inl err, w) \<Rightarrow> (Inl err, w)
      | (Inr resp, w) \<Rightarrow>
          if hp_StatusCode resp \<noteq> code then (Inl (haas_readAPIError J resp), w)
          else (dec (hp_Body resp), w))"

section \<open>Operations\<close>

definition haas_createEnvironment ::
  "'w http_client \<Rightarrow> codecs \<Rightarrow> haasClient \<Rightarrow> CreateEnvironmentRequest \<Rightarrow> 'w \<Rightarrow> (goerr + CreateEnvironmentResponse) \<times> 'w" where
  "haas_createEnvironment T J c req w =
     haas_expect J 201 (decoded (js_Created J)) (haasClient_do T c ''POST'' ''/v1/environments'' (Some (js_create J req)) w)"

definition haas_listEnvironments ::
  "'w http_client \<Rightarrow> codecs \<Rightarrow> haasClient \<Rightarrow> 'w \<Rightarrow> (goerr + Environment list) \<times> 'w" where
  "haas_listEnvironments T J c w =
     haas_expect J 200 (decoded (js_Environments J)) (haasClient_do T c ''GET'' ''/v1/environments'' None w)"

definition haas_getEnvironment ::
  "'w http_client \<Rightarrow> codecs \<Rightarrow> haasClient \<Rightarrow> string \<Rightarrow> 'w \<Rightarrow> (goerr + Environment) \<times> 'w" where
  "haas_getEnvironment T J c i w =
     haas_expect J 200 (decoded (js_Environment J)) (haasClient_do T c ''GET'' (''/v1/environments/'' @ i) None w)"

definition haas_destroyEnvironment ::
  "'w http_client \<Rightarrow> codecs \<Rightarrow> haasClient \<Rightarrow> string \<Rightarrow> 'w \<Rightarrow> (goerr + unit) \<times> 'w" where
  "haas_destroyEnvironment T J c i w =
     haas_expect J 204 ignored (haasClient_do T c ''DELETE'' (''/v1/environments/'' @ i) None w)"

fun haas_events :: "codecs \<Rightarrow> bytes list \<Rightarrow> ExecResult \<Rightarrow> ExecResult" where
  "haas_events J [] result = result"
| "haas_events J (line # lines) result =
     (if line = [] then haas_events J lines result
      else case js_event J line of
             Inl _ \<Rightarrow> haas_events J lines result
           | Inr event \<Rightarrow>
               haas_events J lines
                 (if ev_Stream event = ''stdout'' then result\<lparr>res_Stdout := res_Stdout result @ ev_Data event\<rparr>
                  else if ev_Stream event = ''stderr'' then result\<lparr>res_Stderr := res_Stderr result @ ev_Data event\<rparr>
                  else if ev_Stream event = ''exit'' then result\<lparr>res_ExitCode := ev_Data event\<rparr>
                  else result))"

definition haas_exec ::
  "'w http_client \<Rightarrow> codecs \<Rightarrow> haasClient \<Rightarrow> string \<Rightarrow> ExecRequest \<Rightarrow> 'w \<Rightarrow> (goerr + ExecResult) \<times> 'w" where
  "haas_exec T J c envID req w =
     haas_expect J 200
       (\<lambda>r. case scan_lines r of
              (lines, None) \<Rightarrow> Inr (haas_events J lines \<lparr>res_Stdout = [], res_Stderr = [], res_ExitCode = []\<rparr>)
            | (_, Some err) \<Rightarrow> Inl (Context ''reading exec stream'' err))
       (haasClient_do T c ''POST'' (''/v1/environments/'' @ envID @ ''/exec'') (Some (js_exec J req)) w)"

definition haas_listFiles ::
  "'w http_client \<Rightarrow> codecs \<Rightarrow> haasClient \<Rightarrow> string \<Rightarrow> string \<Rightarrow> 'w \<Rightarrow> (goerr + FileInfo list) \<times> 'w" where
  "haas_listFiles T J c envID path w =
     haas_expect J 200 (decoded (js_Files J))
       (haasClient_do T c ''GET'' (''/v1/environments/'' @ envID @ ''/files?path='' @ url_QueryEscape path) None w)"

definition haas_readFile ::
  "'w http_client \<Rightarrow> codecs \<Rightarrow> haasClient \<Rightarrow> string \<Rightarrow> string \<Rightarrow> 'w \<Rightarrow> (goerr + bytes) \<times> 'w" where
  "haas_readFile T J c envID path w =
     haas_expect J 200 io_ReadAll
       (haasClient_do T c ''GET'' (''/v1/environments/'' @ envID @ ''/files/content?path='' @ url_QueryEscape path) None w)"

definition haas_writeFile ::
  "'w http_client \<Rightarrow> codecs \<Rightarrow> haasClient \<Rightarrow> string \<Rightarrow> string \<Rightarrow> bytes \<Rightarrow> 'w \<Rightarrow> (goerr + unit) \<times> 'w" where
  "haas_writeFile T J c envID path content w =
     (let url = mc_baseURL c @ ''/v1/environments/'' @ envID @ ''/files/content?path='' @ url_QueryEscape path in
      case hc_NewRequest T ''PUT'' url of
        Some err \<Rightarrow> (Inl (Context ''build request'' err), w)
      | None \<Rightarrow>
          (case hc_Do T \<lparr>hr_Method = ''PUT'', hr_URL = url,
                   hr_Header = [(''Authorization'', ''Bearer '' @ mc_apiKey c), (''Content-Type'', ''application/octet-stream'')] @
                     (if mc_userID c \<noteq> [] then [(''X-Haas-User-ID'', mc_userID c)] else []),
                   hr_Body = \<lparr>rd_data = content, rd_err = None\<rparr>\<rparr> w of
             (Inl err, w1) \<Rightarrow> (Inl (Context ''http PUT /files/content'' err), w1)
           | (Inr resp, w1) \<Rightarrow>
               if hp_StatusCode resp \<noteq> 204 then (Inl (haas_readAPIError J resp), w1) else (Inr (), w1)))"

definition haas_listInstalledSkills ::
  "'w http_client \<Rightarrow> codecs \<Rightarrow> haasClient \<Rightarrow> string \<Rightarrow> 'w \<Rightarrow> (goerr + InstalledSkill list) \<times> 'w" where
  "haas_listInstalledSkills T J c envID w =
     haas_expect J 200 (decoded (js_Installed J)) (haasClient_do T c ''GET'' (''/v1/environments/'' @ envID @ ''/skills'') None w)"

definition haas_createSnapshot ::
  "'w http_client \<Rightarrow> codecs \<Rightarrow> haasClient \<Rightarrow> string \<Rightarrow> string \<Rightarrow> 'w \<Rightarrow> (goerr + Snapshot) \<times> 'w" where
  "haas_createSnapshot T J c envID label w =
     haas_expect J 201 (decoded (js_Snapshot J))
       (haasClient_do T c ''POST'' (''/v1/environments/'' @ envID @ ''/snapshots'') (Some (js_label J label)) w)"

definition haas_listSnapshots ::
  "'w http_client \<Rightarrow> codecs \<Rightarrow> haasClient \<Rightarrow> 'w \<Rightarrow> (goerr + Snapshot list) \<times> 'w" where
  "haas_listSnapshots T J c w =
     haas_expect J 200 (decoded (js_Snapshots J)) (haasClient_do T c ''GET'' ''/v1/snapshots'' None w)"

definition haas_deleteSnapshot ::
  "'w http_client \<Rightarrow> codecs \<Rightarrow> haasClient \<Rightarrow> string \<Rightarrow> 'w \<Rightarrow> (goerr + unit) \<times> 'w" where
  "haas_deleteSnapshot T J c i w =
     haas_expect J 204 ignored (haasClient_do T c ''DELETE'' (''/v1/snapshots/'' @ i) None w)"

definition haas_listTenantEnvironments ::
  "'w http_client \<Rightarrow> codecs \<Rightarrow> haasClient \<Rightarrow> 'w \<Rightarrow> (goerr + Environment list) \<times> 'w" where
  "haas_listTenantEnvironments T J c w =
     haas_expect J 200 (decoded (js_Environments J)) (haasClient_do T c ''GET'' ''/v1/tenant/environments'' None w)"

definition haas_listTenantSnapshots ::
  "'w http_client \<Rightarrow> codecs \<Rightarrow> haasClient \<Rightarrow> 'w \<Rightarrow> (goerr + Snapshot list) \<times> 'w" where
  "haas_listTenantSnapshots T J c w =
     haas_expect J 200 (decoded (js_Snapshots J)) (haasClient_do T c ''GET'' ''/v1/tenant/snapshots'' None w)"

definition haas_restoreSnapshot ::
  "'w http_client \<Rightarrow> codecs \<Rightarrow> haasClient \<Rightarrow> CreateEnvironmentRequest \<Rightarrow> 'w \<Rightarrow> (goerr + CreateEnvironmentResponse) \<times> 'w" where
  "haas_restoreSnapshot T J c req w =
     haas_expect J 201 (decoded (js_Created J)) (haasClient_do T c ''POST'' ''/v1/environments'' (Some (js_create J req)) w)"

section \<open>Agreement with the SDK\<close>

definition sdk_client :: "haasClient \<Rightarrow> Client" where
  "sdk_client c = \<lparr>cl_baseURL = mc_baseURL c, cl_apiKey = mc_apiKey c, cl_endUserID = mc_userID c\<rparr>"

lemma sdk_client_new: "sdk_client (newHaasClient url key) = Client_New url key"
  by (simp add: sdk_client_def newHaasClient_def Client_New_def)

lemma sdk_client_user: "strings_TrimSpace u = u \<Longrightarrow> sdk_client (withUserID c u) = ForUser (sdk_client c) u"
  by (simp add: sdk_client_def withUserID_def ForUser_def)

lemma do_agrees: "haasClient_do T c method path body w = Client_do T (sdk_client c) method path body w"
  by (simp add: haasClient_do_def Client_do_def send_def auth_headers_def haasClient_headers_def sdk_client_def Let_def
      split: option.split sum.split prod.split)

lemma readAPIError_agrees: "haas_readAPIError J resp = readAPIError J resp"
  by (simp add: haas_readAPIError_def readAPIError_def)

lemma expect_agrees: "haas_expect J code dec answer = expect J code dec answer"
  by (simp add: haas_expect_def expect_def readAPIError_agrees split: prod.split sum.split)

lemma events_agree: "haas_events J lines r = collect_events J lines r"
  by (induction J lines r rule: collect_events.induct) (simp_all split: sum.split)

lemma exec_agrees: "haas_exec T J c i req w = Client_Exec T J (sdk_client c) i req w"
proof -
  have "(\<lambda>r. case scan_lines r of
            (lines, None) \<Rightarrow> Inr (haas_events J lines \<lparr>res_Stdout = [], res_Stderr = [], res_ExitCode = []\<rparr>)
          | (_, Some err) \<Rightarrow> Inl (Context ''reading exec stream'' err)) = exec_result J"
    by (auto simp: fun_eq_iff exec_result_def events_agree Let_def split: prod.splits option.splits)
  then show ?thesis by (simp add: haas_exec_def Client_Exec_def expect_agrees do_agrees)
qed

lemma writeFile_agrees: "haas_writeFile T J c i p content w = Client_WriteFile T J (sdk_client c) i p content w"
  by (auto simp: haas_writeFile_def Client_WriteFile_def send_def expect_def raw_headers_def sdk_client_def Let_def
      ignored_def readAPIError_agrees split: option.splits prod.splits sum.splits)

lemmas mcp_client_agrees =
  exec_agrees writeFile_agrees expect_agrees do_agrees
  haas_createEnvironment_def haas_listEnvironments_def haas_getEnvironment_def haas_destroyEnvironment_def
  haas_listFiles_def haas_readFile_def haas_listInstalledSkills_def haas_createSnapshot_def haas_listSnapshots_def
  haas_deleteSnapshot_def haas_restoreSnapshot_def haas_listTenantEnvironments_def haas_listTenantSnapshots_def
  Client_CreateEnvironment_def Client_ListEnvironments_def Client_GetEnvironment_def Client_DestroyEnvironment_def
  Client_ListFiles_def Client_ReadFile_def Client_CreateSnapshot_def Client_ListSnapshots_def Client_DeleteSnapshot_def
  Client_RestoreSnapshot_def Client_ListInstalledSkills_def

lemma mcp_client_one [client_requests]:
  "one_request T (sdk_client c) w (snd (haas_createEnvironment T J c req w))"
  "one_request T (sdk_client c) w (snd (haas_listEnvironments T J c w))"
  "one_request T (sdk_client c) w (snd (haas_getEnvironment T J c i w))"
  "one_request T (sdk_client c) w (snd (haas_destroyEnvironment T J c i w))"
  "one_request T (sdk_client c) w (snd (haas_listFiles T J c i p w))"
  "one_request T (sdk_client c) w (snd (haas_readFile T J c i p w))"
  "one_request T (sdk_client c) w (snd (haas_createSnapshot T J c i l w))"
  "one_request T (sdk_client c) w (snd (haas_listSnapshots T J c w))"
  "one_request T (sdk_client c) w (snd (haas_deleteSnapshot T J c i w))"
  "one_request T (sdk_client c) w (snd (haas_restoreSnapshot T J c req w))"
  "one_request T (sdk_client c) w (snd (haas_listInstalledSkills T J c i w))"
  "one_request T (sdk_client c) w (snd (haas_listTenantEnvironments T J c w))"
  "one_request T (sdk_client c) w (snd (haas_listTenantSnapshots T J c w))"
  by (simp_all add: mcp_client_agrees, (rule do_one, simp)+)

lemma mcp_client_one' [client_requests]:
  "one_request T (sdk_client c) w (snd (haas_exec T J c i xreq w))"
  "one_request T (sdk_client c) w (snd (haas_writeFile T J c i p content w))"
  by (simp_all add: exec_agrees writeFile_agrees client_requests)

section \<open>Properties\<close>

text \<open>C36: the client of the MCP server and the client of the SDK are interchangeable: with the same
  base URL, key and end user every operation they share sends the same request and gives the same
  answer, on every network.\<close>

theorem clients_agree:
  "haas_createEnvironment T J c req w = Client_CreateEnvironment T J (sdk_client c) req w \<and>
   haas_listEnvironments T J c w = Client_ListEnvironments T J (sdk_client c) w \<and>
   haas_getEnvironment T J c i w = Client_GetEnvironment T J (sdk_client c) i w \<and>
   haas_destroyEnvironment T J c i w = Client_DestroyEnvironment T J (sdk_client c) i w \<and>
   haas_exec T J c i xreq w = Client_Exec T J (sdk_client c) i xreq w \<and>
   haas_listFiles T J c i path w = Client_ListFiles T J (sdk_client c) i path w \<and>
   haas_readFile T J c i path w = Client_ReadFile T J (sdk_client c) i path w \<and>
   haas_writeFile T J c i path content w = Client_WriteFile T J (sdk_client c) i path content w \<and>
   haas_listInstalledSkills T J c i w = Client_ListInstalledSkills T J (sdk_client c) i w \<and>
   haas_createSnapshot T J c i label w = Client_CreateSnapshot T J (sdk_client c) i label w \<and>
   haas_listSnapshots T J c w = Client_ListSnapshots T J (sdk_client c) w \<and>
   haas_deleteSnapshot T J c i w = Client_DeleteSnapshot T J (sdk_client c) i w \<and>
   haas_restoreSnapshot T J c (req\<lparr>cq_SnapshotID := i\<rparr>) w = Client_RestoreSnapshot T J (sdk_client c) i req w"
  by (simp add: mcp_client_agrees)

end
