(* ===== verification/MCP_Server.thy ===== *)
theory MCP_Server
  imports MCP_Client
begin

text \<open>
  \<open>internal/mcpserver\<close>: \<open>server.go\<close>, \<open>tools.go\<close> and \<open>resources.go\<close>.  The MCP library is a
  parameter: a tool call is the record of what its accessors answer, and the transports are handlers
  that the library provides.  The record \<open>mcp_env\<close> has the network, the JSON of the clients, the verb
  \<open>%v\<close> of \<open>fmt\<close> on a decoded JSON value, the text of an error and what the conversion of a double
  to \<open>int64\<close> gives when it is out of range.  The context carries the API key, if there is one.
\<close>

section \<open>Tool calls\<close>

datatype any =
  AnyNil | AnyBool bool | AnyNumber float64 | AnyString string | AnyArray "any list" | AnyObject "(string \<times> any) list"

record CallToolRequest =
  tq_GetString :: "string \<Rightarrow> string \<Rightarrow> string"
  tq_RequireString :: "string \<Rightarrow> goerr + string"
  tq_GetFloat :: "string \<Rightarrow> float64 \<Rightarrow> float64"
  tq_GetInt :: "string \<Rightarrow> int64 \<Rightarrow> int64"
  tq_GetArguments :: "string \<Rightarrow> any"

datatype CallToolResult = ToolResultText string | ToolResultError string

record 'w mcp_env =
  mx_http :: "'w http_client"
  mx_json :: codecs
  mx_Sprint :: "any \<Rightarrow> string"
  mx_Quote :: "string \<Rightarrow> string"
  mx_int64 :: "float64 \<Rightarrow> int64"

definition int64_of :: "'w mcp_env \<Rightarrow> float64 \<Rightarrow> int64" where
  "int64_of E x = (case float_to_int64 x of Some n \<Rightarrow> n | None \<Rightarrow> mx_int64 E x)"

record Server =
  srv_restURL :: string
  srv_apiKeys :: "string list"

definition MCP_New :: "string \<Rightarrow> string list \<Rightarrow> Server" where
  "MCP_New haasURL apiKeys = \<lparr>srv_restURL = strings_TrimRight haasURL ''/'', srv_apiKeys = apiKeys\<rparr>"

type_synonym mcp_context = "string option"

fun key_loop :: "string \<Rightarrow> string \<Rightarrow> string list \<Rightarrow> haasClient option" where
  "key_loop restURL key [] = None"
| "key_loop restURL key (k # ks) = (if k = key then Some (newHaasClient restURL key) else key_loop restURL key ks)"

definition clientFromContext :: "Server \<Rightarrow> mcp_context \<Rightarrow> haasClient" where
  "clientFromContext s ctx =
     (case (case ctx of
              Some key \<Rightarrow> if key \<noteq> [] then key_loop (srv_restURL s) key (srv_apiKeys s) else None
            | None \<Rightarrow> None) of
        Some client \<Rightarrow> client
      | None \<Rightarrow>
          (case srv_apiKeys s of
             k # _ \<Rightarrow> newHaasClient (srv_restURL s) k
           | [] \<Rightarrow> newHaasClient (srv_restURL s) []))"

definition scopedClient :: "Server \<Rightarrow> mcp_context \<Rightarrow> CallToolRequest \<Rightarrow> haasClient" where
  "scopedClient s ctx req =
     (let client = clientFromContext s ctx; uid = tq_GetString req ''user_id'' [] in
      if uid \<noteq> [] then withUserID client uid else client)"

section \<open>Handlers\<close>

text \<open>A required argument, or the error that it is missing.\<close>

definition required ::
  "CallToolRequest \<Rightarrow> string \<Rightarrow> (string \<Rightarrow> 'w \<Rightarrow> CallToolResult \<times> 'w) \<Rightarrow> 'w \<Rightarrow> CallToolResult \<times> 'w" where
  "required req key k w =
     (case tq_RequireString req key of
        Inl _ \<Rightarrow> (ToolResultError (key @ '' is required''), w)
      | Inr v \<Rightarrow> k v w)"

text \<open>The answer of the client as the result of a tool.\<close>

definition result_of ::
  "'w mcp_env \<Rightarrow> string \<Rightarrow> ('a \<Rightarrow> CallToolResult) \<Rightarrow> (goerr + 'a) \<times> 'w \<Rightarrow> CallToolResult \<times> 'w" where
  "result_of E what present answer =
     (case answer of
        (Inl err, w) \<Rightarrow> (ToolResultError (what @ '': '' @ goerr_Error (mx_Quote E) err), w)
      | (Inr x, w) \<Rightarrow> (present x, w))"

definition as_json :: "'w mcp_env \<Rightarrow> string \<Rightarrow> json \<Rightarrow> CallToolResult" where
  "as_json E what v =
     (case js_indent (mx_json E) v of Inl _ \<Rightarrow> ToolResultError what | Inr data \<Rightarrow> ToolResultText data)"

type_synonym 'w tool_handler = "mcp_context \<Rightarrow> CallToolRequest \<Rightarrow> 'w \<Rightarrow> CallToolResult \<times> 'w"

definition handleCreateEnvironment :: "'w mcp_env \<Rightarrow> Server \<Rightarrow> 'w tool_handler" where
  "handleCreateEnvironment E s ctx req =
     required req ''image'' (\<lambda>image w.
       let createReq = \<lparr>cq_Image = image, cq_CPU = tq_GetFloat req ''cpu'' (Fin 0),
             cq_MemoryMB = int64_of E (tq_GetFloat req ''memory_mb'' (Fin 0)),
             cq_DiskMB = int64_of E (tq_GetFloat req ''disk_mb'' (Fin 0)),
             cq_NetworkPolicy = tq_GetString req ''network_policy'' [],
             cq_EnvVars = (case tq_GetArguments req ''env_vars'' of
                AnyObject raw \<Rightarrow> Some (map (\<lambda>(k, v). (k, mx_Sprint E v)) raw) | _ \<Rightarrow> None),
             cq_SnapshotID = []\<rparr>
       in result_of E ''failed to create environment'' (\<lambda>env. ToolResultText (environment_text ''Environment created.'' env))
            (haas_createEnvironment (mx_http E) (mx_json E) (scopedClient s ctx req) createReq w))"

definition handleListEnvironments :: "'w mcp_env \<Rightarrow> Server \<Rightarrow> 'w tool_handler" where
  "handleListEnvironments E s ctx req w =
     result_of E ''failed to list environments''
       (\<lambda>envs. if envs = [] then ToolResultText ''No active environments.''
               else as_json E ''failed to encode environments'' (JEnvironments envs))
       (haas_listEnvironments (mx_http E) (mx_json E) (scopedClient s ctx req) w)"

definition handleGetEnvironment :: "'w mcp_env \<Rightarrow> Server \<Rightarrow> 'w tool_handler" where
  "handleGetEnvironment E s ctx req =
     required req ''environment_id'' (\<lambda>i w.
       result_of E ''failed to get environment'' (\<lambda>env. as_json E ''failed to encode environment'' (JEnvironment env))
         (haas_getEnvironment (mx_http E) (mx_json E) (scopedClient s ctx req) i w))"

definition handleDestroyEnvironment :: "'w mcp_env \<Rightarrow> Server \<Rightarrow> 'w tool_handler" where
  "handleDestroyEnvironment E s ctx req =
     required req ''environment_id'' (\<lambda>i w.
       result_of E ''failed to destroy environment'' (\<lambda>_. ToolResultText (''Environment '' @ i @ '' destroyed.''))
         (haas_destroyEnvironment (mx_http E) (mx_json E) (scopedClient s ctx req) i w))"

definition command_of :: "'w mcp_env \<Rightarrow> any \<Rightarrow> string list option" where
  "command_of E v =
     (case v of
        AnyString c \<Rightarrow> Some [''sh'', ''-c'', c]
      | AnyArray items \<Rightarrow> Some (map (mx_Sprint E) items)
      | _ \<Rightarrow> None)"

definition handleExec :: "'w mcp_env \<Rightarrow> Server \<Rightarrow> 'w tool_handler" where
  "handleExec E s ctx req =
     required req ''environment_id'' (\<lambda>envID w.
       case command_of E (tq_GetArguments req ''command'') of
         None \<Rightarrow> (ToolResultError ''command must be a string or array of strings'', w)
       | Some command \<Rightarrow>
           result_of E ''exec failed'' (\<lambda>result. ToolResultText (exec_text result))
             (haas_exec (mx_http E) (mx_json E) (scopedClient s ctx req) envID
                \<lparr>er_Command = command, er_WorkingDir = tq_GetString req ''working_dir'' [],
                 er_TimeoutSeconds = tq_GetInt req ''timeout_seconds'' 30, er_CaptureOutput = False\<rparr> w))"

definition handleListFiles :: "'w mcp_env \<Rightarrow> Server \<Rightarrow> 'w tool_handler" where
  "handleListFiles E s ctx req =
     required req ''environment_id'' (\<lambda>envID w.
       let path = tq_GetString req ''path'' ''/'' in
       result_of E ''failed to list files''
         (\<lambda>files. if files = [] then ToolResultText (''No files found at '' @ path)
                  else as_json E ''failed to encode file list'' (JFiles files))
         (haas_listFiles (mx_http E) (mx_json E) (scopedClient s ctx req) envID path w))"

definition handleReadFile :: "'w mcp_env \<Rightarrow> Server \<Rightarrow> 'w tool_handler" where
  "handleReadFile E s ctx req =
     required req ''environment_id'' (\<lambda>envID. required req ''path'' (\<lambda>path w.
       result_of E ''failed to read file'' ToolResultText
         (haas_readFile (mx_http E) (mx_json E) (scopedClient s ctx req) envID path w)))"

definition handleListInstalledSkills :: "'w mcp_env \<Rightarrow> Server \<Rightarrow> 'w tool_handler" where
  "handleListInstalledSkills E s ctx req =
     required req ''environment_id'' (\<lambda>envID w.
       result_of E ''failed to list installed skills''
         (\<lambda>skills. if skills = [] then ToolResultText ''No skills installed in this environment.''
                   else as_json E ''failed to encode skills'' (JInstalled skills))
         (haas_listInstalledSkills (mx_http E) (mx_json E) (scopedClient s ctx req) envID w))"

definition handleCreateSnapshot :: "'w mcp_env \<Rightarrow> Server \<Rightarrow> 'w tool_handler" where
  "handleCreateSnapshot E s ctx req =
     required req ''environment_id'' (\<lambda>envID w.
       let label = tq_GetString req ''label'' [] in
       result_of E ''failed to create snapshot'' (\<lambda>snap. ToolResultText (snapshot_text snap))
         (haas_createSnapshot (mx_http E) (mx_json E) (scopedClient s ctx req) envID label w))"

definition handleListSnapshots :: "'w mcp_env \<Rightarrow> Server \<Rightarrow> 'w tool_handler" where
  "handleListSnapshots E s ctx req w =
     result_of E ''failed to list snapshots''
       (\<lambda>snaps. if snaps = [] then ToolResultText ''No snapshots found.''
                else as_json E ''failed to encode snapshots'' (JSnapshots snaps))
       (haas_listSnapshots (mx_http E) (mx_json E) (scopedClient s ctx req) w)"

definition handleDeleteSnapshot :: "'w mcp_env \<Rightarrow> Server \<Rightarrow> 'w tool_handler" where
  "handleDeleteSnapshot E s ctx req =
     required req ''snapshot_id'' (\<lambda>i w.
       result_of E ''failed to delete snapshot'' (\<lambda>_. ToolResultText (''Snapshot '' @ i @ '' deleted.''))
         (haas_deleteSnapshot (mx_http E) (mx_json E) (scopedClient s ctx req) i w))"

definition handleRestoreSnapshot :: "'w mcp_env \<Rightarrow> Server \<Rightarrow> 'w tool_handler" where
  "handleRestoreSnapshot E s ctx req =
     required req ''snapshot_id'' (\<lambda>snapID w.
       let createReq = \<lparr>cq_Image = [], cq_CPU = tq_GetFloat req ''cpu'' (Fin 0),
             cq_MemoryMB = int64_of E (tq_GetFloat req ''memory_mb'' (Fin 0)),
             cq_DiskMB = int64_of E (tq_GetFloat req ''disk_mb'' (Fin 0)),
             cq_NetworkPolicy = tq_GetString req ''network_policy'' [], cq_EnvVars = None, cq_SnapshotID = snapID\<rparr>
       in result_of E ''failed to restore snapshot''
            (\<lambda>env. ToolResultText (environment_text ''Environment restored from snapshot.'' env))
            (haas_restoreSnapshot (mx_http E) (mx_json E) (scopedClient s ctx req) createReq w))"

definition handleListTenantEnvironments :: "'w mcp_env \<Rightarrow> Server \<Rightarrow> 'w tool_handler" where
  "handleListTenantEnvironments E s ctx req w =
     result_of E ''failed to list tenant environments''
       (\<lambda>envs. if envs = [] then ToolResultText ''No active environments across all users.''
               else as_json E ''failed to encode environments'' (JEnvironments envs))
       (haas_listTenantEnvironments (mx_http E) (mx_json E) (clientFromContext s ctx) w)"

definition handleListTenantSnapshots :: "'w mcp_env \<Rightarrow> Server \<Rightarrow> 'w tool_handler" where
  "handleListTenantSnapshots E s ctx req w =
     result_of E ''failed to list tenant snapshots''
       (\<lambda>snaps. if snaps = [] then ToolResultText ''No snapshots found across all users.''
                else as_json E ''failed to encode snapshots'' (JSnapshots snaps))
       (haas_listTenantSnapshots (mx_http E) (mx_json E) (clientFromContext s ctx) w)"

definition handleWriteFile :: "'w mcp_env \<Rightarrow> Server \<Rightarrow> 'w tool_handler" where
  "handleWriteFile E s ctx req =
     required req ''environment_id'' (\<lambda>envID. required req ''path'' (\<lambda>path. required req ''content'' (\<lambda>content w.
       result_of E ''failed to write file'' (\<lambda>_. ToolResultText (''File written to '' @ path))
         (haas_writeFile (mx_http E) (mx_json E) (scopedClient s ctx req) envID path content w))))"

section \<open>Resources\<close>

record resource_contents =
  rc_URI :: string
  rc_MIMEType :: string
  rc_Text :: string

definition resource_of ::
  "'w mcp_env \<Rightarrow> string \<Rightarrow> string \<Rightarrow> string \<Rightarrow> ('a \<Rightarrow> json) \<Rightarrow> (goerr + 'a) \<times> 'w \<Rightarrow>
   (goerr + resource_contents list) \<times> 'w" where
  "resource_of E what encode uri value answer =
     (case answer of
        (Inl err, w) \<Rightarrow> (Inl (Context what err), w)
      | (Inr x, w) \<Rightarrow>
          (case js_indent (mx_json E) (value x) of
             Inl err \<Rightarrow> (Inl (Context encode err), w)
           | Inr data \<Rightarrow> (Inr [\<lparr>rc_URI = uri, rc_MIMEType = ''application/json'', rc_Text = data\<rparr>], w)))"

type_synonym 'w resource_handler =
  "mcp_context \<Rightarrow> string \<Rightarrow> 'w \<Rightarrow> (goerr + resource_contents list) \<times> 'w"

definition handleEnvironmentsResource :: "'w mcp_env \<Rightarrow> Server \<Rightarrow> 'w resource_handler" where
  "handleEnvironmentsResource E s ctx uri w =
     resource_of E ''list environments'' ''encode environments'' ''haas://environments'' JEnvironments
       (haas_listEnvironments (mx_http E) (mx_json E) (clientFromContext s ctx) w)"

definition handleEnvironmentResource :: "'w mcp_env \<Rightarrow> Server \<Rightarrow> 'w resource_handler" where
  "handleEnvironmentResource E s ctx uri w =
     (let i = strings_TrimPrefix uri ''haas://environments/'' in
      if i = [] then (Inl (Opaque ''missing environment id in URI''), w)
      else resource_of E (''get environment '' @ i) ''encode environment'' uri JEnvironment
             (haas_getEnvironment (mx_http E) (mx_json E) (clientFromContext s ctx) i w))"

section \<open>Registration\<close>

record mcp_param =
  mp_Name :: string
  mp_Type :: string
  mp_Required :: bool
  mp_Description :: string

definition param :: "string \<Rightarrow> string \<Rightarrow> bool \<Rightarrow> string \<Rightarrow> mcp_param" where
  "param name type req desc = \<lparr>mp_Name = name, mp_Type = type, mp_Required = req, mp_Description = desc\<rparr>"

record mcp_tool =
  mt_Name :: string
  mt_Description :: string
  mt_Params :: "mcp_param list"

definition userIDParam :: mcp_param where
  "userIDParam = param ''user_id'' ''string'' False
     ''Optional end-user identifier. When set, operations are scoped to this user so their containers are isolated from other users under the same API key. Omit to operate as the service owner.''"

definition mcp_tool_create_environment :: mcp_tool where
  "mcp_tool_create_environment = \<lparr>mt_Name = ''haas_create_environment'',
     mt_Description = ''Create a new sandboxed Docker container environment. Returns an environment ID used in subsequent calls.'',
     mt_Params = [param ''image'' ''string'' True (''Docker image to use (e.g. '' @ [CHR 0x27] @ ''ubuntu:22.04'' @ [CHR 0x27] @ '', '' @ [CHR 0x27] @ ''python:3.12'' @ [CHR 0x27] @ '', '' @ [CHR 0x27] @ ''node:20'' @ [CHR 0x27] @ '')''),
       param ''cpu'' ''number'' False (''CPU cores to allocate (0.1'' @ [CHR 0xE2, CHR 0x80, CHR 0x93] @ ''4.0, default 1.0)''),
       param ''memory_mb'' ''number'' False (''Memory in MB to allocate (128'' @ [CHR 0xE2, CHR 0x80, CHR 0x93] @ ''8192, default 2048)''),
       param ''disk_mb'' ''number'' False (''Disk space in MB (default 4096)''),
       param ''network_policy'' ''string'' False (''Network access: '' @ [CHR 0x27] @ ''none'' @ [CHR 0x27] @ '' (isolated), '' @ [CHR 0x27] @ ''egress-limited'' @ [CHR 0x27] @ '', or '' @ [CHR 0x27] @ ''full'' @ [CHR 0x27] @ '' (default: '' @ [CHR 0x27] @ ''none'' @ [CHR 0x27] @ '')''),
       param ''env_vars'' ''object'' False (''Environment variables to set inside the container (key-value map)''),
       userIDParam]\<rparr>"

definition mcp_tool_list_environments :: mcp_tool where
  "mcp_tool_list_environments = \<lparr>mt_Name = ''haas_list_environments'',
     mt_Description = ''List active container environments. Returns only the calling user'' @ [CHR 0x27] @ ''s environments; use haas_list_tenant_environments to see all users'' @ [CHR 0x27] @ '' environments.'',
     mt_Params = [userIDParam]\<rparr>"

definition mcp_tool_get_environment :: mcp_tool where
  "mcp_tool_get_environment = \<lparr>mt_Name = ''haas_get_environment'',
     mt_Description = ''Get details and current status of a specific environment.'',
     mt_Params = [param ''environment_id'' ''string'' True (''The environment ID (e.g. '' @ [CHR 0x27] @ ''env_a1b2c3d4'' @ [CHR 0x27] @ '')''),
       userIDParam]\<rparr>"

definition mcp_tool_destroy_environment :: mcp_tool where
  "mcp_tool_destroy_environment = \<lparr>mt_Name = ''haas_destroy_environment'',
     mt_Description = ''Stop and permanently destroy a container environment.'',
     mt_Params = [param ''environment_id'' ''string'' True (''The environment ID to destroy''),
       userIDParam]\<rparr>"

definition mcp_tool_exec :: mcp_tool where
  "mcp_tool_exec = \<lparr>mt_Name = ''haas_exec'',
     mt_Description = ''Execute a command inside a container environment. Returns stdout, stderr, and exit code.'',
     mt_Params = [param ''environment_id'' ''string'' True (''The environment ID''),
       param ''command'' ''string'' True (''Command to run. Can be a shell string (e.g. '' @ [CHR 0x27] @ ''ls -la /tmp'' @ [CHR 0x27] @ '') or a JSON array (e.g. ['' @ [CHR 0x27] @ ''python'' @ [CHR 0x27] @ '', '' @ [CHR 0x27] @ ''script.py'' @ [CHR 0x27] @ ''])''),
       param ''working_dir'' ''string'' False (''Working directory inside the container (default: container default)''),
       param ''timeout_seconds'' ''number'' False (''Max seconds to wait for the command (default: 30)''),
       userIDParam]\<rparr>"

definition mcp_tool_list_files :: mcp_tool where
  "mcp_tool_list_files = \<lparr>mt_Name = ''haas_list_files'',
     mt_Description = ''List files and directories at a path inside a container environment.'',
     mt_Params = [param ''environment_id'' ''string'' True (''The environment ID''),
       param ''path'' ''string'' False (''Directory path to list (default: '' @ [CHR 0x27] @ ''/'' @ [CHR 0x27] @ '')''),
       userIDParam]\<rparr>"

definition mcp_tool_read_file :: mcp_tool where
  "mcp_tool_read_file = \<lparr>mt_Name = ''haas_read_file'',
     mt_Description = ''Read the contents of a file inside a container environment.'',
     mt_Params = [param ''environment_id'' ''string'' True (''The environment ID''),
       param ''path'' ''string'' True (''Absolute path to the file (e.g. '' @ [CHR 0x27] @ ''/app/main.py'' @ [CHR 0x27] @ '')''),
       userIDParam]\<rparr>"

definition mcp_tool_write_file :: mcp_tool where
  "mcp_tool_write_file = \<lparr>mt_Name = ''haas_write_file'',
     mt_Description = ''Write text content to a file inside a container environment. Creates parent directories as needed.'',
     mt_Params = [param ''environment_id'' ''string'' True (''The environment ID''),
       param ''path'' ''string'' True (''Absolute path to write (e.g. '' @ [CHR 0x27] @ ''/app/main.py'' @ [CHR 0x27] @ '')''),
       param ''content'' ''string'' True (''Text content to write to the file''),
       userIDParam]\<rparr>"

definition mcp_tool_list_installed_skills :: mcp_tool where
  "mcp_tool_list_installed_skills = \<lparr>mt_Name = ''haas_list_installed_skills'',
     mt_Description = ''List the Agent Skills installed inside a container environment, each with its name and description from SKILL.md. Use this to discover which skills are available, then read a skill'' @ [CHR 0x27] @ ''s SKILL.md (via haas_read_file) to load its full instructions before using it.'',
     mt_Params = [param ''environment_id'' ''string'' True (''The environment ID''),
       userIDParam]\<rparr>"

definition mcp_tool_create_snapshot :: mcp_tool where
  "mcp_tool_create_snapshot = \<lparr>mt_Name = ''haas_create_snapshot'',
     mt_Description = ''Save a snapshot of a running environment'' @ [CHR 0x27] @ ''s filesystem. Snapshots capture installed packages, files, and configuration '' @ [CHR 0xE2, CHR 0x80, CHR 0x94] @ '' but not running processes. Use haas_restore_snapshot to spin up a new environment from a snapshot.'',
     mt_Params = [param ''environment_id'' ''string'' True (''The environment ID to snapshot''),
       param ''label'' ''string'' False (''Optional human-readable label for the snapshot (e.g. '' @ [CHR 0x27] @ ''before-migration'' @ [CHR 0x27] @ '', '' @ [CHR 0x27] @ ''deps-installed'' @ [CHR 0x27] @ '')''),
       userIDParam]\<rparr>"

definition mcp_tool_list_snapshots :: mcp_tool where
  "mcp_tool_list_snapshots = \<lparr>mt_Name = ''haas_list_snapshots'',
     mt_Description = ''List saved snapshots for the current user. Use haas_list_tenant_snapshots to see all users'' @ [CHR 0x27] @ '' snapshots.'',
     mt_Params = [userIDParam]\<rparr>"

definition mcp_tool_restore_snapshot :: mcp_tool where
  "mcp_tool_restore_snapshot = \<lparr>mt_Name = ''haas_restore_snapshot'',
     mt_Description = ''Create a new environment restored from a snapshot. The new environment starts with the exact filesystem state from when the snapshot was taken.'',
     mt_Params = [param ''snapshot_id'' ''string'' True (''The snapshot ID to restore from''),
       param ''cpu'' ''number'' False (''CPU cores to allocate (0.1'' @ [CHR 0xE2, CHR 0x80, CHR 0x93] @ ''4.0, default 1.0)''),
       param ''memory_mb'' ''number'' False (''Memory in MB to allocate (128'' @ [CHR 0xE2, CHR 0x80, CHR 0x93] @ ''8192, default 2048)''),
       param ''disk_mb'' ''number'' False (''Disk space in MB (default 4096)''),
       param ''network_policy'' ''string'' False (''Network access: '' @ [CHR 0x27] @ ''none'' @ [CHR 0x27] @ '' (isolated), '' @ [CHR 0x27] @ ''egress-limited'' @ [CHR 0x27] @ '', or '' @ [CHR 0x27] @ ''full'' @ [CHR 0x27] @ '' (default: '' @ [CHR 0x27] @ ''none'' @ [CHR 0x27] @ '')''),
       userIDParam]\<rparr>"

definition mcp_tool_delete_snapshot :: mcp_tool where
  "mcp_tool_delete_snapshot = \<lparr>mt_Name = ''haas_delete_snapshot'',
     mt_Description = ''Delete a snapshot and free its storage. This cannot be undone.'',
     mt_Params = [param ''snapshot_id'' ''string'' True (''The snapshot ID to delete''),
       userIDParam]\<rparr>"

definition mcp_tool_list_tenant_environments :: mcp_tool where
  "mcp_tool_list_tenant_environments = \<lparr>mt_Name = ''haas_list_tenant_environments'',
     mt_Description = ''List all active environments across every end-user under this API key. Useful for service owners to get a full view of all containers regardless of which user created them.'',
     mt_Params = []\<rparr>"

definition mcp_tool_list_tenant_snapshots :: mcp_tool where
  "mcp_tool_list_tenant_snapshots = \<lparr>mt_Name = ''haas_list_tenant_snapshots'',
     mt_Description = ''List all snapshots across every end-user under this API key. Useful for service owners to get a full view of all snapshots regardless of which user created them.'',
     mt_Params = []\<rparr>"

definition registerTools :: "'w mcp_env \<Rightarrow> Server \<Rightarrow> (mcp_tool \<times> 'w tool_handler) list" where
  "registerTools E s =
    [(mcp_tool_create_environment, handleCreateEnvironment E s),
      (mcp_tool_list_environments, handleListEnvironments E s),
      (mcp_tool_get_environment, handleGetEnvironment E s),
      (mcp_tool_destroy_environment, handleDestroyEnvironment E s),
      (mcp_tool_exec, handleExec E s),
      (mcp_tool_list_files, handleListFiles E s),
      (mcp_tool_read_file, handleReadFile E s),
      (mcp_tool_write_file, handleWriteFile E s),
      (mcp_tool_list_installed_skills, handleListInstalledSkills E s),
      (mcp_tool_create_snapshot, handleCreateSnapshot E s),
      (mcp_tool_list_snapshots, handleListSnapshots E s),
      (mcp_tool_restore_snapshot, handleRestoreSnapshot E s),
      (mcp_tool_delete_snapshot, handleDeleteSnapshot E s),
      (mcp_tool_list_tenant_environments, handleListTenantEnvironments E s),
      (mcp_tool_list_tenant_snapshots, handleListTenantSnapshots E s)]"

record mcp_resource =
  rs_URI :: string
  rs_Name :: string
  rs_Description :: string
  rs_MIMEType :: string

definition registerResources :: "'w mcp_env \<Rightarrow> Server \<Rightarrow> (mcp_resource \<times> 'w resource_handler) list" where
  "registerResources E s =
    [(\<lparr>rs_URI = ''haas://environments'', rs_Name = ''Active environments'',
       rs_Description = ''Live list of all active HaaS container environments'', rs_MIMEType = ''application/json''\<rparr>,
      handleEnvironmentsResource E s),
     (\<lparr>rs_URI = ''haas://environments/{id}'', rs_Name = ''Environment details'',
       rs_Description = ''Details and status of a specific HaaS environment'', rs_MIMEType = ''application/json''\<rparr>,
      handleEnvironmentResource E s)]"

section \<open>HTTP\<close>

text \<open>A request to the MCP endpoint: the request of the API with the key in its context.\<close>

record mcp_request = request +
  rq_ctx_mcp_key :: mcp_context

type_synonym 'w mcp_handler = "mcp_request \<Rightarrow> 'w \<Rightarrow> outcome \<times> 'w"

record entry =
  en_hash :: string
  en_raw :: string

fun entries_of :: "hashing \<Rightarrow> string list \<Rightarrow> entry list" where
  "entries_of H [] = []"
| "entries_of H (k # ks) =
     (if k \<noteq> [] then \<lparr>en_hash = sha256_hex H k, en_raw = k\<rparr> # entries_of H ks else entries_of H ks)"

fun match_entry :: "string \<Rightarrow> entry list \<Rightarrow> string" where
  "match_entry candidate [] = []"
| "match_entry candidate (e # es) = (if en_hash e = candidate then en_raw e else match_entry candidate es)"

definition mcp_unauthorized :: response where
  "mcp_unauthorized = \<lparr>rs_Status = 401,
     rs_Header = [(''Content-Type'', ''text/plain; charset=utf-8''), (''X-Content-Type-Options'', ''nosniff'')],
     rs_Body = Raw ([CHR 0x7B, CHR 0x22] @ ''error'' @ [CHR 0x22] @ '':'' @ [CHR 0x22] @ ''unauthorized'' @
       [CHR 0x22, CHR 0x7D, CHR 0x0A])\<rparr>"

definition bearerAuthMiddleware :: "hashing \<Rightarrow> string list \<Rightarrow> 'w mcp_handler \<Rightarrow> 'w mcp_handler" where
  "bearerAuthMiddleware H apiKeys next r w =
     (let entries = entries_of H apiKeys;
          auth = rq_Header r ''Authorization'';
          token = strings_TrimPrefix auth ''Bearer ''
      in if token = [] \<or> token = auth then (Response mcp_unauthorized, w)
         else let matchedKey = match_entry (sha256_hex H token) entries in
              if matchedKey = [] then (Response mcp_unauthorized, w)
              else next (r\<lparr>rq_ctx_mcp_key := Some matchedKey\<rparr>) w)"

text \<open>\<open>http.ServeMux\<close> on exact patterns and the pattern \<open>/\<close> that takes every path.  A path that is
  not clean is redirected; the status of that redirection depends on the version of Go and is an
  argument.\<close>

definition clean_path :: "string \<Rightarrow> string" where
  "clean_path p =
     (if p = [] then ''/''
      else let p1 = (if hd p = CHR ''/'' then p else CHR ''/'' # p); np = path_Clean p1
           in if last p1 = CHR ''/'' \<and> np \<noteq> ''/'' then np @ ''/'' else np)"

definition mux_not_found :: response where
  "mux_not_found = \<lparr>rs_Status = 404,
     rs_Header = [(''Content-Type'', ''text/plain; charset=utf-8''), (''X-Content-Type-Options'', ''nosniff'')],
     rs_Body = Raw (''404 page not found'' @ newline)\<rparr>"

definition mux_serve :: "(string \<Rightarrow> response) \<Rightarrow> (string \<times> 'w mcp_handler) list \<Rightarrow> 'w mcp_handler" where
  "mux_serve redirect handlers r w =
     (if rq_Method r \<noteq> ''CONNECT'' \<and> clean_path (rq_Path r) \<noteq> rq_Path r
      then (Response (redirect (clean_path (rq_Path r))), w)
      else case map_of handlers (rq_Path r) of
             Some h \<Rightarrow> h r w
           | None \<Rightarrow>
               (case map_of handlers ''/'' of
                  Some h \<Rightarrow> h r w
                | None \<Rightarrow> (Response mux_not_found, w)))"

text \<open>The transports of the library: the handlers of the SSE transport for a base URL, and the
  streamable one.\<close>

record 'w mcp_transports =
  tr_SSE :: "string \<Rightarrow> 'w mcp_handler"
  tr_Message :: "string \<Rightarrow> 'w mcp_handler"
  tr_Streamable :: "'w mcp_handler"
  tr_redirect :: "string \<Rightarrow> response"

definition ServeSSE :: "hashing \<Rightarrow> 'w mcp_transports \<Rightarrow> string \<Rightarrow> string \<Rightarrow> string list \<Rightarrow> 'w mcp_handler" where
  "ServeSSE H L addr baseURL apiKeys =
     (let base = (if baseURL = [] then ''http://'' @ addr else baseURL);
          mux = mux_serve (tr_redirect L) [(''/sse'', tr_SSE L base), (''/message'', tr_Message L base)]
      in if apiKeys \<noteq> [] then bearerAuthMiddleware H apiKeys mux else mux)"

definition ServeStreamableHTTP :: "hashing \<Rightarrow> 'w mcp_transports \<Rightarrow> string \<Rightarrow> string list \<Rightarrow> 'w mcp_handler" where
  "ServeStreamableHTTP H L addr apiKeys =
     (let host = (if strings_HasPrefix addr '':'' then ''localhost'' @ addr else addr);
          base = ''http://'' @ host;
          mux = mux_serve (tr_redirect L)
            [(''/sse'', tr_SSE L base), (''/message'', tr_Message L base), (''/'', tr_Streamable L)]
      in if apiKeys \<noteq> [] then bearerAuthMiddleware H apiKeys mux else mux)"

section \<open>Authentication\<close>

lemma match_entry_entries:
  "match_entry c (entries_of H ks) =
    (case filter (\<lambda>k. k \<noteq> [] \<and> sha256_hex H k = c) ks of [] \<Rightarrow> [] | k # _ \<Rightarrow> k)"
  by (induction H ks rule: entries_of.induct) auto

text \<open>The first configured key that a request presents as its bearer token.\<close>

definition presented_key :: "hashing \<Rightarrow> string list \<Rightarrow> mcp_request \<Rightarrow> string option" where
  "presented_key H keys r =
     (let auth = rq_Header r ''Authorization''; token = drop 7 auth in
      if strings_HasPrefix auth ''Bearer '' \<and> token \<noteq> []
      then (case filter (\<lambda>k. k \<noteq> [] \<and> sha256_hex H k = sha256_hex H token) keys of [] \<Rightarrow> None | k # _ \<Rightarrow> Some k)
      else None)"

lemma presented_key_Some:
  assumes "presented_key H keys r = Some k"
  shows "k \<in> set keys" and "k \<noteq> []"
    and "\<exists>token. rq_Header r ''Authorization'' = ''Bearer '' @ token \<and> token \<noteq> [] \<and> sha256_hex H k = sha256_hex H token"
proof -
  let ?auth = "rq_Header r ''Authorization''"
  have p: "strings_HasPrefix ?auth ''Bearer ''" "drop 7 ?auth \<noteq> []"
    and f: "filter (\<lambda>k. k \<noteq> [] \<and> sha256_hex H k = sha256_hex H (drop 7 ?auth)) keys \<noteq> []"
      "k = hd (filter (\<lambda>k. k \<noteq> [] \<and> sha256_hex H k = sha256_hex H (drop 7 ?auth)) keys)"
    using assms by (auto simp: presented_key_def Let_def split: if_splits list.splits)
  from hd_in_set [OF f(1)] f(2) have k: "k \<in> set keys" "k \<noteq> []" "sha256_hex H k = sha256_hex H (drop 7 ?auth)"
    by auto
  then show "k \<in> set keys" "k \<noteq> []" by simp_all
  have "?auth = ''Bearer '' @ drop 7 ?auth"
    using p(1) by (auto simp: strings_HasPrefix_def prefix_def)
  with p(2) k(3)
  show "\<exists>token. ?auth = ''Bearer '' @ token \<and> token \<noteq> [] \<and> sha256_hex H k = sha256_hex H token" by blast
qed

lemma bearerAuth_presented:
  "bearerAuthMiddleware H keys next r w =
    (case presented_key H keys r of
       None \<Rightarrow> (Response mcp_unauthorized, w)
     | Some k \<Rightarrow> next (r\<lparr>rq_ctx_mcp_key := Some k\<rparr>) w)"
proof -
  let ?auth = "rq_Header r ''Authorization''"
  have t: "strings_TrimPrefix ?auth ''Bearer '' = (if strings_HasPrefix ?auth ''Bearer '' then drop 7 ?auth else ?auth)"
    by (simp add: strings_TrimPrefix_def numeral_eq_Suc)
  have "drop 7 ?auth \<noteq> ?auth" if "strings_HasPrefix ?auth ''Bearer ''"
  proof
    assume "drop 7 ?auth = ?auth"
    then have "length (drop 7 ?auth) = length ?auth" by simp
    moreover have "7 \<le> length ?auth" using that by (auto simp: strings_HasPrefix_def prefix_def)
    ultimately show False by simp
  qed
  then show ?thesis
    by (auto simp: bearerAuthMiddleware_def presented_key_def Let_def t match_entry_entries
        split: list.split dest: filter_eq_ConsD)
qed

section \<open>What a tool sends\<close>

lemma required_one:
  "(\<And>v. one_request T c w (snd (k v w))) \<Longrightarrow> one_request T c w (snd (required req key k w))"
  by (simp add: required_def split: sum.split)

lemma result_of_world [simp]: "snd (result_of E what present answer) = snd answer"
  by (simp add: result_of_def split: prod.splits sum.splits)

lemma resource_of_world [simp]: "snd (resource_of E what enc uri value answer) = snd answer"
  by (simp add: resource_of_def split: prod.splits sum.splits)

lemmas tool_handlers =
  handleCreateEnvironment_def handleListEnvironments_def handleGetEnvironment_def handleDestroyEnvironment_def
  handleExec_def handleListFiles_def handleReadFile_def handleWriteFile_def handleListInstalledSkills_def
  handleCreateSnapshot_def handleListSnapshots_def handleRestoreSnapshot_def handleDeleteSnapshot_def
  handleListTenantEnvironments_def handleListTenantSnapshots_def

lemma handlers_one [client_requests]:
  "one_request (mx_http E) (sdk_client (scopedClient s ctx req)) w (snd (handleCreateEnvironment E s ctx req w))"
  "one_request (mx_http E) (sdk_client (scopedClient s ctx req)) w (snd (handleListEnvironments E s ctx req w))"
  "one_request (mx_http E) (sdk_client (scopedClient s ctx req)) w (snd (handleGetEnvironment E s ctx req w))"
  "one_request (mx_http E) (sdk_client (scopedClient s ctx req)) w (snd (handleDestroyEnvironment E s ctx req w))"
  "one_request (mx_http E) (sdk_client (scopedClient s ctx req)) w (snd (handleExec E s ctx req w))"
  "one_request (mx_http E) (sdk_client (scopedClient s ctx req)) w (snd (handleListFiles E s ctx req w))"
  "one_request (mx_http E) (sdk_client (scopedClient s ctx req)) w (snd (handleReadFile E s ctx req w))"
  "one_request (mx_http E) (sdk_client (scopedClient s ctx req)) w (snd (handleWriteFile E s ctx req w))"
  "one_request (mx_http E) (sdk_client (scopedClient s ctx req)) w (snd (handleListInstalledSkills E s ctx req w))"
  "one_request (mx_http E) (sdk_client (scopedClient s ctx req)) w (snd (handleCreateSnapshot E s ctx req w))"
  "one_request (mx_http E) (sdk_client (scopedClient s ctx req)) w (snd (handleListSnapshots E s ctx req w))"
  "one_request (mx_http E) (sdk_client (scopedClient s ctx req)) w (snd (handleRestoreSnapshot E s ctx req w))"
  "one_request (mx_http E) (sdk_client (scopedClient s ctx req)) w (snd (handleDeleteSnapshot E s ctx req w))"
  "one_request (mx_http E) (sdk_client (clientFromContext s ctx)) w (snd (handleListTenantEnvironments E s ctx req w))"
  "one_request (mx_http E) (sdk_client (clientFromContext s ctx)) w (snd (handleListTenantSnapshots E s ctx req w))"
  by (auto simp: tool_handlers Let_def client_requests intro!: required_one split: option.split)

lemma resources_one [client_requests]:
  "one_request (mx_http E) (sdk_client (clientFromContext s ctx)) w (snd (handleEnvironmentsResource E s ctx uri w))"
  "one_request (mx_http E) (sdk_client (clientFromContext s ctx)) w (snd (handleEnvironmentResource E s ctx uri w))"
  by (simp_all add: handleEnvironmentsResource_def handleEnvironmentResource_def Let_def client_requests)

lemma tools_one:
  assumes "(t, h) \<in> set (registerTools E s)"
  shows "one_request (mx_http E) (sdk_client (scopedClient s ctx req)) w (snd (h ctx req w)) \<or>
    one_request (mx_http E) (sdk_client (clientFromContext s ctx)) w (snd (h ctx req w))"
  using assms by (auto simp: registerTools_def client_requests)

lemma registered_one:
  assumes "(x, h) \<in> set (registerResources E s)"
  shows "one_request (mx_http E) (sdk_client (clientFromContext s ctx)) w (snd (h ctx uri w))"
proof -
  have "h = handleEnvironmentsResource E s \<or> h = handleEnvironmentResource E s"
    using assms by (simp add: registerResources_def) blast
  then show ?thesis by (elim disjE) (simp_all only: resources_one)
qed

lemma key_loop_Some: "key \<in> set ks \<Longrightarrow> key_loop url key ks = Some (newHaasClient url key)"
  by (induction url key ks rule: key_loop.induct) auto

lemma key_loop_user: "key_loop url key ks = Some c \<Longrightarrow> mc_userID c = []"
  by (induction url key ks rule: key_loop.induct) (auto simp: newHaasClient_def split: if_splits)

text \<open>Embedded in the service, where the keys of both servers are the same, a request is proxied with
  the key it was authenticated with; a proxy with one key of its own always uses that one.\<close>

lemma clientFromContext_key:
  "k \<in> set (srv_apiKeys s) \<Longrightarrow> k \<noteq> [] \<Longrightarrow> clientFromContext s (Some k) = newHaasClient (srv_restURL s) k"
  by (simp add: clientFromContext_def key_loop_Some)

lemma clientFromContext_single:
  "clientFromContext (MCP_New url [k]) ctx = newHaasClient (strings_TrimRight url ''/'') k"
  by (simp add: clientFromContext_def MCP_New_def split: option.split)

lemma scopedClient_fields:
  "mc_apiKey (scopedClient s ctx req) = mc_apiKey (clientFromContext s ctx)"
  "mc_baseURL (scopedClient s ctx req) = mc_baseURL (clientFromContext s ctx)"
  "mc_userID (clientFromContext s ctx) = []"
  "mc_userID (scopedClient s ctx req) = tq_GetString req ''user_id'' []"
  by (auto simp: scopedClient_def clientFromContext_def withUserID_def newHaasClient_def Let_def
      split: option.split list.split if_splits dest: key_loop_user)

end
