(* ===== verification/SQL_Migration.thy ===== *)
theory SQL_Migration
  imports SQL_Store
begin

text \<open>
  Opening a database (\<open>NewSQLStore\<close>, \<open>migrate\<close> and \<open>addColumnIfMissing\<close> of
  \<open>internal/store/sql.go\<close>).  A database that an older version of the service left is a catalogue:
  tables with their columns, rows from columns to cells, indexes and named foreign keys.  A statement
  of the migration is the function on catalogues that it means; the pending faults are those of the
  store's model.  \<open>database_of\<close> reads the rows of a catalogue the way the store's queries do, a column
  that is not there as its default.
\<close>

section \<open>Catalogues\<close>

datatype cell = CText string | CInt int64 | CReal float64 | CBlob bytes

type_synonym row = "(string \<times> cell) list"

record col =
  col_Name :: string
  col_Type :: string
  col_Default :: "cell option"

record tbl =
  tb_Columns :: "col list"
  tb_Unique :: "string list list"
  tb_ForeignKeys :: "string list"
  tb_Rows :: "row list"

text \<open>The first element of \<open>tb_Unique\<close> is the primary key.  \<open>ct_scans\<close> are the iterations over the rows
  of a coming inspection that break off, with the number of rows read by then; \<open>rows.Next\<close> just
  answers false there, and past the end of the list every iteration is complete.\<close>

record catalog =
  ct_tables :: "(string \<times> tbl) list"
  ct_indexes :: "(string \<times> string \<times> string) list"
  ct_foreign_keys :: bool
  ct_faults :: "fault list"
  ct_scans :: "nat list"

section \<open>Statements\<close>

type_synonym ddl = "catalog \<Rightarrow> goerr + catalog"

definition column_names :: "tbl \<Rightarrow> string list" where
  "column_names t = map col_Name (tb_Columns t)"

definition create_table :: "string \<Rightarrow> tbl \<Rightarrow> ddl" where
  "create_table name t c =
     (if map_of (ct_tables c) name \<noteq> None then Inr c else Inr (c\<lparr>ct_tables := ct_tables c @ [(name, t)]\<rparr>))"

definition pragma_foreign_keys :: ddl where
  "pragma_foreign_keys c = Inr (c\<lparr>ct_foreign_keys := True\<rparr>)"

definition with_table :: "string \<Rightarrow> (tbl \<Rightarrow> goerr + tbl) \<Rightarrow> ddl" where
  "with_table name f c =
     (case map_of (ct_tables c) name of
        None \<Rightarrow> Inl (Opaque (''no such table: '' @ name))
      | Some t \<Rightarrow> (case f t of Inl e \<Rightarrow> Inl e | Inr t' \<Rightarrow> Inr (c\<lparr>ct_tables := AList.update name t' (ct_tables c)\<rparr>)))"

definition text_column :: "string \<Rightarrow> col" where
  "text_column column = \<lparr>col_Name = column, col_Type = ''TEXT'', col_Default = Some (CText [])\<rparr>"

text \<open>\<open>ADD COLUMN c TEXT NOT NULL DEFAULT ''\<close>, with or without \<open>IF NOT EXISTS\<close>.\<close>

definition add_column :: "bool \<Rightarrow> string \<Rightarrow> string \<Rightarrow> ddl" where
  "add_column if_not_exists table column =
     with_table table (\<lambda>t.
       if column \<in> set (column_names t)
       then if if_not_exists then Inr t else Inl (Opaque (''duplicate column name: '' @ column))
       else Inr (t\<lparr>tb_Columns := tb_Columns t @ [text_column column],
                   tb_Rows := map (\<lambda>r. r @ [(column, CText [])]) (tb_Rows t)\<rparr>))"

definition create_index :: "string \<Rightarrow> string \<Rightarrow> string \<Rightarrow> ddl" where
  "create_index name table column c =
     (if name \<in> fst ` set (ct_indexes c) then Inr c
      else case map_of (ct_tables c) table of
             None \<Rightarrow> Inl (Opaque (''no such table: '' @ table))
           | Some t \<Rightarrow>
               if column \<notin> set (column_names t) then Inl (Opaque (''no such column: '' @ column))
               else Inr (c\<lparr>ct_indexes := ct_indexes c @ [(name, table, column)]\<rparr>))"

fun cell_text :: "cell option \<Rightarrow> string" where
  "cell_text (Some (CText s)) = s"
| "cell_text _ = []"

definition backfill_row :: "row \<Rightarrow> row" where
  "backfill_row r =
     (if cell_text (map_of r ''tenant_id'') = [] then AList.update ''tenant_id'' (CText (cell_text (map_of r ''user_id''))) r
      else r)"

text \<open>\<open>UPDATE t SET tenant_id = user_id WHERE tenant_id = ''\<close>.\<close>

definition backfill_tenant :: "string \<Rightarrow> ddl" where
  "backfill_tenant table =
     with_table table (\<lambda>t.
       if ''tenant_id'' \<notin> set (column_names t) then Inl (Opaque ''no such column: tenant_id'')
       else if ''user_id'' \<notin> set (column_names t) then Inl (Opaque ''no such column: user_id'')
       else Inr (t\<lparr>tb_Rows := map backfill_row (tb_Rows t)\<rparr>))"

definition drop_constraint :: "string \<Rightarrow> string \<Rightarrow> ddl" where
  "drop_constraint table name =
     with_table table (\<lambda>t. Inr (t\<lparr>tb_ForeignKeys := filter (\<lambda>k. k \<noteq> name) (tb_ForeignKeys t)\<rparr>))"

definition ddl_exec :: "ddl \<Rightarrow> catalog \<Rightarrow> goerr option \<times> catalog" where
  "ddl_exec st c =
     (case ct_faults c of
        FailBefore m # fs \<Rightarrow> (Some (Opaque m), c\<lparr>ct_faults := fs\<rparr>)
      | FailAfter m # fs \<Rightarrow>
          (Some (Opaque m), case st (c\<lparr>ct_faults := fs\<rparr>) of Inl _ \<Rightarrow> c\<lparr>ct_faults := fs\<rparr> | Inr c' \<Rightarrow> c')
      | fs \<Rightarrow> (case st (c\<lparr>ct_faults := tl fs\<rparr>) of Inl e \<Rightarrow> (Some e, c\<lparr>ct_faults := tl fs\<rparr>) | Inr c' \<Rightarrow> (None, c')))"

section \<open>The migration\<close>

definition plain_column :: "string \<Rightarrow> string \<Rightarrow> col" where
  "plain_column name type = \<lparr>col_Name = name, col_Type = type, col_Default = None\<rparr>"

definition createUsersTable :: ddl where
  "createUsersTable = create_table ''users''
     \<lparr>tb_Columns = [plain_column ''id'' ''TEXT'', plain_column ''created_at'' ''BIGINT''],
      tb_Unique = [[''id'']], tb_ForeignKeys = [], tb_Rows = []\<rparr>"

definition createAPIKeysTable :: ddl where
  "createAPIKeysTable = create_table ''api_keys''
     \<lparr>tb_Columns = [plain_column ''key_hash'' ''TEXT'', plain_column ''user_id'' ''TEXT'', plain_column ''created_at'' ''BIGINT''],
      tb_Unique = [[''key_hash'']], tb_ForeignKeys = [''api_keys_user_id_fkey''], tb_Rows = []\<rparr>"

definition createEnvironmentsTable :: ddl where
  "createEnvironmentsTable = create_table ''environments''
     \<lparr>tb_Columns = [plain_column ''id'' ''TEXT'', text_column ''user_id'', text_column ''tenant_id'', plain_column ''status'' ''TEXT'',
        text_column ''container_id'', plain_column ''created_at'' ''BIGINT'', plain_column ''last_used_at'' ''BIGINT'',
        plain_column ''expires_at'' ''BIGINT'', plain_column ''spec_image'' ''TEXT'', plain_column ''spec_cpu'' ''REAL'',
        plain_column ''spec_memory_mb'' ''BIGINT'', plain_column ''spec_disk_mb'' ''BIGINT'', plain_column ''spec_network_policy'' ''TEXT'',
        \<lparr>col_Name = ''spec_env_vars'', col_Type = ''TEXT'', col_Default = Some (CText ''{}'')\<rparr>],
      tb_Unique = [[''id'']], tb_ForeignKeys = [], tb_Rows = []\<rparr>"

definition createSnapshotsTable :: ddl where
  "createSnapshotsTable = create_table ''snapshots''
     \<lparr>tb_Columns = [plain_column ''id'' ''TEXT'', text_column ''user_id'', text_column ''tenant_id'', text_column ''environment_id'',
        plain_column ''image_id'' ''TEXT'', text_column ''label'',
        \<lparr>col_Name = ''size'', col_Type = ''BIGINT'', col_Default = Some (CInt 0)\<rparr>, plain_column ''created_at'' ''BIGINT''],
      tb_Unique = [[''id'']], tb_ForeignKeys = [], tb_Rows = []\<rparr>"

definition createSkillsTable :: "string \<Rightarrow> ddl" where
  "createSkillsTable blobType = create_table ''skills''
     \<lparr>tb_Columns = [plain_column ''id'' ''TEXT'', text_column ''user_id'', text_column ''tenant_id'', plain_column ''name'' ''TEXT'',
        plain_column ''archive'' blobType, \<lparr>col_Name = ''size'', col_Type = ''BIGINT'', col_Default = Some (CInt 0)\<rparr>,
        plain_column ''created_at'' ''BIGINT'', plain_column ''updated_at'' ''BIGINT''],
      tb_Unique = [[''id''], [''user_id'', ''name'']], tb_ForeignKeys = [], tb_Rows = []\<rparr>"

text \<open>On SQLite the columns are inspected first.  Nothing asks \<open>rows.Err\<close>, so after an iteration that
  broke off before the column the statement is executed all the same.\<close>

definition addColumnIfMissing :: "bool \<Rightarrow> string \<Rightarrow> string \<Rightarrow> catalog \<Rightarrow> goerr option \<times> catalog" where
  "addColumnIfMissing isPG table column c =
     (if isPG then ddl_exec (add_column True table column) c
      else case ct_faults c of
             FailBefore m # fs \<Rightarrow> (Some (Opaque m), c\<lparr>ct_faults := fs\<rparr>)
           | FailAfter m # fs \<Rightarrow> (Some (Opaque m), c\<lparr>ct_faults := fs\<rparr>)
           | fs \<Rightarrow>
               let c1 = c\<lparr>ct_faults := tl fs, ct_scans := tl (ct_scans c)\<rparr>;
                   names = (case map_of (ct_tables c1) table of None \<Rightarrow> [] | Some t \<Rightarrow> column_names t);
                   seen = (case ct_scans c of [] \<Rightarrow> names | n # _ \<Rightarrow> take n names)
               in if column \<in> set seen then (None, c1) else ddl_exec (add_column False table column) c1)"

text \<open>Steps one after the other, up to the first error.\<close>

fun run_steps :: "(catalog \<Rightarrow> goerr option \<times> catalog) list \<Rightarrow> catalog \<Rightarrow> goerr option \<times> catalog" where
  "run_steps [] c = (None, c)"
| "run_steps (st # sts) c = (case st c of (Some e, c') \<Rightarrow> (Some e, c') | (None, c') \<Rightarrow> run_steps sts c')"

definition table_steps :: "bool \<Rightarrow> (catalog \<Rightarrow> goerr option \<times> catalog) list" where
  "table_steps isPG =
     map ddl_exec ((if isPG then [] else [pragma_foreign_keys]) @
       [createUsersTable, createAPIKeysTable, createEnvironmentsTable, createSnapshotsTable,
        createSkillsTable (if isPG then ''BYTEA'' else ''BLOB'')])"

definition column_steps :: "bool \<Rightarrow> (catalog \<Rightarrow> goerr option \<times> catalog) list" where
  "column_steps isPG =
     [addColumnIfMissing isPG ''environments'' ''user_id'', addColumnIfMissing isPG ''environments'' ''tenant_id'',
      addColumnIfMissing isPG ''snapshots'' ''tenant_id'']"

definition index_steps :: "(catalog \<Rightarrow> goerr option \<times> catalog) list" where
  "index_steps = map ddl_exec
     [create_index ''idx_environments_user_id'' ''environments'' ''user_id'',
      create_index ''idx_environments_tenant_id'' ''environments'' ''tenant_id'',
      create_index ''idx_snapshots_user_id'' ''snapshots'' ''user_id'',
      create_index ''idx_snapshots_tenant_id'' ''snapshots'' ''tenant_id'',
      create_index ''idx_skills_user_id'' ''skills'' ''user_id'',
      create_index ''idx_skills_tenant_id'' ''skills'' ''tenant_id'']"

definition backfill_steps :: "(catalog \<Rightarrow> goerr option \<times> catalog) list" where
  "backfill_steps = map ddl_exec [backfill_tenant ''environments'', backfill_tenant ''snapshots'']"

definition constraint_steps :: "bool \<Rightarrow> (catalog \<Rightarrow> goerr option \<times> catalog) list" where
  "constraint_steps isPG =
     (if isPG then map ddl_exec [drop_constraint ''environments'' ''environments_user_id_fkey'',
        drop_constraint ''snapshots'' ''snapshots_user_id_fkey''] else [])"

definition migrate :: "bool \<Rightarrow> catalog \<Rightarrow> goerr option \<times> catalog" where
  "migrate isPG = run_steps (table_steps isPG @ column_steps isPG @ index_steps @ backfill_steps @ constraint_steps isPG)"

section \<open>Reading a catalogue\<close>

fun cell_int :: "cell option \<Rightarrow> int64" where
  "cell_int (Some (CInt i)) = i"
| "cell_int _ = 0"

fun cell_real :: "cell option \<Rightarrow> float64" where
  "cell_real (Some (CReal x)) = x"
| "cell_real _ = Fin 0"

fun cell_blob :: "cell option \<Rightarrow> bytes" where
  "cell_blob (Some (CBlob b)) = b"
| "cell_blob _ = []"

definition env_row_of :: "row \<Rightarrow> env_row" where
  "env_row_of r = (let txt = \<lambda>k. cell_text (map_of r k); num = \<lambda>k. cell_int (map_of r k) in
     \<lparr>r_id = txt ''id'', r_user_id = txt ''user_id'', r_tenant_id = txt ''tenant_id'', r_status = txt ''status'',
      r_container_id = txt ''container_id'', r_created_at = num ''created_at'', r_last_used_at = num ''last_used_at'',
      r_expires_at = num ''expires_at'', r_spec_image = txt ''spec_image'', r_spec_cpu = cell_real (map_of r ''spec_cpu''),
      r_spec_memory_mb = num ''spec_memory_mb'', r_spec_disk_mb = num ''spec_disk_mb'',
      r_spec_network_policy = txt ''spec_network_policy'', r_spec_env_vars = txt ''spec_env_vars''\<rparr>)"

definition snap_row_of :: "row \<Rightarrow> snap_row" where
  "snap_row_of r = (let txt = \<lambda>k. cell_text (map_of r k); num = \<lambda>k. cell_int (map_of r k) in
     \<lparr>s_id = txt ''id'', s_user_id = txt ''user_id'', s_tenant_id = txt ''tenant_id'',
      s_environment_id = txt ''environment_id'', s_image_id = txt ''image_id'', s_label = txt ''label'',
      s_size = num ''size'', s_created_at = num ''created_at''\<rparr>)"

definition skill_row_of :: "row \<Rightarrow> skill_row" where
  "skill_row_of r = (let txt = \<lambda>k. cell_text (map_of r k); num = \<lambda>k. cell_int (map_of r k) in
     \<lparr>k_id = txt ''id'', k_user_id = txt ''user_id'', k_tenant_id = txt ''tenant_id'', k_name = txt ''name'',
      k_archive = cell_blob (map_of r ''archive''), k_size = num ''size'', k_created_at = num ''created_at'',
      k_updated_at = num ''updated_at''\<rparr>)"

definition rows_of :: "catalog \<Rightarrow> string \<Rightarrow> row list" where
  "rows_of c table = (case map_of (ct_tables c) table of None \<Rightarrow> [] | Some t \<Rightarrow> tb_Rows t)"

definition database_of :: "catalog \<Rightarrow> Database" where
  "database_of c = \<lparr>
     t_users = map (\<lambda>r. (cell_text (map_of r ''id''), cell_int (map_of r ''created_at''))) (rows_of c ''users''),
     t_api_keys = map (\<lambda>r. (cell_text (map_of r ''key_hash''), cell_text (map_of r ''user_id''), cell_int (map_of r ''created_at'')))
       (rows_of c ''api_keys''),
     t_environments = map env_row_of (rows_of c ''environments''),
     t_snapshots = map snap_row_of (rows_of c ''snapshots''),
     t_skills = map skill_row_of (rows_of c ''skills''), db_faults = ct_faults c\<rparr>"

text \<open>\<open>encoding/json\<close> on the environment variables is what the store's model takes as an argument.\<close>

definition NewSQLStore ::
  "((string \<times> string) list \<Rightarrow> goerr + string) \<Rightarrow> (string \<Rightarrow> goerr + string_map) \<Rightarrow>
   catalog \<Rightarrow> string \<Rightarrow> duration \<Rightarrow> duration \<Rightarrow> (goerr + SQLStore) \<times> catalog" where
  "NewSQLStore marshal unmarshal db driver idleTimeout maxLifetime =
     (let isPG = (strings_HasPrefix driver ''pgx'' \<or> strings_HasPrefix driver ''postgres'') in
      case migrate isPG db of
        (Some err, db') \<Rightarrow> (Inl (Context ''migrate'' err), db')
      | (None, db') \<Rightarrow>
          (Inr \<lparr>sq_db = database_of db', sq_isPG = isPG, sq_idleTimeout = idleTimeout, sq_maxLifetime = maxLifetime,
            sq_json_Marshal = marshal, sq_json_Unmarshal = unmarshal\<rparr>, db'))"

section \<open>Success\<close>

lemma ddl_exec_None: "ddl_exec st c = (None, c') \<Longrightarrow> st (c\<lparr>ct_faults := tl (ct_faults c)\<rparr>) = Inr c'"
  by (auto simp: ddl_exec_def split: list.splits fault.splits sum.splits)

lemma run_steps_append:
  "run_steps (xs @ ys) c = (case run_steps xs c of (Some e, c') \<Rightarrow> (Some e, c') | (None, c') \<Rightarrow> run_steps ys c')"
  by (induction xs c rule: run_steps.induct) (auto split: prod.split option.split)

lemma run_steps_Cons_None:
  "run_steps (st # sts) c = (None, c') \<Longrightarrow> \<exists>c1. st c = (None, c1) \<and> run_steps sts c1 = (None, c')"
  by (auto split: prod.splits option.splits)

lemma run_steps_append_None:
  "run_steps (xs @ ys) c = (None, c') \<Longrightarrow> \<exists>c1. run_steps xs c = (None, c1) \<and> run_steps ys c1 = (None, c')"
  by (auto simp: run_steps_append split: prod.splits option.splits)

text \<open>A step relates catalogues by \<open>R\<close>; so do steps that are run one after the other.\<close>

definition steps_by :: "(catalog \<Rightarrow> catalog \<Rightarrow> bool) \<Rightarrow> (catalog \<Rightarrow> goerr option \<times> catalog) \<Rightarrow> bool" where
  "steps_by R st \<longleftrightarrow> (\<forall>c. R c (snd (st c)))"

lemma run_steps_by:
  assumes "\<And>c. R c c" and "\<And>a b c. R a b \<Longrightarrow> R b c \<Longrightarrow> R a c" and "list_all (steps_by R) sts"
  shows "R c (snd (run_steps sts c))"
  using assms(3)
proof (induction sts c rule: run_steps.induct)
  case (1 c)
  then show ?case by (simp add: assms(1))
next
  case (2 st sts c)
  then show ?case
    by (auto simp: steps_by_def split: prod.splits option.splits) (metis assms(2) snd_conv)+
qed

definition ddl_by :: "(catalog \<Rightarrow> catalog \<Rightarrow> bool) \<Rightarrow> ddl \<Rightarrow> bool" where
  "ddl_by R st \<longleftrightarrow> (\<forall>c c'. st c = Inr c' \<longrightarrow> R c c')"

lemma ddl_exec_by:
  assumes "ddl_by R st" and "\<And>c fs. R c (c\<lparr>ct_faults := fs\<rparr>)" and "\<And>a b c. R a b \<Longrightarrow> R b c \<Longrightarrow> R a c"
  shows "steps_by R (ddl_exec st)"
proof -
  have "R c c'" if "st (c\<lparr>ct_faults := fs\<rparr>) = Inr c'" for c fs c'
    using assms(3) [OF assms(2)] assms(1) that unfolding ddl_by_def by blast
  then show ?thesis
    by (auto simp: steps_by_def ddl_exec_def assms(2) split: list.split fault.split sum.split)
qed

lemma addColumn_by:
  assumes "\<And>b. ddl_by R (add_column b t k)" and "\<And>c fs. R c (c\<lparr>ct_faults := fs\<rparr>)"
    and "\<And>c fs ns. R c (c\<lparr>ct_faults := fs, ct_scans := ns\<rparr>)" and "\<And>a b c. R a b \<Longrightarrow> R b c \<Longrightarrow> R a c"
  shows "steps_by R (addColumnIfMissing isPG t k)"
proof -
  have d: "R c (snd (ddl_exec (add_column b t k) c))" for b c
    using ddl_exec_by [OF assms(1) assms(2,4)] by (simp add: steps_by_def)
  have "R c (snd (ddl_exec (add_column b t k) (c\<lparr>ct_faults := fs, ct_scans := ns\<rparr>)))" for b c fs ns
    by (rule assms(4) [OF assms(3) d])
  then show ?thesis
    by (auto simp: steps_by_def addColumnIfMissing_def Let_def assms(2,3) d split: list.split fault.split)
qed

section \<open>Rows are kept\<close>

definition fill_env :: "env_row \<Rightarrow> env_row" where
  "fill_env r = (if r_tenant_id r = [] then r\<lparr>r_tenant_id := r_user_id r\<rparr> else r)"

definition fill_snap :: "snap_row \<Rightarrow> snap_row" where
  "fill_snap r = (if s_tenant_id r = [] then r\<lparr>s_tenant_id := s_user_id r\<rparr> else r)"

text \<open>The tables as the migration should leave them: rows from before the column are their users'.\<close>

definition backfilled :: "Database \<Rightarrow> Database" where
  "backfilled d = d\<lparr>t_environments := map fill_env (t_environments d), t_snapshots := map fill_snap (t_snapshots d),
     db_faults := []\<rparr>"

definition keeps_rows :: "catalog \<Rightarrow> catalog \<Rightarrow> bool" where
  "keeps_rows c c' \<longleftrightarrow> backfilled (database_of c') = backfilled (database_of c)"

lemma keeps_rows_trans: "keeps_rows a b \<Longrightarrow> keeps_rows b c \<Longrightarrow> keeps_rows a c"
  by (simp add: keeps_rows_def)

lemma keeps_rows_faults: "keeps_rows c (c\<lparr>ct_faults := fs\<rparr>)" "keeps_rows c (c\<lparr>ct_faults := fs, ct_scans := ns\<rparr>)"
  by (simp_all add: keeps_rows_def backfilled_def database_of_def rows_of_def)

text \<open>Two catalogues whose rows read alike.\<close>

definition reads_alike :: "string \<Rightarrow> row \<Rightarrow> row \<Rightarrow> bool" where
  "reads_alike table r r' \<longleftrightarrow>
     (\<forall>k. cell_text (map_of r' k) = cell_text (map_of r k) \<and> cell_int (map_of r' k) = cell_int (map_of r k) \<and>
        cell_real (map_of r' k) = cell_real (map_of r k) \<and> cell_blob (map_of r' k) = cell_blob (map_of r k)) \<or>
     table \<in> {''environments'', ''snapshots''} \<and> r' = backfill_row r"

lemma alike_env: "reads_alike ''environments'' r r' \<Longrightarrow> fill_env (env_row_of r') = fill_env (env_row_of r)"
  by (auto simp: reads_alike_def env_row_of_def Let_def backfill_row_def fill_env_def)

lemma alike_snap: "reads_alike ''snapshots'' r r' \<Longrightarrow> fill_snap (snap_row_of r') = fill_snap (snap_row_of r)"
  by (auto simp: reads_alike_def snap_row_of_def Let_def backfill_row_def fill_snap_def)

lemma alike_other:
  "reads_alike ''skills'' r r' \<Longrightarrow> skill_row_of r' = skill_row_of r"
  "reads_alike ''users'' r r' \<Longrightarrow> cell_text (map_of r' k) = cell_text (map_of r k)"
  "reads_alike ''users'' r r' \<Longrightarrow> cell_int (map_of r' k) = cell_int (map_of r k)"
  "reads_alike ''api_keys'' r r' \<Longrightarrow> cell_text (map_of r' k) = cell_text (map_of r k)"
  "reads_alike ''api_keys'' r r' \<Longrightarrow> cell_int (map_of r' k) = cell_int (map_of r k)"
  by (auto simp: reads_alike_def skill_row_of_def Let_def)

lemma list_all2_map_eq: "list_all2 P xs ys \<Longrightarrow> (\<And>x y. P x y \<Longrightarrow> f y = f x) \<Longrightarrow> map f ys = map f xs"
  by (induction rule: list_all2_induct) auto

lemma keeps_rowsI:
  assumes "\<And>table. list_all2 (reads_alike table) (rows_of c table) (rows_of c' table)"
  shows "keeps_rows c c'"
proof -
  note m = list_all2_map_eq [OF assms]
  show ?thesis
    unfolding keeps_rows_def backfilled_def database_of_def
    by (simp add: comp_def m [of _ "\<lambda>r. fill_env (env_row_of r)"] m [of _ "\<lambda>r. fill_snap (snap_row_of r)"] alike_env alike_snap
        m [of _ skill_row_of] alike_other
        m [of _ "\<lambda>r. (cell_text (map_of r ''id''), cell_int (map_of r ''created_at''))"]
        m [of _ "\<lambda>r. (cell_text (map_of r ''key_hash''), cell_text (map_of r ''user_id''), cell_int (map_of r ''created_at''))"])
qed

lemma alike_refl [simp]: "reads_alike table r r"
  by (simp add: reads_alike_def)

lemma alike_same [simp]: "list_all2 (reads_alike table) rs rs"
  by (simp add: list_all2_same)

lemma with_table_keeps:
  assumes "\<And>t t'. f t = Inr t' \<Longrightarrow> list_all2 (reads_alike name) (tb_Rows t) (tb_Rows t')"
  shows "ddl_by keeps_rows (with_table name f)"
  by (auto simp: ddl_by_def with_table_def rows_of_def assms intro!: keeps_rowsI split: option.splits sum.splits)

lemma add_default: "list_all2 (reads_alike table) rs (map (\<lambda>r. r @ [(k, CText [])]) rs)"
  by (auto simp: list_all2_conv_all_nth reads_alike_def map_add_def split: option.split)

lemma statements_keep:
  "tb_Rows t = [] \<Longrightarrow> ddl_by keeps_rows (create_table name t)"
  "ddl_by keeps_rows pragma_foreign_keys"
  "ddl_by keeps_rows (add_column b table k)"
  "ddl_by keeps_rows (create_index name table k)"
  "table \<in> {''environments'', ''snapshots''} \<Longrightarrow> ddl_by keeps_rows (backfill_tenant table)"
  "ddl_by keeps_rows (drop_constraint table name)"
proof -
  show "ddl_by keeps_rows (create_table name t)" if "tb_Rows t = []"
    using that by (auto simp: ddl_by_def create_table_def rows_of_def map_add_def intro!: keeps_rowsI split: if_splits option.split)
  show "ddl_by keeps_rows pragma_foreign_keys"
    by (auto simp: ddl_by_def pragma_foreign_keys_def rows_of_def intro!: keeps_rowsI)
  show "ddl_by keeps_rows (add_column b table k)"
    unfolding add_column_def by (rule with_table_keeps) (auto simp: add_default split: if_splits)
  show "ddl_by keeps_rows (create_index name table k)"
    by (auto simp: ddl_by_def create_index_def rows_of_def intro!: keeps_rowsI split: if_splits option.splits)
  show "ddl_by keeps_rows (backfill_tenant table)" if "table \<in> {''environments'', ''snapshots''}"
    unfolding backfill_tenant_def
    by (rule with_table_keeps) (use that in \<open>auto simp: list_all2_conv_all_nth reads_alike_def split: if_splits\<close>)
  show "ddl_by keeps_rows (drop_constraint table name)"
    unfolding drop_constraint_def by (rule with_table_keeps) auto
qed

lemmas exec_keeps = ddl_exec_by [of keeps_rows, OF _ keeps_rows_faults(1) keeps_rows_trans]

lemma tables_keep:
  "ddl_by keeps_rows createUsersTable" "ddl_by keeps_rows createAPIKeysTable" "ddl_by keeps_rows createEnvironmentsTable"
  "ddl_by keeps_rows createSnapshotsTable" "ddl_by keeps_rows (createSkillsTable b)"
  by (simp_all add: createUsersTable_def createAPIKeysTable_def createEnvironmentsTable_def createSnapshotsTable_def
      createSkillsTable_def statements_keep)

lemma migrate_keeps: "keeps_rows c (snd (migrate isPG c))"
  unfolding migrate_def
proof (rule run_steps_by [where R = keeps_rows])
  show "list_all (steps_by keeps_rows)
     (table_steps isPG @ column_steps isPG @ index_steps @ backfill_steps @ constraint_steps isPG)"
    by (auto simp: table_steps_def column_steps_def index_steps_def backfill_steps_def constraint_steps_def
        intro!: exec_keeps addColumn_by keeps_rows_faults tables_keep statements_keep elim: keeps_rows_trans)
qed (auto simp: keeps_rows_def)

section \<open>What a finished migration leaves\<close>

definition has_column :: "catalog \<Rightarrow> string \<Rightarrow> string \<Rightarrow> bool" where
  "has_column c table k = (case map_of (ct_tables c) table of None \<Rightarrow> False | Some t \<Rightarrow> k \<in> set (column_names t))"

text \<open>No table, column or index goes away.\<close>

definition grows :: "catalog \<Rightarrow> catalog \<Rightarrow> bool" where
  "grows c c' \<longleftrightarrow>
     dom (map_of (ct_tables c)) \<subseteq> dom (map_of (ct_tables c')) \<and>
     (\<forall>t k. has_column c t k \<longrightarrow> has_column c' t k) \<and>
     fst ` set (ct_indexes c) \<subseteq> fst ` set (ct_indexes c') \<and> (ct_foreign_keys c \<longrightarrow> ct_foreign_keys c')"

lemma grows_trans: "grows a b \<Longrightarrow> grows b c \<Longrightarrow> grows a c"
  unfolding grows_def
  by (elim conjE, intro conjI) (erule (1) subset_trans, blast, erule (1) subset_trans, blast)

lemma grows_refl: "grows c c"
  by (simp add: grows_def)

lemma grows_faults: "grows c (c\<lparr>ct_faults := fs\<rparr>)" "grows c (c\<lparr>ct_faults := fs, ct_scans := ns\<rparr>)"
  by (simp_all add: grows_def has_column_def)

lemma with_table_grows:
  assumes "\<And>t t'. f t = Inr t' \<Longrightarrow> set (column_names t) \<subseteq> set (column_names t')"
  shows "ddl_by grows (with_table name f)"
  using assms by (fastforce simp: ddl_by_def with_table_def grows_def has_column_def split: option.splits sum.splits if_splits)

lemma statements_grow:
  "ddl_by grows (create_table name t)" "ddl_by grows pragma_foreign_keys" "ddl_by grows (add_column b table k)"
  "ddl_by grows (create_index name table k)" "ddl_by grows (backfill_tenant table)" "ddl_by grows (drop_constraint table name)"
proof -
  show "ddl_by grows (create_table name t)"
    by (auto simp: ddl_by_def create_table_def grows_def has_column_def map_add_def split: if_splits option.splits)
  show "ddl_by grows pragma_foreign_keys"
    by (auto simp: ddl_by_def pragma_foreign_keys_def grows_def has_column_def)
  show "ddl_by grows (add_column b table k)"
    unfolding add_column_def by (rule with_table_grows) (auto simp: column_names_def split: if_splits)
  show "ddl_by grows (create_index name table k)"
    by (auto simp: ddl_by_def create_index_def grows_def has_column_def split: if_splits option.splits)
  show "ddl_by grows (backfill_tenant table)"
    unfolding backfill_tenant_def by (rule with_table_grows) (auto simp: column_names_def split: if_splits)
  show "ddl_by grows (drop_constraint table name)"
    unfolding drop_constraint_def by (rule with_table_grows) (auto simp: column_names_def)
qed

lemmas exec_grows = ddl_exec_by [of grows, OF _ grows_faults(1) grows_trans]

lemmas table_statements =
  createUsersTable_def createAPIKeysTable_def createEnvironmentsTable_def createSnapshotsTable_def createSkillsTable_def

lemma steps_grow:
  "list_all (steps_by grows) (table_steps isPG)" "list_all (steps_by grows) (column_steps isPG)"
  "list_all (steps_by grows) index_steps" "list_all (steps_by grows) backfill_steps"
  "list_all (steps_by grows) (constraint_steps isPG)"
  by (auto simp: table_steps_def column_steps_def index_steps_def backfill_steps_def constraint_steps_def table_statements
      intro!: exec_grows addColumn_by grows_faults statements_grow elim: grows_trans)

lemma run_grows:
  assumes "list_all (steps_by grows) sts" and "run_steps sts c = (e, c')"
  shows "grows c c'"
  using run_steps_by [of grows sts c, OF grows_refl _ assms(1)] grows_trans assms(2) by auto

text \<open>What each statement leaves behind when it succeeds.\<close>

lemma create_table_done: "ddl_exec (create_table name t) c = (None, c') \<Longrightarrow> name \<in> dom (map_of (ct_tables c'))"
  by (drule ddl_exec_None) (auto simp: create_table_def map_add_def split: if_splits)

lemma pragma_done: "ddl_exec pragma_foreign_keys c = (None, c') \<Longrightarrow> ct_foreign_keys c'"
  by (drule ddl_exec_None) (auto simp: pragma_foreign_keys_def)

lemma add_column_done: "add_column b table k c = Inr c' \<Longrightarrow> has_column c' table k"
  by (auto simp: add_column_def with_table_def has_column_def column_names_def text_column_def split: option.splits if_splits)

lemma addColumnIfMissing_done: "addColumnIfMissing isPG table k c = (None, c') \<Longrightarrow> has_column c' table k"
  by (cases "map_of (ct_tables c) table")
    (auto simp: addColumnIfMissing_def Let_def has_column_def split: if_splits list.splits fault.splits
      dest!: ddl_exec_None add_column_done dest: in_set_takeD)

lemma create_index_done: "ddl_exec (create_index name table k) c = (None, c') \<Longrightarrow> name \<in> fst ` set (ct_indexes c')"
  by (drule ddl_exec_None) (force simp: create_index_def split: if_splits option.splits)

lemma update_same: "map_of al k = Some v \<Longrightarrow> AList.update k v al = al"
  by (induction al) auto

lemma backfill_row_idem: "backfill_row (backfill_row r) = backfill_row r"
  by (auto simp: backfill_row_def update_same)

text \<open>The rows of a table are backfilled, with both columns there.\<close>

definition filled :: "catalog \<Rightarrow> string \<Rightarrow> bool" where
  "filled c table \<longleftrightarrow>
     has_column c table ''tenant_id'' \<and> has_column c table ''user_id'' \<and> (\<forall>r \<in> set (rows_of c table). backfill_row r = r)"

lemma backfill_done:
  assumes "ddl_exec (backfill_tenant table) c = (None, c')"
  shows "filled c' table" and "other \<noteq> table \<Longrightarrow> filled c other \<Longrightarrow> filled c' other"
  using ddl_exec_None [OF assms]
  by (auto simp: backfill_tenant_def with_table_def filled_def has_column_def rows_of_def column_names_def backfill_row_idem
      split: option.splits if_splits)

definition no_fk :: "catalog \<Rightarrow> string \<Rightarrow> string \<Rightarrow> bool" where
  "no_fk c table name =
     (case map_of (ct_tables c) table of None \<Rightarrow> False | Some t \<Rightarrow> name \<notin> set (tb_ForeignKeys t))"

lemma drop_constraint_done:
  assumes "ddl_exec (drop_constraint table name) c = (None, c')"
  shows "no_fk c' table name" and "filled c other \<Longrightarrow> filled c' other"
    and "no_fk c other n \<Longrightarrow> no_fk c' other n"
  using ddl_exec_None [OF assms]
  by (auto simp: drop_constraint_def with_table_def no_fk_def filled_def has_column_def rows_of_def column_names_def
      split: option.splits if_splits)

definition migrated :: "bool \<Rightarrow> catalog \<Rightarrow> bool" where
  "migrated isPG c \<longleftrightarrow>
     (\<forall>n \<in> {''users'', ''api_keys'', ''environments'', ''snapshots'', ''skills''}. n \<in> dom (map_of (ct_tables c))) \<and>
     (isPG \<or> ct_foreign_keys c) \<and>
     (\<forall>n \<in> {''idx_environments_user_id'', ''idx_environments_tenant_id'', ''idx_snapshots_user_id'', ''idx_snapshots_tenant_id'',
      ''idx_skills_user_id'', ''idx_skills_tenant_id''}. n \<in> fst ` set (ct_indexes c)) \<and>
     filled c ''environments'' \<and> filled c ''snapshots'' \<and>
     (\<not> isPG \<or> no_fk c ''environments'' ''environments_user_id_fkey'' \<and> no_fk c ''snapshots'' ''snapshots_user_id_fkey'')"

lemma grows_dom: "grows c c' \<Longrightarrow> n \<in> dom (map_of (ct_tables c)) \<Longrightarrow> n \<in> dom (map_of (ct_tables c'))"
  unfolding grows_def by blast

lemma grows_index: "grows c c' \<Longrightarrow> n \<in> fst ` set (ct_indexes c) \<Longrightarrow> n \<in> fst ` set (ct_indexes c')"
  unfolding grows_def by blast

lemma grows_flag: "grows c c' \<Longrightarrow> ct_foreign_keys c \<Longrightarrow> ct_foreign_keys c'"
  unfolding grows_def by blast

text \<open>A step that succeeds leaves \<open>P\<close>, and \<open>P\<close> survives growth: then so does running it among others.\<close>

lemma run_leaves:
  assumes "run_steps sts c = (None, c')" and "st \<in> set sts" and "list_all (steps_by grows) sts"
    and "\<And>a b. st a = (None, b) \<Longrightarrow> P b" and "\<And>a b. grows a b \<Longrightarrow> P a \<Longrightarrow> P b"
  shows "P c'"
  using assms(1,2,3)
proof (induction sts arbitrary: c)
  case (Cons s sts)
  obtain c1 where c1: "s c = (None, c1)" "run_steps sts c1 = (None, c')"
    using run_steps_Cons_None [OF Cons.prems(1)] by blast
  have g: "list_all (steps_by grows) sts" using Cons.prems(3) by simp
  show ?case
  proof (cases "st = s")
    case True
    then show ?thesis using assms(4) c1 assms(5) [OF run_grows [OF g c1(2)]] by blast
  next
    case False
    then show ?thesis using Cons.IH [OF c1(2) _ g] Cons.prems(2) by simp
  qed
qed simp

lemma tables_done:
  "ddl_exec createUsersTable c = (None, c') \<Longrightarrow> ''users'' \<in> dom (map_of (ct_tables c'))"
  "ddl_exec createAPIKeysTable c = (None, c') \<Longrightarrow> ''api_keys'' \<in> dom (map_of (ct_tables c'))"
  "ddl_exec createEnvironmentsTable c = (None, c') \<Longrightarrow> ''environments'' \<in> dom (map_of (ct_tables c'))"
  "ddl_exec createSnapshotsTable c = (None, c') \<Longrightarrow> ''snapshots'' \<in> dom (map_of (ct_tables c'))"
  "ddl_exec (createSkillsTable b) c = (None, c') \<Longrightarrow> ''skills'' \<in> dom (map_of (ct_tables c'))"
  unfolding table_statements by (erule create_table_done)+

lemma tables_left:
  assumes "run_steps (table_steps isPG) c = (None, c')"
  shows "\<forall>n \<in> {''users'', ''api_keys'', ''environments'', ''snapshots'', ''skills''}. n \<in> dom (map_of (ct_tables c'))"
    and "isPG \<or> ct_foreign_keys c'"
proof -
  note l = run_leaves [OF assms _ steps_grow(1)]
  have t: "n \<in> dom (map_of (ct_tables c'))"
    if "st \<in> set (table_steps isPG)" "\<And>a b. st a = (None, b) \<Longrightarrow> n \<in> dom (map_of (ct_tables b))" for n st
    by (rule l [OF that(1)]) (erule that(2), erule (1) grows_dom)
  have m: "ddl_exec createUsersTable \<in> set (table_steps isPG)" "ddl_exec createAPIKeysTable \<in> set (table_steps isPG)"
      "ddl_exec createEnvironmentsTable \<in> set (table_steps isPG)" "ddl_exec createSnapshotsTable \<in> set (table_steps isPG)"
      "ddl_exec (createSkillsTable (if isPG then ''BYTEA'' else ''BLOB'')) \<in> set (table_steps isPG)"
    by (simp_all add: table_steps_def)
  note d = t [OF m(1) tables_done(1)] t [OF m(2) tables_done(2)] t [OF m(3) tables_done(3)] t [OF m(4) tables_done(4)]
    t [OF m(5) tables_done(5)]
  show "\<forall>n \<in> {''users'', ''api_keys'', ''environments'', ''snapshots'', ''skills''}. n \<in> dom (map_of (ct_tables c'))"
    by (intro ballI, elim insertE emptyE; hypsubst) (assumption | rule d)+
  show "isPG \<or> ct_foreign_keys c'"
  proof (cases isPG)
    case False
    then have "ddl_exec pragma_foreign_keys \<in> set (table_steps isPG)" by (simp add: table_steps_def)
    then have "ct_foreign_keys c'" by (rule l) (erule pragma_done, erule (1) grows_flag)
    then show ?thesis ..
  qed simp
qed

lemma indexes_left:
  assumes "run_steps index_steps c = (None, c')"
  shows "\<forall>n \<in> {''idx_environments_user_id'', ''idx_environments_tenant_id'', ''idx_snapshots_user_id'', ''idx_snapshots_tenant_id'',
      ''idx_skills_user_id'', ''idx_skills_tenant_id''}. n \<in> fst ` set (ct_indexes c')"
proof -
  have i: "name \<in> fst ` set (ct_indexes c')" if "ddl_exec (create_index name t k) \<in> set index_steps" for name t k
    by (rule run_leaves [OF assms that steps_grow(3)]) (erule create_index_done, erule (1) grows_index)
  have m: "ddl_exec (create_index ''idx_environments_user_id'' ''environments'' ''user_id'') \<in> set index_steps"
      "ddl_exec (create_index ''idx_environments_tenant_id'' ''environments'' ''tenant_id'') \<in> set index_steps"
      "ddl_exec (create_index ''idx_snapshots_user_id'' ''snapshots'' ''user_id'') \<in> set index_steps"
      "ddl_exec (create_index ''idx_snapshots_tenant_id'' ''snapshots'' ''tenant_id'') \<in> set index_steps"
      "ddl_exec (create_index ''idx_skills_user_id'' ''skills'' ''user_id'') \<in> set index_steps"
      "ddl_exec (create_index ''idx_skills_tenant_id'' ''skills'' ''tenant_id'') \<in> set index_steps"
    by (simp_all add: index_steps_def)
  show ?thesis
    by (intro ballI, elim insertE emptyE; hypsubst) (rule i, rule m)+
qed

lemma run_two: "run_steps [s1, s2] c = (None, c') \<Longrightarrow> \<exists>c1. s1 c = (None, c1) \<and> s2 c1 = (None, c')"
  by (auto split: prod.splits option.splits)

lemma backfill_left:
  assumes "run_steps backfill_steps c = (None, c')"
  shows "filled c' ''environments''" and "filled c' ''snapshots''"
proof -
  obtain c1 where c1: "ddl_exec (backfill_tenant ''environments'') c = (None, c1)"
      "ddl_exec (backfill_tenant ''snapshots'') c1 = (None, c')"
    using assms run_two [of _ _ c c'] unfolding backfill_steps_def list.map by blast
  show "filled c' ''environments''" by (rule backfill_done(2) [OF c1(2) _ backfill_done(1) [OF c1(1)]]) simp
  show "filled c' ''snapshots''" by (rule backfill_done(1) [OF c1(2)])
qed

lemma constraints_left:
  assumes "run_steps (constraint_steps isPG) c = (None, c')"
  shows "filled c t \<Longrightarrow> filled c' t"
    and "\<not> isPG \<or> no_fk c' ''environments'' ''environments_user_id_fkey'' \<and> no_fk c' ''snapshots'' ''snapshots_user_id_fkey''"
proof -
  have "(filled c t \<longrightarrow> filled c' t) \<and>
    (\<not> isPG \<or> no_fk c' ''environments'' ''environments_user_id_fkey'' \<and> no_fk c' ''snapshots'' ''snapshots_user_id_fkey'')"
  proof (cases isPG)
    case True
    then obtain c1 where c1: "ddl_exec (drop_constraint ''environments'' ''environments_user_id_fkey'') c = (None, c1)"
        "ddl_exec (drop_constraint ''snapshots'' ''snapshots_user_id_fkey'') c1 = (None, c')"
      using assms run_two [of _ _ c c'] unfolding constraint_steps_def list.map by (simp del: run_steps.simps) blast
    note d = drop_constraint_done [OF c1(1)] and e = drop_constraint_done [OF c1(2)]
    show ?thesis using d e by blast
  next
    case False
    then show ?thesis using assms by (simp add: constraint_steps_def)
  qed
  then show "filled c t \<Longrightarrow> filled c' t"
    "\<not> isPG \<or> no_fk c' ''environments'' ''environments_user_id_fkey'' \<and> no_fk c' ''snapshots'' ''snapshots_user_id_fkey''"
    by blast+
qed

lemma migrate_left:
  assumes "migrate isPG c = (None, c')"
  shows "migrated isPG c'"
proof -
  obtain c1 c2 c3 c4 where c: "run_steps (table_steps isPG) c = (None, c1)" "run_steps (column_steps isPG) c1 = (None, c2)"
      "run_steps index_steps c2 = (None, c3)" "run_steps backfill_steps c3 = (None, c4)"
      "run_steps (constraint_steps isPG) c4 = (None, c')"
    using assms unfolding migrate_def by (blast dest: run_steps_append_None)
  note g = run_grows [OF steps_grow(2) c(2)] run_grows [OF steps_grow(3) c(3)] run_grows [OF steps_grow(4) c(4)]
    run_grows [OF steps_grow(5) c(5)]
  have g3: "grows c3 c'" by (rule grows_trans [OF g(3,4)])
  have g1: "grows c1 c'" by (rule grows_trans [OF g(1) grows_trans [OF g(2) g3]])
  show ?thesis
    unfolding migrated_def
  proof (intro conjI)
    show "filled c' ''environments''" "filled c' ''snapshots''"
      by (rule constraints_left(1) [OF c(5)], rule backfill_left [OF c(4)])+
    show "\<not> isPG \<or> no_fk c' ''environments'' ''environments_user_id_fkey'' \<and> no_fk c' ''snapshots'' ''snapshots_user_id_fkey''"
      by (rule constraints_left(2) [OF c(5)])
  qed ((rule ballI, rule grows_dom [OF g1], erule bspec [OF tables_left(1) [OF c(1)]]),
      (rule disj_forward [OF tables_left(2) [OF c(1)]], assumption, erule grows_flag [OF g1]),
      rule ballI, rule grows_index [OF g3], erule bspec [OF indexes_left [OF c(3)]])
qed

section \<open>Running it again\<close>

lemma no_faults: "ct_faults c = [] \<Longrightarrow> c\<lparr>ct_faults := []\<rparr> = c"
  by (cases c) simp

lemma no_scans: "ct_scans c = [] \<Longrightarrow> c\<lparr>ct_faults := fs, ct_scans := []\<rparr> = c\<lparr>ct_faults := fs\<rparr>"
  by (cases c) simp

lemma ddl_exec_idle:
  assumes "ct_faults c = []" and "st c = Inr c"
  shows "ddl_exec st c = (None, c)"
proof -
  have "st (c\<lparr>ct_faults := []\<rparr>) = Inr c" using assms(2) by (simp only: no_faults [OF assms(1)])
  with assms(1) show ?thesis by (simp add: ddl_exec_def)
qed

lemma with_table_idle: "map_of (ct_tables c) name = Some t \<Longrightarrow> f t = Inr t \<Longrightarrow> with_table name f c = Inr c"
  by (simp add: with_table_def update_same)

lemma create_table_idle: "name \<in> dom (map_of (ct_tables c)) \<Longrightarrow> create_table name t c = Inr c"
  by (auto simp: create_table_def)

lemma tables_idle:
  assumes "\<forall>n \<in> {''users'', ''api_keys'', ''environments'', ''snapshots'', ''skills''}. n \<in> dom (map_of (ct_tables c))"
  shows "createUsersTable c = Inr c" "createAPIKeysTable c = Inr c" "createEnvironmentsTable c = Inr c"
    "createSnapshotsTable c = Inr c" "createSkillsTable b c = Inr c"
  unfolding table_statements using assms by (auto simp del: domIff intro!: create_table_idle)

lemma pragma_idle: "ct_foreign_keys c \<Longrightarrow> pragma_foreign_keys c = Inr c"
  by (cases c) (simp add: pragma_foreign_keys_def)

lemma create_index_idle: "name \<in> fst ` set (ct_indexes c) \<Longrightarrow> create_index name t k c = Inr c"
  by (simp add: create_index_def)

lemma has_columnE: "has_column c t k \<Longrightarrow> (\<And>tb. map_of (ct_tables c) t = Some tb \<Longrightarrow> k \<in> set (column_names tb) \<Longrightarrow> P) \<Longrightarrow> P"
  by (auto simp: has_column_def split: option.splits)

lemma addColumn_idle:
  assumes "ct_faults c = []" and "ct_scans c = []" and "has_column c t k"
  shows "addColumnIfMissing isPG t k c = (None, c)"
proof -
  from assms(3) obtain tb where tb: "map_of (ct_tables c) t = Some tb" "k \<in> set (column_names tb)" by (rule has_columnE)
  have "add_column True t k c = Inr c" unfolding add_column_def by (rule with_table_idle [OF tb(1)]) (simp add: tb(2))
  with assms(1,2) tb no_faults [OF assms(1)] show ?thesis
    by (auto simp: addColumnIfMissing_def Let_def ddl_exec_idle no_scans)
qed

lemma backfill_idle:
  assumes "filled c t"
  shows "backfill_tenant t c = Inr c"
proof -
  from assms obtain tb where tb: "map_of (ct_tables c) t = Some tb" "''tenant_id'' \<in> set (column_names tb)"
    unfolding filled_def by (auto elim: has_columnE)
  with assms have "''user_id'' \<in> set (column_names tb)" "\<forall>r \<in> set (tb_Rows tb). backfill_row r = r"
    by (auto simp: filled_def has_column_def rows_of_def)
  with tb show ?thesis unfolding backfill_tenant_def by (intro with_table_idle [OF tb(1)]) (simp add: map_idI)
qed

lemma drop_constraint_idle:
  assumes "no_fk c t n"
  shows "drop_constraint t n c = Inr c"
proof -
  from assms obtain tb where tb: "map_of (ct_tables c) t = Some tb" "n \<notin> set (tb_ForeignKeys tb)"
    by (auto simp: no_fk_def split: option.splits)
  then have "filter (\<lambda>k. k \<noteq> n) (tb_ForeignKeys tb) = tb_ForeignKeys tb" by (auto intro: filter_True)
  then show ?thesis unfolding drop_constraint_def by (intro with_table_idle [OF tb(1)]) simp
qed

lemma run_idle: "(\<And>st. st \<in> set sts \<Longrightarrow> st c = (None, c)) \<Longrightarrow> run_steps sts c = (None, c)"
proof (induction sts)
  case (Cons a sts)
  then have "a c = (None, c)" "run_steps sts c = (None, c)" by simp_all
  then show ?case by simp
qed simp

lemma migrate_idle:
  assumes "migrated isPG c" and "ct_faults c = []" and "ct_scans c = []"
  shows "migrate isPG c = (None, c)"
  unfolding migrate_def
proof (rule run_idle)
  note e = ddl_exec_idle [OF assms(2)] and a = addColumn_idle [OF assms(2,3)]
  from assms(1) have t: "\<forall>n \<in> {''users'', ''api_keys'', ''environments'', ''snapshots'', ''skills''}. n \<in> dom (map_of (ct_tables c))"
    and p: "isPG \<or> ct_foreign_keys c"
    and i: "\<forall>n \<in> {''idx_environments_user_id'', ''idx_environments_tenant_id'', ''idx_snapshots_user_id'', ''idx_snapshots_tenant_id'',
      ''idx_skills_user_id'', ''idx_skills_tenant_id''}. n \<in> fst ` set (ct_indexes c)"
    and f: "filled c ''environments''" "filled c ''snapshots''"
    and k: "\<not> isPG \<or> no_fk c ''environments'' ''environments_user_id_fkey'' \<and> no_fk c ''snapshots'' ''snapshots_user_id_fkey''"
    unfolding migrated_def by simp_all
  from f have h: "has_column c ''environments'' ''user_id''" "has_column c ''environments'' ''tenant_id''"
      "has_column c ''snapshots'' ''tenant_id''" unfolding filled_def by blast+
  fix st
  assume "st \<in> set (table_steps isPG @ column_steps isPG @ index_steps @ backfill_steps @ constraint_steps isPG)"
  then consider "st \<in> set (table_steps isPG)" | "st \<in> set (column_steps isPG)" | "st \<in> set index_steps"
    | "st \<in> set backfill_steps" | "st \<in> set (constraint_steps isPG)" by auto
  then show "st c = (None, c)"
  proof cases
    case 1
    then show ?thesis using p by (auto simp: table_steps_def e tables_idle [OF t] pragma_idle split: if_splits)
  next
    case 2
    then show ?thesis using h by (auto simp: column_steps_def a)
  next
    case 3
    then show ?thesis using i by (auto simp: index_steps_def intro!: e create_index_idle)
  next
    case 4
    then show ?thesis using f by (auto simp: backfill_steps_def e backfill_idle)
  next
    case 5
    then show ?thesis using k by (auto simp: constraint_steps_def e drop_constraint_idle split: if_splits)
  qed
qed

section \<open>Success of the migration\<close>

definition no_pending :: "catalog \<Rightarrow> bool" where
  "no_pending c \<longleftrightarrow> list_all (\<lambda>f. f = NoFault) (ct_faults c) \<and> ct_scans c = []"

text \<open>The older databases the migration is written for: a table of snapshots or of skills that is
  already there has the columns that no step adds.\<close>

definition upgradable :: "catalog \<Rightarrow> bool" where
  "upgradable c \<longleftrightarrow>
     (''snapshots'' \<in> dom (map_of (ct_tables c)) \<longrightarrow> has_column c ''snapshots'' ''user_id'') \<and>
     (''skills'' \<in> dom (map_of (ct_tables c)) \<longrightarrow>
        has_column c ''skills'' ''user_id'' \<and> has_column c ''skills'' ''tenant_id'')"

lemma ddl_exec_succeeds:
  assumes "no_pending c" and "st (c\<lparr>ct_faults := tl (ct_faults c)\<rparr>) = Inr c'" and "ct_faults c' = tl (ct_faults c) \<and> ct_scans c' = ct_scans c"
  shows "ddl_exec st c = (None, c') \<and> no_pending c'"
  using assms by (cases "ct_faults c") (auto simp: ddl_exec_def no_pending_def)

text \<open>Steps that keep a condition under which they succeed.\<close>

definition succeeds_under :: "(catalog \<Rightarrow> bool) \<Rightarrow> (catalog \<Rightarrow> goerr option \<times> catalog) \<Rightarrow> bool" where
  "succeeds_under P st \<longleftrightarrow> (\<forall>c. P c \<longrightarrow> (\<exists>c'. st c = (None, c') \<and> P c'))"

lemma run_succeeds: "list_all (succeeds_under P) sts \<Longrightarrow> P c \<Longrightarrow> \<exists>c'. run_steps sts c = (None, c') \<and> P c'"
proof (induction sts arbitrary: c)
  case (Cons st sts)
  then obtain c1 where "st c = (None, c1)" "P c1" by (auto simp: succeeds_under_def)
  with Cons show ?case by simp
qed simp

text \<open>A condition that growth keeps.\<close>

definition grow_closed :: "(catalog \<Rightarrow> bool) \<Rightarrow> bool" where
  "grow_closed Q \<longleftrightarrow> (\<forall>c c'. grows c c' \<longrightarrow> Q c \<longrightarrow> Q c')"

lemma exec_succeeds:
  assumes "grow_closed Q" and "ddl_by grows st"
    and "\<And>c. Q c \<Longrightarrow> \<exists>c'. st c = Inr c' \<and> ct_faults c' = ct_faults c \<and> ct_scans c' = ct_scans c"
  shows "succeeds_under (\<lambda>c. no_pending c \<and> Q c) (ddl_exec st)"
  unfolding succeeds_under_def
proof (intro allI impI)
  fix c assume c: "no_pending c \<and> Q c"
  let ?c = "c\<lparr>ct_faults := tl (ct_faults c)\<rparr>"
  have q: "Q ?c" using assms(1) c grows_faults unfolding grow_closed_def by blast
  then obtain c' where c': "st ?c = Inr c'" "ct_faults c' = ct_faults ?c \<and> ct_scans c' = ct_scans ?c" using assms(3) by blast
  have "Q c'" using assms(1,2) q c'(1) unfolding grow_closed_def ddl_by_def by blast
  moreover have "ddl_exec st c = (None, c') \<and> no_pending c'"
    by (rule ddl_exec_succeeds) (use c c' in simp_all)
  ultimately show "\<exists>c'. ddl_exec st c = (None, c') \<and> no_pending c' \<and> Q c'" by blast
qed

lemma with_table_succeeds:
  assumes "name \<in> dom (map_of (ct_tables c))" and "\<And>t. map_of (ct_tables c) name = Some t \<Longrightarrow> \<exists>t'. f t = Inr t'"
  shows "\<exists>c'. with_table name f c = Inr c' \<and> ct_faults c' = ct_faults c \<and> ct_scans c' = ct_scans c"
  using assms by (fastforce simp: with_table_def)

lemma add_column_succeeds:
  assumes "name \<in> dom (map_of (ct_tables c))" and "b \<or> \<not> has_column c name k"
  shows "\<exists>c'. add_column b name k c = Inr c' \<and> ct_faults c' = ct_faults c \<and> ct_scans c' = ct_scans c"
  unfolding add_column_def by (rule with_table_succeeds [OF assms(1)]) (use assms(2) in \<open>auto simp: has_column_def\<close>)

lemma addColumn_succeeds:
  assumes "grow_closed Q" and "\<And>c. Q c \<Longrightarrow> name \<in> dom (map_of (ct_tables c))"
  shows "succeeds_under (\<lambda>c. no_pending c \<and> Q c) (addColumnIfMissing isPG name k)"
proof (cases isPG)
  case True
  then show ?thesis
    using exec_succeeds [OF assms(1) statements_grow(3) [of True name k]] add_column_succeeds [of name _ True k] assms(2)
    by (simp add: addColumnIfMissing_def succeeds_under_def)
next
  case False
  show ?thesis
    unfolding succeeds_under_def
  proof (intro allI impI)
    fix c assume c: "no_pending c \<and> Q c"
    let ?c = "c\<lparr>ct_faults := tl (ct_faults c)\<rparr>"
    have q: "Q ?c" using assms(1) c grows_faults unfolding grow_closed_def by blast
    have n: "no_pending ?c" using c by (cases "ct_faults c") (auto simp: no_pending_def)
    have eq: "addColumnIfMissing isPG name k c =
        (if has_column ?c name k then (None, ?c) else ddl_exec (add_column False name k) ?c)"
      using False c by (cases "ct_faults c")
        (auto simp: addColumnIfMissing_def has_column_def no_pending_def no_scans split: option.splits)
    show "\<exists>c'. addColumnIfMissing isPG name k c = (None, c') \<and> no_pending c' \<and> Q c'"
    proof (cases "has_column ?c name k")
      case True
      then show ?thesis using eq q n by simp
    next
      case no: False
      let ?d = "?c\<lparr>ct_faults := tl (ct_faults ?c)\<rparr>"
      have d: "Q ?d" using assms(1) q grows_faults unfolding grow_closed_def by blast
      have "\<not> has_column ?d name k" using no by (simp add: has_column_def)
      then obtain c' where c': "add_column False name k ?d = Inr c'" "ct_faults c' = ct_faults ?d \<and> ct_scans c' = ct_scans ?d"
        using add_column_succeeds [OF assms(2) [OF d], of False k] by blast
      have "Q c'" using statements_grow(3) [of False name k] assms(1) d c'(1) unfolding grow_closed_def ddl_by_def by blast
      moreover have "ddl_exec (add_column False name k) ?c = (None, c') \<and> no_pending c'"
        by (rule ddl_exec_succeeds [OF n]) (use c' in simp_all)
      ultimately show ?thesis using eq no by auto
    qed
  qed
qed

lemma create_succeeds:
  assumes "name = ''snapshots'' \<Longrightarrow> ''user_id'' \<in> set (column_names t)"
    and "name = ''skills'' \<Longrightarrow> ''user_id'' \<in> set (column_names t) \<and> ''tenant_id'' \<in> set (column_names t)"
  shows "succeeds_under (\<lambda>c. no_pending c \<and> upgradable c) (ddl_exec (create_table name t))"
  unfolding succeeds_under_def
proof (intro allI impI)
  fix c assume c: "no_pending c \<and> upgradable c"
  let ?c = "c\<lparr>ct_faults := tl (ct_faults c)\<rparr>"
  obtain c' where c': "create_table name t ?c = Inr c'" "ct_faults c' = tl (ct_faults c) \<and> ct_scans c' = ct_scans c"
    by (cases "map_of (ct_tables c) name = None") (simp_all add: create_table_def)
  have "upgradable ?c" using c by (simp add: upgradable_def has_column_def)
  with c'(1) assms have "upgradable c'"
    by (cases "map_of (ct_tables c) name = None")
      (auto simp: create_table_def upgradable_def has_column_def map_add_def split: if_splits option.splits)
  moreover have "ddl_exec (create_table name t) c = (None, c') \<and> no_pending c'"
    by (rule ddl_exec_succeeds) (use c c' in simp_all)
  ultimately show "\<exists>c'. ddl_exec (create_table name t) c = (None, c') \<and> no_pending c' \<and> upgradable c'" by blast
qed

lemma pragma_succeeds: "succeeds_under (\<lambda>c. no_pending c \<and> upgradable c) (ddl_exec pragma_foreign_keys)"
  unfolding succeeds_under_def
proof (intro allI impI)
  fix c assume c: "no_pending c \<and> upgradable c"
  let ?c = "c\<lparr>ct_faults := tl (ct_faults c), ct_foreign_keys := True\<rparr>"
  have "ddl_exec pragma_foreign_keys c = (None, ?c) \<and> no_pending ?c"
    by (rule ddl_exec_succeeds) (use c in \<open>simp_all add: pragma_foreign_keys_def\<close>)
  moreover have "upgradable ?c" using c by (simp add: upgradable_def has_column_def)
  ultimately show "\<exists>c'. ddl_exec pragma_foreign_keys c = (None, c') \<and> no_pending c' \<and> upgradable c'" by blast
qed

lemma table_steps_succeed: "list_all (succeeds_under (\<lambda>c. no_pending c \<and> upgradable c)) (table_steps isPG)"
  by (auto simp: table_steps_def table_statements column_names_def text_column_def plain_column_def
      intro!: pragma_succeeds create_succeeds)

text \<open>The tables and columns that the later phases need.\<close>

definition with_tables :: "catalog \<Rightarrow> bool" where
  "with_tables c \<longleftrightarrow> ''environments'' \<in> dom (map_of (ct_tables c)) \<and> has_column c ''snapshots'' ''user_id'' \<and>
     has_column c ''skills'' ''user_id'' \<and> has_column c ''skills'' ''tenant_id''"

definition with_columns :: "catalog \<Rightarrow> bool" where
  "with_columns c \<longleftrightarrow> with_tables c \<and> has_column c ''environments'' ''user_id'' \<and>
     has_column c ''environments'' ''tenant_id'' \<and> has_column c ''snapshots'' ''tenant_id''"

lemma with_tables_closed: "grow_closed with_tables"
  unfolding grow_closed_def with_tables_def grows_def by blast

lemma with_columns_closed: "grow_closed with_columns"
  using with_tables_closed unfolding grow_closed_def with_columns_def grows_def by blast

lemma has_column_dom: "has_column c t k \<Longrightarrow> t \<in> dom (map_of (ct_tables c))"
  by (auto elim: has_columnE)

lemma column_steps_succeed: "list_all (succeeds_under (\<lambda>c. no_pending c \<and> with_tables c)) (column_steps isPG)"
proof -
  have "''environments'' \<in> dom (map_of (ct_tables c))" "''snapshots'' \<in> dom (map_of (ct_tables c))" if "with_tables c" for c
    using that has_column_dom unfolding with_tables_def by blast+
  then show ?thesis
    by (simp add: column_steps_def addColumn_succeeds [OF with_tables_closed] del: domIff)
qed

lemma create_index_succeeds:
  "has_column c table k \<Longrightarrow> \<exists>c'. create_index name table k c = Inr c' \<and> ct_faults c' = ct_faults c \<and> ct_scans c' = ct_scans c"
  by (erule has_columnE) (simp add: create_index_def)

lemma backfill_succeeds:
  assumes "has_column c table ''user_id''" and "has_column c table ''tenant_id''"
  shows "\<exists>c'. backfill_tenant table c = Inr c' \<and> ct_faults c' = ct_faults c \<and> ct_scans c' = ct_scans c"
  unfolding backfill_tenant_def
  by (rule with_table_succeeds [OF has_column_dom [OF assms(1)]]) (use assms in \<open>auto simp: has_column_def\<close>)

lemma drop_succeeds:
  "table \<in> dom (map_of (ct_tables c)) \<Longrightarrow> \<exists>c'. drop_constraint table name c = Inr c' \<and> ct_faults c' = ct_faults c \<and> ct_scans c' = ct_scans c"
  unfolding drop_constraint_def by (rule with_table_succeeds) auto

lemma late_steps_succeed:
  "list_all (succeeds_under (\<lambda>c. no_pending c \<and> with_columns c)) (index_steps @ backfill_steps @ constraint_steps isPG)"
  unfolding list_all_append
proof (intro conjI)
  note e = exec_succeeds [OF with_columns_closed]
  have h: "has_column c ''environments'' ''user_id''" "has_column c ''environments'' ''tenant_id''"
      "has_column c ''snapshots'' ''user_id''" "has_column c ''snapshots'' ''tenant_id''"
      "has_column c ''skills'' ''user_id''" "has_column c ''skills'' ''tenant_id''" if "with_columns c" for c
    using that unfolding with_columns_def with_tables_def by simp_all
  show "list_all (succeeds_under (\<lambda>c. no_pending c \<and> with_columns c)) index_steps"
    unfolding index_steps_def list.map list.pred_inject(2)
    by (intro conjI list.pred_inject(1) e statements_grow create_index_succeeds h)
  show "list_all (succeeds_under (\<lambda>c. no_pending c \<and> with_columns c)) backfill_steps"
    unfolding backfill_steps_def list.map list.pred_inject(2)
    by (intro conjI list.pred_inject(1) e statements_grow backfill_succeeds h)
  show "list_all (succeeds_under (\<lambda>c. no_pending c \<and> with_columns c)) (constraint_steps isPG)"
  proof (cases isPG)
    case True
    then show ?thesis
      unfolding constraint_steps_def if_P [OF True] list.map list.pred_inject(2)
      by (intro conjI list.pred_inject(1) e statements_grow drop_succeeds has_column_dom [OF h(1)] has_column_dom [OF h(3)])
  next
    case False
    then show ?thesis by (simp add: constraint_steps_def)
  qed
qed

lemma columns_left:
  assumes "run_steps (column_steps isPG) c = (None, c')"
  shows "has_column c' ''environments'' ''user_id''" "has_column c' ''environments'' ''tenant_id''" "has_column c' ''snapshots'' ''tenant_id''"
proof -
  have "has_column c' t k" if "addColumnIfMissing isPG t k \<in> set (column_steps isPG)" for t k
    by (rule run_leaves [OF assms that steps_grow(2)]) (erule addColumnIfMissing_done, simp add: grows_def)
  then show "has_column c' ''environments'' ''user_id''" "has_column c' ''environments'' ''tenant_id''" "has_column c' ''snapshots'' ''tenant_id''"
    by (simp_all add: column_steps_def)
qed

lemma migrate_ok:
  assumes "no_pending c" and "upgradable c"
  shows "\<exists>c'. migrate isPG c = (None, c') \<and> no_pending c'"
proof -
  obtain c1 where c1: "run_steps (table_steps isPG) c = (None, c1)" "no_pending c1" "upgradable c1"
    using run_succeeds [OF table_steps_succeed, of c] assms by blast
  have "with_tables c1"
    using bspec [OF tables_left(1) [OF c1(1)], of "''environments''"] bspec [OF tables_left(1) [OF c1(1)], of "''snapshots''"]
      bspec [OF tables_left(1) [OF c1(1)], of "''skills''"] c1(3)
    by (simp add: upgradable_def with_tables_def)
  then obtain c2 where c2: "run_steps (column_steps isPG) c1 = (None, c2)" "no_pending c2" "with_tables c2"
    using run_succeeds [OF column_steps_succeed, of c1] c1(2) by blast
  then have "with_columns c2" using columns_left [OF c2(1)] unfolding with_columns_def by blast
  then obtain c3 where c3: "run_steps (index_steps @ backfill_steps @ constraint_steps isPG) c2 = (None, c3)" "no_pending c3"
    using run_succeeds [OF late_steps_succeed, of c2] c2(2) by blast
  have "migrate isPG c = (None, c3)"
    unfolding migrate_def run_steps_append [of "table_steps isPG"] run_steps_append [of "column_steps isPG"] c1(1) c2(1) prod.case
      option.case by (rule c3(1))
  with c3(2) show ?thesis by blast
qed

lemma migrate_faults: "set (ct_faults (snd (migrate isPG c))) \<subseteq> set (ct_faults c)"
  unfolding migrate_def
proof (rule run_steps_by [where R = "\<lambda>c c'. set (ct_faults c') \<subseteq> set (ct_faults c)"])
  let ?R = "\<lambda>c c'. set (ct_faults c') \<subseteq> set (ct_faults c)"
  have d: "ddl_by (\<lambda>c c'. ct_faults c' = ct_faults c) (with_table n f)" for n f
    by (auto simp: ddl_by_def with_table_def split: option.splits sum.splits)
  have s: "ddl_by (\<lambda>c c'. ct_faults c' = ct_faults c) (create_table n t)" "ddl_by (\<lambda>c c'. ct_faults c' = ct_faults c) pragma_foreign_keys"
      "ddl_by (\<lambda>c c'. ct_faults c' = ct_faults c) (create_index n n' k)" for n n' t k
    by (auto simp: ddl_by_def create_table_def pragma_foreign_keys_def create_index_def split: if_splits option.splits)
  have e: "steps_by ?R (ddl_exec st)" if "ddl_by (\<lambda>c c'. ct_faults c' = ct_faults c) st" for st
    using that by (fastforce simp: steps_by_def ddl_exec_def ddl_by_def split: list.split fault.split sum.split)
  have a: "steps_by ?R (addColumnIfMissing isPG t k)" for isPG t k
  proof -
    have x: "set (ct_faults (snd (ddl_exec (add_column b t k) c))) \<subseteq> set (ct_faults c)" for b c
      using e [of "add_column b t k"] d unfolding add_column_def steps_by_def by simp
    have t: "set (tl fs) \<subseteq> set fs" for fs :: "fault list" by (cases fs) auto
    have "set (ct_faults (snd (addColumnIfMissing isPG t k c))) \<subseteq> set (ct_faults c)" for c
      using x [of True c] x [of False "c\<lparr>ct_faults := tl (ct_faults c), ct_scans := tl (ct_scans c)\<rparr>"] t [of "ct_faults c"]
      by (auto simp: addColumnIfMissing_def Let_def split: list.splits fault.splits)
    then show ?thesis by (simp add: steps_by_def)
  qed
  show "list_all (steps_by ?R) (table_steps isPG @ column_steps isPG @ index_steps @ backfill_steps @ constraint_steps isPG)"
    by (auto simp: table_steps_def column_steps_def index_steps_def backfill_steps_def constraint_steps_def table_statements
        backfill_tenant_def drop_constraint_def intro!: e a d s)
qed auto

section \<open>Properties\<close>

lemma filled_rows:
  assumes "filled c table" and "r \<in> set (rows_of c table)" and "cell_text (map_of r ''tenant_id'') = []"
  shows "cell_text (map_of r ''user_id'') = []"
proof -
  have "backfill_row r = r" using assms(1,2) by (simp add: filled_def)
  then have "map_of r ''tenant_id'' = Some (CText (cell_text (map_of r ''user_id'')))"
    using assms(3) by (metis backfill_row_def fun_upd_same map_of_assign)
  with assms(3) show ?thesis by simp
qed

lemma migrated_tables:
  assumes "migrated isPG c"
  shows "backfilled (database_of c) = (database_of c)\<lparr>db_faults := []\<rparr>"
proof -
  have f: "filled c ''environments''" "filled c ''snapshots''" using assms unfolding migrated_def by simp_all
  have "fill_env (env_row_of r) = env_row_of r" if "r \<in> set (rows_of c ''environments'')" for r
    using filled_rows [OF f(1) that] by (auto simp: fill_env_def env_row_of_def Let_def)
  moreover have "fill_snap (snap_row_of r) = snap_row_of r" if "r \<in> set (rows_of c ''snapshots'')" for r
    using filled_rows [OF f(2) that] by (auto simp: fill_snap_def snap_row_of_def Let_def)
  ultimately show ?thesis by (simp add: backfilled_def database_of_def cong: map_cong)
qed

text \<open>C34: opening a database never loses a row.  Whether the migration succeeds or fails at any
  statement, or reads only some of the columns of a table, the tables read as before but for the tenants it may already have filled in; when it
  succeeds, they are exactly the old tables with every empty tenant replaced by the row's user.\<close>

theorem migrate_preserves:
  assumes "migrate isPG c = (e, c')"
  shows "backfilled (database_of c') = backfilled (database_of c) \<and>
    (e = None \<longrightarrow> (database_of c')\<lparr>db_faults := []\<rparr> = backfilled (database_of c))"
  using migrate_keeps [of c isPG] assms migrate_left [of isPG c c'] migrated_tables [of isPG c']
  by (auto simp: keeps_rows_def)

definition ex_old_catalog :: catalog where
  "ex_old_catalog = \<lparr>ct_tables = [(''environments'',
      \<lparr>tb_Columns = [plain_column ''id'' ''TEXT'', text_column ''user_id'', plain_column ''status'' ''TEXT''],
       tb_Unique = [[''id'']], tb_ForeignKeys = [''environments_user_id_fkey''],
       tb_Rows = [[(''id'', CText ''env_1''), (''user_id'', CText ''alice''), (''status'', CText ''running'')]]\<rparr>)],
     ct_indexes = [], ct_foreign_keys = False, ct_faults = [], ct_scans = []\<rparr>"

lemma ex_old_upgradable: "no_pending ex_old_catalog" "upgradable ex_old_catalog"
  by (simp_all add: no_pending_def upgradable_def ex_old_catalog_def)

theorem migrate_preserves_witness:
  "\<exists>c'. migrate True ex_old_catalog = (None, c') \<and>
     map (\<lambda>r. (r_id r, r_user_id r, r_tenant_id r)) (t_environments (database_of c')) = [(''env_1'', ''alice'', ''alice'')]"
proof -
  obtain c' where c': "migrate True ex_old_catalog = (None, c')"
    using migrate_ok [OF ex_old_upgradable] by blast
  have eq: "t_environments (database_of c') = t_environments (backfilled (database_of ex_old_catalog))"
    using migrate_preserves [OF c'] by (metis Database.select_convs(3) Database.surjective Database.update_convs(6))
  have "map (\<lambda>r. (r_id r, r_user_id r, r_tenant_id r)) (t_environments (database_of c')) = [(''env_1'', ''alice'', ''alice'')]"
    unfolding eq by (simp add: backfilled_def database_of_def rows_of_def ex_old_catalog_def env_row_of_def fill_env_def)
  then show ?thesis using c' by (intro exI conjI)
qed

text \<open>C35: on a database that answers, the migration of every older database that has the columns no
  step adds (and of an empty one) succeeds, and running it again, as every restart does, changes
  nothing.\<close>

theorem migrate_restart:
  assumes "ct_faults c = []" and "ct_scans c = []" and "upgradable c"
  shows "\<exists>c'. migrate isPG c = (None, c') \<and> migrate isPG c' = (None, c')"
proof -
  have "no_pending c" using assms(1,2) by (simp add: no_pending_def)
  then obtain c' where c': "migrate isPG c = (None, c')" "no_pending c'" using migrate_ok [OF _ assms(3)] by blast
  have "ct_faults c' = []" using migrate_faults [of isPG c] assms(1) c' by simp
  moreover have "ct_scans c' = []" using c'(2) by (simp add: no_pending_def)
  ultimately show ?thesis using c'(1) migrate_idle [OF migrate_left [OF c'(1)]] by blast
qed

theorem migrate_restart_witness:
  "\<exists>c'. migrate False ex_old_catalog = (None, c') \<and> migrate False c' = (None, c')"
  using migrate_restart [of ex_old_catalog False] ex_old_upgradable(2) by (simp add: ex_old_catalog_def)

end
