(* ===== verification/Commands.thy ===== *)
theory Commands
  imports MCP_Server SQL_Migration Memory_Store Docker_Engine Auth Config
begin

text \<open>
  The two programs: \<open>cmd/haas/main.go\<close>, the service with its embedded MCP server, and
  \<open>cmd/haas-mcp/main.go\<close>, the stand-alone MCP proxy.  A start is a function of the environment
  variables and of what opening the database and the Docker client answer; it ends in an error, for
  which the process exits, or in what is served.  The entries of the key manager are bootstrapped in
  the order of its list, one of the orders in which Go may range over its map.  What
  the service does after its start is in \<open>Process\<close>; log lines are not modelled.
\<close>

section \<open>The service\<close>

text \<open>\<open>net.SplitHostPort\<close>, the port of it.\<close>

definition SplitHostPort :: "string \<Rightarrow> goerr + string" where
  "SplitHostPort hostport =
     (case last_index (CHR '':'') hostport of
        None \<Rightarrow> Inl (Opaque ''missing port in address'')
      | Some i \<Rightarrow>
          let bad = (\<lambda>j k. CHR ''['' \<in> set (drop j hostport) \<or> CHR '']'' \<in> set (drop k hostport));
              port = drop (Suc i) hostport
          in if hd hostport = CHR ''['' then
               (let e = length (takeWhile (\<lambda>c. c \<noteq> CHR '']'') hostport) in
                if e = length hostport then Inl (Opaque ''missing closing bracket in address'')
                else if Suc e = length hostport then Inl (Opaque ''missing port in address'')
                else if Suc e = i then
                  (if bad 1 (Suc e) then Inl (Opaque ''unexpected bracket in address'') else Inr port)
                else if hostport ! Suc e = CHR '':'' then Inl (Opaque ''too many colons in address'')
                else Inl (Opaque ''missing port in address''))
             else if CHR '':'' \<in> set (take i hostport) then Inl (Opaque ''too many colons in address'')
             else if bad 0 0 then Inl (Opaque ''unexpected bracket in address'')
             else Inr port)"

text \<open>The store that is opened, one of the two.\<close>

datatype app_store = App_Memory MemoryStore | App_SQL SQLStore

record 'd platform =
  pf_getenv :: "string \<Rightarrow> string"
  pf_ParseFloat :: "string \<Rightarrow> float64 option"
  pf_ParseDuration :: "string \<Rightarrow> duration option"
  pf_hashing :: hashing
  pf_now :: time
  pf_sql_Open :: "string \<Rightarrow> string \<Rightarrow> goerr + catalog"
  pf_db_Ping :: "catalog \<Rightarrow> goerr option"
  pf_json_Marshal :: "(string \<times> string) list \<Rightarrow> goerr + string"
  pf_json_Unmarshal :: "string \<Rightarrow> goerr + string_map"
  pf_NewClientWithOpts :: "string option \<Rightarrow> goerr + 'd DockerClient"
  pf_docker_Ping :: "'d DockerClient \<Rightarrow> goerr option"

definition database_driver :: "string \<Rightarrow> string \<times> string" where
  "database_driver url =
     (if strings_HasPrefix url ''postgres://'' \<or> strings_HasPrefix url ''postgresql://'' then (''pgx'', url)
      else (''sqlite'', strings_TrimPrefix url ''sqlite://''))"

definition openStore :: "'d platform \<Rightarrow> Config \<Rightarrow> goerr + app_store" where
  "openStore P cfg =
     (if cfg_DBURL cfg = [] then Inr (App_Memory (NewMemoryStore (cfg_IdleTimeout cfg) (cfg_MaxLifetime cfg)))
      else case database_driver (cfg_DBURL cfg) of (driver, dsn) \<Rightarrow>
        (case pf_sql_Open P driver dsn of
           Inl err \<Rightarrow> Inl (Context ''open database'' err)
         | Inr db \<Rightarrow>
             (case pf_db_Ping P db of
                Some err \<Rightarrow> Inl (Context ''ping database'' err)
              | None \<Rightarrow>
                  (case fst (NewSQLStore (pf_json_Marshal P) (pf_json_Unmarshal P) db driver
                               (cfg_IdleTimeout cfg) (cfg_MaxLifetime cfg)) of
                     Inl err \<Rightarrow> Inl err
                   | Inr s \<Rightarrow> Inr (App_SQL s)))))"

definition app_BootstrapUser :: "time \<Rightarrow> string \<Rightarrow> string \<Rightarrow> app_store \<Rightarrow> goerr option \<times> app_store" where
  "app_BootstrapUser now keyHash userID st =
     (case st of
        App_Memory s \<Rightarrow>
          (case sto_BootstrapUser memory_store now keyHash userID ([], s) of (e, _, s') \<Rightarrow> (e, App_Memory s'))
      | App_SQL s \<Rightarrow>
          (case sto_BootstrapUser sql_store now keyHash userID ([], s) of (e, _, s') \<Rightarrow> (e, App_SQL s')))"

fun bootstrap :: "time \<Rightarrow> Entry list \<Rightarrow> app_store \<Rightarrow> goerr option \<times> app_store" where
  "bootstrap now [] st = (None, st)"
| "bootstrap now (entry # entries) st =
     (case app_BootstrapUser now (ent_KeyHash entry) (ent_UserID entry) st of
        (Some err, st') \<Rightarrow> (Some err, st')
      | (None, st') \<Rightarrow> bootstrap now entries st')"

definition resolve_restURL :: "Config \<Rightarrow> goerr + string" where
  "resolve_restURL cfg =
     (if cfg_MCPRESTURL cfg = [] then
        (case SplitHostPort (cfg_ListenAddr cfg) of
           Inl err \<Rightarrow> Inl err
         | Inr port \<Rightarrow> Inr (''http://localhost:'' @ port))
      else Inr (cfg_MCPRESTURL cfg))"

text \<open>What is running after a successful start.\<close>

record 'd service =
  sv_cfg :: Config
  sv_auth :: Manager
  sv_store :: app_store
  sv_docker :: "'d DockerClient"
  sv_mcp :: Server
  sv_mcp_addr :: string
  sv_mcp_keys :: "string list"

definition haas_main :: "'d platform \<Rightarrow> string + 'd service" where
  "haas_main P =
     (let cfg = Load (pf_getenv P) (pf_ParseFloat P) (pf_ParseDuration P) in
      if cfg_APIKeys cfg = [] then Inl ''HAAS_API_KEYS is required but not set''
      else let authMgr = New (pf_hashing P) (cfg_APIKeys cfg) in
      case openStore P cfg of
        Inl _ \<Rightarrow> Inl ''failed to open store''
      | Inr appStore \<Rightarrow>
          (case bootstrap (pf_now P) (Entries authMgr) appStore of
             (Some _, _) \<Rightarrow> Inl ''failed to bootstrap user''
           | (None, appStore') \<Rightarrow>
               (case NewDockerEngine (pf_NewClientWithOpts P) (pf_docker_Ping P) cfg of
                  Inl _ \<Rightarrow> Inl ''failed to create docker engine''
                | Inr eng \<Rightarrow>
                    (case resolve_restURL cfg of
                       Inl _ \<Rightarrow> Inl ''invalid HAAS_LISTEN_ADDR''
                     | Inr restURL \<Rightarrow>
                         Inr \<lparr>sv_cfg = cfg, sv_auth = authMgr, sv_store = appStore', sv_docker = eng,
                           sv_mcp = MCP_New restURL (cfg_APIKeys cfg), sv_mcp_addr = cfg_MCPListenAddr cfg,
                           sv_mcp_keys = cfg_APIKeys cfg\<rparr>))))"

section \<open>The stand-alone MCP server\<close>

fun parse_keys_loop :: "string list \<Rightarrow> string list" where
  "parse_keys_loop [] = []"
| "parse_keys_loop (k # ks) =
     (let t = strings_TrimSpace k in if t \<noteq> [] then t # parse_keys_loop ks else parse_keys_loop ks)"

definition parseMCPKeys :: "string \<Rightarrow> string \<Rightarrow> string list" where
  "parseMCPKeys raw fallback = (if raw = [] then [fallback] else parse_keys_loop (split_on (CHR '','') raw))"

datatype mcp_start =
    MCP_Exit
  | MCP_SSE Server string string "string list"
  | MCP_HTTP Server string "string list"
  | MCP_Stdio Server

definition haas_mcp_main :: "(string \<Rightarrow> string) \<Rightarrow> mcp_start" where
  "haas_mcp_main getenv =
     (let haasURL = (if getenv ''HAAS_URL'' = [] then ''http://localhost:8080'' else getenv ''HAAS_URL'');
          apiKey = getenv ''HAAS_API_KEY''
      in if apiKey = [] then MCP_Exit
         else let mcpKeys = parseMCPKeys (getenv ''MCP_API_KEYS'') apiKey;
                  transport = getenv ''MCP_TRANSPORT'';
                  s = MCP_New haasURL [apiKey];
                  addr = (if getenv ''MCP_LISTEN_ADDR'' = [] then '':8090'' else getenv ''MCP_LISTEN_ADDR'')
              in if transport = ''sse'' then MCP_SSE s addr (getenv ''MCP_PUBLIC_URL'') mcpKeys
                 else if transport = ''http'' then MCP_HTTP s addr mcpKeys
                 else MCP_Stdio s)"

text \<open>The handler of the endpoint a start listens with.\<close>

fun mcp_endpoint :: "hashing \<Rightarrow> 'w mcp_transports \<Rightarrow> mcp_start \<Rightarrow> 'w mcp_handler option" where
  "mcp_endpoint H L (MCP_SSE s addr publicURL keys) = Some (ServeSSE H L addr publicURL keys)"
| "mcp_endpoint H L (MCP_HTTP s addr keys) = Some (ServeStreamableHTTP H L addr keys)"
| "mcp_endpoint H L _ = None"

section \<open>Lemmas\<close>

lemma parse_keys_filter: "parse_keys_loop ks = filter (\<lambda>t. t \<noteq> []) (map strings_TrimSpace ks)"
  by (induction ks) (simp_all add: Let_def)

lemma haas_main_keys:
  assumes "haas_main P = Inr sv"
  shows "cfg_APIKeys (sv_cfg sv) \<noteq> []" and "\<forall>k \<in> set (cfg_APIKeys (sv_cfg sv)). k \<noteq> []"
    and "sv_mcp_keys sv = cfg_APIKeys (sv_cfg sv)" and "srv_apiKeys (sv_mcp sv) = cfg_APIKeys (sv_cfg sv)"
    and "sv_auth sv = New (pf_hashing P) (cfg_APIKeys (sv_cfg sv))"
proof -
  have "cfg_APIKeys (sv_cfg sv) \<noteq> [] \<and> sv_cfg sv = Load (pf_getenv P) (pf_ParseFloat P) (pf_ParseDuration P) \<and>
    sv_mcp_keys sv = cfg_APIKeys (sv_cfg sv) \<and> srv_apiKeys (sv_mcp sv) = cfg_APIKeys (sv_cfg sv) \<and>
    sv_auth sv = New (pf_hashing P) (cfg_APIKeys (sv_cfg sv))"
    using assms by (auto simp: haas_main_def Let_def MCP_New_def split: if_splits sum.splits prod.splits option.splits)
  then show "cfg_APIKeys (sv_cfg sv) \<noteq> []" "sv_mcp_keys sv = cfg_APIKeys (sv_cfg sv)"
    "srv_apiKeys (sv_mcp sv) = cfg_APIKeys (sv_cfg sv)" "sv_auth sv = New (pf_hashing P) (cfg_APIKeys (sv_cfg sv))"
    "\<forall>k \<in> set (cfg_APIKeys (sv_cfg sv)). k \<noteq> []"
    using slice_entries [of "[]" "pf_getenv P" "''HAAS_API_KEYS''"] by (auto simp: Load_def)
qed

section \<open>Properties\<close>

text \<open>C40: a stand-alone MCP server whose \<open>MCP_API_KEYS\<close> has only separators and blanks serves its tools
  to everybody: the list of keys is empty, no request is authenticated, and a request without a
  token reaches the transport, whose tools use the service's own API key.\<close>

theorem blank_mcp_keys_open:
  assumes "getenv ''HAAS_API_KEY'' = key" and "key \<noteq> []" and "getenv ''MCP_TRANSPORT'' = ''http''"
    and "getenv ''MCP_API_KEYS'' \<noteq> []" and "list_all (\<lambda>part. strings_TrimSpace part = []) (split_on (CHR '','') (getenv ''MCP_API_KEYS''))"
    and "rq_Path r = ''/''"
  shows "\<exists>s addr h. haas_mcp_main getenv = MCP_HTTP s addr [] \<and> mcp_endpoint H L (haas_mcp_main getenv) = Some h \<and>
    h r w = tr_Streamable L r w \<and> mc_apiKey (clientFromContext s (rq_ctx_mcp_key r)) = key"
proof -
  let ?s = "MCP_New (if getenv ''HAAS_URL'' = [] then ''http://localhost:8080'' else getenv ''HAAS_URL'') [key]"
  let ?addr = "if getenv ''MCP_LISTEN_ADDR'' = [] then '':8090'' else getenv ''MCP_LISTEN_ADDR''"
  have "parseMCPKeys (getenv ''MCP_API_KEYS'') key = []"
    using assms(4,5) by (auto simp: parseMCPKeys_def parse_keys_filter list_all_iff filter_empty_conv)
  then have m: "haas_mcp_main getenv = MCP_HTTP ?s ?addr []"
    using assms(1-3) by (simp add: haas_mcp_main_def Let_def)
  have "clean_path ''/'' = ''/''" by code_simp
  then have "ServeStreamableHTTP H L ?addr [] r w = tr_Streamable L r w"
    using assms(6) by (simp add: ServeStreamableHTTP_def mux_serve_def Let_def)
  moreover have "mc_apiKey (clientFromContext ?s (rq_ctx_mcp_key r)) = key"
    by (simp add: clientFromContext_single newHaasClient_def)
  ultimately show ?thesis unfolding m by auto
qed

definition ex_getenv :: "string \<Rightarrow> string" where
  "ex_getenv k = (if k = ''HAAS_API_KEY'' then ''secret'' else if k = ''MCP_TRANSPORT'' then ''http''
     else if k = ''MCP_API_KEYS'' then '', '' else [])"

definition ex_transports :: "unit mcp_transports" where
  "ex_transports = \<lparr>tr_SSE = (\<lambda>_ _ w. (Panicked, w)), tr_Message = (\<lambda>_ _ w. (Panicked, w)),
     tr_Streamable = (\<lambda>_ w. (Response (WriteHeader 200), w)), tr_redirect = (\<lambda>_. WriteHeader 307)\<rparr>"

definition ex_mcp_request :: "string \<Rightarrow> string \<Rightarrow> mcp_request" where
  "ex_mcp_request path auth = \<lparr>rq_Method = ''POST'', rq_Path = path,
     rq_Header = (\<lambda>k. if k = ''Authorization'' then auth else []), rq_Query = (\<lambda>_. []), rq_Body = no_reader,
     rq_Writes = None, rq_ctx_request_id = None, rq_ctx_tenant_id = None, rq_ctx_user_id = None, rq_ctx_mcp_key = None\<rparr>"

theorem blank_mcp_keys_open_witness:
  "\<exists>s addr h. haas_mcp_main ex_getenv = MCP_HTTP s addr [] \<and>
     mcp_endpoint \<lparr>sha256_hex = id, uuid_NewSHA1 = (\<lambda>_ d. d), uuid_Parse = Some\<rparr> ex_transports (haas_mcp_main ex_getenv) = Some h \<and>
     h (ex_mcp_request ''/'' []) () = (Response (WriteHeader 200), ()) \<and> mc_apiKey (clientFromContext s None) = ''secret''"
proof -
  have "strings_TrimSpace [] = []" "strings_TrimSpace '' '' = []" by code_simp+
  then show ?thesis
    using blank_mcp_keys_open [of ex_getenv "''secret''" "ex_mcp_request ''/'' []"
        "\<lparr>sha256_hex = id, uuid_NewSHA1 = (\<lambda>_ d. d), uuid_Parse = Some\<rparr>" ex_transports "()"]
    by (simp add: ex_getenv_def ex_mcp_request_def ex_transports_def)
qed

end
