(* ===== verification/Deployment.thy ===== *)
theory Deployment
  imports Stores Commands
begin

text \<open>
  The clients connected to the service: an HTTP client whose requests are served by the router.  What
  is between them is a parameter: the URL check, the encodings of bodies, and a network that may lose
  a request before it arrives or a response on its way back.  A path reaches the router as it was
  written (chi matches the undecoded path); the query string is parsed as the server does.
\<close>

section \<open>The connection\<close>

record glue =
  gl_NewRequest :: "string \<Rightarrow> string \<Rightarrow> goerr option"
  gl_before :: "http_request \<Rightarrow> goerr option"
  gl_after :: "http_request \<Rightarrow> goerr option"
  gl_json :: "json \<Rightarrow> bytes"
  gl_event :: "ExecEvent \<Rightarrow> bytes"

definition url_of :: "string \<Rightarrow> http_request \<Rightarrow> string \<times> string" where
  "url_of base req =
     (case strings_Cut (fst (strings_Cut (drop (length base) (hr_URL req)) (CHR ''#''))) (CHR ''?'') of
        (path, query, _) \<Rightarrow> (path, query))"

definition server_request :: "string \<Rightarrow> http_request \<Rightarrow> request" where
  "server_request base req = \<lparr>rq_Method = hr_Method req, rq_Path = fst (url_of base req),
     rq_Header = (\<lambda>k. case map_of (hr_Header req) k of None \<Rightarrow> [] | Some v \<Rightarrow> v),
     rq_Query = url_ParseQuery (snd (url_of base req)), rq_Body = hr_Body req, rq_Writes = None,
     rq_ctx_request_id = None, rq_ctx_tenant_id = None, rq_ctx_user_id = None\<rparr>"

definition wire :: "glue \<Rightarrow> body \<Rightarrow> bytes" where
  "wire G b =
     (case b of
        NoBody \<Rightarrow> [] | JSON v \<Rightarrow> gl_json G v | Raw data \<Rightarrow> data
      | Events evs \<Rightarrow> ndjson_bytes (gl_event G) evs | Messages _ \<Rightarrow> [])"

definition loopback :: "glue \<Rightarrow> ('s, 'e) api \<Rightarrow> string list \<Rightarrow> string \<Rightarrow> ('s, 'e) world http_client" where
  "loopback G d keys base = \<lparr>hc_NewRequest = gl_NewRequest G,
     hc_Do = (\<lambda>req w.
       case gl_before G req of
         Some err \<Rightarrow> (Inl err, w)
       | None \<Rightarrow>
           (case NewRouter d (New (api_hashing d) keys) (server_request base req) w of
              (Response rs, w') \<Rightarrow>
                (case gl_after G req of
                   Some err \<Rightarrow> (Inl err, w')
                 | None \<Rightarrow> (Inr \<lparr>hp_StatusCode = rs_Status rs, hp_Body = \<lparr>rd_data = wire G (rs_Body rs), rd_err = None\<rparr>\<rparr>, w'))
            | (Panicked, w') \<Rightarrow> (Inl io_EOF, w')))\<rparr>"

section \<open>Who a client speaks for\<close>

definition tenant_of :: "hashing \<Rightarrow> string \<Rightarrow> string" where
  "tenant_of H key = deriveUserID H (HashKey H key)"

definition user_of :: "hashing \<Rightarrow> string \<Rightarrow> string \<Rightarrow> string" where
  "user_of H key ext =
     (if strings_TrimSpace ext = [] then tenant_of H key else uuid_NewSHA1 H (tenant_of H key) (strings_TrimSpace ext))"

definition identities :: "hashing \<Rightarrow> string \<Rightarrow> string set" where
  "identities H key = range (user_of H key)"

lemma own_request_caller:
  assumes "own_request c req" and "cl_apiKey c \<in> set keys" and "cl_apiKey c \<noteq> []"
  shows "caller H keys (server_request base req) = Some (tenant_of H (cl_apiKey c), user_of H (cl_apiKey c) (cl_endUserID c))"
proof -
  have "rq_Header (server_request base req) ''Authorization'' = ''Bearer '' @ cl_apiKey c"
    "rq_Header (server_request base req) ''X-Haas-User-ID'' = cl_endUserID c"
    using assms(1) by (auto simp: own_request_def server_request_def)
  then show ?thesis
    using assms(2,3)
    by (auto simp: caller_def Let_def strings_TrimPrefix_def strings_HasPrefix_def tenant_of_def user_of_def)
qed

text \<open>The records of one user.\<close>

definition theirs :: "string \<Rightarrow> abs_store \<Rightarrow> abs_store" where
  "theirs u A = \<lparr>
     a_envs = (\<lambda>i. case a_envs A i of None \<Rightarrow> None | Some e \<Rightarrow> if env_UserID e = u then Some e else None),
     a_snaps = (\<lambda>i. case a_snaps A i of None \<Rightarrow> None | Some x \<Rightarrow> if snap_UserID x = u then Some x else None),
     a_skills = (\<lambda>i. case a_skills A i of None \<Rightarrow> None | Some (k, a) \<Rightarrow> if skill_UserID k = u then Some (k, a) else None)\<rparr>"

lemma theirs_others: "u \<noteq> v \<Longrightarrow> theirs u A = theirs u (others v A)"
  by (auto simp: theirs_def others_def fun_eq_iff split: option.splits)

lemma others_theirs: "others v A = others v B \<Longrightarrow> u \<noteq> v \<Longrightarrow> theirs u A = theirs u B"
  using theirs_others [of u v A] theirs_others [of u v B] by simp

section \<open>Sessions of the MCP server\<close>

text \<open>What a transport of the MCP library does for one authenticated context: tools and resources of
  the server are called, any number of them, each request to the service at its own instant with its
  own fresh UUID.\<close>

inductive tool_session ::
  "hashing \<Rightarrow> 's Store \<Rightarrow> ('s mem \<Rightarrow> abs_store) \<Rightarrow> string list \<Rightarrow> Server \<Rightarrow> mcp_context \<Rightarrow>
   ('s, 'e) world \<Rightarrow> ('s, 'e) world \<Rightarrow> bool"
  for H S \<alpha> keys s ctx w where
  session_start: "tool_session H S \<alpha> keys s ctx w w"
| session_tool:
    "tool_session H S \<alpha> keys s ctx w w1 \<Longrightarrow> api_hashing d = H \<Longrightarrow> api_store d = S \<Longrightarrow>
     fresh_IDs (api_uuid d) (\<alpha> (w_mem w1)) \<Longrightarrow> mx_http E = loopback G d keys (srv_restURL s) \<Longrightarrow>
     (t, h) \<in> set (registerTools E s) \<Longrightarrow> tool_session H S \<alpha> keys s ctx w (snd (h ctx req w1))"
| session_resource:
    "tool_session H S \<alpha> keys s ctx w w1 \<Longrightarrow> api_hashing d = H \<Longrightarrow> api_store d = S \<Longrightarrow>
     fresh_IDs (api_uuid d) (\<alpha> (w_mem w1)) \<Longrightarrow> mx_http E = loopback G d keys (srv_restURL s) \<Longrightarrow>
     (x, h) \<in> set (registerResources E s) \<Longrightarrow> tool_session H S \<alpha> keys s ctx w (snd (h ctx uri w1))"

text \<open>The handlers of a library's transports, and that they run sessions with the context of the
  request: what the MCP library documents of its transports.\<close>

definition handlers :: "'w mcp_transports \<Rightarrow> 'w mcp_handler set" where
  "handlers L = insert (tr_Streamable L) (range (tr_SSE L) \<union> range (tr_Message L))"

definition serves_sessions ::
  "hashing \<Rightarrow> 's Store \<Rightarrow> ('s mem \<Rightarrow> abs_store) \<Rightarrow> string list \<Rightarrow> Server \<Rightarrow> ('s, 'e) world mcp_transports \<Rightarrow> bool" where
  "serves_sessions H S \<alpha> keys s L \<longleftrightarrow>
     (\<forall>h \<in> handlers L. \<forall>r w. tool_session H S \<alpha> keys s (rq_ctx_mcp_key r) w (snd (h r w)))"

lemma mux_world:
  "snd (mux_serve redirect hs r w) = w \<or> (\<exists>h \<in> snd ` set hs. snd (mux_serve redirect hs r w) = snd (h r w))"
  by (fastforce simp: mux_serve_def split: option.splits dest: map_of_SomeD)

lemma streamable_world:
  assumes "keys \<noteq> []" and "ServeStreamableHTTP H L addr keys r w = (out, w')" and "presented_key H keys r = Some k"
  shows "w' = w \<or> (\<exists>h \<in> handlers L. w' = snd (h (r\<lparr>rq_ctx_mcp_key := Some k\<rparr>) w))"
proof -
  let ?base = "''http://'' @ (if strings_HasPrefix addr '':'' then ''localhost'' @ addr else addr)"
  let ?hs = "[(''/sse'', tr_SSE L ?base), (''/message'', tr_Message L ?base), (''/'', tr_Streamable L)]"
  have "w' = snd (mux_serve (tr_redirect L) ?hs (r\<lparr>rq_ctx_mcp_key := Some k\<rparr>) w)"
    using assms by (simp add: ServeStreamableHTTP_def Let_def bearerAuth_presented)
  moreover have "snd ` set ?hs \<subseteq> handlers L" by (simp add: handlers_def)
  ultimately show ?thesis using mux_world [of "tr_redirect L" ?hs "r\<lparr>rq_ctx_mcp_key := Some k\<rparr>" w] by blast
qed

context store_client
begin

text \<open>A step that leaves alone the records of every user outside a set.\<close>

definition spares :: "string set \<Rightarrow> 'a mem \<Rightarrow> 'a mem \<Rightarrow> bool" where
  "spares U m m' \<longleftrightarrow> inv m' \<and> stable (snd m) (snd m') \<and> (\<forall>u. u \<notin> U \<longrightarrow> theirs u (\<alpha> m') = theirs u (\<alpha> m))"

lemma spares_refl [simp]: "inv m \<Longrightarrow> spares U m m"
  by (simp add: spares_def)

lemma spares_trans: "spares U a b \<Longrightarrow> spares U b c \<Longrightarrow> spares U a c"
  by (auto simp: spares_def intro: stable_trans)

lemma keeps_spares: "keeps v m m' \<Longrightarrow> v \<in> U \<Longrightarrow> spares U m m'"
  unfolding keeps_def spares_def by (metis others_theirs)

lemma loopback_keeps:
  assumes "uuid_ok (api_hashing d)" and "api_store d = S" and "inv (w_mem w)" and "fresh_IDs (api_uuid d) (\<alpha> (w_mem w))"
    and "own_request c req" and "cl_apiKey c \<in> set keys" and "cl_apiKey c \<noteq> []"
    and "hc_Do (loopback G d keys base) req w = (x, w')"
  shows "keeps (user_of (api_hashing d) (cl_apiKey c) (cl_endUserID c)) (w_mem w) (w_mem w')"
proof (cases "gl_before G req")
  case None
  obtain out w1 where r: "NewRouter d (New (api_hashing d) keys) (server_request base req) w = (out, w1)" by fastforce
  have "w' = w1"
    using assms(8) None r by (auto simp: loopback_def split: outcome.splits option.splits)
  then show ?thesis
    using router_world [OF assms(1-4) r] own_request_caller [OF assms(5-7)] by simp
next
  case (Some e)
  then show ?thesis using assms(3,8) by (simp add: loopback_def keeps_refl)
qed

lemma tenant_request:
  assumes "uuid_ok H" and "k \<in> set keys" and "k \<noteq> []"
    and "api_hashing d = H" and "api_store d = S" and "fresh_IDs (api_uuid d) (\<alpha> (w_mem w))" and "inv (w_mem w)"
    and "one_request (loopback G d keys base) c w w'" and "cl_apiKey c = k"
  shows "spares (identities H k) (w_mem w) (w_mem w')"
  using assms(8) unfolding one_request_def
proof
  assume "\<exists>req. own_request c req \<and> w' = snd (hc_Do (loopback G d keys base) req w)"
  then obtain req where "own_request c req" "hc_Do (loopback G d keys base) req w = (fst (hc_Do (loopback G d keys base) req w), w')"
    by auto
  with loopback_keeps [of d w c req keys G base _ w'] assms
  have "keeps (user_of H k (cl_endUserID c)) (w_mem w) (w_mem w')" by simp
  moreover have "user_of H k (cl_endUserID c) \<in> identities H k" by (simp add: identities_def)
  ultimately show ?thesis by (rule keeps_spares)
qed (simp add: assms(7))

lemma session_keeps_others:
  assumes "uuid_ok H" and "inv (w_mem w)" and "k \<in> set keys" and "k \<noteq> []" and "srv_apiKeys s = keys"
    and "tool_session H S \<alpha> keys s (Some k) w w'"
  shows "spares (identities H k) (w_mem w) (w_mem w')"
  using assms(6)
proof induction
  case session_start
  then show ?case using assms(2) by simp
next
  case (session_tool w1 d E G t h req)
  have c: "cl_apiKey (sdk_client (clientFromContext s (Some k))) = k" "cl_apiKey (sdk_client (scopedClient s (Some k) req)) = k"
    using clientFromContext_key [of k s] assms(3,4,5) scopedClient_fields(1) [of s "Some k" req]
    by (simp_all add: sdk_client_def newHaasClient_def)
  have "inv (w_mem w1)" using session_tool.IH by (simp add: spares_def)
  note t = tenant_request [OF assms(1,3,4) session_tool.hyps(2-4) this]
  from tools_one [OF session_tool.hyps(6), of "Some k" req w1, unfolded session_tool.hyps(5)]
  have "spares (identities H k) (w_mem w1) (w_mem (snd (h (Some k) req w1)))"
    by (elim disjE) (erule t, rule c)+
  with session_tool.IH show ?case by (rule spares_trans)
next
  case (session_resource w1 d E G x h uri)
  have c: "cl_apiKey (sdk_client (clientFromContext s (Some k))) = k"
    using clientFromContext_key [of k s] assms(3,4,5) by (simp add: sdk_client_def newHaasClient_def)
  have "inv (w_mem w1)" using session_resource.IH by (simp add: spares_def)
  note t = tenant_request [OF assms(1,3,4) session_resource.hyps(2-4) this]
  from registered_one [OF session_resource.hyps(6), of "Some k" w1 uri, unfolded session_resource.hyps(5)]
  have "spares (identities H k) (w_mem w1) (w_mem (snd (h (Some k) uri w1)))"
    by (rule t) (rule c)
  with session_resource.IH show ?case by (rule spares_trans)
qed

text \<open>The endpoint of the MCP server in front of transports that run sessions.\<close>

lemma endpoint_keeps_others:
  assumes "uuid_ok H" and "inv (w_mem w)" and "keys \<noteq> []" and "srv_apiKeys s = keys"
    and "serves_sessions H S \<alpha> keys s L" and "ServeStreamableHTTP H L addr keys r w = (out, w')"
  shows "case presented_key H keys r of
      None \<Rightarrow> out = Response mcp_unauthorized \<and> w' = w
    | Some k \<Rightarrow> spares (identities H k) (w_mem w) (w_mem w')"
proof (cases "presented_key H keys r")
  case None
  then show ?thesis using assms(3,6) by (simp add: ServeStreamableHTTP_def Let_def bearerAuth_presented)
next
  case (Some k)
  note k = presented_key_Some(1,2) [OF Some]
  let ?r = "r\<lparr>rq_ctx_mcp_key := Some k\<rparr>"
  have "tool_session H S \<alpha> keys s (Some k) w w'"
    using streamable_world [OF assms(3,6) Some]
  proof
    assume "\<exists>h \<in> handlers L. w' = snd (h ?r w)"
    then obtain h where "h \<in> handlers L" "w' = snd (h ?r w)" by blast
    moreover have "rq_ctx_mcp_key ?r = Some k" by simp
    ultimately show ?thesis using assms(5) unfolding serves_sessions_def by metis
  qed (simp add: session_start)
  from session_keeps_others [OF assms(1,2) k assms(4) this] Some show ?thesis by simp
qed

end

section \<open>Files through the SDK\<close>

lemma router_serves:
  assumes "uuid_ok (api_hashing d)" and "api_match d routes (rq_Method r) (rq_Path r) = Some (rt, i)" and "rt \<noteq> Healthz"
    and "caller (api_hashing d) keys r = Some (t, u)" and "serve d rt i (authenticated d t u r) w = (Response rs0, w')"
  shows "\<exists>rs. NewRouter d (New (api_hashing d) keys) r w = (Response rs, w') \<and> rs_Status rs = rs_Status rs0 \<and> rs_Body rs = rs_Body rs0"
proof -
  obtain out w1 where o: "NewRouter d (New (api_hashing d) keys) r w = (out, w1)" by fastforce
  from assms(1) o show ?thesis by (cases rule: NewRouter_cases) (use assms o in auto)
qed

lemma router_served:
  assumes "uuid_ok (api_hashing d)" and "api_match d routes (rq_Method r) (rq_Path r) = Some (rt, i)" and "rt \<noteq> Healthz"
    and "caller (api_hashing d) keys r = Some (t, u)" and "NewRouter d (New (api_hashing d) keys) r w = (Response rs, w')"
    and "rs_Status rs \<noteq> 500"
  shows "\<exists>rs0. serve d rt i (authenticated d t u r) w = (Response rs0, w') \<and> rs_Status rs = rs_Status rs0 \<and> rs_Body rs = rs_Body rs0"
  using assms(1,5) by (cases rule: NewRouter_cases) (use assms in auto)

text \<open>A file written through the service to Docker is read back, under any spelling of its path.\<close>

lemma service_roundtrip:
  assumes "keeps_files C F files" and "mem_inv (w_mem w)" and "a_envs (mem_abs (w_mem w)) i = Some e"
    and "env_UserID e = u" and "u \<noteq> []" and "env_Status e = StatusRunning"
    and "FileService_WriteFile memory_store (docker_engine C F) bound now i u raw body w = (None, w')"
    and "readAllMax body bound = Inr data" and "sanitizePath raw' = sanitizePath raw" and "raw' \<noteq> []"
    and "sanitizePath raw \<noteq> Inr ''/''"
  shows "\<exists>path w''. FileService_ReadFile memory_store (docker_engine C F) now' i u raw' w' =
    (Inr (path, \<lparr>rd_data = data, rd_err = None\<rparr>), w'')"
proof -
  have sc: "scoped u (env_UserID e)" using assms(4) by simp
  obtain path data' where
    p: "raw \<noteq> []" "sanitizePath raw = Inr path" and d: "readAllMax body bound = Inr data'"
      and e: "eng_WriteFile (docker_engine C F) (env_ContainerID e) path data' (w_eng w) = (None, w_eng w')"
      and m: "mem_abs (w_mem w') = (mem_abs (w_mem w))\<lparr>a_envs := (a_envs (mem_abs (w_mem w)))(i \<mapsto>
        mem.nenv (snd (w_mem w)) (e\<lparr>env_LastUsedAt := now\<rparr>))\<rparr>"
    by (rule mem_svc.FileService_WriteFile_engine [OF assms(2) TrueI assms(3) sc assms(6,7)])
  have w: "DockerEngine_WriteFile C F (env_ContainerID e) path data (w_eng w) = (None, w_eng w')"
    using e d assms(8) by (simp add: docker_engine_def)
  have a: "a_envs (mem_abs (w_mem w')) i = Some (e\<lparr>env_LastUsedAt := now\<rparr>)"
    by (simp add: m mem.nenv_def)
  have "mem_inv (w_mem w')"
    using mem_svc.FileService_WriteFile_keeps [OF assms(2,5,7)] by (rule mem_svc.keeps_inv)
  moreover have "eng_ReadFile (docker_engine C F) (env_ContainerID (e\<lparr>env_LastUsedAt := now\<rparr>)) path (w_eng w') =
      (Inr \<lparr>rd_data = data, rd_err = None\<rparr>, w_eng w')"
    using docker_write_read(2) [OF assms(1) p(2) _ w] assms(11) p(2) by (auto simp: docker_engine_def)
  ultimately show ?thesis
    using mem_svc.FileService_ReadFile_ok [of w' i "e\<lparr>env_LastUsedAt := now\<rparr>" u raw' path] p a sc assms(6,9,10) by simp blast
qed

lemma service_write_reads:
  assumes "mem_inv (w_mem w)" and "a_envs (mem_abs (w_mem w)) i = Some e" and "env_UserID e = u" and "env_Status e = StatusRunning"
    and "FileService_WriteFile memory_store E bound now i u raw body w = (None, w')"
  shows "raw \<noteq> []" and "\<exists>data. readAllMax body bound = Inr data"
proof -
  have sc: "scoped u (env_UserID e)" using assms(3) by simp
  obtain data where "raw \<noteq> []" "readAllMax body bound = Inr data"
    by (rule mem_svc.FileService_WriteFile_engine [OF assms(1) TrueI assms(2) sc assms(4,5)]) (rule that)
  then show "raw \<noteq> []" "\<exists>data. readAllMax body bound = Inr data" by simp_all
qed

lemma cut_at: "c \<notin> set a \<Longrightarrow> strings_Cut (a @ c # b) c = (a, b, True)"
proof -
  assume "c \<notin> set a"
  then have "takeWhile (\<lambda>x. x \<noteq> c) (a @ c # b) = a" by (induction a) auto
  then show ?thesis by (simp add: strings_Cut_def)
qed

lemma cut_none: "c \<notin> set a \<Longrightarrow> strings_Cut a c = (a, [], False)"
proof -
  assume "c \<notin> set a"
  then have "takeWhile (\<lambda>x. x \<noteq> c) a = a" by (induction a) auto
  then show ?thesis by (simp add: strings_Cut_def)
qed

definition plain_id :: "string \<Rightarrow> bool" where
  "plain_id i \<longleftrightarrow> CHR ''?'' \<notin> set i \<and> CHR ''#'' \<notin> set i"

definition content_path :: "string \<Rightarrow> string" where
  "content_path i = ''/v1/environments/'' @ i @ ''/files/content''"

lemma content_url:
  assumes "plain_id i" and "hr_URL req = base @ ''/v1/environments/'' @ i @ ''/files/content?path='' @ url_QueryEscape p"
  shows "rq_Path (server_request base req) = content_path i" and "Query_Get (server_request base req) ''path'' = p"
proof -
  have "url_of base req = (content_path i, ''path='' @ url_QueryEscape p)"
  proof -
    have "drop (length base) (hr_URL req) = content_path i @ CHR ''?'' # ''path='' @ url_QueryEscape p"
      by (simp add: assms(2) content_path_def)
    moreover have "CHR ''#'' \<notin> set (content_path i @ CHR ''?'' # ''path='' @ url_QueryEscape p)"
      "CHR ''?'' \<notin> set (content_path i)"
      using assms(1) QueryEscape_plain [of p] by (auto simp: content_path_def plain_id_def)
    ultimately show ?thesis by (simp add: url_of_def cut_none cut_at del: append.simps)
  qed
  then show "rq_Path (server_request base req) = content_path i" "Query_Get (server_request base req) ''path'' = p"
    using ParseQuery_single [of "''path''" p "''path''"]
    by (simp_all add: server_request_def Query_Get_def is_alnum_def)
qed

lemma write_error_status: "rs_Status (writeWriteFileError err) \<noteq> 204"
  by (simp add: writeWriteFileError_def)

lemma authenticated_body: "rq_Body (authenticated d t u r) = rq_Body r"
  by (simp add: authenticated_def identified_def)

lemma client_own: "own_request c \<lparr>hr_Method = m, hr_URL = cl_baseURL c @ ''/v1/'' @ rest, hr_Header = raw_headers c, hr_Body = b\<rparr>"
  "own_request c \<lparr>hr_Method = m, hr_URL = cl_baseURL c @ ''/v1/'' @ rest, hr_Header = auth_headers c, hr_Body = b\<rparr>"
  by (auto simp: own_request_def raw_headers_def auth_headers_def)

lemma sdk_write_served:
  assumes "uuid_ok (api_hashing d)" and "cl_apiKey c \<in> set keys" and "cl_apiKey c \<noteq> []" and "plain_id i"
    and "api_match d routes ''PUT'' (content_path i) = Some (Files_Write, i)"
    and "Client_WriteFile (loopback G d keys (cl_baseURL c)) J c i raw content w = (Inr (), w')"
  shows "FileService_WriteFile (api_store d) (api_engine d) (maxFileUploadBytes d) (api_now d) i
    (user_of (api_hashing d) (cl_apiKey c) (cl_endUserID c)) raw \<lparr>rd_data = content, rd_err = None\<rparr> w = (None, w')"
proof -
  let ?req = "\<lparr>hr_Method = ''PUT'', hr_URL = cl_baseURL c @ ''/v1/environments/'' @ i @ ''/files/content?path='' @ url_QueryEscape raw,
      hr_Header = raw_headers c, hr_Body = \<lparr>rd_data = content, rd_err = None\<rparr>\<rparr>"
  let ?r = "server_request (cl_baseURL c) ?req"
  have own: "own_request c ?req" using client_own(1) [of c "''PUT''" "''environments/'' @ i @ ''/files/content?path='' @ url_QueryEscape raw"] by simp
  note caller = own_request_caller [OF own assms(2,3), of "api_hashing d" "cl_baseURL c"]
  note url = content_url [OF assms(4), of ?req "cl_baseURL c" raw]
  obtain rs where rs: "NewRouter d (New (api_hashing d) keys) ?r w = (Response rs, w')" "rs_Status rs = 204"
    using assms(6)
    by (auto simp: Client_WriteFile_def send_def expect_def loopback_def split: option.splits prod.splits sum.splits outcome.splits if_splits)
  have "api_match d routes (rq_Method ?r) (rq_Path ?r) = Some (Files_Write, i)"
    using assms(5) url(1) by (simp add: server_request_def)
  from router_served [OF assms(1) this _ caller rs(1)] rs(2) obtain rs0 where
    "FilesHandler_Write d i (authenticated d (tenant_of (api_hashing d) (cl_apiKey c)) (user_of (api_hashing d) (cl_apiKey c) (cl_endUserID c)) ?r) w
      = (Response rs0, w')" "rs_Status rs0 = 204" by auto
  moreover have "rq_Body ?r = \<lparr>rd_data = content, rd_err = None\<rparr>" by (simp add: server_request_def)
  ultimately show ?thesis
    using url(2) by (auto simp: FilesHandler_Write_def authenticated_body write_error_status split: prod.splits option.splits)
qed

lemma sdk_read_served:
  assumes "uuid_ok (api_hashing d)" and "cl_apiKey c \<in> set keys" and "cl_apiKey c \<noteq> []" and "plain_id i"
    and "api_match d routes ''GET'' (content_path i) = Some (Files_Read, i)"
    and "\<And>m url. gl_NewRequest G m url = None" and "\<And>req. gl_before G req = None" and "\<And>req. gl_after G req = None"
    and "FileService_ReadFile (api_store d) (api_engine d) (api_now d) i
      (user_of (api_hashing d) (cl_apiKey c) (cl_endUserID c)) raw w = (Inr (path, rd), w')"
  shows "Client_ReadFile (loopback G d keys (cl_baseURL c)) J c i raw w = (Inr (rd_data rd), w')"
proof -
  let ?req = "\<lparr>hr_Method = ''GET'', hr_URL = cl_baseURL c @ ''/v1/environments/'' @ i @ ''/files/content?path='' @ url_QueryEscape raw,
      hr_Header = auth_headers c, hr_Body = no_reader\<rparr>"
  let ?r = "server_request (cl_baseURL c) ?req"
  let ?t = "tenant_of (api_hashing d) (cl_apiKey c)" and ?u = "user_of (api_hashing d) (cl_apiKey c) (cl_endUserID c)"
  have own: "own_request c ?req" using client_own(2) [of c "''GET''" "''environments/'' @ i @ ''/files/content?path='' @ url_QueryEscape raw"] by simp
  note caller = own_request_caller [OF own assms(2,3), of "api_hashing d" "cl_baseURL c"]
  note url = content_url [OF assms(4), of ?req "cl_baseURL c" raw]
  have m: "api_match d routes (rq_Method ?r) (rq_Path ?r) = Some (Files_Read, i)"
    using assms(5) url(1) by (simp add: server_request_def)
  obtain rs0 where "serve d Files_Read i (authenticated d ?t ?u ?r) w = (Response rs0, w')" "rs_Status rs0 = 200" "rs_Body rs0 = Raw (rd_data rd)"
    using assms(9) url(2) by (simp add: FilesHandler_Read_def Let_def)
  with router_serves [OF assms(1) m _ caller this(1)] obtain rs where
    "NewRouter d (New (api_hashing d) keys) ?r w = (Response rs, w')" "rs_Status rs = 200" "rs_Body rs = Raw (rd_data rd)" by auto
  then show ?thesis
    using assms(6-8)
    by (simp add: Client_ReadFile_def Client_do_def send_def expect_def loopback_def wire_def io_ReadAll_def)
qed

section \<open>Commands through the SDK\<close>

definition exec_path :: "string \<Rightarrow> string" where
  "exec_path i = ''/v1/environments/'' @ i @ ''/exec''"

lemma exec_url:
  assumes "plain_id i" and "hr_URL req = base @ ''/v1/environments/'' @ i @ ''/exec''"
  shows "rq_Path (server_request base req) = exec_path i"
proof -
  have "drop (length base) (hr_URL req) = exec_path i" by (simp add: assms(2) exec_path_def)
  moreover have "CHR ''#'' \<notin> set (exec_path i)" "CHR ''?'' \<notin> set (exec_path i)"
    using assms(1) by (auto simp: exec_path_def plain_id_def)
  ultimately have "url_of base req = (exec_path i, [])" by (simp add: url_of_def cut_none)
  then show ?thesis by (simp add: server_request_def)
qed

text \<open>The events of a command whose output is a complete stream of frames.\<close>

definition command_events :: "(nat \<times> bytes) list \<Rightarrow> int \<Rightarrow> ExecEvent list" where
  "command_events fs code = map frame_event fs @ [\<lparr>ev_Stream = ''exit'', ev_Data = show_int code\<rparr>]"

lemma exec_handler_events:
  assumes "PrepareExec (api_store d) i (UserIDFromContext r) w = (Inr target, w1)"
    and "decodeJSON (api_decode_exec d) r = Inr req"
    and "StartExec (api_store d) (api_engine d) (api_now d) target req w1 = (Inr session, w2)"
    and "xs_Reader session = \<lparr>rd_data = concat (map frame fs), rd_err = None\<rparr>" and "\<forall>f \<in> set fs. frame_ok f"
    and "ExitCode (api_engine d) session w2 = ((code, True), w3)" and "rq_Writes r = None"
  shows "ExecHandler_Exec d i r w = (Response (ndjson (command_events fs code)), w3)"
  using assms(1-3,6,7) demux_emit [OF assms(5), of "[]"]
  by (simp add: ExecHandler_Exec_def assms(4) command_events_def emit_def intToString_def)

lemma sdk_exec_bytes:
  assumes "uuid_ok (api_hashing d)" and "cl_apiKey c \<in> set keys" and "cl_apiKey c \<noteq> []" and "plain_id i"
    and "api_match d routes ''POST'' (exec_path i) = Some (route.Exec, i)"
    and "\<And>m url. gl_NewRequest G m url = None" and "\<And>req. gl_before G req = None" and "\<And>req. gl_after G req = None"
    and "PrepareExec (api_store d) i (user_of (api_hashing d) (cl_apiKey c) (cl_endUserID c)) w = (Inr target, w1)"
    and "js_exec J req = Inr data" and "api_decode_exec d (MaxBytesReader \<lparr>rd_data = data, rd_err = None\<rparr> maxBodySize) = Inr (req', False)"
    and "StartExec (api_store d) (api_engine d) (api_now d) target req' w1 = (Inr session, w2)"
    and "xs_Reader session = \<lparr>rd_data = concat (map frame fs), rd_err = None\<rparr>" and "\<forall>f \<in> set fs. frame_ok f"
    and "ExitCode (api_engine d) session w2 = ((code, True), w3)"
  shows "Client_Exec (loopback G d keys (cl_baseURL c)) J c i req w =
    (exec_result J \<lparr>rd_data = ndjson_bytes (gl_event G) (command_events fs code), rd_err = None\<rparr>, w3)"
proof -
  let ?req = "\<lparr>hr_Method = ''POST'', hr_URL = cl_baseURL c @ ''/v1/environments/'' @ i @ ''/exec'',
      hr_Header = auth_headers c @ [(''Content-Type'', ''application/json'')], hr_Body = \<lparr>rd_data = data, rd_err = None\<rparr>\<rparr>"
  let ?r = "server_request (cl_baseURL c) ?req"
  let ?t = "tenant_of (api_hashing d) (cl_apiKey c)" and ?u = "user_of (api_hashing d) (cl_apiKey c) (cl_endUserID c)"
  let ?a = "authenticated d ?t ?u ?r"
  have own: "own_request c ?req" by (auto simp: own_request_def auth_headers_def)
  note caller = own_request_caller [OF own assms(2,3), of "api_hashing d" "cl_baseURL c"]
  have m: "api_match d routes (rq_Method ?r) (rq_Path ?r) = Some (route.Exec, i)"
    using assms(5) exec_url [OF assms(4), of ?req "cl_baseURL c"] by (simp add: server_request_def)
  have dec: "decodeJSON (api_decode_exec d) ?a = Inr req'"
    using assms(11) by (simp add: decodeJSON_def authenticated_body server_request_def)
  have wr: "rq_Writes ?a = None" by (simp add: authenticated_def identified_def server_request_def)
  have "serve d route.Exec i ?a w = (Response (ndjson (command_events fs code)), w3)"
    using exec_handler_events [OF _ dec assms(12,13,14,15) wr] assms(9) by simp
  with router_serves [OF assms(1) m _ caller this] obtain rs where
    rs: "NewRouter d (New (api_hashing d) keys) ?r w = (Response rs, w3)" "rs_Status rs = 200" "rs_Body rs = Events (command_events fs code)"
    by (auto simp: ndjson_def)
  show ?thesis
    using assms(6-8,10) rs by (simp add: Client_Exec_def Client_do_def send_def expect_def loopback_def wire_def)
qed

lemma sdk_exec_served:
  assumes "uuid_ok (api_hashing d)" and "cl_apiKey c \<in> set keys" and "cl_apiKey c \<noteq> []" and "plain_id i"
    and "api_match d routes ''POST'' (exec_path i) = Some (route.Exec, i)"
    and "\<And>m url. gl_NewRequest G m url = None" and "\<And>req. gl_before G req = None" and "\<And>req. gl_after G req = None"
    and "PrepareExec (api_store d) i (user_of (api_hashing d) (cl_apiKey c) (cl_endUserID c)) w = (Inr target, w1)"
    and "js_exec J req = Inr data" and "api_decode_exec d (MaxBytesReader \<lparr>rd_data = data, rd_err = None\<rparr> maxBodySize) = Inr (req', False)"
    and "StartExec (api_store d) (api_engine d) (api_now d) target req' w1 = (Inr session, w2)"
    and "xs_Reader session = \<lparr>rd_data = concat (map frame fs), rd_err = None\<rparr>" and "\<forall>f \<in> set fs. frame_ok f"
    and "ExitCode (api_engine d) session w2 = ((code, True), w3)"
    and "\<forall>ev \<in> set (command_events fs code). event_codec J (gl_event G) ev \<and> length (gl_event G ev) < 65536"
  shows "Client_Exec (loopback G d keys (cl_baseURL c)) J c i req w =
    (Inr \<lparr>res_Stdout = concat (map snd (filter (\<lambda>f. fst f \<noteq> 2) fs)), res_Stderr = concat (map snd (filter (\<lambda>f. fst f = 2) fs)),
      res_ExitCode = show_int code\<rparr>, w3)"
  using sdk_exec_bytes [OF assms(1-15)] exec_result_events [OF assms(16)]
  by (simp add: command_events_def stream_data_frames)

context store_client
begin

lemma exec_service_ok:
  assumes "inv (w_mem w)" and "healthy (snd (w_mem w))" and "a_envs (\<alpha> (w_mem w)) i = Some e" and "scoped u (env_UserID e)"
    and "env_Status e = StatusRunning" and "er_Command req \<noteq> []"
    and "eng_Exec E (env_ContainerID e) req (w_eng w) = (Inr \<lparr>xr_reader = rd, xr_execID = Some x\<rparr>, eng1)"
    and "eng_ExecExitCode E x eng1 = (Inr code, eng2)"
  shows "\<exists>p w1 session w2 w3. PrepareExec S i u w = (Inr p, w1) \<and> StartExec S E now p req w1 = (Inr session, w2) \<and>
    xs_Reader session = rd \<and> ExitCode E session w2 = ((code, True), w3) \<and> w_eng w3 = eng2"
proof -
  obtain p w1 where g: "getRunningEnv S i u w = (Inr p, w1)" and d: "deref p w1 = e"
    using getRunningEnv_healthy [OF assms(1-5)] by blast
  have e1: "w_eng w1 = w_eng w" using getRunningEnv_ok(4) [OF assms(1) g] .
  obtain w1' where w1': "on_engine (eng_Exec E (env_ContainerID e) req) w1 = (Inr \<lparr>xr_reader = rd, xr_execID = Some x\<rparr>, w1')" "w_eng w1' = eng1"
    using assms(7) e1 by (auto simp: on_engine_def)
  let ?w2 = "snd (on_store (sto_Update S p) (assign_env p ((deref p w1')\<lparr>env_LastUsedAt := now\<rparr>) w1'))"
  have e2: "w_eng ?w2 = eng1" using w1'(2) by (simp add: on_store_def assign_env_def split: prod.split)
  obtain session where s: "StartExec S E now p req w1 = (Inr session, ?w2)" "xs_Reader session = rd" "xs_execID session = x" "xs_hasExecID session"
    using assms(6) d w1'(1) by (simp add: StartExec_def Let_def)
  have "\<exists>w3. ExitCode E session ?w2 = ((code, True), w3) \<and> w_eng w3 = eng2"
    using s(3,4) e2 assms(8) by (simp add: ExitCode_def on_engine_def)
  with g s show ?thesis by (simp add: PrepareExec_eq)
qed

end

lemma sdk_write_ok:
  assumes "uuid_ok (api_hashing d)" and "cl_apiKey c \<in> set keys" and "cl_apiKey c \<noteq> []" and "plain_id i"
    and "api_match d routes ''PUT'' (content_path i) = Some (Files_Write, i)"
    and "\<And>m url. gl_NewRequest G m url = None" and "\<And>req. gl_before G req = None" and "\<And>req. gl_after G req = None"
    and "FileService_WriteFile (api_store d) (api_engine d) (maxFileUploadBytes d) (api_now d) i
      (user_of (api_hashing d) (cl_apiKey c) (cl_endUserID c)) raw \<lparr>rd_data = content, rd_err = None\<rparr> w = (None, w')"
  shows "Client_WriteFile (loopback G d keys (cl_baseURL c)) J c i raw content w = (Inr (), w')"
proof -
  let ?req = "\<lparr>hr_Method = ''PUT'', hr_URL = cl_baseURL c @ ''/v1/environments/'' @ i @ ''/files/content?path='' @ url_QueryEscape raw,
      hr_Header = raw_headers c, hr_Body = \<lparr>rd_data = content, rd_err = None\<rparr>\<rparr>"
  let ?r = "server_request (cl_baseURL c) ?req"
  let ?t = "tenant_of (api_hashing d) (cl_apiKey c)" and ?u = "user_of (api_hashing d) (cl_apiKey c) (cl_endUserID c)"
  have own: "own_request c ?req" using client_own(1) [of c "''PUT''" "''environments/'' @ i @ ''/files/content?path='' @ url_QueryEscape raw"] by simp
  note caller = own_request_caller [OF own assms(2,3), of "api_hashing d" "cl_baseURL c"]
  note url = content_url [OF assms(4), of ?req "cl_baseURL c" raw]
  have m: "api_match d routes (rq_Method ?r) (rq_Path ?r) = Some (Files_Write, i)"
    using assms(5) url(1) by (simp add: server_request_def)
  have b: "rq_Body ?r = \<lparr>rd_data = content, rd_err = None\<rparr>" by (simp add: server_request_def)
  have "serve d Files_Write i (authenticated d ?t ?u ?r) w = (Response (WriteHeader 204), w')"
    using assms(9) url(2) b by (simp add: FilesHandler_Write_def authenticated_body)
  with router_serves [OF assms(1) m _ caller this] obtain rs where
    "NewRouter d (New (api_hashing d) keys) ?r w = (Response rs, w')" "rs_Status rs = 204" by auto
  then show ?thesis
    using assms(6-8) by (simp add: Client_WriteFile_def send_def expect_def loopback_def ignored_def)
qed

section \<open>A small deployment\<close>

definition ex_glue :: glue where
  "ex_glue = \<lparr>gl_NewRequest = (\<lambda>_ _. None), gl_before = (\<lambda>_. None), gl_after = (\<lambda>_. None), gl_json = (\<lambda>_. []), gl_event = ex_enc\<rparr>"

lemma ex_glue_fields [simp]:
  "gl_NewRequest ex_glue m url = None" "gl_before ex_glue req = None" "gl_after ex_glue req = None" "gl_event ex_glue = ex_enc"
  by (simp_all add: ex_glue_def)

definition ex_sdk :: Client where
  "ex_sdk = Client_New ''http://localhost:8080/'' ''alice''"

lemma ex_sdk_fields [simp]: "cl_apiKey ex_sdk = ''alice''" "cl_endUserID ex_sdk = []"
  by (simp_all add: ex_sdk_def Client_New_def)

lemma ex_user [simp]: "user_of ex_hashing k [] = ex_tenant k"
  by (simp add: user_of_def tenant_of_def deriveUserID_def HashKey_def ex_hashing_def ex_tenant_def)

definition ex_file_api :: "(MemoryStore, ex_daemon) api" where
  "ex_file_api = (ex_docker_api memory_store)\<lparr>api_match := (\<lambda>_ m p.
     if p = content_path ''env_a'' then Some (if m = ''PUT'' then Files_Write else Files_Read, ''env_a'') else None)\<rparr>"

lemma ex_file_api_fields [simp]:
  "api_hashing ex_file_api = ex_hashing" "api_store ex_file_api = memory_store" "api_engine ex_file_api = docker_engine ex_client ex_formats"
  "api_match ex_file_api t m (content_path ''env_a'') = Some (if m = ''PUT'' then Files_Write else Files_Read, ''env_a'')"
  "maxFileUploadBytes ex_file_api = 104857600"
  by (simp_all add: ex_file_api_def maxFileUploadBytes_def ex_docker_api_def ex_cfg_def Load_def envOrDefaultInt_def shl64_def wrap64_def)

definition ex_file_world :: "(MemoryStore, ex_daemon) world" where
  "ex_file_world = \<lparr>w_mem = w_mem ex_world, w_eng = \<lparr>dm_containers = [], dm_files = []\<rparr>\<rparr>"

lemma ex_file_world_ok:
  "mem_inv (w_mem ex_file_world)" "a_envs (mem_abs (w_mem ex_file_world)) ''env_a'' = Some (ex_env ''env_a'' ''alice'' ''ca'')"
  by (simp_all add: ex_file_world_def ex_world_def ex_memory_def NewMemoryStore_def ex_heap_def ex_env_def envs_ok_def snaps_ok_def skills_ok_def)

lemma ex_env_fields:
  "env_UserID (ex_env i k cid) = ex_tenant k" "env_Status (ex_env i k cid) = StatusRunning" "env_ContainerID (ex_env i k cid) = cid"
  "ex_tenant k \<noteq> []"
  by (simp_all add: ex_env_def ex_tenant_def)

lemma ex_paths:
  "sanitizePath ''/workspace/a.txt'' = Inr ''/workspace/a.txt''" "sanitizePath ''workspace/./a.txt'' = Inr ''/workspace/a.txt''"
  by (simp_all add: sanitizePath_def strings_ContainsAny_def path_Clean_def path_IsAbs_def strings_HasPrefix_def clean_elems.simps)

lemma ex_write:
  "\<exists>w'. FileService_WriteFile memory_store (docker_engine ex_client ex_formats) 104857600 now ''env_a'' (ex_tenant ''alice'')
     ''/workspace/a.txt'' \<lparr>rd_data = ''hi'', rd_err = None\<rparr> ex_file_world = (None, w')"
proof -
  let ?e = "ex_env ''env_a'' ''alice'' ''ca''" and ?b = "\<lparr>rd_data = ''hi'', rd_err = None\<rparr>" and ?E = "docker_engine ex_client ex_formats"
  have b: "readAllMax ?b 104857600 = Inr ''hi''"
    using readAllMax_even [of 104857600 ?b "''hi''"] by (simp add: in_int64_def)
  have "splitPath ''/workspace/a.txt'' = (''/workspace'', ''a.txt'')" by (simp add: splitPath_def)
  then obtain eng' where w: "eng_WriteFile ?E (env_ContainerID ?e) ''/workspace/a.txt'' ''hi'' (w_eng ex_file_world) = (None, eng')"
    by (simp add: docker_engine_def DockerEngine_WriteFile_def single_file_tar_def tar_Write_def tar_Close_def ex_formats_def ex_client_def Let_def)
  have sc: "scoped (ex_tenant ''alice'') (env_UserID ?e)" by (simp add: ex_env_fields)
  show ?thesis
    using mem_svc.FileService_WriteFile_ok [OF ex_file_world_ok(1) TrueI ex_file_world_ok(2) sc ex_env_fields(2) _ ex_paths(1) b w]
    by fastforce
qed

text \<open>The upload limit is a whole number of megabytes.\<close>

lemma upload_data:
  assumes "readAllMax r (maxFileUploadBytes d) = Inr data"
  shows "data = rd_data r"
proof -
  have e: "maxFileUploadBytes d = wrap64 (2 * (cfg_MaxFileUploadMB (api_cfg d) * 524288))"
    by (simp add: maxFileUploadBytes_def shl64_def mult.commute)
  have "in_int64 (maxFileUploadBytes d)" "even (maxFileUploadBytes d)"
    unfolding e by (rule wrap64_range, rule wrap64_even)
  from readAllMax_even [OF this, of r data] assms show ?thesis by simp
qed

text \<open>A command that writes to both streams, and an exit code.\<close>

definition ex_frames :: "(nat \<times> bytes) list" where
  "ex_frames = [(1, ''out''), (2, ''err''), (1, ''put'')]"

definition ex_exec_mock :: "unit MockEngine" where
  "ex_exec_mock = ex_mock\<lparr>me_ExecFn := Some (\<lambda>_ _ u. (Inr \<lparr>xr_reader = \<lparr>rd_data = concat (map frame ex_frames), rd_err = None\<rparr>,
     xr_execID = Some ''x''\<rparr>, u)), me_ExecExitCodeFn := Some (\<lambda>_ u. (Inr 7, u))\<rparr>"

definition ex_command :: ExecRequest where
  "ex_command = \<lparr>er_Command = [''ls''], er_WorkingDir = [], er_TimeoutSeconds = 0, er_CaptureOutput = False\<rparr>"

definition ex_exec_api :: "(MemoryStore, unit MockEngine) api" where
  "ex_exec_api = (ex_api memory_store)\<lparr>api_decode_exec := (\<lambda>_. Inr (ex_command, False)),
     api_match := (\<lambda>_ m p. if m = ''POST'' \<and> p = exec_path ''env_a'' then Some (route.Exec, ''env_a'') else None)\<rparr>"

definition ex_exec_world :: "(MemoryStore, unit MockEngine) world" where
  "ex_exec_world = \<lparr>w_mem = w_mem ex_world, w_eng = ex_exec_mock\<rparr>"

lemma ex_exec_fields [simp]:
  "api_hashing ex_exec_api = ex_hashing" "api_store ex_exec_api = memory_store" "api_engine ex_exec_api = mock_engine"
  "api_decode_exec ex_exec_api r = Inr (ex_command, False)"
  "api_match ex_exec_api t ''POST'' (exec_path ''env_a'') = Some (route.Exec, ''env_a'')"
  "w_mem ex_exec_world = w_mem ex_file_world" "w_eng ex_exec_world = ex_exec_mock"
  by (simp_all add: ex_exec_api_def ex_api_def ex_exec_world_def ex_file_world_def)

lemma ex_exec_run:
  "eng_Exec mock_engine cid req ex_exec_mock =
    (Inr \<lparr>xr_reader = \<lparr>rd_data = concat (map frame ex_frames), rd_err = None\<rparr>, xr_execID = Some ''x''\<rparr>, ex_exec_mock)"
  "eng_ExecExitCode mock_engine ''x'' ex_exec_mock = (Inr 7, ex_exec_mock)"
  by (simp_all add: mock_engine_def MockEngine_Exec_def MockEngine_ExecExitCode_def run_mock_def ex_exec_mock_def)

lemma show_seven: "show_int 7 = ''7''"
  by code_simp

lemma ex_exec_events:
  "\<forall>ev \<in> set (command_events ex_frames 7). event_codec ex_codecs ex_enc ev \<and> length (ex_enc ev) < 65536"
  by (simp add: command_events_def ex_frames_def frame_event_def stream_name_def event_codec_def ex_codecs_def ex_enc_def
      strings_Cut_def show_seven)

text \<open>The environment of an embedded MCP server, and its transports: one call of a tool, if a fresh
  UUID is at hand.\<close>

definition ex_tool_request :: CallToolRequest where
  "ex_tool_request = \<lparr>tq_GetString = (\<lambda>_ d. d), tq_RequireString = (\<lambda>_. Inr ''env_a''), tq_GetFloat = (\<lambda>_ d. d),
     tq_GetInt = (\<lambda>_ d. d), tq_GetArguments = (\<lambda>_. AnyNil)\<rparr>"

definition ex_mcp_env :: "string list \<Rightarrow> string \<Rightarrow> (MemoryStore, unit MockEngine) world mcp_env" where
  "ex_mcp_env keys base = \<lparr>mx_http = loopback ex_glue (ex_api memory_store) keys base, mx_json = ex_codecs, mx_Sprint = (\<lambda>_. []),
     mx_Quote = id, mx_int64 = (\<lambda>_. 0)\<rparr>"

definition ex_destroying :: "string list \<Rightarrow> Server \<Rightarrow> (MemoryStore, unit MockEngine) world mcp_transports" where
  "ex_destroying keys s = (let h = (\<lambda>r w. (Response (WriteHeader 200),
       if fresh_IDs (api_uuid (ex_api memory_store)) (mem_abs (w_mem w))
       then snd (handleDestroyEnvironment (ex_mcp_env keys (srv_restURL s)) s (rq_ctx_mcp_key r) ex_tool_request w) else w))
     in \<lparr>tr_SSE = (\<lambda>_. h), tr_Message = (\<lambda>_. h), tr_Streamable = h, tr_redirect = (\<lambda>_. WriteHeader 307)\<rparr>)"

lemma ex_serves: "serves_sessions ex_hashing memory_store mem_abs keys s (ex_destroying keys s)"
proof -
  have t: "(mcp_tool_destroy_environment, handleDestroyEnvironment E s) \<in> set (registerTools E s)"
    for E :: "(MemoryStore, unit MockEngine) world mcp_env"
    by (simp add: registerTools_def)
  have "tool_session ex_hashing memory_store mem_abs keys s ctx w
      (snd (handleDestroyEnvironment (ex_mcp_env keys (srv_restURL s)) s ctx ex_tool_request w))"
    if "fresh_IDs (api_uuid (ex_api memory_store)) (mem_abs (w_mem w))" for ctx w
    by (rule session_tool [where d = "ex_api memory_store" and G = ex_glue and E = "ex_mcp_env keys (srv_restURL s)"
          and t = mcp_tool_destroy_environment])
      (use that t in \<open>simp_all add: session_start ex_mcp_env_def\<close>)
  then show ?thesis
    by (auto simp: serves_sessions_def handlers_def ex_destroying_def Let_def session_start)
qed

definition ex_platform :: "ex_daemon platform" where
  "ex_platform = \<lparr>pf_getenv = (\<lambda>k. if k = ''HAAS_API_KEYS'' then ''alice,bob'' else []), pf_ParseFloat = (\<lambda>_. None),
     pf_ParseDuration = (\<lambda>_. None), pf_hashing = ex_hashing, pf_now = 0, pf_sql_Open = (\<lambda>_ _. Inl io_EOF), pf_db_Ping = (\<lambda>_. None),
     pf_json_Marshal = (\<lambda>_. Inr []), pf_json_Unmarshal = (\<lambda>_. Inr None), pf_NewClientWithOpts = (\<lambda>_. Inr ex_client),
     pf_docker_Ping = (\<lambda>_. None)\<rparr>"

lemma ex_keys: "envOrDefaultStringSlice (pf_getenv ex_platform) ''HAAS_API_KEYS'' [] = [''alice'', ''bob'']"
proof -
  have "strings_TrimSpace ''alice'' = ''alice''" "strings_TrimSpace ''bob'' = ''bob''" by code_simp+
  then show ?thesis by (simp add: envOrDefaultStringSlice_def ex_platform_def)
qed

lemma bootstrap_memory: "\<exists>s'. bootstrap now es (App_Memory s) = (None, App_Memory s')"
  by (induction es arbitrary: s) (simp_all add: app_BootstrapUser_def memory_store_def)

lemma ex_started: "\<exists>sv. haas_main ex_platform = Inr sv \<and> cfg_APIKeys (sv_cfg sv) = [''alice'', ''bob'']"
proof -
  let ?cfg = "Load (pf_getenv ex_platform) (pf_ParseFloat ex_platform) (pf_ParseDuration ex_platform)"
  have cfg: "cfg_APIKeys ?cfg = [''alice'', ''bob'']" "cfg_DBURL ?cfg = []" "cfg_ListenAddr ?cfg = '':8080''" "cfg_MCPRESTURL ?cfg = []"
    using ex_keys by (simp_all add: Load_def envOrDefault_def ex_platform_def)
  have r: "resolve_restURL ?cfg = Inr ''http://localhost:8080''"
    by (simp add: resolve_restURL_def cfg SplitHostPort_def Let_def)
  have e: "NewDockerEngine (pf_NewClientWithOpts ex_platform) (pf_docker_Ping ex_platform) ?cfg = Inr ex_client"
    by (simp add: NewDockerEngine_def ex_platform_def)
  obtain s' where b: "bootstrap (pf_now ex_platform) (Entries (New (pf_hashing ex_platform) [''alice'', ''bob'']))
      (App_Memory (NewMemoryStore (cfg_IdleTimeout ?cfg) (cfg_MaxLifetime ?cfg))) = (None, App_Memory s')"
    using bootstrap_memory by blast
  show ?thesis
    unfolding haas_main_def Let_def openStore_def by (simp add: cfg b e r)
qed

end
