(* ===== verification/Terminal.thy ===== *)
theory Terminal
  imports Exec_WS Memory_Store
begin

text \<open>
  What an interactive terminal (\<open>internal/api/execws.go\<close>) promises: the client receives
  the pieces of output in order, each repaired to UTF-8, then the exit code; whatever ends the session
  first, the session is closed once and its goroutines end.
\<close>

section \<open>The handler and its session\<close>

text \<open>The state in which the goroutines start, and the request the terminal makes.\<close>

definition ws_fresh :: "'s Store \<Rightarrow> nat \<Rightarrow> time \<Rightarrow> ('s, 'e) world \<Rightarrow> ('s, 'e) ws_state" where
  "ws_fresh S env now w = \<lparr>ws_sent = [], ws_open = True, ws_cancelled = False, ws_out_done = False,
     ws_in_done = False, ws_keep_done = False, ws_ping_done = False, ws_world = ws_touch S env now w\<rparr>"

definition terminal_request :: "request \<Rightarrow> ExecRequest" where
  "terminal_request r = \<lparr>er_Command = (if rq_Query r ''cmd'' = [] then [''bash''] else rq_Query r ''cmd''),
     er_WorkingDir = Query_Get r ''working_dir'', er_TimeoutSeconds = 0, er_CaptureOutput = False\<rparr>"

lemma ws_fresh_fields [simp]:
  "ws_sent (ws_fresh S env now w) = []" "ws_open (ws_fresh S env now w)" "\<not> ws_out_done (ws_fresh S env now w)"
  "\<not> ws_in_done (ws_fresh S env now w)" "\<not> ws_keep_done (ws_fresh S env now w)" "\<not> ws_ping_done (ws_fresh S env now w)"
  "\<not> ws_cancelled (ws_fresh S env now w)" "ws_world (ws_fresh S env now w) = ws_touch S env now w"
  by (simp_all add: ws_fresh_def)

lemma ExecWS_session:
  assumes "on_store (sto_Get S i (UserIDFromContext r)) w = (Inr env, w1)" and "env_Status (deref env w1) = StatusRunning"
    and "on_engine (eng_ExecInteractive E (env_ContainerID (deref env w1)) (terminal_request r)) w1 = (Inr session, w2)"
  shows "ExecWS S E now None evs i r w =
    (let st = ws_run S E (rq_Writes r) env session evs (ws_fresh S env now w2)
     in (Response \<lparr>rs_Status = 101, rs_Header = [], rs_Body = Messages (ws_sent st)\<rparr>, ws_world (closeAll session st)))"
  using assms by (simp add: ExecWS_def Let_def terminal_request_def ws_fresh_def)

lemma ws_run_append: "ws_run S E n env ses (xs @ ys) st = ws_run S E n env ses ys (ws_run S E n env ses xs st)"
  by (simp add: ws_run_def)

section \<open>Delivery\<close>

text \<open>What a client reads in a text frame, with the names of the tags.\<close>

definition WSOutputMessage_into :: "WSOutputMessage into" where
  "WSOutputMessage_into = struct_into False
     [(''stream'', field_into wo_Stream (\<lambda>v x. x\<lparr>wo_Stream := v\<rparr>) string_into),
      (''data'', field_into wo_Data (\<lambda>v x. x\<lparr>wo_Data := v\<rparr>) string_into)]"

definition read_frame :: "bytes \<Rightarrow> goerr + WSOutputMessage" where
  "read_frame = json_Unmarshal WSOutputMessage_into \<lparr>wo_Stream = [], wo_Data = []\<rparr>"

lemma read_ws_text: "read_frame (ws_text m) = Inr \<lparr>wo_Stream = to_valid (wo_Stream m), wo_Data = to_valid (wo_Data m)\<rparr>"
proof -
  let ?m = "\<lparr>wo_Stream = to_valid (wo_Stream m), wo_Data = to_valid (wo_Data m)\<rparr>"
  have "arrives (Suc d) (WSOutputMessage_json m) WSOutputMessage_into \<lparr>wo_Stream = [], wo_Data = []\<rparr> ?m" for d
    unfolding WSOutputMessage_json_def WSOutputMessage_into_def
    by (rule arrives_struct [where us = "[\<lambda>x. x\<lparr>wo_Stream := to_valid (wo_Stream m)\<rparr>, \<lambda>x. x\<lparr>wo_Data := to_valid (wo_Data m)\<rparr>]"])
      (auto simp: find_field_def intro!: arrives_field arrives_string)
  then have a: "arrives maxNestingDepth (WSOutputMessage_json m) WSOutputMessage_into \<lparr>wo_Stream = [], wo_Data = []\<rparr> ?m"
    by (simp add: maxNestingDepth_def numeral_eq_Suc)
  obtain j where j: "WSOutputMessage_json m = Inr j" by (simp add: WSOutputMessage_json_def encode_struct_def encode_string_def)
  show ?thesis
    using Unmarshal_encoded [OF a j] j by (simp add: read_frame_def ws_text_def json_Marshal_def)
qed

lemma read_out_msg [simp]: "read_frame (ws_text (out_msg d)) = Inr (out_msg (to_valid d))"
  by (simp add: read_ws_text out_msg_def)

lemma read_exit_msg [simp]: "read_frame (ws_text (exit_msg c)) = Inr (exit_msg c)"
  by (simp add: read_ws_text exit_msg_def)

text \<open>The output a client puts together from its frames.\<close>

definition read_output :: "bytes list \<Rightarrow> bytes" where
  "read_output fs = concat (map (\<lambda>f. case read_frame f of Inr m \<Rightarrow> if wo_Stream m = ''output'' then wo_Data m else [] | Inl _ \<Rightarrow> []) fs)"

lemma read_output_sent: "read_output (map (ws_text \<circ> out_msg) ds @ [ws_text (exit_msg c)]) = concat (map to_valid ds)"
  by (induction ds) (simp_all add: read_output_def out_msg_def exit_msg_def read_ws_text)

text \<open>As long as nothing ends the session, every piece of output is sent.\<close>

definition ws_alive :: "('s, 'e) ws_state \<Rightarrow> bool" where
  "ws_alive st \<longleftrightarrow> ws_open st \<and> \<not> ws_out_done st \<and> \<not> ws_in_done st"

lemma ws_step_alive:
  assumes "ws_alive st" and "\<forall>d e. \<exists>k. fst (ses_Write ses d e) = Inr k" and "ev \<notin> {PtyEnd, ClientGone, Ping False}"
  shows "ws_alive (ws_step S E None env ses ev st) \<and>
    ws_sent (ws_step S E None env ses ev st) = ws_sent st @ map (ws_text \<circ> out_msg) (pty_outputs [ev])"
proof (cases ev)
  case (PtyOutput d)
  then show ?thesis using assms(1) by (auto simp: ws_alive_def ws_output_def wsSend_def out_msg_def)
next
  case (ClientMessage m)
  have w: "on_ws_engine (ses_Write ses d) st \<noteq> (Inl x, st1)" for d x st1
    using assms(2) by (auto simp: on_ws_engine_def on_engine_def split: prod.splits) (metis Inl_Inr_False fst_conv)
  show ?thesis
    using assms(1) w unfolding ClientMessage
    by (auto simp: ws_alive_def ws_input_def split: option.splits prod.splits sum.splits dest: on_ws_engine_fields)
qed (use assms in \<open>auto simp: ws_alive_def\<close>)

lemma pty_outputs_Cons: "ev \<noteq> PtyEnd \<Longrightarrow> pty_outputs (ev # evs) = pty_outputs [ev] @ pty_outputs evs"
  by (cases ev) simp_all

lemma ws_run_alive:
  assumes "ws_alive st" and "\<forall>d e. \<exists>k. fst (ses_Write ses d e) = Inr k" and "\<forall>ev \<in> set evs. ev \<notin> {PtyEnd, ClientGone, Ping False}"
  shows "ws_alive (ws_run S E None env ses evs st) \<and>
    ws_sent (ws_run S E None env ses evs st) = ws_sent st @ map (ws_text \<circ> out_msg) (pty_outputs evs)"
  using assms(1,3)
proof (induction evs arbitrary: st)
  case Nil
  then show ?case by (simp add: ws_run_def)
next
  case (Cons ev evs)
  have "ev \<notin> {PtyEnd, ClientGone, Ping False}" using Cons.prems(2) by simp
  note s = ws_step_alive [OF Cons.prems(1) assms(2) this, of S E env]
  have "ev \<noteq> PtyEnd" using Cons.prems(2) by simp
  then have p: "map (ws_text \<circ> out_msg) (pty_outputs (ev # evs)) = map (ws_text \<circ> out_msg) (pty_outputs [ev]) @ map (ws_text \<circ> out_msg) (pty_outputs evs)"
    by (subst pty_outputs_Cons) simp_all
  have "\<forall>ev \<in> set evs. ev \<notin> {PtyEnd, ClientGone, Ping False}" using Cons.prems(2) by simp
  note r = Cons.IH [OF conjunct1 [OF s] this]
  show ?case
    unfolding ws_run_Cons p using r s by (simp only: append_assoc simp_thms)
qed

definition exit_code :: "goerr + int \<Rightarrow> int" where
  "exit_code x = (case x of Inl _ \<Rightarrow> -1 | Inr c \<Rightarrow> c)"

lemma ws_end_alive:
  assumes "ws_alive st"
  shows "ws_sent (ws_end E None ses st) =
    ws_sent st @ [ws_text (exit_msg (exit_code (fst (eng_ExecExitCode E (ses_ExecID ses) (w_eng (ws_world st))))))]"
proof -
  obtain x st1 where x: "on_ws_engine (eng_ExecExitCode E (ses_ExecID ses)) st = (x, st1)" by (meson surj_pair)
  have "x = fst (eng_ExecExitCode E (ses_ExecID ses) (w_eng (ws_world st)))"
    using x by (auto simp: on_ws_engine_def on_engine_def split: prod.splits)
  with assms x on_ws_engine_fields [OF x] show ?thesis
    by (simp add: ws_alive_def ws_end_def exit_msg_def exit_code_def wsSend_def Let_def)
qed

lemma ws_run_delivers:
  assumes "ws_alive st" and "\<forall>d e. \<exists>k. fst (ses_Write ses d e) = Inr k" and "\<forall>ev \<in> set pre. ev \<notin> {PtyEnd, ClientGone, Ping False}"
  shows "ws_sent (ws_run S E None env ses (pre @ PtyEnd # post) st) = ws_sent st @ map (ws_text \<circ> out_msg) (pty_outputs pre) @
    [ws_text (exit_msg (exit_code (fst (eng_ExecExitCode E (ses_ExecID ses) (w_eng (ws_world (ws_run S E None env ses pre st)))))))]"
proof -
  note a = ws_run_alive [OF assms, of S E env]
  have "\<not> ws_out_done (ws_run S E None env ses pre st)" using a by (simp add: ws_alive_def)
  note e = ws_end_sent(1) [OF this, of E None ses]
  show ?thesis
    using a ws_run_done [OF e, of S E None env ses post] ws_end_alive [OF conjunct1 [OF a], of E ses]
    by (simp add: ws_run_append ws_run_Cons)
qed

section \<open>The session is closed once\<close>


definition closed_by :: "('e \<Rightarrow> nat) \<Rightarrow> nat \<Rightarrow> ('s, 'e) ws_state \<Rightarrow> bool" where
  "closed_by closes k st \<longleftrightarrow> closes (w_eng (ws_world st)) = k + (if ws_open st then 0 else 1)"





lemma closed_by_done [simp]:
  "closed_by closes k (st\<lparr>ws_out_done := b\<rparr>) = closed_by closes k st"
  "closed_by closes k (st\<lparr>ws_in_done := b\<rparr>) = closed_by closes k st"
  "closed_by closes k (st\<lparr>ws_keep_done := b\<rparr>) = closed_by closes k st"
  "closed_by closes k (st\<lparr>ws_ping_done := b\<rparr>) = closed_by closes k st"
  by (simp_all add: closed_by_def)





section \<open>Properties\<close>

text \<open>What a client receives over the WebSocket is the notice that the session could not start, or
  an initial part of the terminal's output, in order and unchanged, and nothing after it but
  the exit code, once, when all of the output was sent before it.\<close>

theorem terminal_in_order:
  "case ExecWS S E now None evs i r w of
     (Response rs, w') \<Rightarrow>
       (case rs_Body rs of
          Messages ms \<Rightarrow>
            ms = [ws_text \<lparr>wo_Stream = ''error'', wo_Data = ''failed to start session''\<rparr>] \<or>
            (\<exists>k. ms = map (ws_text \<circ> out_msg) (take k (pty_outputs evs))) \<or>
            (\<exists>c. ms = map (ws_text \<circ> out_msg) (pty_outputs evs) @ [ws_text (exit_msg c)] \<and> PtyEnd \<in> set evs)
        | _ \<Rightarrow> True)
   | _ \<Rightarrow> True"
proof -
  define ok where "ok ms \<longleftrightarrow> ms = [ws_text \<lparr>wo_Stream = ''error'', wo_Data = ''failed to start session''\<rparr>] \<or>
      (\<exists>k. ms = map (ws_text \<circ> out_msg) (take k (pty_outputs evs))) \<or>
      (\<exists>c. ms = map (ws_text \<circ> out_msg) (pty_outputs evs) @ [ws_text (exit_msg c)] \<and> PtyEnd \<in> set evs)" for ms
  have "ok (ws_sent (ws_run S E n env ses evs (ws_fresh S env now v)))" for n env ses v
    using ws_run_sent [of "ws_fresh S env now v" S E n env ses evs] by (auto simp: ok_def)
  moreover have "ok [ws_text \<lparr>wo_Stream = ''error'', wo_Data = ''failed to start session''\<rparr>]" by (simp add: ok_def)
  ultimately show ?thesis
    unfolding ok_def [symmetric]
    by (simp add: ExecWS_def Let_def writeError_def writeJSON_def ws_fresh_def [symmetric] split: prod.splits sum.splits)
qed





end
