(* ===== verification/Races.thy ===== *)
theory Races
  imports Stores
begin

text \<open>
  Operations that overlap: the creation of an environment (\<open>internal/service/environment.go\<close>) waits
  for the engine between its two parts, and a cycle of the reaper (\<open>internal/lifecycle/reaper.go\<close>) may
  run in between.
\<close>

section \<open>A creation whose record is gone\<close>

context store_client
begin

text \<open>The record was removed in the meantime: the container comes up, and nothing records it.\<close>

lemma assign_unrecorded:
  assumes "inv (w_mem w)" and "p < length (fst (w_mem w))" and "same_identity e (deref p w)"
    and "a_envs (\<alpha> (w_mem w)) (env_ID (deref p w)) = None"
  shows "inv (w_mem (assign_env p e w))" "\<alpha> (w_mem (assign_env p e w)) = \<alpha> (w_mem w)" "deref p (assign_env p e w) = e"
    "length (fst (w_mem (assign_env p e w))) = length (fst (w_mem w))"
proof -
  have i: "env_ID e = env_ID (deref p w)" using assms(3) by (simp add: same_identity_def)
  have "inv (w_mem (assign_env p e w)) \<and> \<alpha> (w_mem (assign_env p e w)) = \<alpha> (w_mem w)"
    using assign [of "fst (w_mem w)" "snd (w_mem w)" p e] assms by (auto simp: assign_env_def deref_def i)
  then show "inv (w_mem (assign_env p e w))" "\<alpha> (w_mem (assign_env p e w)) = \<alpha> (w_mem w)" by simp_all
  show "deref p (assign_env p e w) = e" "length (fst (w_mem (assign_env p e w))) = length (fst (w_mem w))"
    using assms(2) by (simp_all add: assign_env_def deref_def)
qed

lemma Update_unrecorded:
  assumes "inv m" and "p < length (fst m)" and "a_envs (\<alpha> m) (env_ID (fst m ! p)) = None" and "sto_Update S p m = (r, m')"
  shows "\<alpha> m' = \<alpha> m" "fst m' = fst m" "inv m'"
proof -
  have "writes m (\<alpha> m) m'"
    using assms Update_ok [OF assms(1,2), of m'] Update_err [OF assms(1,2), of _ m'] by (cases r) auto
  then show "\<alpha> m' = \<alpha> m" "fst m' = fst m" "inv m'" by (simp_all add: writes_def)
qed

lemma container_unrecorded:
  assumes "inv (w_mem w)" and "p < length (fst (w_mem w))" and "a_envs (\<alpha> (w_mem w)) (env_ID (deref p w)) = None"
    and "CreateEnvironment_container S E cfg u p w = (Inr q, w')"
  shows "\<alpha> (w_mem w') = \<alpha> (w_mem w)" and "inv (w_mem w')"
    and "\<exists>cid x. eng_CreateContainer E (deref p w) (w_eng w) = (Inr cid, x) \<and> fst (eng_StartContainer E cid x) = None \<and>
      deref q w' = running_env (deref p w) cid"
proof -
  obtain cid w1 w2 w3 x where q: "q = p" and st: "on_engine (eng_CreateContainer E (deref p w)) w = (Inr cid, w1)"
      "on_engine (eng_StartContainer E cid) (assign_env p ((deref p w1)\<lparr>env_ContainerID := cid\<rparr>) w1) = (None, w2)"
      "w3 = injectSkills S E cfg u cid w2"
      "on_store (sto_Update S p) (assign_env p ((deref p w3)\<lparr>env_Status := StatusRunning\<rparr>) w3) = (x, w')"
    using assms(4) by (rule container_cases) auto
  have m1: "w_mem w1 = w_mem w" using on_engine_mem [OF st(1)] .
  have d1: "deref p w1 = deref p w" by (rule deref_mem [OF m1])
  note a = assign_unrecorded [of w1 p "(deref p w1)\<lparr>env_ContainerID := cid\<rparr>", unfolded m1 d1,
      OF assms(1,2) _ assms(3)]
  let ?w1 = "assign_env p ((deref p w)\<lparr>env_ContainerID := cid\<rparr>) w1"
  have a1: "inv (w_mem ?w1)" "\<alpha> (w_mem ?w1) = \<alpha> (w_mem w)" "deref p ?w1 = (deref p w)\<lparr>env_ContainerID := cid\<rparr>"
      "p < length (fst (w_mem ?w1))"
    using a assms(2) by (simp_all add: same_identity_def)
  have m2: "w_mem w2 = w_mem ?w1" using on_engine_mem [OF st(2)] by (simp add: d1)
  have 3: "writes (w_mem w2) (\<alpha> (w_mem w2)) (w_mem w3)"
    using injectSkills_writes [of w2] a1(1) m2 st(3) by simp
  have b: "inv (w_mem w3)" "\<alpha> (w_mem w3) = \<alpha> (w_mem w)" "fst (w_mem w3) = fst (w_mem ?w1)"
    using 3 m2 a1(2) by (simp_all add: writes_def)
  have d3: "deref p w3 = (deref p w)\<lparr>env_ContainerID := cid\<rparr>" using a1(3) by (simp add: deref_def b(3))
  let ?w5 = "assign_env p ((deref p w3)\<lparr>env_Status := StatusRunning\<rparr>) w3"
  have c: "inv (w_mem ?w5)" "\<alpha> (w_mem ?w5) = \<alpha> (w_mem w)" "deref p ?w5 = running_env (deref p w) cid"
      "p < length (fst (w_mem ?w5))"
    using assign_unrecorded [of w3 p "(deref p w3)\<lparr>env_Status := StatusRunning\<rparr>", OF b(1)] a1(4) assms(3)
    by (simp_all add: b(2,3) d3 same_identity_def running_env_def)
  have up: "sto_Update S p (w_mem ?w5) = (x, w_mem w')" using on_store_result [OF st(4)] by simp
  have new: "a_envs (\<alpha> (w_mem ?w5)) (env_ID (fst (w_mem ?w5) ! p)) = None"
    using c(2,3) assms(3) by (simp add: deref_def running_env_def)
  note f = Update_unrecorded [OF c(1,4) new up]
  from f(1,3) show "\<alpha> (w_mem w') = \<alpha> (w_mem w)" "inv (w_mem w')" using c(2) by simp_all
  have "eng_CreateContainer E (deref p w) (w_eng w) = (Inr cid, w_eng w1)" using on_engine_result [OF st(1)] by simp
  moreover have "fst (eng_StartContainer E cid (w_eng w1)) = None"
    using on_engine_result [OF st(2)] by (simp add: assign_env_def)
  moreover have "deref q w' = running_env (deref p w) cid" using c(3) f(2) by (simp add: deref_def q)
  ultimately show "\<exists>cid x. eng_CreateContainer E (deref p w) (w_eng w) = (Inr cid, x) \<and>
      fst (eng_StartContainer E cid x) = None \<and> deref q w' = running_env (deref p w) cid" by blast
qed

text \<open>A cycle leaves the objects that it does not allocate.\<close>

lemma Delete_heap: "inv m \<Longrightarrow> sto_Delete S i u m = (r, m') \<Longrightarrow> inv m' \<and> fst m' = fst m"
  using Delete_ok [of m i u m'] Delete_err [of m i u _ m'] by (cases r) (auto simp: writes_def crashes_def split: if_splits)

lemma reap_loop_heap: "inv (w_mem w) \<Longrightarrow> fst (w_mem (reap_loop S E ps w)) = fst (w_mem w)"
proof (induction ps arbitrary: w)
  case (Cons p ps)
  define w1 where "w1 = (if env_ContainerID (deref p w) \<noteq> [] then snd (on_engine (eng_StopContainer E (env_ContainerID (deref p w))) w) else w)"
  have m1: "w_mem w1 = w_mem w" unfolding w1_def by (rule stop_step)
  obtain r w2 where d: "on_store (sto_Delete S (env_ID (deref p w1)) []) w1 = (r, w2)" by (meson surj_pair)
  have "inv (w_mem w2)" "fst (w_mem w2) = fst (w_mem w)"
    using Delete_heap [of "w_mem w1" "env_ID (deref p w1)" "[]" r "w_mem w2"] on_store_result [OF d] Cons.prems m1 by simp_all
  with Cons.IH [of w2] d show ?case by (simp add: Let_def w1_def [symmetric])
qed simp

lemma reap_heap:
  assumes "inv (w_mem w)"
  shows "heap_ext (fst (w_mem w)) (fst (w_mem (reap S E now w)))"
proof -
  obtain r w1 where r: "on_store (sto_ListExpired S now) w = (r, w1)" by (meson surj_pair)
  have "reads (w_mem w) (w_mem w1)"
    using on_store_result [OF r] ListExpired_ok [OF assms, of now _ "w_mem w1"] ListExpired_err [OF assms, of now _ "w_mem w1"]
    by (cases r) auto
  then have "heap_ext (fst (w_mem w)) (fst (w_mem w1))" "inv (w_mem w1)" by (simp_all add: reads_def)
  then show ?thesis by (cases r) (simp_all add: reap_def r reap_loop_heap)
qed

text \<open>The record is written, expires while the container is being prepared, and is reaped.\<close>

lemma reaped_creation:
  assumes "inv (w_mem w)" and "healthy (snd (w_mem w))" and "a_envs (\<alpha> (w_mem w)) (new_ID ''env_'' uuid) = None"
    and "CreateEnvironment_record S cfg now uuid t u input w = (Inr p, w1)"
    and "expired (snd (w_mem w)) now' (nenv (snd (w_mem w)) (deref p w1))"
    and "CreateEnvironment_container S E cfg u p (reap S E now' w1) = (Inr q, w')"
  shows "a_envs (\<alpha> (w_mem w')) (new_ID ''env_'' uuid) = None" and "inv (w_mem w')"
    and "\<exists>cid x req. eng_CreateContainer E (deref p w1) (w_eng (reap S E now' w1)) = (Inr cid, x) \<and>
      fst (eng_StartContainer E cid x) = None \<and> deref q w' = running_env (build_environment cfg now uuid t u req) cid"
proof -
  let ?w2 = "reap S E now' w1"
  note rec = record_ok [OF assms(1,3,4)]
  obtain req where d: "deref p w1 = build_environment cfg now uuid t u req" using rec(1) by blast
  have i: "inv (w_mem w1)" "stable (snd (w_mem w)) (snd (w_mem w1))" using rec(2) by (simp_all add: keeps_def)
  then have h: "healthy (snd (w_mem w1))" and ex: "expired (snd (w_mem w1)) = expired (snd (w_mem w))"
    using assms(2) by (simp_all add: stable_def)
  have r: "\<alpha> (w_mem ?w2) = without_expired (expired (snd (w_mem w1)) now') (\<alpha> (w_mem w1))" "inv (w_mem ?w2)"
    using reap_ok [OF i(1) h, of now' E] by blast+
  have p: "p < length (fst (w_mem w1))" using rec(3) by (simp add: held_def)
  have "heap_ext (fst (w_mem w1)) (fst (w_mem ?w2))" by (rule reap_heap [OF i(1)])
  then have p2: "p < length (fst (w_mem ?w2))" and d2: "deref p ?w2 = deref p w1"
    using p by (auto simp: heap_ext_def prefix_def deref_def nth_append)
  have gone: "a_envs (\<alpha> (w_mem ?w2)) (env_ID (deref p ?w2)) = None"
    using assms(5) unfolding d2 by (simp add: r(1) ex without_expired_def rec(5) d)
  note c = container_unrecorded [OF r(2) p2 gone assms(6)]
  show "a_envs (\<alpha> (w_mem w')) (new_ID ''env_'' uuid) = None" "inv (w_mem w')"
    using c(1,2) gone by (simp_all add: d2 d)
  show "\<exists>cid x req. eng_CreateContainer E (deref p w1) (w_eng ?w2) = (Inr cid, x) \<and>
      fst (eng_StartContainer E cid x) = None \<and> deref q w' = running_env (build_environment cfg now uuid t u req) cid"
    using c(3) d unfolding d2 by metis
qed

end

section \<open>Property\<close>

text \<open>C12: a creation that takes longer than the idle timeout, for instance to pull its image, can end
  with a running container that nobody can remove.  If a cycle of the reaper falls between the writing
  of the record and the creation of the container, the caller is told that the environment is running,
  with its container, but the store has no record of it: destroying it answers \<open>ErrNotFound\<close>
  and leaves the engine alone.\<close>

theorem create_reap_leak:
  assumes "mem_inv (w_mem w)" and "a_envs (mem_abs (w_mem w)) (new_ID ''env_'' uuid) = None"
    and "CreateEnvironment_record memory_store cfg now uuid tenant user input w = (Inr p, w1)"
    and "time_Sub now' now > ms_idleTimeout (snd (w_mem w))"
    and "CreateEnvironment_container memory_store E cfg user p (reap memory_store E now' w1) = (Inr q, w')"
  shows "env_ID (deref q w') = new_ID ''env_'' uuid \<and> env_Status (deref q w') = StatusRunning \<and>
    (\<exists>cid x. eng_CreateContainer E (deref p w1) (w_eng (reap memory_store E now' w1)) = (Inr cid, x) \<and>
      fst (eng_StartContainer E cid x) = None \<and> env_ContainerID (deref q w') = cid) \<and>
    a_envs (mem_abs (w_mem w')) (new_ID ''env_'' uuid) = None \<and>
    (\<exists>w''. DestroyEnvironment memory_store E (new_ID ''env_'' uuid) user w' = (Some (Sentinel ErrNotFound), w'') \<and>
      w_eng w'' = w_eng w')"
proof -
  have "mem_expired (snd (w_mem w)) now' (deref p w1)"
    using mem_svc.record_ok(1) [OF assms(1-3)] assms(4) by (auto simp: mem_expired_def build_environment_def)
  then have "mem_expired (snd (w_mem w)) now' (mem.nenv (snd (w_mem w)) (deref p w1))" by (simp add: mem.nenv_def)
  note r = mem_svc.reaped_creation [OF assms(1) TrueI assms(2,3) this assms(5)]
  have "\<not> owned_env (a_envs (mem_abs (w_mem w'))) (new_ID ''env_'' uuid) user" using r(1) by (simp add: owned_env_def)
  from mem_svc.DestroyEnvironment_foreign [OF r(2) TrueI this] r(1,3) show ?thesis
    by (auto simp: running_env_def build_environment_def)
qed

lemma ex_mock_stop: "stop_all mock_engine es ex_mock = ex_mock"
  by (induction es) (simp_all add: mock_engine_def MockEngine_StopContainer_def run_mock_def ex_mock_def)

lemma ex_mock_container:
  assumes "w_eng w = ex_mock"
  shows "\<exists>q w'. CreateEnvironment_container S mock_engine cfg u p w = (Inr q, w')"
  using assms
  by (simp add: CreateEnvironment_container_def on_engine_def mock_engine_def MockEngine_CreateContainer_def
      MockEngine_StartContainer_def run_mock_def ex_mock_def assign_env_def Let_def split: prod.splits)

theorem create_reap_leak_witness:
  "\<exists>p w1 q w'. CreateEnvironment_record memory_store ex_cfg 0 ''0123-456789abcdef'' ''t'' ''u'' ex_input ex_world = (Inr p, w1) \<and>
     CreateEnvironment_container memory_store mock_engine ex_cfg ''u'' p (reap memory_store mock_engine (seconds 601) w1) = (Inr q, w') \<and>
     env_Status (deref q w') = StatusRunning \<and> a_envs (mem_abs (w_mem w')) (new_ID ''env_'' ''0123-456789abcdef'') = None"
proof -
  have "\<exists>p w1. CreateEnvironment_record memory_store ex_cfg 0 ''0123-456789abcdef'' ''t'' ''u'' ex_input ex_world = (Inr p, w1)"
    by (simp add: CreateEnvironment_record_def memory_store_def ex_image ex_defaults ex_limits Let_def alloc_env_def new_env_def on_store_def
        split: prod.splits option.splits)
  then obtain p w1 where r: "CreateEnvironment_record memory_store ex_cfg 0 ''0123-456789abcdef'' ''t'' ''u'' ex_input ex_world = (Inr p, w1)"
    by blast
  have new: "a_envs (mem_abs (w_mem ex_world)) (new_ID ''env_'' ''0123-456789abcdef'') = None"
    using ex_fresh by (simp add: fresh_IDs_def)
  note rec = mem_svc.record_ok [OF ex_mem_inv new r]
  have "mem_inv (w_mem w1)" using rec(2) by (simp add: mem_svc.keeps_def)
  from mem_svc.reap_ok [OF this TrueI, of "seconds 601" mock_engine] rec(4)
  have "w_eng (reap memory_store mock_engine (seconds 601) w1) = ex_mock"
    by (auto simp: ex_mock_stop ex_world_def)
  then obtain q w' where c: "CreateEnvironment_container memory_store mock_engine ex_cfg ''u'' p
      (reap memory_store mock_engine (seconds 601) w1) = (Inr q, w')"
    using ex_mock_container by blast
  have "time_Sub (seconds 601) 0 > ms_idleTimeout (snd (w_mem ex_world))"
    by (simp add: ex_world_def ex_memory_def NewMemoryStore_def time_Sub_def)
  from create_reap_leak [OF ex_mem_inv new r this c] r c show ?thesis by blast
qed

end
