(* ===== verification/Process.thy ===== *)
theory Process
  imports Deployment
begin

text \<open>
  The life of the service process, the second half of \<open>main\<close> in \<open>cmd/haas/main.go\<close>: the API server,
  the reaper and the embedded MCP server run until a signal stops the reaper, then the server, then
  the process.  A request is accepted on a connection and served later, at an instant and with a fresh
  UUID of its own; requests take effect one at a time, in the order they finish.
\<close>

section \<open>Phases and events\<close>

text \<open>After the signal, \<open>reaper.Stop\<close> waits for the reaper while the server still listens, then
  \<open>srv.Shutdown\<close> stops listening and waits for the connections.\<close>

datatype phase = Serving | StoppingReaper | ShuttingDown | Exited int

datatype process_event =
    Accept nat request
  | Finish nat time string "ws_event list"
  | ReaperTick time
  | McpRequest mcp_request
  | Interrupt
  | ReaperStopped
  | Drained
  | ShutdownTimeout
  | ListenFailed

record ('s, 'e) process =
  pr_world :: "('s, 'e) world"
  pr_phase :: phase
  pr_accepted :: "(nat \<times> request) list"

definition listening :: "phase \<Rightarrow> bool" where
  "listening ph \<longleftrightarrow> ph = Serving \<or> ph = StoppingReaper"

definition alive :: "phase \<Rightarrow> bool" where
  "alive ph \<longleftrightarrow> listening ph \<or> ph = ShuttingDown"

text \<open>The request as the router serves it: at its instant, with its UUID and, for a terminal, its
  events.\<close>

definition at_instant :: "('s, 'e) api \<Rightarrow> time \<Rightarrow> string \<Rightarrow> ws_event list \<Rightarrow> ('s, 'e) api" where
  "at_instant A now uuid evs = A\<lparr>api_now := now, api_uuid := uuid, api_ws_events := evs\<rparr>"

text \<open>A connection that became a WebSocket is not the server's any more: \<open>Shutdown\<close> does not wait for
  it.\<close>

definition hijacked :: "('s, 'e) api \<Rightarrow> request \<Rightarrow> bool" where
  "hijacked A r \<longleftrightarrow> (case api_match A routes (rq_Method r) (rq_Path r) of Some (route.ExecWS, _) \<Rightarrow> True | _ \<Rightarrow> False)"

text \<open>One event of the process, \<open>None\<close> where it cannot happen.  The listening server and the reaper run
  in goroutines of their own; the reaper may still begin a cycle after the signal, until it receives
  from the closed \<open>stopCh\<close>; the MCP server is never shut down.\<close>

fun process_step ::
  "('s, 'e) api \<Rightarrow> string list \<Rightarrow> string \<Rightarrow> ('s, 'e) world mcp_transports \<Rightarrow> process_event \<Rightarrow> ('s, 'e) process \<Rightarrow>
   ('s, 'e) process option" where
  "process_step A keys addr L (Accept n r) p =
     (if listening (pr_phase p) \<and> map_of (pr_accepted p) n = None
      then Some (p\<lparr>pr_accepted := (n, r) # pr_accepted p\<rparr>) else None)"
| "process_step A keys addr L (Finish n now uuid evs) p =
     (case map_of (pr_accepted p) n of
        None \<Rightarrow> None
      | Some r \<Rightarrow>
          if alive (pr_phase p)
          then Some (p\<lparr>pr_world := snd (NewRouter (at_instant A now uuid evs) (New (api_hashing A) keys) r (pr_world p)),
                       pr_accepted := AList.delete n (pr_accepted p)\<rparr>)
          else None)"
| "process_step A keys addr L (ReaperTick now) p =
     (if listening (pr_phase p) then Some (p\<lparr>pr_world := reap (api_store A) (api_engine A) now (pr_world p)\<rparr>) else None)"
| "process_step A keys addr L (McpRequest r) p =
     (if alive (pr_phase p)
      then Some (p\<lparr>pr_world := snd (ServeStreamableHTTP (api_hashing A) L addr keys r (pr_world p))\<rparr>) else None)"
| "process_step A keys addr L Interrupt p =
     (if pr_phase p = Serving then Some (p\<lparr>pr_phase := StoppingReaper\<rparr>) else None)"
| "process_step A keys addr L ReaperStopped p =
     (if pr_phase p = StoppingReaper then Some (p\<lparr>pr_phase := ShuttingDown\<rparr>) else None)"
| "process_step A keys addr L Drained p =
     (if pr_phase p = ShuttingDown \<and> list_all (\<lambda>(n, r). hijacked A r) (pr_accepted p)
      then Some (p\<lparr>pr_phase := Exited 0\<rparr>) else None)"
| "process_step A keys addr L ShutdownTimeout p =
     (if pr_phase p = ShuttingDown then Some (p\<lparr>pr_phase := Exited 0\<rparr>) else None)"
| "process_step A keys addr L ListenFailed p =
     (if listening (pr_phase p) then Some (p\<lparr>pr_phase := Exited 1\<rparr>) else None)"

text \<open>A run of the process: its events in order, each request with a UUID that is fresh when it is
  served.\<close>

fun fresh_event :: "('s mem \<Rightarrow> abs_store) \<Rightarrow> process_event \<Rightarrow> ('s, 'e) process \<Rightarrow> bool" where
  "fresh_event \<alpha> (Finish n now uuid evs) p = fresh_IDs uuid (\<alpha> (w_mem (pr_world p)))"
| "fresh_event \<alpha> _ p = True"

inductive process_run ::
  "('s, 'e) api \<Rightarrow> string list \<Rightarrow> string \<Rightarrow> ('s, 'e) world mcp_transports \<Rightarrow> ('s mem \<Rightarrow> abs_store) \<Rightarrow>
   ('s, 'e) process \<Rightarrow> process_event list \<Rightarrow> ('s, 'e) process \<Rightarrow> bool"
  for A keys addr L \<alpha> p where
  run_nil: "process_run A keys addr L \<alpha> p [] p"
| run_snoc:
    "process_run A keys addr L \<alpha> p evs q \<Longrightarrow> fresh_event \<alpha> ev q \<Longrightarrow> process_step A keys addr L ev q = Some q' \<Longrightarrow>
     process_run A keys addr L \<alpha> p (evs @ [ev]) q'"

text \<open>The process that a successful start leaves running on the memory store.\<close>

definition started :: "MemoryStore \<Rightarrow> 'e \<Rightarrow> (MemoryStore, 'e) process" where
  "started s eng = \<lparr>pr_world = \<lparr>w_mem = ([], s), w_eng = eng\<rparr>, pr_phase = Serving, pr_accepted = []\<rparr>"

section \<open>What happens to the records of a user\<close>

text \<open>Nothing appears or changes, and what disappears satisfies \<open>P\<close>.\<close>

definition only_loses :: "(Environment \<Rightarrow> bool) \<Rightarrow> abs_store \<Rightarrow> abs_store \<Rightarrow> bool" where
  "only_loses P A B \<longleftrightarrow> a_snaps B = a_snaps A \<and> a_skills B = a_skills A \<and>
     (\<forall>i. a_envs B i = a_envs A i \<or> (\<exists>e. a_envs A i = Some e \<and> P e \<and> a_envs B i = None))"

lemma only_loses_refl [simp]: "only_loses P A A"
  by (simp add: only_loses_def)

lemma only_loses_trans: "only_loses P A B \<Longrightarrow> only_loses P B C \<Longrightarrow> only_loses P A C"
  unfolding only_loses_def by metis

lemma only_loses_mono: "only_loses P A B \<Longrightarrow> (\<And>e. P e \<Longrightarrow> Q e) \<Longrightarrow> only_loses Q A B"
  unfolding only_loses_def by metis

lemma theirs_without_expired: "only_loses P (theirs u A) (theirs u (without_expired P A))"
  by (auto simp: only_loses_def theirs_def without_expired_def split: option.splits)

text \<open>Whether an event speaks for a user, and which environments the ticks of a run expire.\<close>

definition speaks_for :: "hashing \<Rightarrow> string list \<Rightarrow> string \<Rightarrow> request \<Rightarrow> bool" where
  "speaks_for H keys u r \<longleftrightarrow> (case caller H keys r of None \<Rightarrow> False | Some (t, v) \<Rightarrow> v = u)"

fun acts_for :: "hashing \<Rightarrow> string list \<Rightarrow> string \<Rightarrow> process_event \<Rightarrow> bool" where
  "acts_for H keys u (Accept n r) = speaks_for H keys u r"
| "acts_for H keys u (McpRequest r) = (case presented_key H keys r of None \<Rightarrow> False | Some k \<Rightarrow> u \<in> identities H k)"
| "acts_for H keys u _ = False"

text \<open>The users in whose name an event acts on the store.\<close>

fun users_of :: "hashing \<Rightarrow> string list \<Rightarrow> process_event \<Rightarrow> ('s, 'e) process \<Rightarrow> string set" where
  "users_of H keys (Finish n now uuid evs) p =
     (case map_of (pr_accepted p) n of
        None \<Rightarrow> {}
      | Some r \<Rightarrow> (case caller H keys r of None \<Rightarrow> {} | Some (t, v) \<Rightarrow> {v}))"
| "users_of H keys (McpRequest r) p = (case presented_key H keys r of None \<Rightarrow> {} | Some k \<Rightarrow> identities H k)"
| "users_of H keys _ p = {}"

definition reaped :: "('s \<Rightarrow> time \<Rightarrow> Environment \<Rightarrow> bool) \<Rightarrow> 's \<Rightarrow> process_event list \<Rightarrow> Environment \<Rightarrow> bool" where
  "reaped expired s evs e \<longleftrightarrow> (\<exists>now. ReaperTick now \<in> set evs \<and> expired s now e)"

text \<open>No connection is open on behalf of the user.\<close>

definition absent :: "hashing \<Rightarrow> string list \<Rightarrow> string \<Rightarrow> ('s, 'e) process \<Rightarrow> bool" where
  "absent H keys u p \<longleftrightarrow> list_all (\<lambda>r. \<not> speaks_for H keys u r) (map snd (pr_accepted p))"

lemma at_instant_fields [simp]:
  "api_store (at_instant A now uuid evs) = api_store A" "api_hashing (at_instant A now uuid evs) = api_hashing A"
  "api_uuid (at_instant A now uuid evs) = uuid" "api_engine (at_instant A now uuid evs) = api_engine A"
  by (simp_all add: at_instant_def)

lemma users_absent:
  assumes "absent H keys u p" and "\<not> acts_for H keys u ev"
  shows "u \<notin> users_of H keys ev p"
proof (cases ev)
  case (Finish n now uuid evs)
  have "\<not> speaks_for H keys u r" if "map_of (pr_accepted p) n = Some r" for r
    using assms(1) map_of_SomeD [OF that] by (force simp: absent_def list_all_iff)
  then show ?thesis by (auto simp: Finish speaks_for_def split: option.splits)
qed (use assms(2) in \<open>auto split: option.splits\<close>)

lemma step_absent:
  assumes "process_step A keys addr L ev p = Some p'" and "absent H keys u p" and "\<not> acts_for H keys u ev"
  shows "absent H keys u p'"
proof -
  have "pr_accepted p' = pr_accepted p \<or> (\<exists>n r. ev = Accept n r \<and> pr_accepted p' = (n, r) # pr_accepted p) \<or>
      (\<exists>n. pr_accepted p' = AList.delete n (pr_accepted p))"
    using assms(1) by (cases ev) (auto split: if_splits option.splits)
  then show ?thesis
    using assms(2,3) by (auto simp: absent_def list_all_iff AList.delete_eq)
qed

context store_client
begin

text \<open>One event: a cycle of the reaper removes what is expired, any other event acts for its users only.\<close>

lemma step_spares:
  assumes "process_step A keys addr L ev p = Some p'" and "fresh_event \<alpha> ev p"
    and "uuid_ok (api_hashing A)" and "api_store A = S" and "keys \<noteq> []" and "srv_apiKeys s = keys"
    and "serves_sessions (api_hashing A) S \<alpha> keys s L"
    and "inv (w_mem (pr_world p))" and "\<forall>now. ev \<noteq> ReaperTick now"
  shows "spares (users_of (api_hashing A) keys ev p) (w_mem (pr_world p)) (w_mem (pr_world p'))"
proof (cases ev)
  case (Finish n now uuid evs)
  let ?d = "at_instant A now uuid evs"
  obtain r where r: "map_of (pr_accepted p) n = Some r" and p': "p' = p\<lparr>pr_world := snd (NewRouter ?d (New (api_hashing A) keys) r (pr_world p)),
      pr_accepted := AList.delete n (pr_accepted p)\<rparr>"
    using assms(1) by (auto simp: Finish split: option.splits if_splits)
  have w: "uuid_ok (api_hashing ?d)" "api_store ?d = S" "fresh_IDs (api_uuid ?d) (\<alpha> (w_mem (pr_world p)))"
    using assms(2-4) by (simp_all add: Finish)
  note c = router_world [OF w(1,2) assms(8) w(3) prod.collapse [symmetric], of keys r]
  show ?thesis
  proof (cases "caller (api_hashing A) keys r")
    case None
    with c assms(8) show ?thesis by (simp add: p')
  next
    case (Some tv)
    obtain t v where "tv = (t, v)" by (cases tv)
    with Some c r show ?thesis by (auto simp: p' Finish intro: keeps_spares)
  qed
next
  case (McpRequest r)
  have p': "p' = p\<lparr>pr_world := snd (ServeStreamableHTTP (api_hashing A) L addr keys r (pr_world p))\<rparr>"
    using assms(1) by (auto simp: McpRequest split: if_splits)
  note e = endpoint_keeps_others [OF assms(3,8,5,6,7) prod.collapse [symmetric], of addr r]
  show ?thesis
    using e assms(8) by (cases "presented_key (api_hashing A) keys r") (simp_all add: p' McpRequest)
qed (use assms(1,8,9) in \<open>auto split: if_splits\<close>)

lemma tick_effect:
  assumes "process_step A keys addr L (ReaperTick now) p = Some p'" and "api_store A = S"
    and "inv (w_mem (pr_world p))" and "healthy (snd (w_mem (pr_world p)))"
  shows "inv (w_mem (pr_world p'))" "stable (snd (w_mem (pr_world p))) (snd (w_mem (pr_world p')))"
    "\<alpha> (w_mem (pr_world p')) = without_expired (expired (snd (w_mem (pr_world p))) now) (\<alpha> (w_mem (pr_world p)))"
  using assms(1,2) reap_effect [OF assms(3,4), of now "api_engine A"] by (auto split: if_splits)

lemma step_loses:
  assumes "process_step A keys addr L ev p = Some p'" and "fresh_event \<alpha> ev p"
    and "uuid_ok (api_hashing A)" and "api_store A = S" and "keys \<noteq> []" and "srv_apiKeys s = keys"
    and "serves_sessions (api_hashing A) S \<alpha> keys s L"
    and "inv (w_mem (pr_world p))" and "healthy (snd (w_mem (pr_world p)))"
  shows "inv (w_mem (pr_world p'))" and "stable (snd (w_mem (pr_world p))) (snd (w_mem (pr_world p')))"
    and "u \<notin> users_of (api_hashing A) keys ev p \<Longrightarrow> only_loses (reaped expired (snd (w_mem (pr_world p))) [ev])
      (theirs u (\<alpha> (w_mem (pr_world p)))) (theirs u (\<alpha> (w_mem (pr_world p'))))"
proof -
  let ?m = "w_mem (pr_world p)" and ?m' = "w_mem (pr_world p')"
  have "inv ?m' \<and> stable (snd ?m) (snd ?m') \<and> (u \<notin> users_of (api_hashing A) keys ev p \<longrightarrow>
    only_loses (reaped expired (snd ?m) [ev]) (theirs u (\<alpha> ?m)) (theirs u (\<alpha> ?m')))"
  proof (cases "\<exists>now. ev = ReaperTick now")
    case True
    then obtain now where ev: "ev = ReaperTick now" by blast
    have "reaped expired (snd ?m) [ev] = expired (snd ?m) now" by (simp add: reaped_def ev fun_eq_iff)
    with tick_effect [OF assms(1) [unfolded ev] assms(4,8,9)] show ?thesis by (simp add: theirs_without_expired)
  next
    case False
    with step_spares [OF assms(1-8)] show ?thesis by (auto simp: spares_def)
  qed
  then show "inv ?m'" "stable (snd ?m) (snd ?m')"
    "u \<notin> users_of (api_hashing A) keys ev p \<Longrightarrow> only_loses (reaped expired (snd ?m) [ev]) (theirs u (\<alpha> ?m)) (theirs u (\<alpha> ?m'))"
    by simp_all
qed

text \<open>Every run keeps the invariant, and a run in which nobody acts for a user only reaps that user's
  environments.\<close>

lemma run_safe:
  assumes "process_run A keys addr L \<alpha> p evs q"
    and "uuid_ok (api_hashing A)" and "api_store A = S" and "keys \<noteq> []" and "srv_apiKeys s = keys"
    and "serves_sessions (api_hashing A) S \<alpha> keys s L"
    and "inv (w_mem (pr_world p))" and "healthy (snd (w_mem (pr_world p)))"
  shows "inv (w_mem (pr_world q)) \<and> stable (snd (w_mem (pr_world p))) (snd (w_mem (pr_world q)))"
  using assms(1)
proof induction
  case run_nil
  then show ?case using assms(7) by simp
next
  case (run_snoc evs q ev q')
  have h: "inv (w_mem (pr_world q))" "healthy (snd (w_mem (pr_world q)))"
    using run_snoc.IH assms(8) by (simp_all add: stable_def)
  from step_loses(1,2) [OF run_snoc.hyps(3,2) assms(2-6) h] run_snoc.IH show ?case
    by (blast intro: stable_trans)
qed

lemma run_loses:
  assumes "process_run A keys addr L \<alpha> p evs q"
    and "uuid_ok (api_hashing A)" and "api_store A = S" and "keys \<noteq> []" and "srv_apiKeys s = keys"
    and "serves_sessions (api_hashing A) S \<alpha> keys s L"
    and "inv (w_mem (pr_world p))" and "healthy (snd (w_mem (pr_world p)))"
    and "absent (api_hashing A) keys u p" and "\<forall>ev \<in> set evs. \<not> acts_for (api_hashing A) keys u ev"
  shows "only_loses (reaped expired (snd (w_mem (pr_world p))) evs)
      (theirs u (\<alpha> (w_mem (pr_world p)))) (theirs u (\<alpha> (w_mem (pr_world q)))) \<and> absent (api_hashing A) keys u q"
  using assms(1,10)
proof induction
  case run_nil
  then show ?case using assms(9) by simp
next
  case (run_snoc evs q ev q')
  have st: "inv (w_mem (pr_world q))" "stable (snd (w_mem (pr_world p))) (snd (w_mem (pr_world q)))"
    using run_safe [OF run_snoc.hyps(1) assms(2-8)] by simp_all
  have h: "healthy (snd (w_mem (pr_world q)))" "expired (snd (w_mem (pr_world q))) = expired (snd (w_mem (pr_world p)))"
    using st(2) assms(8) by (simp_all add: stable_def)
  have ih: "only_loses (reaped expired (snd (w_mem (pr_world p))) evs) (theirs u (\<alpha> (w_mem (pr_world p)))) (theirs u (\<alpha> (w_mem (pr_world q))))"
    and ab: "absent (api_hashing A) keys u q" and na: "\<not> acts_for (api_hashing A) keys u ev"
    using run_snoc.IH run_snoc.prems by simp_all
  have "only_loses (reaped expired (snd (w_mem (pr_world q))) [ev]) (theirs u (\<alpha> (w_mem (pr_world q)))) (theirs u (\<alpha> (w_mem (pr_world q'))))"
    by (rule step_loses(3) [OF run_snoc.hyps(3,2) assms(2-6) st(1) h(1) users_absent [OF ab na]])
  then have "only_loses (reaped expired (snd (w_mem (pr_world p))) (evs @ [ev])) (theirs u (\<alpha> (w_mem (pr_world q)))) (theirs u (\<alpha> (w_mem (pr_world q'))))"
    by (rule only_loses_mono) (auto simp: reaped_def h(2))
  moreover have "only_loses (reaped expired (snd (w_mem (pr_world p))) (evs @ [ev])) (theirs u (\<alpha> (w_mem (pr_world p)))) (theirs u (\<alpha> (w_mem (pr_world q))))"
    using ih by (rule only_loses_mono) (auto simp: reaped_def)
  ultimately show ?case
    using only_loses_trans step_absent [OF run_snoc.hyps(3) ab na] by blast
qed

end

section \<open>Shutting down\<close>

lemma run_append:
  assumes "process_run A keys addr L \<alpha> p evs q" and "process_run A keys addr L \<alpha> q evs' q'"
  shows "process_run A keys addr L \<alpha> p (evs @ evs') q'"
  using assms(2)
proof induction
  case run_nil
  show ?case using assms(1) by simp
next
  case (run_snoc evs' q1 ev q2)
  from process_run.run_snoc [OF run_snoc.IH run_snoc.hyps(2,3)] show ?case by simp
qed

text \<open>A service without a database starts with an empty store.\<close>

lemma bootstrap_same: "bootstrap now es (App_Memory s) = (None, App_Memory s)"
  by (induction es) (simp_all add: app_BootstrapUser_def memory_store_def)

lemma bootstrap_sql: "bootstrap now es (App_SQL s) \<noteq> (err, App_Memory s')"
  by (induction es arbitrary: s) (auto simp: app_BootstrapUser_def split: prod.split option.split)

lemma started_memory:
  assumes "haas_main P = Inr sv" and "sv_store sv = App_Memory s"
  shows "s = NewMemoryStore (cfg_IdleTimeout (sv_cfg sv)) (cfg_MaxLifetime (sv_cfg sv))"
  using assms
  by (auto simp: haas_main_def Let_def openStore_def bootstrap_same bootstrap_sql split: if_splits sum.splits prod.splits option.splits)

lemma started_inv: "mem_inv ([], NewMemoryStore idle life)"
  by (simp add: NewMemoryStore_def envs_ok_def snaps_ok_def skills_ok_def)

section \<open>Properties\<close>

text \<open>C26: a service without a database, from its start on: at every moment of every run of the process,
  whatever requests, MCP sessions, cycles of the reaper and signals came before, its store is well
  formed; and over any part of a run in which nobody has a connection or a session in a user's name,
  that user's snapshots and skills stay exactly as they are, none of the user's environments changes
  or appears, and one that disappears had expired at a cycle of the reaper in that part.  Any number
  of other tenants' requests may be served meanwhile.\<close>

theorem service_isolation:
  assumes "haas_main P = Inr sv" and "sv_store sv = App_Memory s" and "uuid_ok (pf_hashing P)"
    and "api_store A = memory_store" and "api_hashing A = pf_hashing P"
    and "serves_sessions (pf_hashing P) memory_store mem_abs (sv_mcp_keys sv) (sv_mcp sv) L"
    and "process_run A (sv_mcp_keys sv) (sv_mcp_addr sv) L mem_abs (started s eng) before p"
    and "process_run A (sv_mcp_keys sv) (sv_mcp_addr sv) L mem_abs p evs q"
    and "absent (pf_hashing P) (sv_mcp_keys sv) u p"
    and "\<forall>ev \<in> set evs. \<not> acts_for (pf_hashing P) (sv_mcp_keys sv) u ev"
  shows "mem_inv (w_mem (pr_world p)) \<and> mem_inv (w_mem (pr_world q)) \<and>
    only_loses (reaped mem_expired (snd (w_mem (pr_world p))) evs)
      (theirs u (mem_abs (w_mem (pr_world p)))) (theirs u (mem_abs (w_mem (pr_world q))))"
proof -
  note k = haas_main_keys [OF assms(1)]
  have keys: "sv_mcp_keys sv \<noteq> []" "srv_apiKeys (sv_mcp sv) = sv_mcp_keys sv" using k by simp_all
  have H: "uuid_ok (api_hashing A)" using assms(3,5) by simp
  have L: "serves_sessions (api_hashing A) memory_store mem_abs (sv_mcp_keys sv) (sv_mcp sv) L" using assms(5,6) by simp
  have "mem_inv (w_mem (pr_world (started s eng)))"
    using started_memory [OF assms(1,2)] started_inv by (simp add: started_def)
  then have p: "mem_inv (w_mem (pr_world p))"
    using mem_svc.run_safe [OF assms(7) H assms(4) keys L _ TrueI] by blast
  moreover have "mem_inv (w_mem (pr_world q))"
    using mem_svc.run_safe [OF assms(8) H assms(4) keys L p TrueI] by blast
  moreover have "only_loses (reaped mem_expired (snd (w_mem (pr_world p))) evs)
      (theirs u (mem_abs (w_mem (pr_world p)))) (theirs u (mem_abs (w_mem (pr_world q))))"
    using mem_svc.run_loses [OF assms(8) H assms(4) keys L p TrueI, of u] assms(5,9,10) by simp
  ultimately show ?thesis by blast
qed

text \<open>Alice deletes an environment, the reaper runs, and the service is interrupted.\<close>

definition ex_events :: "process_event list" where
  "ex_events = [Accept 0 (ex_request ''DELETE'' ''/v1/environments/env_a/'' ''Bearer alice''),
     Finish 0 (seconds 60) ''0123-456789abcdef'' [], ReaperTick (seconds 90), Interrupt, ReaperStopped, Drained]"

lemma process_run_Cons:
  assumes "fresh_event \<alpha> ev p" and "process_step A keys addr L ev p = Some p'" and "process_run A keys addr L \<alpha> p' evs q"
  shows "process_run A keys addr L \<alpha> p (ev # evs) q"
  using run_append [OF process_run.run_snoc [OF process_run.run_nil assms(1,2)] assms(3)] by simp

lemma ex_events_run:
  "\<exists>q. process_run (ex_api memory_store) keys addr L mem_abs (started (NewMemoryStore idle life) ex_mock) ex_events q \<and> pr_phase q = Exited 0"
  unfolding ex_events_def
  by (intro exI conjI, (rule process_run_Cons, simp add: started_def fresh_IDs_def NewMemoryStore_def new_ID_def,
        simp add: started_def listening_def alive_def)+, rule process_run.run_nil, simp)

theorem service_isolation_witness:
  "\<exists>sv s q. haas_main ex_platform = Inr sv \<and> sv_store sv = App_Memory s \<and>
     process_run (ex_api memory_store) (sv_mcp_keys sv) (sv_mcp_addr sv) (ex_destroying (sv_mcp_keys sv) (sv_mcp sv)) mem_abs
       (started s ex_mock) ex_events q \<and> mem_inv (w_mem (pr_world q)) \<and>
     only_loses (reaped mem_expired s ex_events) (theirs (ex_tenant ''bob'') (mem_abs ([], s)))
       (theirs (ex_tenant ''bob'') (mem_abs (w_mem (pr_world q))))"
proof -
  obtain sv where sv: "haas_main ex_platform = Inr sv" "cfg_APIKeys (sv_cfg sv) = [''alice'', ''bob'']" using ex_started by blast
  have keys: "sv_mcp_keys sv = [''alice'', ''bob'']" using haas_main_keys(3) [OF sv(1)] sv(2) by simp
  obtain s where s: "sv_store sv = App_Memory s"
    using sv(1) by (auto simp: haas_main_def Let_def openStore_def bootstrap_same ex_platform_def Load_def envOrDefault_def
        split: if_splits sum.splits prod.splits option.splits)
  have H: "pf_hashing ex_platform = ex_hashing" by (simp add: ex_platform_def)
  let ?L = "ex_destroying (sv_mcp_keys sv) (sv_mcp sv)"
  obtain q where q: "process_run (ex_api memory_store) (sv_mcp_keys sv) (sv_mcp_addr sv) ?L mem_abs (started s ex_mock) ex_events q"
    using ex_events_run started_memory [OF sv(1) s] by blast
  have "ex_tenant ''alice'' \<noteq> ex_tenant ''bob''" by (simp add: ex_tenant_def)
  then have "\<forall>ev \<in> set ex_events. \<not> acts_for ex_hashing [''alice'', ''bob''] (ex_tenant ''bob'') ev"
    by (simp add: ex_events_def speaks_for_def)
  then show ?thesis
    using service_isolation [OF sv(1) s, of "ex_api memory_store" ?L ex_mock "[]" "started s ex_mock" ex_events q "ex_tenant ''bob''"]
      q keys s sv(1) ex_serves by (auto simp: H started_def absent_def process_run.run_nil)
qed

end
