(* ===== verification/Wire.thy ===== *)
theory Wire
  imports JSON_Codec SDK_Client
begin

text \<open>
  The bytes between the server and its clients: the structs of \<open>internal/domain\<close> and \<open>internal/api\<close>
  on one side, those of \<open>pkg/apitypes\<close> on the other, each with the names and the \<open>omitempty\<close> of its
  tags.  The records are shared, the tags are not: a response is encoded by the server's and decoded
  by the client's, a request the other way round, and the server refuses fields it does not know.  A
  null among the elements of a list, a nil pointer in Go, is decoded as an empty struct; a response
  never has one.
\<close>

section \<open>What the server writes\<close>

definition EnvironmentSpec_json :: "conv \<Rightarrow> EnvironmentSpec \<Rightarrow> encoding" where
  "EnvironmentSpec_json C s = encode_struct
     [(''image'', True, encode_string (Image s)), (''cpu'', True, encode_float C (CPU s)),
      (''memory_mb'', True, encode_int (MemoryMB s)), (''disk_mb'', True, encode_int (DiskMB s)),
      (''network_policy'', True, encode_string (NetworkPolicy s)), (''env_vars'', True, encode_map (EnvVars s))]"

definition Environment_json :: "conv \<Rightarrow> Environment \<Rightarrow> encoding" where
  "Environment_json C e = encode_struct
     [(''id'', True, encode_string (env_ID e)), (''tenant_id'', True, encode_string (env_TenantID e)),
      (''user_id'', True, encode_string (env_UserID e)), (''spec'', True, EnvironmentSpec_json C (env_Spec e)),
      (''status'', True, encode_string (env_Status e)),
      (''container_id'', env_ContainerID e \<noteq> [], encode_string (env_ContainerID e)),
      (''created_at'', True, encode_time C (env_CreatedAt e)), (''last_used_at'', True, encode_time C (env_LastUsedAt e)),
      (''expires_at'', True, encode_time C (env_ExpiresAt e))]"

definition ExecEvent_json :: "ExecEvent \<Rightarrow> encoding" where
  "ExecEvent_json ev = encode_struct [(''stream'', True, encode_string (ev_Stream ev)), (''data'', True, encode_string (ev_Data ev))]"

definition FileInfo_json :: "FileInfo \<Rightarrow> encoding" where
  "FileInfo_json f = encode_struct
     [(''name'', True, encode_string (fi_Name f)), (''path'', True, encode_string (fi_Path f)),
      (''size'', True, encode_int (fi_Size f)), (''is_dir'', True, Inr (JBool (fi_IsDir f))),
      (''mod_time'', True, encode_string (fi_ModTime f))]"

definition Snapshot_json :: "conv \<Rightarrow> Snapshot \<Rightarrow> encoding" where
  "Snapshot_json C s = encode_struct
     [(''id'', True, encode_string (snap_ID s)), (''tenant_id'', True, encode_string (snap_TenantID s)),
      (''user_id'', True, encode_string (snap_UserID s)), (''environment_id'', True, encode_string (snap_EnvironmentID s)),
      (''image_id'', True, encode_string (snap_ImageID s)), (''label'', True, encode_string (snap_Label s)),
      (''size'', True, encode_int (snap_Size s)), (''created_at'', True, encode_time C (snap_CreatedAt s))]"

definition Skill_json :: "conv \<Rightarrow> Skill \<Rightarrow> encoding" where
  "Skill_json C s = encode_struct
     [(''id'', True, encode_string (skill_ID s)), (''tenant_id'', True, encode_string (skill_TenantID s)),
      (''user_id'', True, encode_string (skill_UserID s)), (''name'', True, encode_string (skill_Name s)),
      (''size_bytes'', True, encode_int (skill_SizeBytes s)), (''created_at'', True, encode_time C (skill_CreatedAt s)),
      (''updated_at'', True, encode_time C (skill_UpdatedAt s))]"

definition InstalledSkill_json :: "InstalledSkill \<Rightarrow> encoding" where
  "InstalledSkill_json s = encode_struct
     [(''name'', True, encode_string (is_Name s)), (''description'', True, encode_string (is_Description s)),
      (''path'', True, encode_string (is_Path s))]"

definition ErrorResponse_json :: "ErrorResponse \<Rightarrow> encoding" where
  "ErrorResponse_json e = encode_struct
     [(''error'', True, encode_string (er_Error e)), (''code'', True, encode_int (er_Code e)),
      (''detail'', er_Detail e \<noteq> [], encode_string (er_Detail e))]"

definition CreateEnvironmentResponse_json :: "CreateEnvironmentResponse \<Rightarrow> encoding" where
  "CreateEnvironmentResponse_json r = encode_struct
     [(''id'', True, encode_string (cr_ID r)), (''status'', True, encode_string (cr_Status r)),
      (''image'', True, encode_string (cr_Image r))]"

text \<open>\<open>isnil\<close>: some listings that are empty are nil slices.\<close>

fun response_json :: "conv \<Rightarrow> bool \<Rightarrow> json \<Rightarrow> encoding" where
  "response_json C isnil (JError e) = ErrorResponse_json e"
| "response_json C isnil (JStatus s) = encode_struct [(''status'', True, encode_string s)]"
| "response_json C isnil (JCreated r) = CreateEnvironmentResponse_json r"
| "response_json C isnil (JEnvironment e) = Environment_json C e"
| "response_json C isnil (JEnvironments es) = encode_list isnil (Environment_json C) es"
| "response_json C isnil (JSnapshot s) = Snapshot_json C s"
| "response_json C isnil (JSnapshots ss) = encode_list isnil (Snapshot_json C) ss"
| "response_json C isnil (JSkill s) = Skill_json C s"
| "response_json C isnil (JSkills ss) = encode_list isnil (Skill_json C) ss"
| "response_json C isnil (JInstalled ss) = encode_list isnil InstalledSkill_json ss"
| "response_json C isnil (JFiles fs) = encode_list isnil FileInfo_json fs"

text \<open>The body \<open>writeJSON\<close> sends, and a line of the stream of a command.\<close>

definition response_bytes :: "conv \<Rightarrow> bool \<Rightarrow> json \<Rightarrow> bytes" where
  "response_bytes C isnil v = Encoder_Encode (response_json C isnil v)"

definition event_text :: "ExecEvent \<Rightarrow> bytes" where
  "event_text ev = (case ExecEvent_json ev of Inl _ \<Rightarrow> [] | Inr j \<Rightarrow> json_text j)"

section \<open>What the client reads: \<open>pkg/apitypes\<close>\<close>

definition zero_time :: time where
  "zero_time = - 62135596800000000000"

definition zero_Spec :: EnvironmentSpec where
  "zero_Spec = \<lparr>Image = [], CPU = Fin 0, MemoryMB = 0, DiskMB = 0, NetworkPolicy = [], EnvVars = None\<rparr>"

definition apitypes_EnvironmentSpec :: "conv \<Rightarrow> EnvironmentSpec into" where
  "apitypes_EnvironmentSpec C = struct_into False
     [(''image'', field_into Image (\<lambda>v x. x\<lparr>Image := v\<rparr>) string_into),
      (''cpu'', field_into CPU (\<lambda>v x. x\<lparr>CPU := v\<rparr>) (float_into C)),
      (''memory_mb'', field_into MemoryMB (\<lambda>v x. x\<lparr>MemoryMB := v\<rparr>) int64_into),
      (''disk_mb'', field_into DiskMB (\<lambda>v x. x\<lparr>DiskMB := v\<rparr>) int64_into),
      (''network_policy'', field_into NetworkPolicy (\<lambda>v x. x\<lparr>NetworkPolicy := v\<rparr>) string_into),
      (''env_vars'', field_into EnvVars (\<lambda>v x. x\<lparr>EnvVars := v\<rparr>) map_into)]"

definition zero_Environment :: Environment where
  "zero_Environment = \<lparr>env_ID = [], env_TenantID = [], env_UserID = [], env_Spec = zero_Spec, env_Status = [],
     env_ContainerID = [], env_CreatedAt = zero_time, env_LastUsedAt = zero_time, env_ExpiresAt = zero_time\<rparr>"

definition apitypes_Environment :: "conv \<Rightarrow> Environment into" where
  "apitypes_Environment C = struct_into False
     [(''id'', field_into env_ID (\<lambda>v x. x\<lparr>env_ID := v\<rparr>) string_into),
      (''tenant_id'', field_into env_TenantID (\<lambda>v x. x\<lparr>env_TenantID := v\<rparr>) string_into),
      (''user_id'', field_into env_UserID (\<lambda>v x. x\<lparr>env_UserID := v\<rparr>) string_into),
      (''spec'', field_into env_Spec (\<lambda>v x. x\<lparr>env_Spec := v\<rparr>) (apitypes_EnvironmentSpec C)),
      (''status'', field_into env_Status (\<lambda>v x. x\<lparr>env_Status := v\<rparr>) string_into),
      (''container_id'', field_into env_ContainerID (\<lambda>v x. x\<lparr>env_ContainerID := v\<rparr>) string_into),
      (''created_at'', field_into env_CreatedAt (\<lambda>v x. x\<lparr>env_CreatedAt := v\<rparr>) (time_into C)),
      (''last_used_at'', field_into env_LastUsedAt (\<lambda>v x. x\<lparr>env_LastUsedAt := v\<rparr>) (time_into C)),
      (''expires_at'', field_into env_ExpiresAt (\<lambda>v x. x\<lparr>env_ExpiresAt := v\<rparr>) (time_into C))]"

definition apitypes_CreateEnvironmentResponse :: "CreateEnvironmentResponse into" where
  "apitypes_CreateEnvironmentResponse = struct_into False
     [(''id'', field_into cr_ID (\<lambda>v x. x\<lparr>cr_ID := v\<rparr>) string_into),
      (''status'', field_into cr_Status (\<lambda>v x. x\<lparr>cr_Status := v\<rparr>) string_into),
      (''image'', field_into cr_Image (\<lambda>v x. x\<lparr>cr_Image := v\<rparr>) string_into)]"

definition apitypes_ExecEvent :: "ExecEvent into" where
  "apitypes_ExecEvent = struct_into False
     [(''stream'', field_into ev_Stream (\<lambda>v x. x\<lparr>ev_Stream := v\<rparr>) string_into),
      (''data'', field_into ev_Data (\<lambda>v x. x\<lparr>ev_Data := v\<rparr>) string_into)]"

definition zero_FileInfo :: FileInfo where
  "zero_FileInfo = \<lparr>fi_Name = [], fi_Path = [], fi_Size = 0, fi_IsDir = False, fi_ModTime = []\<rparr>"

definition apitypes_FileInfo :: "FileInfo into" where
  "apitypes_FileInfo = struct_into False
     [(''name'', field_into fi_Name (\<lambda>v x. x\<lparr>fi_Name := v\<rparr>) string_into),
      (''path'', field_into fi_Path (\<lambda>v x. x\<lparr>fi_Path := v\<rparr>) string_into),
      (''size'', field_into fi_Size (\<lambda>v x. x\<lparr>fi_Size := v\<rparr>) int64_into),
      (''is_dir'', field_into fi_IsDir (\<lambda>v x. x\<lparr>fi_IsDir := v\<rparr>) bool_into),
      (''mod_time'', field_into fi_ModTime (\<lambda>v x. x\<lparr>fi_ModTime := v\<rparr>) string_into)]"

definition apitypes_ErrorResponse :: "ErrorResponse into" where
  "apitypes_ErrorResponse = struct_into False
     [(''error'', field_into er_Error (\<lambda>v x. x\<lparr>er_Error := v\<rparr>) string_into),
      (''code'', field_into er_Code (\<lambda>v x. x\<lparr>er_Code := v\<rparr>) int64_into),
      (''detail'', field_into er_Detail (\<lambda>v x. x\<lparr>er_Detail := v\<rparr>) string_into)]"

definition zero_Snapshot :: Snapshot where
  "zero_Snapshot = \<lparr>snap_ID = [], snap_TenantID = [], snap_UserID = [], snap_EnvironmentID = [], snap_ImageID = [],
     snap_Label = [], snap_Size = 0, snap_CreatedAt = zero_time\<rparr>"

definition apitypes_Snapshot :: "conv \<Rightarrow> Snapshot into" where
  "apitypes_Snapshot C = struct_into False
     [(''id'', field_into snap_ID (\<lambda>v x. x\<lparr>snap_ID := v\<rparr>) string_into),
      (''tenant_id'', field_into snap_TenantID (\<lambda>v x. x\<lparr>snap_TenantID := v\<rparr>) string_into),
      (''user_id'', field_into snap_UserID (\<lambda>v x. x\<lparr>snap_UserID := v\<rparr>) string_into),
      (''environment_id'', field_into snap_EnvironmentID (\<lambda>v x. x\<lparr>snap_EnvironmentID := v\<rparr>) string_into),
      (''image_id'', field_into snap_ImageID (\<lambda>v x. x\<lparr>snap_ImageID := v\<rparr>) string_into),
      (''label'', field_into snap_Label (\<lambda>v x. x\<lparr>snap_Label := v\<rparr>) string_into),
      (''size'', field_into snap_Size (\<lambda>v x. x\<lparr>snap_Size := v\<rparr>) int64_into),
      (''created_at'', field_into snap_CreatedAt (\<lambda>v x. x\<lparr>snap_CreatedAt := v\<rparr>) (time_into C))]"

definition zero_Skill :: Skill where
  "zero_Skill = \<lparr>skill_ID = [], skill_TenantID = [], skill_UserID = [], skill_Name = [], skill_SizeBytes = 0,
     skill_CreatedAt = zero_time, skill_UpdatedAt = zero_time\<rparr>"

definition apitypes_Skill :: "conv \<Rightarrow> Skill into" where
  "apitypes_Skill C = struct_into False
     [(''id'', field_into skill_ID (\<lambda>v x. x\<lparr>skill_ID := v\<rparr>) string_into),
      (''tenant_id'', field_into skill_TenantID (\<lambda>v x. x\<lparr>skill_TenantID := v\<rparr>) string_into),
      (''user_id'', field_into skill_UserID (\<lambda>v x. x\<lparr>skill_UserID := v\<rparr>) string_into),
      (''name'', field_into skill_Name (\<lambda>v x. x\<lparr>skill_Name := v\<rparr>) string_into),
      (''size_bytes'', field_into skill_SizeBytes (\<lambda>v x. x\<lparr>skill_SizeBytes := v\<rparr>) int64_into),
      (''created_at'', field_into skill_CreatedAt (\<lambda>v x. x\<lparr>skill_CreatedAt := v\<rparr>) (time_into C)),
      (''updated_at'', field_into skill_UpdatedAt (\<lambda>v x. x\<lparr>skill_UpdatedAt := v\<rparr>) (time_into C))]"

definition zero_InstalledSkill :: InstalledSkill where
  "zero_InstalledSkill = \<lparr>is_Name = [], is_Description = [], is_Path = []\<rparr>"

definition apitypes_InstalledSkill :: "InstalledSkill into" where
  "apitypes_InstalledSkill = struct_into False
     [(''name'', field_into is_Name (\<lambda>v x. x\<lparr>is_Name := v\<rparr>) string_into),
      (''description'', field_into is_Description (\<lambda>v x. x\<lparr>is_Description := v\<rparr>) string_into),
      (''path'', field_into is_Path (\<lambda>v x. x\<lparr>is_Path := v\<rparr>) string_into)]"

section \<open>What the client writes\<close>

definition apitypes_CreateEnvironmentRequest :: "conv \<Rightarrow> CreateEnvironmentRequest \<Rightarrow> encoding" where
  "apitypes_CreateEnvironmentRequest C q = encode_struct
     [(''image'', cq_Image q \<noteq> [], encode_string (cq_Image q)), (''cpu'', cq_CPU q \<noteq> Fin 0, encode_float C (cq_CPU q)),
      (''memory_mb'', cq_MemoryMB q \<noteq> 0, encode_int (cq_MemoryMB q)), (''disk_mb'', cq_DiskMB q \<noteq> 0, encode_int (cq_DiskMB q)),
      (''network_policy'', cq_NetworkPolicy q \<noteq> [], encode_string (cq_NetworkPolicy q)),
      (''env_vars'', cq_EnvVars q \<noteq> None \<and> cq_EnvVars q \<noteq> Some [], encode_map (cq_EnvVars q)),
      (''snapshot_id'', cq_SnapshotID q \<noteq> [], encode_string (cq_SnapshotID q))]"

definition apitypes_ExecRequest :: "bool \<Rightarrow> ExecRequest \<Rightarrow> encoding" where
  "apitypes_ExecRequest isnil q = encode_struct
     [(''command'', True, encode_list isnil encode_string (er_Command q)),
      (''working_dir'', er_WorkingDir q \<noteq> [], encode_string (er_WorkingDir q)),
      (''timeout_seconds'', er_TimeoutSeconds q \<noteq> 0, encode_int (er_TimeoutSeconds q)),
      (''capture_output'', er_CaptureOutput q, Inr (JBool (er_CaptureOutput q)))]"

definition apitypes_CreateSnapshotRequest :: "string \<Rightarrow> encoding" where
  "apitypes_CreateSnapshotRequest label = encode_struct [(''label'', label \<noteq> [], encode_string label)]"

text \<open>The codecs of the client; only \<open>MarshalIndent\<close> remains an argument.\<close>

definition wire_codecs :: "conv \<Rightarrow> bool \<Rightarrow> (json \<Rightarrow> goerr + string) \<Rightarrow> codecs" where
  "wire_codecs C isnil ind = \<lparr>
     js_create = (\<lambda>q. json_Marshal (apitypes_CreateEnvironmentRequest C q)),
     js_exec = (\<lambda>q. json_Marshal (apitypes_ExecRequest isnil q)),
     js_label = (\<lambda>l. json_Marshal (apitypes_CreateSnapshotRequest l)),
     js_ErrorResponse = decode_value apitypes_ErrorResponse \<lparr>er_Error = [], er_Code = 0, er_Detail = []\<rparr>,
     js_Created = decode_value apitypes_CreateEnvironmentResponse \<lparr>cr_ID = [], cr_Status = [], cr_Image = []\<rparr>,
     js_Environment = decode_value (apitypes_Environment C) zero_Environment,
     js_Environments = decode_value (list_into (apitypes_Environment C) zero_Environment) [],
     js_Files = decode_value (list_into apitypes_FileInfo zero_FileInfo) [],
     js_Snapshot = decode_value (apitypes_Snapshot C) zero_Snapshot,
     js_Snapshots = decode_value (list_into (apitypes_Snapshot C) zero_Snapshot) [],
     js_Skill = decode_value (apitypes_Skill C) zero_Skill,
     js_Skills = decode_value (list_into (apitypes_Skill C) zero_Skill) [],
     js_Installed = decode_value (list_into apitypes_InstalledSkill zero_InstalledSkill) [],
     js_event = json_Unmarshal apitypes_ExecEvent \<lparr>ev_Stream = [], ev_Data = []\<rparr>,
     js_indent = ind\<rparr>"

section \<open>What the server reads\<close>

definition zero_CreateEnvironmentRequest :: CreateEnvironmentRequest where
  "zero_CreateEnvironmentRequest = \<lparr>cq_Image = [], cq_CPU = Fin 0, cq_MemoryMB = 0, cq_DiskMB = 0, cq_NetworkPolicy = [],
     cq_EnvVars = None, cq_SnapshotID = []\<rparr>"

definition CreateEnvironmentRequest_into :: "conv \<Rightarrow> CreateEnvironmentRequest into" where
  "CreateEnvironmentRequest_into C = struct_into True
     [(''image'', field_into cq_Image (\<lambda>v x. x\<lparr>cq_Image := v\<rparr>) string_into),
      (''cpu'', field_into cq_CPU (\<lambda>v x. x\<lparr>cq_CPU := v\<rparr>) (float_into C)),
      (''memory_mb'', field_into cq_MemoryMB (\<lambda>v x. x\<lparr>cq_MemoryMB := v\<rparr>) int64_into),
      (''disk_mb'', field_into cq_DiskMB (\<lambda>v x. x\<lparr>cq_DiskMB := v\<rparr>) int64_into),
      (''network_policy'', field_into cq_NetworkPolicy (\<lambda>v x. x\<lparr>cq_NetworkPolicy := v\<rparr>) string_into),
      (''env_vars'', field_into cq_EnvVars (\<lambda>v x. x\<lparr>cq_EnvVars := v\<rparr>) map_into),
      (''snapshot_id'', field_into cq_SnapshotID (\<lambda>v x. x\<lparr>cq_SnapshotID := v\<rparr>) string_into)]"

definition zero_ExecRequest :: ExecRequest where
  "zero_ExecRequest = \<lparr>er_Command = [], er_WorkingDir = [], er_TimeoutSeconds = 0, er_CaptureOutput = False\<rparr>"

definition ExecRequest_into :: "ExecRequest into" where
  "ExecRequest_into = struct_into True
     [(''command'', field_into er_Command (\<lambda>v x. x\<lparr>er_Command := v\<rparr>) (list_into string_into [])),
      (''working_dir'', field_into er_WorkingDir (\<lambda>v x. x\<lparr>er_WorkingDir := v\<rparr>) string_into),
      (''timeout_seconds'', field_into er_TimeoutSeconds (\<lambda>v x. x\<lparr>er_TimeoutSeconds := v\<rparr>) int64_into),
      (''capture_output'', field_into er_CaptureOutput (\<lambda>v x. x\<lparr>er_CaptureOutput := v\<rparr>) bool_into)]"

definition createSnapshotRequest_into :: "string into" where
  "createSnapshotRequest_into = struct_into True [(''label'', field_into (\<lambda>x. x) (\<lambda>v x. v) string_into)]"

text \<open>What \<open>decodeJSON\<close> asks of the decoder: the value, and whether more follows.  The handler of
  snapshots ignores the error and takes the label as it was left.\<close>

definition body_decoder :: "'a into \<Rightarrow> 'a \<Rightarrow> 'a json_decoder" where
  "body_decoder f zero r =
     (case Decoder_Decode r of
        Inl err \<Rightarrow> Inl err
      | Inr (v, rest) \<Rightarrow> (case f v zero of (x, None) \<Rightarrow> Inr (x, Decoder_More rest) | (_, Some err) \<Rightarrow> Inl err))"

definition label_decoder :: "reader \<Rightarrow> string" where
  "label_decoder r =
     (case Decoder_Decode r of Inl _ \<Rightarrow> [] | Inr (v, _) \<Rightarrow> fst (createSnapshotRequest_into v []))"

definition wire_api :: "conv \<Rightarrow> ('s, 'e) api \<Rightarrow> ('s, 'e) api" where
  "wire_api C A = A\<lparr>api_decode_create := body_decoder (CreateEnvironmentRequest_into C) zero_CreateEnvironmentRequest,
     api_decode_exec := body_decoder ExecRequest_into zero_ExecRequest, api_decode_label := label_decoder\<rparr>"

section \<open>What arrives\<close>

definition received_Spec :: "EnvironmentSpec \<Rightarrow> EnvironmentSpec" where
  "received_Spec s = s\<lparr>Image := to_valid (Image s), NetworkPolicy := to_valid (NetworkPolicy s), EnvVars := received_map (EnvVars s)\<rparr>"

definition received_Environment :: "Environment \<Rightarrow> Environment" where
  "received_Environment e = e\<lparr>env_ID := to_valid (env_ID e), env_TenantID := to_valid (env_TenantID e),
     env_UserID := to_valid (env_UserID e), env_Spec := received_Spec (env_Spec e), env_Status := to_valid (env_Status e),
     env_ContainerID := to_valid (env_ContainerID e)\<rparr>"

definition received_Snapshot :: "Snapshot \<Rightarrow> Snapshot" where
  "received_Snapshot s = s\<lparr>snap_ID := to_valid (snap_ID s), snap_TenantID := to_valid (snap_TenantID s),
     snap_UserID := to_valid (snap_UserID s), snap_EnvironmentID := to_valid (snap_EnvironmentID s),
     snap_ImageID := to_valid (snap_ImageID s), snap_Label := to_valid (snap_Label s)\<rparr>"

definition received_Skill :: "Skill \<Rightarrow> Skill" where
  "received_Skill s = s\<lparr>skill_ID := to_valid (skill_ID s), skill_TenantID := to_valid (skill_TenantID s),
     skill_UserID := to_valid (skill_UserID s), skill_Name := to_valid (skill_Name s)\<rparr>"

definition received_Installed :: "InstalledSkill \<Rightarrow> InstalledSkill" where
  "received_Installed s = s\<lparr>is_Name := to_valid (is_Name s), is_Description := to_valid (is_Description s), is_Path := to_valid (is_Path s)\<rparr>"

definition received_File :: "FileInfo \<Rightarrow> FileInfo" where
  "received_File f = f\<lparr>fi_Name := to_valid (fi_Name f), fi_Path := to_valid (fi_Path f), fi_ModTime := to_valid (fi_ModTime f)\<rparr>"

definition received_Error :: "ErrorResponse \<Rightarrow> ErrorResponse" where
  "received_Error e = e\<lparr>er_Error := to_valid (er_Error e), er_Detail := to_valid (er_Detail e)\<rparr>"

definition received_Created :: "CreateEnvironmentResponse \<Rightarrow> CreateEnvironmentResponse" where
  "received_Created r = r\<lparr>cr_ID := to_valid (cr_ID r), cr_Status := to_valid (cr_Status r), cr_Image := to_valid (cr_Image r)\<rparr>"

fun received :: "json \<Rightarrow> json" where
  "received (JError e) = JError (received_Error e)"
| "received (JStatus s) = JStatus (to_valid s)"
| "received (JCreated r) = JCreated (received_Created r)"
| "received (JEnvironment e) = JEnvironment (received_Environment e)"
| "received (JEnvironments es) = JEnvironments (map received_Environment es)"
| "received (JSnapshot s) = JSnapshot (received_Snapshot s)"
| "received (JSnapshots ss) = JSnapshots (map received_Snapshot ss)"
| "received (JSkill s) = JSkill (received_Skill s)"
| "received (JSkills ss) = JSkills (map received_Skill ss)"
| "received (JInstalled ss) = JInstalled (map received_Installed ss)"
| "received (JFiles fs) = JFiles (map received_File fs)"

text \<open>The values that arrive as they are: all their strings are UTF-8.\<close>

definition utf8_Spec :: "EnvironmentSpec \<Rightarrow> bool" where
  "utf8_Spec s \<longleftrightarrow> utf8 (Image s) \<and> utf8 (NetworkPolicy s) \<and> utf8_map (EnvVars s)"

definition utf8_Environment :: "Environment \<Rightarrow> bool" where
  "utf8_Environment e \<longleftrightarrow> list_all utf8 [env_ID e, env_TenantID e, env_UserID e, env_Status e, env_ContainerID e] \<and>
     utf8_Spec (env_Spec e)"

definition utf8_Snapshot :: "Snapshot \<Rightarrow> bool" where
  "utf8_Snapshot s \<longleftrightarrow> list_all utf8 [snap_ID s, snap_TenantID s, snap_UserID s, snap_EnvironmentID s, snap_ImageID s, snap_Label s]"

definition utf8_Skill :: "Skill \<Rightarrow> bool" where
  "utf8_Skill s \<longleftrightarrow> list_all utf8 [skill_ID s, skill_TenantID s, skill_UserID s, skill_Name s]"

definition utf8_Installed :: "InstalledSkill \<Rightarrow> bool" where
  "utf8_Installed s \<longleftrightarrow> list_all utf8 [is_Name s, is_Description s, is_Path s]"

definition utf8_File :: "FileInfo \<Rightarrow> bool" where
  "utf8_File f \<longleftrightarrow> list_all utf8 [fi_Name f, fi_Path f, fi_ModTime f]"

fun utf8_response :: "json \<Rightarrow> bool" where
  "utf8_response (JError e) = list_all utf8 [er_Error e, er_Detail e]"
| "utf8_response (JStatus s) = utf8 s"
| "utf8_response (JCreated r) = list_all utf8 [cr_ID r, cr_Status r, cr_Image r]"
| "utf8_response (JEnvironment e) = utf8_Environment e"
| "utf8_response (JEnvironments es) = list_all utf8_Environment es"
| "utf8_response (JSnapshot s) = utf8_Snapshot s"
| "utf8_response (JSnapshots ss) = list_all utf8_Snapshot ss"
| "utf8_response (JSkill s) = utf8_Skill s"
| "utf8_response (JSkills ss) = list_all utf8_Skill ss"
| "utf8_response (JInstalled ss) = list_all utf8_Installed ss"
| "utf8_response (JFiles fs) = list_all utf8_File fs"

lemma received_record_same:
  "received_Environment e = e \<longleftrightarrow> utf8_Environment e" "received_Snapshot s = s \<longleftrightarrow> utf8_Snapshot s"
  "received_Skill k = k \<longleftrightarrow> utf8_Skill k" "received_Installed n = n \<longleftrightarrow> utf8_Installed n" "received_File f = f \<longleftrightarrow> utf8_File f"
  "received_Error er = er \<longleftrightarrow> list_all utf8 [er_Error er, er_Detail er]"
  "received_Created cr = cr \<longleftrightarrow> list_all utf8 [cr_ID cr, cr_Status cr, cr_Image cr]"
  by (cases e; cases "env_Spec e"; auto simp: received_Environment_def utf8_Environment_def received_Spec_def utf8_Spec_def utf8_def received_map_same)
    ((cases s; cases k; cases n; cases f; cases er; cases cr;
      auto simp: received_Snapshot_def utf8_Snapshot_def received_Skill_def utf8_Skill_def received_Installed_def utf8_Installed_def
        received_File_def utf8_File_def received_Error_def received_Created_def utf8_def)+)

lemma map_same_iff: "map f xs = xs \<longleftrightarrow> list_all (\<lambda>x. f x = x) xs"
  by (induction xs) auto

lemma received_same: "received v = v \<longleftrightarrow> utf8_response v"
  by (cases v) (simp_all only: received.simps utf8_response.simps json.inject map_same_iff received_record_same utf8_def)

text \<open>The integers of a response are of the width Go gives them.\<close>

definition spec_ints :: "EnvironmentSpec \<Rightarrow> bool" where
  "spec_ints s \<longleftrightarrow> in_int64 (MemoryMB s) \<and> in_int64 (DiskMB s)"

fun response_ints :: "json \<Rightarrow> bool" where
  "response_ints (JError e) = in_int64 (er_Code e)"
| "response_ints (JEnvironment e) = spec_ints (env_Spec e)"
| "response_ints (JEnvironments es) = (\<forall>e \<in> set es. spec_ints (env_Spec e))"
| "response_ints (JSnapshot s) = in_int64 (snap_Size s)"
| "response_ints (JSnapshots ss) = (\<forall>s \<in> set ss. in_int64 (snap_Size s))"
| "response_ints (JSkill s) = in_int64 (skill_SizeBytes s)"
| "response_ints (JSkills ss) = (\<forall>s \<in> set ss. in_int64 (skill_SizeBytes s))"
| "response_ints (JFiles fs) = (\<forall>f \<in> set fs. in_int64 (fi_Size f))"
| "response_ints _ = True"

text \<open>The method of the client that reads such a response.\<close>

fun client_decode :: "codecs \<Rightarrow> json \<Rightarrow> reader \<Rightarrow> goerr + json" where
  "client_decode J (JError _) r = map_sum id JError (js_ErrorResponse J r)"
| "client_decode J (JStatus _) r = Inl io_EOF"
| "client_decode J (JCreated _) r = map_sum id JCreated (js_Created J r)"
| "client_decode J (JEnvironment _) r = map_sum id JEnvironment (js_Environment J r)"
| "client_decode J (JEnvironments _) r = map_sum id JEnvironments (js_Environments J r)"
| "client_decode J (JSnapshot _) r = map_sum id JSnapshot (js_Snapshot J r)"
| "client_decode J (JSnapshots _) r = map_sum id JSnapshots (js_Snapshots J r)"
| "client_decode J (JSkill _) r = map_sum id JSkill (js_Skill J r)"
| "client_decode J (JSkills _) r = map_sum id JSkills (js_Skills J r)"
| "client_decode J (JInstalled _) r = map_sum id JInstalled (js_Installed J r)"
| "client_decode J (JFiles _) r = map_sum id JFiles (js_Files J r)"

section \<open>Struct by struct\<close>

lemmas field_rules = arrives_string arrives_int arrives_bool arrives_float arrives_time arrives_map arrives_strings

lemma arrives_Spec:
  assumes "conv_ok C" and "spec_ints s"
  shows "arrives (Suc (Suc d)) (EnvironmentSpec_json C s) (apitypes_EnvironmentSpec C) zero_Spec (received_Spec s)"
  unfolding EnvironmentSpec_json_def apitypes_EnvironmentSpec_def
proof (rule arrives_struct [where us = "[\<lambda>x. x\<lparr>Image := to_valid (Image s)\<rparr>, \<lambda>x. x\<lparr>CPU := CPU s\<rparr>,
      \<lambda>x. x\<lparr>MemoryMB := MemoryMB s\<rparr>, \<lambda>x. x\<lparr>DiskMB := DiskMB s\<rparr>,
      \<lambda>x. x\<lparr>NetworkPolicy := to_valid (NetworkPolicy s)\<rparr>,
      \<lambda>x. x\<lparr>EnvVars := received_map (EnvVars s)\<rparr>]"], goal_cases)
  case 1
  show ?case
    by (simp add: find_field_def zero_Spec_def) (intro conjI impI arrives_field; simp add: field_rules assms(1) assms(2) [unfolded spec_ints_def])
qed (simp add: received_Spec_def zero_Spec_def)

lemma arrives_Environment:
  assumes "conv_ok C" and "spec_ints (env_Spec e)"
  shows "arrives (Suc (Suc (Suc d))) (Environment_json C e) (apitypes_Environment C) zero_Environment (received_Environment e)"
  unfolding Environment_json_def apitypes_Environment_def
proof (rule arrives_struct [where us = "[\<lambda>x. x\<lparr>env_ID := to_valid (env_ID e)\<rparr>,
      \<lambda>x. x\<lparr>env_TenantID := to_valid (env_TenantID e)\<rparr>,
      \<lambda>x. x\<lparr>env_UserID := to_valid (env_UserID e)\<rparr>,
      \<lambda>x. x\<lparr>env_Spec := received_Spec (env_Spec e)\<rparr>,
      \<lambda>x. x\<lparr>env_Status := to_valid (env_Status e)\<rparr>,
      \<lambda>x. x\<lparr>env_ContainerID := to_valid (env_ContainerID e)\<rparr>,
      \<lambda>x. x\<lparr>env_CreatedAt := env_CreatedAt e\<rparr>,
      \<lambda>x. x\<lparr>env_LastUsedAt := env_LastUsedAt e\<rparr>,
      \<lambda>x. x\<lparr>env_ExpiresAt := env_ExpiresAt e\<rparr>]"], goal_cases)
  case 1
  show ?case
    by (simp add: find_field_def zero_Environment_def) (intro conjI impI arrives_field; simp add: field_rules assms arrives_Spec)
qed (simp add: received_Environment_def zero_Environment_def)

lemma arrives_Snapshot:
  assumes "conv_ok C" and "in_int64 (snap_Size s)"
  shows "arrives (Suc d) (Snapshot_json C s) (apitypes_Snapshot C) zero_Snapshot (received_Snapshot s)"
  unfolding Snapshot_json_def apitypes_Snapshot_def
proof (rule arrives_struct [where us = "[\<lambda>x. x\<lparr>snap_ID := to_valid (snap_ID s)\<rparr>,
      \<lambda>x. x\<lparr>snap_TenantID := to_valid (snap_TenantID s)\<rparr>,
      \<lambda>x. x\<lparr>snap_UserID := to_valid (snap_UserID s)\<rparr>,
      \<lambda>x. x\<lparr>snap_EnvironmentID := to_valid (snap_EnvironmentID s)\<rparr>,
      \<lambda>x. x\<lparr>snap_ImageID := to_valid (snap_ImageID s)\<rparr>,
      \<lambda>x. x\<lparr>snap_Label := to_valid (snap_Label s)\<rparr>,
      \<lambda>x. x\<lparr>snap_Size := snap_Size s\<rparr>,
      \<lambda>x. x\<lparr>snap_CreatedAt := snap_CreatedAt s\<rparr>]"], goal_cases)
  case 1
  show ?case
    by (simp add: find_field_def zero_Snapshot_def) (intro conjI impI arrives_field; simp add: field_rules assms)
qed (simp add: received_Snapshot_def zero_Snapshot_def)

lemma arrives_Skill:
  assumes "conv_ok C" and "in_int64 (skill_SizeBytes s)"
  shows "arrives (Suc d) (Skill_json C s) (apitypes_Skill C) zero_Skill (received_Skill s)"
  unfolding Skill_json_def apitypes_Skill_def
proof (rule arrives_struct [where us = "[\<lambda>x. x\<lparr>skill_ID := to_valid (skill_ID s)\<rparr>,
      \<lambda>x. x\<lparr>skill_TenantID := to_valid (skill_TenantID s)\<rparr>,
      \<lambda>x. x\<lparr>skill_UserID := to_valid (skill_UserID s)\<rparr>,
      \<lambda>x. x\<lparr>skill_Name := to_valid (skill_Name s)\<rparr>,
      \<lambda>x. x\<lparr>skill_SizeBytes := skill_SizeBytes s\<rparr>,
      \<lambda>x. x\<lparr>skill_CreatedAt := skill_CreatedAt s\<rparr>,
      \<lambda>x. x\<lparr>skill_UpdatedAt := skill_UpdatedAt s\<rparr>]"], goal_cases)
  case 1
  show ?case
    by (simp add: find_field_def zero_Skill_def) (intro conjI impI arrives_field; simp add: field_rules assms)
qed (simp add: received_Skill_def zero_Skill_def)

lemma arrives_Installed:
  shows "arrives (Suc d) (InstalledSkill_json s) apitypes_InstalledSkill zero_InstalledSkill (received_Installed s)"
  unfolding InstalledSkill_json_def apitypes_InstalledSkill_def
proof (rule arrives_struct [where us = "[\<lambda>x. x\<lparr>is_Name := to_valid (is_Name s)\<rparr>,
      \<lambda>x. x\<lparr>is_Description := to_valid (is_Description s)\<rparr>,
      \<lambda>x. x\<lparr>is_Path := to_valid (is_Path s)\<rparr>]"], goal_cases)
  case 1
  show ?case
    by (simp add: find_field_def zero_InstalledSkill_def) (intro conjI impI arrives_field; simp add: field_rules)
qed (simp add: received_Installed_def zero_InstalledSkill_def)

lemma arrives_File:
  assumes "in_int64 (fi_Size f)"
  shows "arrives (Suc d) (FileInfo_json f) apitypes_FileInfo zero_FileInfo (received_File f)"
  unfolding FileInfo_json_def apitypes_FileInfo_def
proof (rule arrives_struct [where us = "[\<lambda>x. x\<lparr>fi_Name := to_valid (fi_Name f)\<rparr>,
      \<lambda>x. x\<lparr>fi_Path := to_valid (fi_Path f)\<rparr>,
      \<lambda>x. x\<lparr>fi_Size := fi_Size f\<rparr>, \<lambda>x. x\<lparr>fi_IsDir := fi_IsDir f\<rparr>,
      \<lambda>x. x\<lparr>fi_ModTime := to_valid (fi_ModTime f)\<rparr>]"], goal_cases)
  case 1
  show ?case
    by (simp add: find_field_def zero_FileInfo_def) (intro conjI impI arrives_field; simp add: field_rules assms)
qed (simp add: received_File_def zero_FileInfo_def)

lemma arrives_Error:
  assumes "in_int64 (er_Code e)"
  shows "arrives (Suc d) (ErrorResponse_json e) apitypes_ErrorResponse \<lparr>er_Error = [], er_Code = 0, er_Detail = []\<rparr> (received_Error e)"
  unfolding ErrorResponse_json_def apitypes_ErrorResponse_def
proof (rule arrives_struct [where us = "[\<lambda>x. x\<lparr>er_Error := to_valid (er_Error e)\<rparr>,
      \<lambda>x. x\<lparr>er_Code := er_Code e\<rparr>,
      \<lambda>x. x\<lparr>er_Detail := to_valid (er_Detail e)\<rparr>]"], goal_cases)
  case 1
  show ?case
    by (simp add: find_field_def ) (intro conjI impI arrives_field; simp add: field_rules assms)
qed (simp add: received_Error_def)

lemma arrives_Created:
  shows "arrives (Suc d) (CreateEnvironmentResponse_json r) apitypes_CreateEnvironmentResponse
    \<lparr>cr_ID = [], cr_Status = [], cr_Image = []\<rparr> (received_Created r)"
  unfolding CreateEnvironmentResponse_json_def apitypes_CreateEnvironmentResponse_def
proof (rule arrives_struct [where us = "[\<lambda>x. x\<lparr>cr_ID := to_valid (cr_ID r)\<rparr>,
      \<lambda>x. x\<lparr>cr_Status := to_valid (cr_Status r)\<rparr>,
      \<lambda>x. x\<lparr>cr_Image := to_valid (cr_Image r)\<rparr>]"], goal_cases)
  case 1
  show ?case
    by (simp add: find_field_def ) (intro conjI impI arrives_field; simp add: field_rules)
qed (simp add: received_Created_def )

lemma arrives_Event:
  shows "arrives (Suc d) (ExecEvent_json ev) apitypes_ExecEvent \<lparr>ev_Stream = [], ev_Data = []\<rparr>
    \<lparr>ev_Stream = to_valid (ev_Stream ev), ev_Data = to_valid (ev_Data ev)\<rparr>"
  unfolding ExecEvent_json_def apitypes_ExecEvent_def
proof (rule arrives_struct [where us = "[\<lambda>x. x\<lparr>ev_Stream := to_valid (ev_Stream ev)\<rparr>,
      \<lambda>x. x\<lparr>ev_Data := to_valid (ev_Data ev)\<rparr>]"], goal_cases)
  case 1
  show ?case
    by (simp add: find_field_def ) (intro conjI impI arrives_field; simp add: field_rules)
qed simp

definition received_create :: "CreateEnvironmentRequest \<Rightarrow> CreateEnvironmentRequest" where
  "received_create q = q\<lparr>cq_Image := to_valid (cq_Image q), cq_NetworkPolicy := to_valid (cq_NetworkPolicy q),
     cq_EnvVars := (if cq_EnvVars q = Some [] then None else received_map (cq_EnvVars q)), cq_SnapshotID := to_valid (cq_SnapshotID q)\<rparr>"

definition received_exec :: "ExecRequest \<Rightarrow> ExecRequest" where
  "received_exec q = q\<lparr>er_Command := map to_valid (er_Command q), er_WorkingDir := to_valid (er_WorkingDir q)\<rparr>"

lemma arrives_create:
  assumes "conv_ok C" and "in_int64 (cq_MemoryMB q)" and "in_int64 (cq_DiskMB q)"
  shows "arrives (Suc (Suc d)) (apitypes_CreateEnvironmentRequest C q) (CreateEnvironmentRequest_into C)
    zero_CreateEnvironmentRequest (received_create q)"
  unfolding apitypes_CreateEnvironmentRequest_def CreateEnvironmentRequest_into_def
proof (rule arrives_struct [where us = "[\<lambda>x. x\<lparr>cq_Image := to_valid (cq_Image q)\<rparr>,
      \<lambda>x. x\<lparr>cq_CPU := cq_CPU q\<rparr>,
      \<lambda>x. x\<lparr>cq_MemoryMB := cq_MemoryMB q\<rparr>,
      \<lambda>x. x\<lparr>cq_DiskMB := cq_DiskMB q\<rparr>,
      \<lambda>x. x\<lparr>cq_NetworkPolicy := to_valid (cq_NetworkPolicy q)\<rparr>,
      \<lambda>x. x\<lparr>cq_EnvVars := cq_EnvVars (received_create q)\<rparr>, \<lambda>x. x\<lparr>cq_SnapshotID := to_valid (cq_SnapshotID q)\<rparr>]"], goal_cases)
  case 1
  show ?case
    by (simp add: find_field_def zero_CreateEnvironmentRequest_def) (intro conjI impI arrives_field; simp add: field_rules arrives_map [unfolded received_map_def] assms received_create_def received_map_def)
qed (simp add: received_create_def zero_CreateEnvironmentRequest_def)

lemma arrives_exec:
  assumes "in_int64 (er_TimeoutSeconds q)"
  shows "arrives (Suc (Suc d)) (apitypes_ExecRequest isnil q) ExecRequest_into zero_ExecRequest (received_exec q)"
  unfolding apitypes_ExecRequest_def ExecRequest_into_def
proof (rule arrives_struct [where us = "[\<lambda>x. x\<lparr>er_Command := map to_valid (er_Command q)\<rparr>,
      \<lambda>x. x\<lparr>er_WorkingDir := to_valid (er_WorkingDir q)\<rparr>,
      \<lambda>x. x\<lparr>er_TimeoutSeconds := er_TimeoutSeconds q\<rparr>,
      \<lambda>x. x\<lparr>er_CaptureOutput := er_CaptureOutput q\<rparr>]"], goal_cases)
  case 1
  show ?case
    by (simp add: find_field_def zero_ExecRequest_def) (intro conjI impI arrives_field; simp add: field_rules assms)
qed (simp add: received_exec_def zero_ExecRequest_def)

lemma arrives_label:
  shows "arrives (Suc d) (apitypes_CreateSnapshotRequest l) createSnapshotRequest_into [] (to_valid l)"
  unfolding apitypes_CreateSnapshotRequest_def createSnapshotRequest_into_def
proof (rule arrives_struct [where us = "[\<lambda>x. to_valid l]"], goal_cases)
  case 1
  show ?case
    by (simp add: find_field_def ) (intro conjI impI arrives_field; simp add: field_rules)
qed simp

section \<open>Bodies\<close>

lemma Encode_arrives:
  "arrives maxNestingDepth v f zero y \<Longrightarrow> v = Inr j \<Longrightarrow> decode_value f zero \<lparr>rd_data = Encoder_Encode v, rd_err = None\<rparr> = Inr y"
  by (simp add: Encoder_Encode_def decode_encoded)

lemma levels: "maxNestingDepth = Suc (Suc (Suc (Suc 9996)))"
  by (simp add: maxNestingDepth_def)

text \<open>A request that was marshalled is read by the strict decoder, and nothing follows it.\<close>

lemma body_decoder_Marshal:
  assumes "arrives maxNestingDepth v f zero y" and "json_Marshal v = Inr data" and "length data \<le> 2 ^ 20"
  shows "body_decoder f zero (MaxBytesReader \<lparr>rd_data = data, rd_err = None\<rparr> maxBodySize) = Inr (y, False)"
proof -
  obtain j where j: "v = Inr j" "data = json_text j" using assms(2) by (auto simp: json_Marshal_def split: sum.splits)
  have "json_scan data = Got (repaired j) []" using assms(1) j json_scan_text [of j "[]"] by (simp add: arrives_def)
  then show ?thesis
    using assms(1,3) j(1)
    by (simp add: body_decoder_def MaxBytesReader_def maxBodySize_def Decoder_Decode_def Decoder_More_def skip_space_def arrives_def)
qed

text \<open>A line of a stream has no line feed in it and does not end in a carriage return.\<close>

lemma escape_ascii_line: "CHR 0x0A \<notin> set (escape_ascii c)"
proof -
  have "hex_value (CHR 0x0A) = None" by (simp add: hex_value_def)
  then have h: "CHR 0x0A \<noteq> lower_hex n" if "n < 16" for n using hex_value_lower [OF that] by auto
  have "(of_char c :: nat) div 16 < 16" "(of_char c :: nat) mod 16 < 16"
    using of_char_mod_256 [of c, where ?'a = nat] by (simp_all add: less_mult_imp_div_less) 
  with h show ?thesis by (auto simp: escape_ascii_def)
qed

lemma utf8_width_line:
  assumes "1 < utf8_width (c # r)"
  shows "CHR 0x0A \<notin> set (take (utf8_width (c # r)) (c # r))"
  using assms by (cases rule: utf8_width_cases [OF order.strict_trans [OF zero_less_one assms]])
    (auto simp: second_byte_def cont_byte_def split: if_splits)

lemma escape_line: "CHR 0x0A \<notin> set (escape s) \<and> length (escape s) \<le> 6 * length s"
proof (induction s rule: escape.induct)
  case (2 c r)
  let ?w = "utf8_width (c # r)"
  show ?case
  proof (cases "?w = 0")
    case True
    with 2(1) [OF refl refl True] show ?thesis by (simp add: escape.simps(2))
  next
    case False
    note ih = 2(2) [OF refl refl False]
    have l: "length (escape_ascii c) \<le> 6" by (simp add: escape_ascii_def)
    have d: "length (drop ?w (c # r)) + ?w = length (c # r)" using utf8_width_le [of "c # r"] by simp
    show ?thesis
    proof (cases "?w = 1")
      case True
      then show ?thesis using ih l d escape_ascii_line [of c] by (simp add: escape.simps(2))
    next
      case one: False
      then have "1 < ?w" using False by simp
      with utf8_width_line [OF this] ih d one False show ?thesis by (auto simp: escape.simps(2) Let_def)
    qed
  qed
qed simp

lemma event_text_eq: "event_text ev = ''{'' @ json_quote ''stream'' @ '':'' @ json_quote (ev_Stream ev) @ '','' @ json_quote ''data'' @ '':'' @
    json_quote (ev_Data ev) @ ''}''"
  by (simp add: event_text_def ExecEvent_json_def encode_struct_def encode_string_def)

lemma event_text_line: "length (ev_Stream ev) + length (ev_Data ev) \<le> 10900 \<Longrightarrow> line_ok (event_text ev)"
  using escape_line [of "ev_Stream ev"] escape_line [of "ev_Data ev"] escape_line [of "''stream''"] escape_line [of "''data''"]
  by (simp add: event_text_eq line_ok_def json_quote_def)

lemma event_line_ok: "length (event_text ev) < 65536 \<Longrightarrow> line_ok (event_text ev)"
  and event_text_one_line: "CHR 0x0A \<notin> set (event_text ev)"
  using escape_line [of "ev_Stream ev"] escape_line [of "ev_Data ev"] escape_line [of "''stream''"] escape_line [of "''data''"]
  by (simp_all add: event_text_eq line_ok_def json_quote_def)

lemma event_decoded:
  "js_event (wire_codecs C isnil ind) (event_text ev) = Inr \<lparr>ev_Stream = to_valid (ev_Stream ev), ev_Data = to_valid (ev_Data ev)\<rparr>"
proof -
  have a: "arrives maxNestingDepth (ExecEvent_json ev) apitypes_ExecEvent \<lparr>ev_Stream = [], ev_Data = []\<rparr>
      \<lparr>ev_Stream = to_valid (ev_Stream ev), ev_Data = to_valid (ev_Data ev)\<rparr>"
    unfolding levels by (rule arrives_Event)
  obtain j where "ExecEvent_json ev = Inr j" by (simp add: ExecEvent_json_def encode_struct_def encode_string_def)
  with Unmarshal_encoded [OF a this] show ?thesis by (simp add: wire_codecs_def event_text_def)
qed

text \<open>A request that was accepted may be followed by anything that starts with a closing bracket.\<close>

lemma body_decoder_trailing:
  assumes "arrives maxNestingDepth v f zero y" and "json_Marshal v = Inr data" and "length (data @ c # junk) \<le> 2 ^ 20"
    and "c = CHR '']'' \<or> c = CHR ''}''"
  shows "body_decoder f zero (MaxBytesReader \<lparr>rd_data = data @ c # junk, rd_err = None\<rparr> maxBodySize) = Inr (y, False)"
proof -
  obtain j where j: "v = Inr j" "data = json_text j" using assms(2) by (auto simp: json_Marshal_def split: sum.splits)
  have e: "ends_number (c # junk)" and sp: "\<not> is_space c" using assms(4) by auto
  have "json_scan (data @ c # junk) = Got (repaired j) (c # junk)"
    using assms(1) j json_scan_text [OF _ e, of j] by (simp add: arrives_def)
  then show ?thesis
    using assms(1,3,4) j(1) sp
    by (simp add: body_decoder_def MaxBytesReader_def maxBodySize_def Decoder_Decode_def Decoder_More_def skip_space_def arrives_def)
qed

text \<open>The structs at the outer levels of a body.\<close>

abbreviation inner_levels :: nat where
  "inner_levels \<equiv> Suc (Suc (Suc 9996))"

lemmas arrives_body =
  arrives_Environment [where d = "Suc 9996", folded levels] arrives_Snapshot [where d = inner_levels, folded levels]
  arrives_Skill [where d = inner_levels, folded levels] arrives_Error [where d = inner_levels, folded levels]
  arrives_Created [where d = inner_levels, folded levels] arrives_create [where d = "Suc (Suc 9996)", folded levels]
  arrives_exec [where d = "Suc (Suc 9996)", folded levels] arrives_label [where d = inner_levels, folded levels]

lemmas arrives_element =
  arrives_Environment [where d = 9996] arrives_Snapshot [where d = "Suc (Suc 9996)"] arrives_Skill [where d = "Suc (Suc 9996)"]
  arrives_Installed [where d = "Suc (Suc 9996)"] arrives_File [where d = "Suc (Suc 9996)"]

lemma arrives_listing:
  "(\<And>x. x \<in> set xs \<Longrightarrow> arrives inner_levels (f x) g zero (h x)) \<Longrightarrow>
    arrives maxNestingDepth (encode_list isnil f xs) (list_into g zero) [] (map h xs)"
  unfolding levels by (rule arrives_list)

lemma client_reads:
  assumes "response_json C isnil v = Inr j" and "arrives maxNestingDepth (response_json C isnil v) f zero y"
  shows "decode_value f zero \<lparr>rd_data = response_bytes C isnil v, rd_err = None\<rparr> = Inr y"
  using Encode_arrives [OF assms(2,1)] by (simp add: response_bytes_def)

lemma client_bodies:
  assumes "conv_ok C"
  shows "response_json C isnil (JError er) = Inr j \<Longrightarrow> in_int64 (er_Code er) \<Longrightarrow>
      decode_value apitypes_ErrorResponse \<lparr>er_Error = [], er_Code = 0, er_Detail = []\<rparr>
        \<lparr>rd_data = response_bytes C isnil (JError er), rd_err = None\<rparr> = Inr (received_Error er)"
    and "response_json C isnil (JCreated cr) = Inr j \<Longrightarrow>
      decode_value apitypes_CreateEnvironmentResponse \<lparr>cr_ID = [], cr_Status = [], cr_Image = []\<rparr>
        \<lparr>rd_data = response_bytes C isnil (JCreated cr), rd_err = None\<rparr> = Inr (received_Created cr)"
    and "response_json C isnil (JEnvironment e) = Inr j \<Longrightarrow> spec_ints (env_Spec e) \<Longrightarrow>
      decode_value (apitypes_Environment C) zero_Environment
        \<lparr>rd_data = response_bytes C isnil (JEnvironment e), rd_err = None\<rparr> = Inr (received_Environment e)"
    and "response_json C isnil (JEnvironments es) = Inr j \<Longrightarrow> \<forall>e \<in> set es. spec_ints (env_Spec e) \<Longrightarrow>
      decode_value (list_into (apitypes_Environment C) zero_Environment) []
        \<lparr>rd_data = response_bytes C isnil (JEnvironments es), rd_err = None\<rparr> = Inr (map received_Environment es)"
    and "response_json C isnil (JSnapshot s) = Inr j \<Longrightarrow> in_int64 (snap_Size s) \<Longrightarrow>
      decode_value (apitypes_Snapshot C) zero_Snapshot
        \<lparr>rd_data = response_bytes C isnil (JSnapshot s), rd_err = None\<rparr> = Inr (received_Snapshot s)"
    and "response_json C isnil (JSnapshots ss) = Inr j \<Longrightarrow> \<forall>s \<in> set ss. in_int64 (snap_Size s) \<Longrightarrow>
      decode_value (list_into (apitypes_Snapshot C) zero_Snapshot) []
        \<lparr>rd_data = response_bytes C isnil (JSnapshots ss), rd_err = None\<rparr> = Inr (map received_Snapshot ss)"
    and "response_json C isnil (JSkill sk) = Inr j \<Longrightarrow> in_int64 (skill_SizeBytes sk) \<Longrightarrow>
      decode_value (apitypes_Skill C) zero_Skill
        \<lparr>rd_data = response_bytes C isnil (JSkill sk), rd_err = None\<rparr> = Inr (received_Skill sk)"
    and "response_json C isnil (JSkills sks) = Inr j \<Longrightarrow> \<forall>s \<in> set sks. in_int64 (skill_SizeBytes s) \<Longrightarrow>
      decode_value (list_into (apitypes_Skill C) zero_Skill) []
        \<lparr>rd_data = response_bytes C isnil (JSkills sks), rd_err = None\<rparr> = Inr (map received_Skill sks)"
    and "response_json C isnil (JInstalled iss) = Inr j \<Longrightarrow>
      decode_value (list_into apitypes_InstalledSkill zero_InstalledSkill) []
        \<lparr>rd_data = response_bytes C isnil (JInstalled iss), rd_err = None\<rparr> = Inr (map received_Installed iss)"
    and "response_json C isnil (JFiles fs) = Inr j \<Longrightarrow> \<forall>f \<in> set fs. in_int64 (fi_Size f) \<Longrightarrow>
      decode_value (list_into apitypes_FileInfo zero_FileInfo) []
        \<lparr>rd_data = response_bytes C isnil (JFiles fs), rd_err = None\<rparr> = Inr (map received_File fs)"
  by (erule client_reads, unfold response_json.simps,
      intro arrives_body arrives_listing arrives_element assms; (rule assms | simp))+

text \<open>A conversion for examples: whole numbers only, and times as numbers.\<close>

definition ex_conv :: conv where
  "ex_conv = \<lparr>cv_FormatFloat = (\<lambda>f. case f of Fin q \<Rightarrow> (if q = 2 then Inr ''2'' else Inl io_EOF) | _ \<Rightarrow> Inl io_EOF),
     cv_ParseFloat = (\<lambda>n. if n = ''2'' then Some (Fin 2) else None),
     cv_FormatTime = (\<lambda>t. if t = 0 then Inr ''1970-01-01T00:00:00Z'' else Inl io_EOF),
     cv_ParseTime = (\<lambda>s. if s = ''1970-01-01T00:00:00Z'' then Inr 0 else Inl io_EOF)\<rparr>"

lemma ex_conv_ok: "conv_ok ex_conv"
proof -
  have "number_text ''2''" by code_simp
  then show ?thesis by (auto simp: conv_ok_def ex_conv_def utf8_def to_valid_all_ascii split: float64.splits if_splits)
qed

section \<open>Properties\<close>

text \<open>C29: every response of the API but that of the health check is read by the client as what the
  server sent, up to UTF-8: for each of the ten bodies the SDK decodes (errors, environments and
  their listings, snapshots, skills, installed skills, files), the decoder of \<open>pkg/apitypes\<close> applied to
  the bytes the server's encoder wrote succeeds with \<open>received v\<close>, the value with each string repaired
  to UTF-8 (of two environment variables whose names become the same one is kept), whether an empty
  listing was a nil slice or not; and this is the value that was sent exactly when all its strings are
  UTF-8.\<close>

theorem responses_decode:
  assumes "conv_ok C" and "response_json C isnil v = Inr j" and "response_ints v" and "\<forall>s. v \<noteq> JStatus s"
  shows "client_decode (wire_codecs C isnil' ind) v \<lparr>rd_data = response_bytes C isnil v, rd_err = None\<rparr> = Inr (received v) \<and>
    (received v = v \<longleftrightarrow> utf8_response v)"
proof
  show "client_decode (wire_codecs C isnil' ind) v \<lparr>rd_data = response_bytes C isnil v, rd_err = None\<rparr> = Inr (received v)"
    using assms by (cases v) (simp_all add: client_bodies wire_codecs_def del: response_json.simps)
qed (rule received_same)

definition ex_response :: json where
  "ex_response = JSnapshots [\<lparr>snap_ID = ''snap_a'', snap_TenantID = ''t'', snap_UserID = ''u'', snap_EnvironmentID = ''env_a'',
     snap_ImageID = ''i'', snap_Label = ''<a & b>'', snap_Size = 7, snap_CreatedAt = 0\<rparr>]"

theorem responses_decode_witness:
  "client_decode (wire_codecs ex_conv False (\<lambda>_. Inr [])) ex_response \<lparr>rd_data = response_bytes ex_conv False ex_response, rd_err = None\<rparr> =
    Inr ex_response"
proof -
  have "utf8_response ex_response" by (simp add: ex_response_def utf8_Snapshot_def utf8_def)
  moreover have "\<exists>j. response_json ex_conv False ex_response = Inr j"
    by (simp add: ex_response_def encode_list_def Snapshot_json_def encode_struct_def encode_string_def encode_int_def encode_time_def ex_conv_def)
  ultimately show ?thesis
    using responses_decode [OF ex_conv_ok, of False ex_response _ False "\<lambda>_. Inr []"]
    by (auto simp: ex_response_def in_int64_def)
qed

end
