(* ===== verification/Wire_Service.thy ===== *)
theory Wire_Service
  imports Wire Deployment
begin

text \<open>
  The service and its SDK on bytes: the loopback connection of \<open>Deployment\<close> with the encoders and
  decoders of \<open>Wire\<close> on both sides, so that requests, responses and the stream of a command are the
  JSON texts that go over the network.
\<close>

section \<open>The connection on bytes\<close>

definition wire_glue :: "conv \<Rightarrow> bool \<Rightarrow> glue \<Rightarrow> glue" where
  "wire_glue C isnil G = G\<lparr>gl_json := response_bytes C isnil, gl_event := event_text\<rparr>"

lemma wire_fields [simp]:
  "gl_event (wire_glue C isnil G) = event_text" "gl_NewRequest (wire_glue C isnil G) = gl_NewRequest G"
  "gl_before (wire_glue C isnil G) = gl_before G" "gl_after (wire_glue C isnil G) = gl_after G"
  "api_store (wire_api C A) = api_store A" "api_engine (wire_api C A) = api_engine A" "api_hashing (wire_api C A) = api_hashing A"
  "api_now (wire_api C A) = api_now A" "api_match (wire_api C A) = api_match A"
  "api_decode_exec (wire_api C A) = body_decoder ExecRequest_into zero_ExecRequest"
  by (simp_all add: wire_glue_def wire_api_def)

text \<open>The exit code of a process has at most 20 characters.\<close>

lemma length_show_nat: "n < 10 ^ k \<Longrightarrow> 0 < k \<Longrightarrow> length (show_nat n) \<le> k"
proof (induction k arbitrary: n)
  case (Suc k)
  show ?case
  proof (cases "n < 10")
    case False
    then have "k \<noteq> 0" using Suc.prems(1) by (cases k) auto
    have "length (show_nat (n div 10)) \<le> k"
      using Suc.IH [of "n div 10"] Suc.prems(1) \<open>k \<noteq> 0\<close> by (simp add: less_mult_imp_div_less)
    with False show ?thesis by (subst show_nat.simps) simp
  qed (simp add: show_nat.simps)
qed simp

lemma length_show_int: "in_int64 i \<Longrightarrow> length (show_int i) \<le> 20"
proof -
  assume "in_int64 i"
  then have "nat i < 10 ^ 19" "nat (- i) < 10 ^ 19" by (auto simp: in_int64_def)
  with length_show_nat [of "nat i" 19] length_show_nat [of "nat (- i)" 19] show ?thesis by (simp add: show_int_def)
qed

text \<open>What the client decodes of the events of a command: every frame repaired on its own.\<close>

definition repaired_event :: "ExecEvent \<Rightarrow> ExecEvent" where
  "repaired_event ev = \<lparr>ev_Stream = to_valid (ev_Stream ev), ev_Data = to_valid (ev_Data ev)\<rparr>"

lemma stream_name_cases: "stream_name n = (if n = 2 then ''stderr'' else ''stdout'')"
  by (simp add: stream_name_def)

lemma repaired_events:
  "map repaired_event (command_events fs code) = command_events (map (\<lambda>(n, d). (n, to_valid d)) fs) code"
  by (auto simp: command_events_def repaired_event_def frame_event_def stream_name_cases)

text \<open>What the client makes of the stream of a command: the result, or the error of its scanner when an
  event has a line of 64 KB or more.\<close>

lemma command_result:
  assumes "\<forall>ev \<in> set (command_events fs code). length (event_text ev) < 65536"
  shows "exec_result (wire_codecs C isnil ind) \<lparr>rd_data = ndjson_bytes event_text (command_events fs code), rd_err = None\<rparr> =
    Inr \<lparr>res_Stdout = concat (map (\<lambda>f. to_valid (snd f)) (filter (\<lambda>f. fst f \<noteq> 2) fs)),
      res_Stderr = concat (map (\<lambda>f. to_valid (snd f)) (filter (\<lambda>f. fst f = 2) fs)), res_ExitCode = show_int code\<rparr>"
proof -
  let ?fs = "map (\<lambda>(n, d). (n, to_valid d)) fs"
  have "\<forall>ev \<in> set (command_events fs code). js_event (wire_codecs C isnil ind) (event_text ev) = Inr (repaired_event ev) \<and> line_ok (event_text ev)"
    using assms by (simp add: event_decoded repaired_event_def event_line_ok)
  note r = exec_result_lines [OF this, unfolded repaired_events]
  have m: "map snd (filter (\<lambda>f. P (fst f)) ?fs) = map (\<lambda>f. to_valid (snd f)) (filter (\<lambda>f. P (fst f)) fs)" for P
    by (induction fs) auto
  show ?thesis
    using r unfolding command_events_def stream_data_frames m [of "\<lambda>n. n \<noteq> 2"] m [of "\<lambda>n. n = 2"] .
qed

lemma command_too_long:
  "\<not> (\<forall>ev \<in> set evs. length (event_text ev) < 65536) \<Longrightarrow>
    exec_result J \<lparr>rd_data = ndjson_bytes event_text evs, rd_err = None\<rparr> =
      Inl (Context ''reading exec stream'' (Opaque ''bufio.Scanner: token too long''))"
  using long_line [of evs event_text _ J] by (auto simp: event_text_one_line not_less)

text \<open>Repairing the frames one by one changes the stream exactly when one of them is not UTF-8.\<close>

lemma length_repaired: "length (concat ds) \<le> length (concat (map to_valid ds))"
  by (induction ds) (simp_all add: add_mono length_to_valid)

lemma repaired_stream: "concat (map to_valid ds) = concat ds \<longleftrightarrow> (\<forall>d \<in> set ds. utf8 d)"
proof
  show "\<forall>d \<in> set ds. utf8 d" if "concat (map to_valid ds) = concat ds"
    using that
  proof (induction ds)
    case (Cons d ds)
    have "length (to_valid d) + length (concat (map to_valid ds)) = length d + length (concat ds)"
      using arg_cong [OF Cons.prems, of length] by simp
    with length_to_valid [of d] length_repaired [of ds] have "length (to_valid d) = length d" by linarith
    then have "to_valid d = d" by (rule length_to_valid_eq)
    with Cons show ?case by (simp add: utf8_def)
  qed simp
  show "concat (map to_valid ds) = concat ds" if "\<forall>d \<in> set ds. utf8 d"
    using that by (induction ds) (simp_all add: utf8_def)
qed

section \<open>Properties\<close>

text \<open>C30: the server accepts every request of the client that is within its limit of 1 MB (a larger one
  it refuses): what the SDK marshals of a request to create an environment, to run a command or to
  take a snapshot passes the server's decoder, which refuses unknown fields and trailing content, and
  decodes to the request that was made, its strings repaired to UTF-8 - fields the client left out are
  the zero values they had.  So does the decoder of labels, whose error the handler would ignore.\<close>

theorem requests_accepted:
  assumes "conv_ok C" and "in_int64 (cq_MemoryMB q)" and "in_int64 (cq_DiskMB q)" and "in_int64 (er_TimeoutSeconds x)"
    and "js_create (wire_codecs C isnil ind) q = Inr d1" and "length d1 \<le> 2 ^ 20" and "rq_Body r1 = \<lparr>rd_data = d1, rd_err = None\<rparr>"
    and "js_exec (wire_codecs C isnil ind) x = Inr d2" and "length d2 \<le> 2 ^ 20" and "rq_Body r2 = \<lparr>rd_data = d2, rd_err = None\<rparr>"
    and "js_label (wire_codecs C isnil ind) l = Inr d3" and "length d3 \<le> 2 ^ 20" and "rq_Body r3 = \<lparr>rd_data = d3, rd_err = None\<rparr>"
  shows "decodeJSON (api_decode_create (wire_api C A)) r1 = Inr (received_create q) \<and>
    decodeJSON (api_decode_exec (wire_api C A)) r2 = Inr (received_exec x) \<and>
    decodeJSON (body_decoder createSnapshotRequest_into []) r3 = Inr (to_valid l) \<and>
    api_decode_label (wire_api C A) (MaxBytesReader (rq_Body r3) maxBodySize) = to_valid l"
proof -
  have "json_Marshal (apitypes_CreateEnvironmentRequest C q) = Inr d1" "json_Marshal (apitypes_ExecRequest isnil x) = Inr d2"
    "json_Marshal (apitypes_CreateSnapshotRequest l) = Inr d3"
    using assms(5,8,11) by (simp_all add: wire_codecs_def)
  from body_decoder_Marshal [OF arrives_body(6) [OF assms(1-3)] this(1) assms(6)]
    body_decoder_Marshal [OF arrives_body(7) [OF assms(4)] this(2) assms(9)]
    body_decoder_Marshal [OF arrives_body(8) this(3) assms(12)]
  show ?thesis
    using assms(7,10,13)
    by (auto simp: wire_api_def decodeJSON_def label_decoder_def) (auto simp: body_decoder_def split: sum.splits prod.splits option.splits)
qed

text \<open>The requests of the example: an environment, a command and a label.\<close>

definition ex_create_request :: CreateEnvironmentRequest where
  "ex_create_request = zero_CreateEnvironmentRequest\<lparr>cq_Image := ''alpine:3'', cq_MemoryMB := 512\<rparr>"

lemma ex_requests:
  "js_create (wire_codecs ex_conv False ind) ex_create_request = Inr (CHR ''{'' # json_quote ''image'' @ '':'' @ json_quote ''alpine:3'' @ '','' @
     json_quote ''memory_mb'' @ '':'' @ show_int 512 @ ''}'')"
  "js_exec (wire_codecs ex_conv False ind) ex_command = Inr (CHR ''{'' # json_quote ''command'' @ '':['' @ json_quote ''ls'' @ '']}'')"
  "js_label (wire_codecs ex_conv False ind) ''v1'' = Inr (CHR ''{'' # json_quote ''label'' @ '':'' @ json_quote ''v1'' @ ''}'')"
  by (simp_all add: wire_codecs_def json_Marshal_def apitypes_CreateEnvironmentRequest_def apitypes_ExecRequest_def
      apitypes_CreateSnapshotRequest_def ex_create_request_def zero_CreateEnvironmentRequest_def ex_command_def encode_struct_def
      encode_string_def encode_int_def encode_list_def)

lemma length_json_quote: "length (json_quote s) \<le> 6 * length s + 2"
  using escape_line [of s] by (simp add: json_quote_def)

lemma ex_requests_length:
  "length (CHR ''{'' # json_quote ''image'' @ '':'' @ json_quote ''alpine:3'' @ '','' @ json_quote ''memory_mb'' @ '':'' @ show_int 512 @ ''}'') \<le> 2 ^ 20"
  "length (CHR ''{'' # json_quote ''command'' @ '':['' @ json_quote ''ls'' @ '']}'') \<le> 2 ^ 20"
  "length (CHR ''{'' # json_quote ''label'' @ '':'' @ json_quote ''v1'' @ ''}'') \<le> 2 ^ 20"
  using length_json_quote [of "''image''"] length_json_quote [of "''alpine:3''"] length_json_quote [of "''memory_mb''"]
    length_json_quote [of "''command''"] length_json_quote [of "''ls''"] length_json_quote [of "''label''"] length_json_quote [of "''v1''"]
    length_show_int [of 512]
  by (simp_all add: in_int64_def)

definition ex_body :: "bytes \<Rightarrow> request" where
  "ex_body data = (ex_request ''POST'' ''/v1/environments/'' ''Bearer alice'')\<lparr>rq_Body := \<lparr>rd_data = data, rd_err = None\<rparr>\<rparr>"

theorem requests_accepted_witness:
  "\<exists>d1 d2 d3. js_create (wire_codecs ex_conv False (\<lambda>_. Inr [])) ex_create_request = Inr d1 \<and>
     decodeJSON (api_decode_create (wire_api ex_conv (ex_api memory_store))) (ex_body d1) = Inr ex_create_request \<and>
     js_exec (wire_codecs ex_conv False (\<lambda>_. Inr [])) ex_command = Inr d2 \<and>
     decodeJSON (api_decode_exec (wire_api ex_conv (ex_api memory_store))) (ex_body d2) = Inr ex_command \<and>
     js_label (wire_codecs ex_conv False (\<lambda>_. Inr [])) ''v1'' = Inr d3 \<and>
     decodeJSON (body_decoder createSnapshotRequest_into []) (ex_body d3) = Inr ''v1''"
proof -
  note r = ex_requests [of "\<lambda>_. Inr []"]
  have "received_create ex_create_request = ex_create_request" "received_exec ex_command = ex_command"
    by (simp_all add: received_create_def ex_create_request_def zero_CreateEnvironmentRequest_def received_map_def received_exec_def ex_command_def)
  moreover have "in_int64 (cq_MemoryMB ex_create_request)" "in_int64 (cq_DiskMB ex_create_request)" "in_int64 (er_TimeoutSeconds ex_command)"
    by (simp_all add: ex_create_request_def zero_CreateEnvironmentRequest_def ex_command_def in_int64_def)
  moreover have "rq_Body (ex_body d) = \<lparr>rd_data = d, rd_err = None\<rparr>" for d by (simp add: ex_body_def)
  ultimately show ?thesis
    using requests_accepted [OF ex_conv_ok _ _ _ r(1) ex_requests_length(1) _ r(2) ex_requests_length(2) _ r(3) ex_requests_length(3),
        of "ex_body _" "ex_body _" "ex_body _" "ex_api memory_store"] r by auto
qed

text \<open>C39: the check for trailing content does not see everything: a body that is a valid request followed
  by a closing bracket or brace and then by anything at all is accepted as that request.\<close>

theorem trailing_content_accepted:
  assumes "in_int64 (er_TimeoutSeconds x)" and "js_exec (wire_codecs C isnil ind) x = Inr data"
    and "rq_Body r = \<lparr>rd_data = data @ c # junk, rd_err = None\<rparr>" and "length (data @ c # junk) \<le> 2 ^ 20" and "c \<in> set ''}]''"
  shows "decodeJSON (api_decode_exec (wire_api C A)) r = Inr (received_exec x)"
proof -
  have "json_Marshal (apitypes_ExecRequest isnil x) = Inr data" using assms(2) by (simp add: wire_codecs_def)
  from body_decoder_trailing [OF arrives_body(7) [OF assms(1)] this assms(4), of] assms(3,5) show ?thesis
    by (auto simp: decodeJSON_def)
qed

theorem trailing_content_accepted_witness:
  "\<exists>data. js_exec (wire_codecs ex_conv False (\<lambda>_. Inr [])) ex_command = Inr data \<and>
     decodeJSON (api_decode_exec (wire_api ex_conv (ex_api memory_store))) (ex_body (data @ ''} {}'')) = Inr ex_command"
proof -
  note r = ex_requests(2) [of "\<lambda>_. Inr []"]
  have "received_exec ex_command = ex_command" "in_int64 (er_TimeoutSeconds ex_command)"
    by (simp_all add: received_exec_def ex_command_def in_int64_def)
  moreover have "length ((CHR ''{'' # json_quote ''command'' @ '':['' @ json_quote ''ls'' @ '']}'') @ ''} {}'') \<le> 2 ^ 20"
    using length_json_quote [of "''command''"] length_json_quote [of "''ls''"] by simp
  ultimately show ?thesis
    using trailing_content_accepted [OF _ r, of "ex_body _" "CHR ''}''" "'' {}''" "ex_api memory_store"] r
    by (auto simp: ex_body_def)
qed

text \<open>C28: a command run with the SDK, byte for byte, on a running environment of the caller, with a request
  within 1 MB and whatever frames the container writes to its two streams.  If the line of every event
  is shorter than 64 KB, the client's result is each stream frame by frame, every frame repaired to
  UTF-8 on its own, and the exit code in decimal: the output arrives unchanged exactly when every single
  frame is UTF-8, so a character whose bytes are in two frames is lost even if the output is UTF-8.  If
  one line is longer, the client answers the error of its scanner and nothing of the output.  The
  command ran all the same.\<close>

theorem sdk_exec_on_bytes:
  assumes "uuid_ok (api_hashing A)" and "api_store A = memory_store" and "mem_inv (w_mem w)"
    and "a_envs (mem_abs (w_mem w)) i = Some e" and "env_UserID e = user_of (api_hashing A) (cl_apiKey c) (cl_endUserID c)"
    and "env_Status e = StatusRunning" and "cl_apiKey c \<in> set keys" and "cl_apiKey c \<noteq> []" and "plain_id i"
    and "api_match A routes ''POST'' (exec_path i) = Some (route.Exec, i)"
    and "\<And>m url. gl_NewRequest G m url = None" and "\<And>req. gl_before G req = None" and "\<And>req. gl_after G req = None"
    and "in_int64 (er_TimeoutSeconds req)" and "js_exec (wire_codecs C isnil ind) req = Inr data" and "length data \<le> 2 ^ 20"
    and "er_Command req \<noteq> []"
    and "eng_Exec (api_engine A) (env_ContainerID e) (received_exec req) (w_eng w) =
      (Inr \<lparr>xr_reader = \<lparr>rd_data = concat (map frame fs), rd_err = None\<rparr>, xr_execID = Some x\<rparr>, eng1)"
    and "\<forall>f \<in> set fs. frame_ok f"
    and "eng_ExecExitCode (api_engine A) x eng1 = (Inr code, eng2)"
  shows "\<exists>out w'. Client_Exec (loopback (wire_glue C isnil G) (wire_api C A) keys (cl_baseURL c)) (wire_codecs C isnil ind) c i req w = (out, w') \<and>
    w_eng w' = eng2 \<and>
    (if \<forall>ev \<in> set (command_events fs code). length (event_text ev) < 65536
     then \<exists>res. out = Inr res \<and> res_ExitCode res = show_int code \<and>
       res_Stdout res = concat (map (\<lambda>f. to_valid (snd f)) (filter (\<lambda>f. fst f \<noteq> 2) fs)) \<and>
       res_Stderr res = concat (map (\<lambda>f. to_valid (snd f)) (filter (\<lambda>f. fst f = 2) fs)) \<and>
       (res_Stdout res = concat (map snd (filter (\<lambda>f. fst f \<noteq> 2) fs)) \<and> res_Stderr res = concat (map snd (filter (\<lambda>f. fst f = 2) fs))
         \<longleftrightarrow> (\<forall>f \<in> set fs. utf8 (snd f)))
     else out = Inl (Context ''reading exec stream'' (Opaque ''bufio.Scanner: token too long'')))"
proof -
  let ?A = "wire_api C A" and ?G = "wire_glue C isnil G"
  have cmd: "er_Command (received_exec req) \<noteq> []" using assms(17) by (simp add: received_exec_def)
  have dec: "api_decode_exec ?A (MaxBytesReader \<lparr>rd_data = data, rd_err = None\<rparr> maxBodySize) = Inr (received_exec req, False)"
    using body_decoder_Marshal [OF arrives_body(7) [OF assms(14)], of isnil data] assms(15,16) by (simp add: wire_codecs_def)
  have sc: "scoped (user_of (api_hashing A) (cl_apiKey c) (cl_endUserID c)) (env_UserID e)" using assms(5) by simp
  obtain p w1 session w2 w3 where
    s: "PrepareExec (api_store A) i (user_of (api_hashing A) (cl_apiKey c) (cl_endUserID c)) w = (Inr p, w1)"
      "StartExec (api_store A) (api_engine A) (api_now A) p (received_exec req) w1 = (Inr session, w2)"
      "xs_Reader session = \<lparr>rd_data = concat (map frame fs), rd_err = None\<rparr>"
      "ExitCode (api_engine A) session w2 = ((code, True), w3)" and eng: "w_eng w3 = eng2"
    using mem_svc.exec_service_ok [OF assms(3) TrueI assms(4) sc assms(6) cmd assms(18,20), of "api_now A"] unfolding assms(2) by blast
  have "Client_Exec (loopback ?G ?A keys (cl_baseURL c)) (wire_codecs C isnil ind) c i req w =
      (exec_result (wire_codecs C isnil ind) \<lparr>rd_data = ndjson_bytes (gl_event ?G) (command_events fs code), rd_err = None\<rparr>, w3)"
    by (rule sdk_exec_bytes [where target = p and req' = "received_exec req" and data = data])
      (use assms dec s in simp_all)
  moreover have "(\<forall>f \<in> set fs. utf8 (snd f)) \<longleftrightarrow> (\<forall>d \<in> snd ` set (filter (\<lambda>f. fst f \<noteq> 2) fs). utf8 d) \<and> (\<forall>d \<in> snd ` set (filter (\<lambda>f. fst f = 2) fs). utf8 d)"
    by auto metis
  ultimately show ?thesis
    using command_result [of fs code C isnil ind] command_too_long [of "command_events fs code" "wire_codecs C isnil ind"] eng
      repaired_stream [of "map snd (filter (\<lambda>f. fst f \<noteq> 2) fs)"] repaired_stream [of "map snd (filter (\<lambda>f. fst f = 2) fs)"]
    by (auto simp: comp_def)
qed

text \<open>Two frames that cut one character in two.\<close>

definition ex_split_frames :: "(nat \<times> bytes) list" where
  "ex_split_frames = [(1, [CHR 0xC3]), (1, [CHR 0xA9]), (2, ''err'')]"

definition ex_split_mock :: "unit MockEngine" where
  "ex_split_mock = ex_mock\<lparr>me_ExecFn := Some (\<lambda>_ _ u. (Inr \<lparr>xr_reader = \<lparr>rd_data = concat (map frame ex_split_frames), rd_err = None\<rparr>,
     xr_execID = Some ''x''\<rparr>, u)), me_ExecExitCodeFn := Some (\<lambda>_ u. (Inr 7, u))\<rparr>"

lemma ex_split_run:
  "eng_Exec mock_engine cid req ex_split_mock =
    (Inr \<lparr>xr_reader = \<lparr>rd_data = concat (map frame ex_split_frames), rd_err = None\<rparr>, xr_execID = Some ''x''\<rparr>, ex_split_mock)"
  "eng_ExecExitCode mock_engine ''x'' ex_split_mock = (Inr 7, ex_split_mock)"
  by (simp_all add: mock_engine_def MockEngine_Exec_def MockEngine_ExecExitCode_def run_mock_def ex_split_mock_def)

lemma ex_split_repaired: "to_valid [CHR 0xC3] = replacement" "to_valid [CHR 0xA9] = replacement" "to_valid ''err'' = ''err''"
  by (simp_all add: to_valid.simps(2) utf8_width_def)

theorem sdk_exec_on_bytes_witness:
  "\<exists>res w'. Client_Exec (loopback (wire_glue ex_conv False ex_glue) (wire_api ex_conv ex_exec_api) [''alice''] (cl_baseURL ex_sdk))
      (wire_codecs ex_conv False (\<lambda>_. Inr [])) ex_sdk ''env_a'' ex_command (ex_exec_world\<lparr>w_eng := ex_split_mock\<rparr>) = (Inr res, w') \<and>
    res_Stdout res = replacement @ replacement \<and> res_Stderr res = ''err'' \<and> res_ExitCode res = ''7''"
proof -
  let ?w = "ex_exec_world\<lparr>w_eng := ex_split_mock\<rparr>"
  have p: "plain_id ''env_a''" by (simp add: plain_id_def)
  have "\<exists>out w'. Client_Exec (loopback (wire_glue ex_conv False ex_glue) (wire_api ex_conv ex_exec_api) [''alice''] (cl_baseURL ex_sdk))
      (wire_codecs ex_conv False (\<lambda>_. Inr [])) ex_sdk ''env_a'' ex_command ?w = (out, w') \<and>
    w_eng w' = ex_split_mock \<and>
    (if \<forall>ev \<in> set (command_events ex_split_frames 7). length (event_text ev) < 65536
     then \<exists>res. out = Inr res \<and> res_ExitCode res = show_int 7 \<and>
    res_Stdout res = concat (map (\<lambda>f. to_valid (snd f)) (filter (\<lambda>f. fst f \<noteq> 2) ex_split_frames)) \<and>
    res_Stderr res = concat (map (\<lambda>f. to_valid (snd f)) (filter (\<lambda>f. fst f = 2) ex_split_frames)) \<and>
    (res_Stdout res = concat (map snd (filter (\<lambda>f. fst f \<noteq> 2) ex_split_frames)) \<and>
      res_Stderr res = concat (map snd (filter (\<lambda>f. fst f = 2) ex_split_frames)) \<longleftrightarrow> (\<forall>f \<in> set ex_split_frames. utf8 (snd f)))
     else out = Inl (Context ''reading exec stream'' (Opaque ''bufio.Scanner: token too long'')))"
    by (rule sdk_exec_on_bytes [where e = "ex_env ''env_a'' ''alice'' ''ca''" and x = "''x''" and ?eng1.0 = ex_split_mock, OF _ _ _ _ _ _ _ _ _ _ _ _ _ _ ex_requests(2) ex_requests_length(2)])
      (use p ex_file_world_ok in \<open>simp_all add: ex_env_fields ex_split_run ex_command_def ex_split_frames_def frame_ok_def in_int64_def\<close>)
  moreover have "\<forall>ev \<in> set (command_events ex_split_frames 7). length (event_text ev) < 65536"
    using event_text_line [of "_ :: ExecEvent"]
    by (simp add: command_events_def frame_event_def ex_split_frames_def stream_name_def show_seven line_ok_def)
  ultimately show ?thesis by (auto simp: ex_split_frames_def show_seven ex_split_repaired)
qed

end
