(* ===== verification/Spec2Isabelle.thy ===== *)
theory Spec2Isabelle
  imports Deployment Terminal Races Process Wire_Service
begin

text \<open>
  HaaS (Harness as a Service): a verification library of its Go sources.

  The service gives agents sandboxed Linux environments.  A request passes the middlewares and the
  authentication, is routed to a handler, and the handler calls a service, which keeps its records in
  a store and its containers in an engine.  A background reaper removes what has expired.  Two
  clients reach the same API from outside: the SDK with its tools for language models, and the MCP
  server, which runs inside the service or as a command of its own.

  \<^bold>\<open>Foundations.\<close>  \<open>Prelude\<close> has Go's integers with their wrap-around, doubles as exact rationals with
  their rounding, instants in nanoseconds and maps as association lists; \<open>Go_Strings\<close> the functions of
  \<open>strings\<close>, \<open>path\<close> and \<open>fmt\<close> that the program calls; \<open>Domain\<close> the records of \<open>internal/domain\<close>, the
  error values and the heap: environments are shared through pointers, as in the code, so an
  assignment through one pointer is seen by all who hold it.  \<open>World\<close> pairs that heap and the store
  with the engine's state.

  \<^bold>\<open>Stores\<close> (\<open>internal/store\<close>).  \<open>Store_Interface\<close> is the Go interface as a record of methods and its
  contract as locales over an abstract state, three maps.  \<open>Memory_Store\<close> (\<open>memory.go\<close>) and
  \<open>SQL_Store\<close> (\<open>sql.go\<close>: tables, constraints, placeholders, columns that lose precision, a list of
  pending faults) interpret them.  \<open>SQL_Migration\<close> is the opening of a database of an older version,
  over a catalogue of tables and columns.  \<open>Store_Clients\<close> proves, in the locale \<open>store_client\<close>, what
  any code that goes through a store keeps; all lemmas of the services are proved there once, and
  \<open>Stores\<close> interprets it on both stores.

  \<^bold>\<open>Engine\<close> (\<open>internal/engine\<close>).  \<open>Engine\<close> has the interface, the limits of a container, the parsers of
  listings, the demultiplexer of Docker's stream and the engine of the tests; \<open>Docker_Engine\<close> the
  methods of \<open>DockerEngine\<close> over a record of the Docker client's calls.  \<open>Engine_Invariant\<close> carries an
  invariant of the daemon through every operation of the program.

  \<^bold>\<open>Services.\<close>  \<open>Environment_Service\<close>, \<open>Snapshot_Service\<close>, \<open>File_Service\<close>, \<open>Exec_Service\<close>,
  \<open>Skill_Service\<close> (\<open>internal/service\<close>), \<open>Reaper\<close> (\<open>internal/lifecycle\<close>) and \<open>Config\<close>
  (\<open>internal/config\<close>).  \<open>Races\<close> puts a cycle of the reaper between the two parts of a creation.

  \<^bold>\<open>API.\<close>  \<open>Auth\<close> (\<open>internal/auth\<close>), \<open>HTTP\<close> (responses, bodies, middlewares), \<open>API\<close> (handlers, route
  table and \<open>NewRouter\<close>), \<open>Exec_WS\<close> (the terminal over a WebSocket: its four goroutines are steps on a
  list
  of events, in any order, its messages JSON texts) with what it promises in \<open>Terminal\<close>; \<open>API_Isolation\<close> lifts the
  services' lemmas through the router.

  \<^bold>\<open>Clients and commands.\<close>  \<open>SDK_Client\<close> and \<open>SDK_Tools\<close> (\<open>pkg/sdk\<close>), \<open>MCP_Client\<close> and \<open>MCP_Server\<close>
  (\<open>internal/mcpserver\<close>), \<open>Commands\<close> (\<open>cmd\<close>).  The network is an HTTP client, a function on the world;
  \<open>Deployment\<close> connects it to the router (\<open>loopback\<close>) and proves what holds from end to end.
  \<open>Process\<close> is the second half of \<open>main\<close>: requests that are accepted and finish later, MCP sessions,
  cycles of the reaper, the signal, the two stages of the shutdown, as steps on events, and what every
  run of them keeps.

  \<^bold>\<open>On the wire.\<close>  \<open>UTF8\<close>, \<open>JSON_Text\<close> and \<open>JSON_Codec\<close> are \<open>encoding/json\<close> as far as the program
  depends on it: strings are repaired to UTF-8 and escaped, the scanner, decoding into structs by
  their tags.  \<open>Wire\<close> has the tags of the server's structs and of \<open>pkg/apitypes\<close>, \<open>Wire_Service\<close> the
  service and the SDK on bytes.

  \<^bold>\<open>What is shown.\<close>  Users cannot touch each other's records or see them, but for the listings of
  the tenant, whichever way a request comes in, and requests without a key do nothing.  Both stores implement one contract and expire the same
  environments up to the second; a migration loses no row wherever it fails, completes, and is
  idle when run again.  A creation happens as a whole or not at all while the database
  answers and the reaper does not interfere; what is left otherwise is shown too.  Containers are confined and skills stay below their directory.  What is written is read
  back, through the services and through the SDK; uploads are bounded; a terminal delivers its output and
  shuts down.  Every response and request of the SDK is understood by the other side; these, the output
  of a command and that of a terminal arrive up to the repair to UTF-8, which is stated exactly.  Every
  tool for a language model sends the one request of its name.  In every run of the process a user loses
  nothing to others.  Streams, listings, quotas and frontmatter parse back to what was printed.  Several
  theorems state what the code does where it does not do what it means to.

  \<^bold>\<open>Parameters.\<close>  What is not in the repository is an argument: SHA-256 and UUIDs (assumed only to be
  non-empty and to parse), the JSON codecs (made concrete in \<open>Wire\<close>, where only the formats of floats
  and times remain), \<open>strconv.ParseFloat\<close>, \<open>time.ParseDuration\<close>, gzip and the
  blocks of tar, Docker's client and its stream decoder, chi's matching, the WebSocket handshake, the
  MCP library's transports and argument accessors.  Theorems name what they assume of them.  The
  loops of the code are total recursions over the data they consume; the scanner of JSON has fuel,
  twice the length of its text, and \<open>scan_enough\<close> shows that more changes nothing.  Streams are finite,
  with the error, if any, that ends them.

  \<^bold>\<open>Not modelled.\<close>  Log lines; cancellation and deadlines, which only make calls fail; requests that
  overlap inside a handler: in \<open>Process\<close> they take effect one at a time, in the order they finish, and
  the interleavings that matter are in \<open>Exec_WS\<close> and \<open>Races\<close>; the real-IP middleware; the option
  \<open>WithHTTPClient\<close> of the SDK, which replaces the parameter above; the sockets below the HTTP server,
  the messages of JSON's errors, indented JSON and the JSON of MCP.
\<close>

section \<open>Users and tenants\<close>

text \<open>C1: on the memory store, whatever an authenticated request asks for and answers, the
  invariant of the store is kept and every environment, snapshot and skill of every user other than
  the caller is left exactly as it was.  The UUID of the request is fresh; the UUID library answers
  non-empty UUIDs that parse.\<close>

theorem request_isolation_memory:
  assumes "uuid_ok (api_hashing d)" and "api_store d = memory_store" and "mem_inv (w_mem w)"
    and "fresh_IDs (api_uuid d) (mem_abs (w_mem w))" and "caller (api_hashing d) keys r = Some (tenant, user)"
    and "NewRouter d (New (api_hashing d) keys) r w = (out, w')"
  shows "mem_inv (w_mem w') \<and> others user (mem_abs (w_mem w')) = others user (mem_abs (w_mem w))"
  using assms by (rule mem_svc.router_keeps)

theorem request_isolation_memory_witness:
  "let w' = snd (NewRouter (ex_api memory_store) (New ex_hashing [''alice'', ''bob''])
       (ex_request ''DELETE'' ''/v1/environments/env_a/'' ''Bearer alice'') ex_world)
   in others (ex_tenant ''alice'') (mem_abs (w_mem w')) = others (ex_tenant ''alice'') (mem_abs (w_mem ex_world))"
  using request_isolation_memory [of "ex_api memory_store" ex_world "[''alice'', ''bob'']"
      "ex_request ''DELETE'' ''/v1/environments/env_a/'' ''Bearer alice''" "ex_tenant ''alice''" "ex_tenant ''alice''",
      OF _ _ _ _ _ prod.collapse [symmetric]]
  by (simp add: Let_def)

text \<open>C2: the same on the SQL store, also when statements of the database fail before or after
  they took effect.\<close>

theorem request_isolation_sql:
  assumes "uuid_ok (api_hashing d)" and "api_store d = sql_store" and "sql_inv (w_mem w)"
    and "fresh_IDs (api_uuid d) (sql_abs (w_mem w))" and "caller (api_hashing d) keys r = Some (tenant, user)"
    and "NewRouter d (New (api_hashing d) keys) r w = (out, w')"
  shows "sql_inv (w_mem w') \<and> others user (sql_abs (w_mem w')) = others user (sql_abs (w_mem w))"
  using assms by (rule sql_svc.router_keeps)

theorem request_isolation_sql_witness:
  "let w' = snd (NewRouter (ex_api sql_store) (New ex_hashing [''alice'', ''bob''])
       (ex_request ''DELETE'' ''/v1/environments/env_a/'' ''Bearer alice'') ex_sql_world)
   in others (ex_tenant ''alice'') (sql_abs (w_mem w')) = others (ex_tenant ''alice'') (sql_abs (w_mem ex_sql_world))"
  using request_isolation_sql [of "ex_api sql_store" ex_sql_world "[''alice'', ''bob'']"
      "ex_request ''DELETE'' ''/v1/environments/env_a/'' ''Bearer alice''" "ex_tenant ''alice''" "ex_tenant ''alice''",
      OF _ _ _ _ _ prod.collapse [symmetric]]
  by (simp add: Let_def)

text \<open>C4: on the SQL store, also under database failures, a response shows an environment, a snapshot or a
  skill only if it is the caller's; the three tenant listings, and no other route, show those of the
  caller's tenant.  A path that matches no route is answered by chi alone, and a refused WebSocket
  handshake shows no record.  The owner of a key who names no end user is no exception: on the other
  routes it sees what it created itself.\<close>

theorem response_confidential:
  assumes "uuid_ok (api_hashing d)" and "api_store d = sql_store" and "sql_inv (w_mem w)"
    and "fresh_IDs (api_uuid d) (sql_abs (w_mem w))" and "caller (api_hashing d) keys r = Some (tenant, user)"
    and "NewRouter d (New (api_hashing d) keys) r w = (Response rs, w')"
    and "\<forall>rs. api_upgrade d (authenticated d tenant user r) = Some rs \<longrightarrow> visible ExecWS user tenant (rs_Body rs)"
  shows "case api_match d routes (rq_Method r) (rq_Path r) of
      None \<Rightarrow> rs_Body rs = rs_Body (api_no_match d (rq_Method r) (rq_Path r))
    | Some (rt, i) \<Rightarrow> visible rt user tenant (rs_Body rs)"
  using assms by (rule sql_svc.router_visible)

theorem response_confidential_witness:
  "case NewRouter (ex_api sql_store) (New ex_hashing [''alice'', ''bob''])
     (ex_request ''GET'' ''/v1/environments/env_a/'' ''Bearer alice'') ex_sql_world of
     (Response rs, w') \<Rightarrow> visible Env_Get (ex_tenant ''alice'') (ex_tenant ''alice'') (rs_Body rs) | _ \<Rightarrow> True"
proof -
  let ?r = "ex_request ''GET'' ''/v1/environments/env_a/'' ''Bearer alice''"
  have "visible Env_Get (ex_tenant ''alice'') (ex_tenant ''alice'') (rs_Body rs)"
    if "NewRouter (ex_api sql_store) (New ex_hashing [''alice'', ''bob'']) ?r ex_sql_world = (Response rs, w')" for rs w'
    using response_confidential [of "ex_api sql_store" ex_sql_world "[''alice'', ''bob'']" ?r "ex_tenant ''alice''"
        "ex_tenant ''alice''" rs w'] that
    by (simp add: ex_api_def)
  then show ?thesis by (auto split: prod.splits outcome.splits)
qed

text \<open>C3: on the memory store, for an environment, a snapshot or a skill whose ID is unknown or belongs to
  another user every route that names it answers 404, and neither the store nor the engine changes:
  the two cases cannot be told apart, and nobody reaches a container of another user.  The one
  exception is an installation with an invalid skill name, which is refused with 400 before the
  environment is looked up.  This holds also for the owner of a key who names no end user: the
  environments of the key's end users are another user's.\<close>

theorem foreign_not_found:
  assumes "uuid_ok (api_hashing d)" and "api_store d = memory_store" and "mem_inv (w_mem w)"
    and "caller (api_hashing d) keys r = Some (tenant, user)"
    and "api_match d routes (rq_Method r) (rq_Path r) = Some (rt, i)" and "rt \<noteq> Healthz"
    and "\<not> owned_by rt user i (mem_abs (w_mem w))"
    and "NewRouter d (New (api_hashing d) keys) r w = (out, w')"
  shows "(\<exists>rs. out = Response rs \<and>
      rs_Status rs = (if rt = Skill_InstallToEnv \<and> validateSkillName (Query_Get r ''name'') \<noteq> None then 400 else 404)) \<and>
    mem_abs (w_mem w') = mem_abs (w_mem w) \<and> w_eng w' = w_eng w"
  using assms(1-3) TrueI assms(4-8) by (rule mem_svc.router_foreign)

theorem foreign_not_found_witness:
  "let (out, w') = NewRouter (ex_api memory_store) (New ex_hashing [''alice'', ''bob''])
       (ex_request ''DELETE'' ''/v1/environments/env_a/'' ''Bearer bob'') ex_world
   in (\<exists>rs. out = Response rs \<and> rs_Status rs = 404) \<and> mem_abs (w_mem w') = mem_abs (w_mem ex_world)"
proof -
  let ?r = "ex_request ''DELETE'' ''/v1/environments/env_a/'' ''Bearer bob''"
  have "\<not> owned_by Env_Destroy (ex_tenant ''bob'') ''env_a'' (mem_abs (w_mem ex_world))"
    by (simp add: ex_world_def ex_memory_def ex_heap_def ex_env_def owned_env_def scoped_def ex_tenant_def)
  with foreign_not_found [of "ex_api memory_store" ex_world "[''alice'', ''bob'']" ?r "ex_tenant ''bob''" "ex_tenant ''bob''"
      Env_Destroy "''env_a''", OF _ _ _ _ _ _ _ prod.collapse [symmetric]]
  show ?thesis by (simp add: case_prod_beta)
qed

text \<open>C5: a request whose token is no configured key (the empty key is none) changes nothing: it
  is refused with 401 unless it asks for the health check or for a path outside the API.\<close>

theorem unauthenticated_refused:
  assumes "uuid_ok (api_hashing d)" and "caller (api_hashing d) keys r = None"
    and "NewRouter d (New (api_hashing d) keys) r w = (out, w')"
  shows "w' = w \<and> (\<exists>rs. out = Response rs \<and>
    (case api_match d routes (rq_Method r) (rq_Path r) of
       None \<Rightarrow> if api_grouped d groups (rq_Path r) then rs_Status rs = 401
               else rs_Body rs = rs_Body (api_no_match d (rq_Method r) (rq_Path r))
     | Some (rt, i) \<Rightarrow> if rt = Healthz then rs_Status rs = 200 else rs_Status rs = 401))"
  using assms(1,3) by (cases rule: NewRouter_cases) (use assms(2) in \<open>auto split: option.splits\<close>)

theorem unauthenticated_refused_witness:
  "snd (NewRouter (ex_api memory_store) (New ex_hashing [''alice'', ''bob''])
     (ex_request ''DELETE'' ''/v1/environments/env_a/'' ''Bearer eve'') ex_world) = ex_world"
  using unauthenticated_refused [of "ex_api memory_store" "[''alice'', ''bob'']"
      "ex_request ''DELETE'' ''/v1/environments/env_a/'' ''Bearer eve''" ex_world, OF _ _ prod.collapse [symmetric]]
  by simp

text \<open>C6: whom the middleware lets through, and as whom.  For two requests that reach the handlers, as
  \<open>s1\<close> and \<open>s2\<close>: every handler is given just that request; the token has the hash of a configured,
  non-empty key; the tenant and the user in its context are never the empty string, which the stores
  treat as the administrator; the tenants are the same exactly if the tokens have the same hash, and
  the users exactly if besides the end users named by \<open>X-Haas-User-ID\<close> are the same up to surrounding
  white space.  The UUIDs derived for the two requests are assumed not to collide.\<close>

theorem caller_identity:
  assumes "uuid_ok H" and "inj_on (\<lambda>(ns, x). uuid_NewSHA1 H ns x) (derivations H r1 \<union> derivations H r2)"
    and "snd (Middleware H (New H keys) observer r1 None) = Some s1"
    and "snd (Middleware H (New H keys) observer r2 None) = Some s2"
    and "haasNamespace \<noteq> TenantIDFromContext s1" and "haasNamespace \<noteq> TenantIDFromContext s2"
  shows "let hash = \<lambda>r. HashKey H (strings_TrimPrefix (rq_Header r ''Authorization'') ''Bearer '');
      end_user = \<lambda>r. strings_TrimSpace (rq_Header r ''X-Haas-User-ID'')
    in Middleware H (New H keys) next r1 w = next s1 w \<and>
      (\<exists>k \<in> set keys. k \<noteq> [] \<and> HashKey H k = hash r1) \<and>
      TenantIDFromContext s1 \<noteq> [] \<and> UserIDFromContext s1 \<noteq> [] \<and>
      (TenantIDFromContext s1 = TenantIDFromContext s2 \<longleftrightarrow> hash r1 = hash r2) \<and>
      (UserIDFromContext s1 = UserIDFromContext s2 \<longleftrightarrow> hash r1 = hash r2 \<and> end_user r1 = end_user r2)"
proof -
  note c1 = Middleware_observed(1) [OF assms(1,3)] and c2 = Middleware_observed(1) [OF assms(1,4)]
  note same = caller_same [OF c1 c2]
  have "HashKey H (strings_TrimPrefix (rq_Header r1 ''Authorization'') ''Bearer '') =
      HashKey H (strings_TrimPrefix (rq_Header r2 ''Authorization'') ''Bearer '')" if "TenantIDFromContext s1 = TenantIDFromContext s2"
    using caller_tenant_hash [OF c1 c2 [folded that] assms(2)] .
  moreover have "HashKey H (strings_TrimPrefix (rq_Header r1 ''Authorization'') ''Bearer '') =
      HashKey H (strings_TrimPrefix (rq_Header r2 ''Authorization'') ''Bearer '') \<and>
      strings_TrimSpace (rq_Header r1 ''X-Haas-User-ID'') = strings_TrimSpace (rq_Header r2 ''X-Haas-User-ID'')"
    if "UserIDFromContext s1 = UserIDFromContext s2"
    using caller_same_user(2,3) [OF c1 c2 [folded that] assms(2,5,6)] ..
  ultimately show ?thesis
    unfolding Let_def
    using Middleware_observed(2) [OF assms(1,3), of "next" w] caller_not_empty [OF assms(1) c1] caller_user(4) [OF c1] same
    by (intro conjI iffI) blast+
qed

text \<open>Two requests with Alice's key for the end user \<open>kim\<close>, differently spelt.\<close>

definition ex_kim :: "string \<Rightarrow> string \<Rightarrow> request" where
  "ex_kim path kim = (ex_request ''GET'' path ''Bearer alice'')\<lparr>rq_Header := (\<lambda>k.
     if k = ''Authorization'' then ''Bearer alice'' else if k = ''X-Haas-User-ID'' then kim else [])\<rparr>"

theorem caller_identity_witness:
  "\<exists>s1 s2. snd (Middleware ex_hashing (New ex_hashing [''alice'', ''bob'']) observer (ex_kim ''/v1/skills/'' '' kim'') None) = Some s1 \<and>
     snd (Middleware ex_hashing (New ex_hashing [''alice'', ''bob'']) observer (ex_kim ''/v1/snapshots/'' ''kim '') None) = Some s2 \<and>
     UserIDFromContext s1 = UserIDFromContext s2 \<and> UserIDFromContext s1 \<noteq> []"
proof -
  let ?r1 = "ex_kim ''/v1/skills/'' '' kim''" and ?r2 = "ex_kim ''/v1/snapshots/'' ''kim ''"
  have t: "strings_TrimSpace '' kim'' = ''kim''" "strings_TrimSpace ''kim '' = ''kim''" by code_simp+
  have k: "strings_TrimPrefix (rq_Header (ex_kim p k) ''Authorization'') ''Bearer '' = ''alice''"
      "rq_Header (ex_kim p k) ''X-Haas-User-ID'' = k" "HashKey ex_hashing ''alice'' = ''#alice''" for p k
    by (simp_all add: ex_kim_def strings_TrimPrefix_def strings_HasPrefix_def HashKey_def ex_hashing_def)
  have c: "caller ex_hashing [''alice'', ''bob''] (ex_kim p k) = Some (ex_tenant ''alice'', uuid_NewSHA1 ex_hashing (ex_tenant ''alice'') ''kim'')"
    if "strings_TrimSpace k = ''kim''" for p k
    using that by (simp add: caller_def k Let_def deriveUserID_def HashKey_def ex_hashing_def ex_tenant_def)
  have d: "derivations ex_hashing ?r1 \<union> derivations ex_hashing ?r2 =
      {(haasNamespace, ''#alice''), (deriveUserID ex_hashing ''#alice'', ''kim'')}"
    by (simp add: derivations_def k t Let_def)
  have i: "inj_on (\<lambda>(ns, x). uuid_NewSHA1 ex_hashing ns x) {(haasNamespace, ''#alice''), (deriveUserID ex_hashing ''#alice'', ''kim'')}"
    by (simp add: ex_hashing_def deriveUserID_def haasNamespace_def)
  obtain s1 s2 where s: "snd (Middleware ex_hashing (New ex_hashing [''alice'', ''bob'']) observer ?r1 None) = Some s1"
      "snd (Middleware ex_hashing (New ex_hashing [''alice'', ''bob'']) observer ?r2 None) = Some s2"
    by (simp add: Middleware_caller c t observer_def)
  have "TenantIDFromContext s1 = ex_tenant ''alice''" "TenantIDFromContext s2 = ex_tenant ''alice''"
    using Middleware_observed(1) [OF _ s(1)] Middleware_observed(1) [OF _ s(2)] by (simp_all add: c t)
  then show ?thesis
    using caller_identity [OF _ i [folded d] s, of observer None] s by (auto simp: Let_def k t ex_tenant_def haasNamespace_def)
qed

section \<open>The stores\<close>

text \<open>C7: the memory store implements the contract of the \<open>Store\<close> interface: every method, on every
  branch, acts on the abstract maps of environments, snapshots and skills as the laws of the locale
  \<open>store\<close> say, scoped to the user, and keeps the invariant; it loses no precision and never fails
  but with \<open>ErrNotFound\<close>.\<close>

theorem memory_store_refines:
  "store memory_store mem_abs mem_inv (\<lambda>_. True) id (\<lambda>_. id) (\<lambda>_. id) mem_expired"
  by (rule mem.store_axioms)

text \<open>C8: the SQL store implements the same contract up to what its columns keep: times to the
  second, the CPU share at the precision of the column, the variables as JSON gives them back.  A
  database failure is reported, and its statement took effect entirely or not at all.\<close>

theorem sql_store_refines:
  "store sql_store sql_abs sql_inv sql_healthy second real_column json_norm sql_expired"
  by (rule sql.store_axioms)

text \<open>C9: the two stores agree on what is expired up to the second the database rounds to: what the
  database reports the memory store would report for the same record, and what the memory store
  reports the database reports one second later.  (Durations between the instants fit in 64 bits.)\<close>

theorem expiry_agreement:
  assumes "sq_idleTimeout s = ms_idleTimeout m" and "in_int64 (now - env_LastUsedAt e)"
  shows "(sql_expired s now e \<longrightarrow> mem_expired m now e) \<and> (mem_expired m now e \<longrightarrow> sql_expired s (now + seconds 1) e)"
proof -
  have sub: "time_Sub now (env_LastUsedAt e) = now - env_LastUsedAt e"
    using assms(2) by (simp add: time_Sub_def in_int64_def)
  have lt: "a div 1000000000 < b div 1000000000 \<Longrightarrow> a < b" for a b :: int
    by (metis not_le zdiv_mono1 zero_less_numeral)
  have le: "a < b \<Longrightarrow> a div 1000000000 < (b + 1000000000) div 1000000000" for a b :: int
    using zdiv_mono1 [of a b 1000000000] by simp
  show ?thesis
    using lt [of "env_LastUsedAt e" "now - ms_idleTimeout m"] lt [of "env_ExpiresAt e" now]
      le [of "env_LastUsedAt e" "now - ms_idleTimeout m"] le [of "env_ExpiresAt e" now]
    by (auto simp: sql_expired_def mem_expired_def time_Unix_def sub assms(1) Let_def algebra_simps)
qed

theorem expiry_agreement_witness:
  "mem_expired ex_memory (seconds 601) (ex_env ''env_a'' ''alice'' ''ca'') \<and>
   sql_expired ex_database (seconds 601 + seconds 1) (ex_env ''env_a'' ''alice'' ''ca'')"
proof -
  let ?e = "ex_env ''env_a'' ''alice'' ''ca''"
  have "sql_expired ex_database (seconds 601) ?e"
    by (simp add: sql_expired_def time_Unix_def ex_database_def ex_sql_def ex_env_def Let_def)
  with expiry_agreement [of ex_database ex_memory "seconds 601" ?e] show ?thesis
    by (simp add: ex_database_def ex_sql_def ex_memory_def NewMemoryStore_def ex_env_def in_int64_def)
qed

section \<open>Environments\<close>

text \<open>C10: a failed creation, whichever step failed - the image, a limit, the store, the creation or the
  start of the container.  While the database answers, the store is exactly as it was.  When the
  database fails as well the rollback may fail too, which the code only logs; then at most a record of
  the caller's under the new ID stays behind, and nothing else has changed.  The UUID is fresh.\<close>

theorem create_all_or_nothing:
  assumes "sql_inv (w_mem w)" and "a_envs (sql_abs (w_mem w)) (new_ID ''env_'' uuid) = None"
    and "CreateEnvironment sql_store E cfg now uuid tenant user input w = (Inl e, w')"
  shows "(sql_healthy (snd (w_mem w)) \<longrightarrow> sql_abs (w_mem w') = sql_abs (w_mem w)) \<and>
    (\<exists>v. sql_abs (w_mem w') = (sql_abs (w_mem w))\<lparr>a_envs := (a_envs (sql_abs (w_mem w)))(new_ID ''env_'' uuid := v)\<rparr> \<and>
      (\<forall>env. v = Some env \<longrightarrow> env_UserID env = user))"
  using sql_svc.CreateEnvironment_failure [OF assms(1,2) _ assms(3)] sql_svc.CreateEnvironment_failure_any [OF assms] by blast

text \<open>An engine whose containers do not start.\<close>

definition ex_dead_world :: "(SQLStore, unit MockEngine) world" where
  "ex_dead_world = ex_sql_world\<lparr>w_eng := ex_mock\<lparr>me_StartContainerFn := Some (\<lambda>_ u. (Some (Opaque ''boom''), u))\<rparr>\<rparr>"

theorem create_all_or_nothing_witness:
  "\<exists>e w'. CreateEnvironment sql_store mock_engine ex_cfg 0 ''0123-456789abcdef'' ''t'' ''u'' ex_input ex_dead_world = (Inl e, w') \<and>
     sql_abs (w_mem w') = sql_abs (w_mem ex_dead_world)"
proof -
  obtain r w' where r: "CreateEnvironment sql_store mock_engine ex_cfg 0 ''0123-456789abcdef'' ''t'' ''u'' ex_input ex_dead_world = (r, w')"
    by (meson surj_pair)
  have "\<exists>e. r = Inl e"
    using r by (auto simp: CreateEnvironment_def CreateEnvironment_record_def CreateEnvironment_container_def
        ex_image ex_defaults ex_limits Let_def on_engine_def alloc_env_def new_env_def mock_engine_def ex_dead_world_def MockEngine_StartContainer_def
        MockEngine_CreateContainer_def run_mock_def assign_env_def on_store_def ex_mock_def split: prod.splits option.splits)
  then obtain e where e: "r = Inl e" by blast
  have "w_mem ex_dead_world = w_mem ex_sql_world" by (simp add: ex_dead_world_def)
  then show ?thesis
    using create_all_or_nothing [of ex_dead_world, OF _ _ r [unfolded e]] r e ex_sql_fresh by (auto simp: fresh_IDs_def)
qed

text \<open>C11: a created environment is the caller's, running, with a container, within the limits on CPU,
  memory and network, from an image of the allow list if there is one and no snapshot was named, and
  expires after the configured lifetime; in the SQL store there is one new record, the caller's, under
  its new ID and nothing else changed.  While the database answers that record is the environment as
  its columns keep it: times to the second, the share of CPU and the variables as they read back.
  When the last update of the record fails, which the code only logs, it may be older.  Nothing else
  runs meanwhile, and the UUID is fresh.\<close>

theorem create_success:
  assumes "sql_inv (w_mem w)" and "a_envs (sql_abs (w_mem w)) (new_ID ''env_'' uuid) = None"
    and "CreateEnvironment sql_store E cfg now uuid tenant user input w = (Inr p, w')"
  shows "\<exists>e v. deref p w' = e \<and> env_ID e = new_ID ''env_'' uuid \<and> env_UserID e = user \<and> env_TenantID e = tenant \<and>
    env_Status e = StatusRunning \<and> valid_spec (env_Spec e) \<and> env_ExpiresAt e = now + cfg_MaxLifetime cfg \<and>
    (ci_SnapshotID input = [] \<longrightarrow> cfg_AllowedImages cfg \<noteq> [] \<longrightarrow> Image (env_Spec e) \<in> set (cfg_AllowedImages cfg)) \<and>
    sql_abs (w_mem w') = (sql_abs (w_mem w))\<lparr>a_envs := (a_envs (sql_abs (w_mem w)))(env_ID e \<mapsto> v)\<rparr> \<and> env_UserID v = user \<and>
    (sql_healthy (snd (w_mem w)) \<longrightarrow> v = norm_env second (real_column (snd (w_mem w))) (json_norm (snd (w_mem w))) e)"
proof -
  from sql_svc.CreateEnvironment_success [OF assms] obtain req cid v where
    c: "check_limits req = None"
      "ci_SnapshotID input = [] \<longrightarrow> cfg_AllowedImages cfg \<noteq> [] \<longrightarrow> ci_Image req \<in> set (cfg_AllowedImages cfg)"
      "deref p w' = running_env (build_environment cfg now uuid tenant user req) cid" "env_UserID v = user"
      "sql_abs (w_mem w') = (sql_abs (w_mem w))\<lparr>a_envs := (a_envs (sql_abs (w_mem w)))(new_ID ''env_'' uuid \<mapsto> v)\<rparr>"
      "sql_healthy (snd (w_mem w)) \<longrightarrow> v = sql.nenv (snd (w_mem w)) (deref p w')"
    by blast
  have "valid_spec (env_Spec (deref p w'))"
    using c(1) check_limits_valid [of req cfg now uuid tenant user] by (simp add: c(3) running_env_def)
  with c show ?thesis by (intro exI [of _ "deref p w'"] exI [of _ v]) (simp add: running_env_def build_environment_def sql.nenv_def)
qed

theorem create_success_witness:
  "\<exists>p w' v. CreateEnvironment sql_store mock_engine ex_cfg 0 ''0123-456789abcdef'' ''t'' ''u'' ex_input ex_sql_world = (Inr p, w') \<and>
     env_Status (deref p w') = StatusRunning \<and> env_UserID (deref p w') = ''u'' \<and>
     a_envs (sql_abs (w_mem w')) (new_ID ''env_'' ''0123-456789abcdef'') = Some v \<and> env_Status v = StatusRunning"
proof -
  obtain w' where r: "CreateEnvironment sql_store mock_engine ex_cfg 0 ''0123-456789abcdef'' ''t'' ''u'' ex_input ex_sql_world = (Inr 0, w')"
    using ex_sql_created by blast
  show ?thesis
    using create_success [of ex_sql_world, OF _ _ r] r ex_sql_fresh by (auto simp: fresh_IDs_def norm_env_def)
qed

section \<open>The reaper\<close>

text \<open>C13: one cycle of the reaper on the memory store removes exactly the environments that are
  expired at its instant, whatever the engine answers, and leaves every other record; it asks the
  engine to stop exactly the containers of those environments, once each.\<close>

theorem reap_memory:
  assumes "mem_inv (w_mem w)"
  shows "\<exists>es. set es = {e \<in> ran (a_envs (mem_abs (w_mem w))). mem_expired (snd (w_mem w)) now e} \<and>
    distinct (map env_ID es) \<and> mem_inv (w_mem (reap memory_store E now w)) \<and>
    mem_abs (w_mem (reap memory_store E now w)) = without_expired (mem_expired (snd (w_mem w)) now) (mem_abs (w_mem w)) \<and>
    w_eng (reap memory_store E now w) = stop_all E es (w_eng w)"
  using assms TrueI by (rule mem_svc.reap_ok)

theorem reap_memory_witness:
  "mem_abs (w_mem (reap memory_store mock_engine (seconds 601) ex_world)) =
     without_expired (mem_expired (snd (w_mem ex_world)) (seconds 601)) (mem_abs (w_mem ex_world))"
  using reap_memory [where w = ex_world and E = mock_engine and now = "seconds 601", OF ex_mem_inv] by (elim exE conjE)

text \<open>C33: one cycle of the reaper on the SQL store, while the database answers: it removes exactly the
  environments the database reports as expired at its instant, to the second, whatever the engine
  answers, and leaves every other record; it asks the engine to stop exactly their containers, once
  each.\<close>

theorem reap_sql:
  assumes "sql_inv (w_mem w)" and "sql_healthy (snd (w_mem w))"
  shows "\<exists>es. set es = {e \<in> ran (a_envs (sql_abs (w_mem w))). sql_expired (snd (w_mem w)) now e} \<and>
    distinct (map env_ID es) \<and> sql_inv (w_mem (reap sql_store E now w)) \<and>
    sql_abs (w_mem (reap sql_store E now w)) = without_expired (sql_expired (snd (w_mem w)) now) (sql_abs (w_mem w)) \<and>
    w_eng (reap sql_store E now w) = stop_all E es (w_eng w)"
  using assms by (rule sql_svc.reap_ok)

theorem reap_sql_witness:
  "sql_abs (w_mem (reap sql_store mock_engine (seconds 602) ex_sql_world)) =
     without_expired (sql_expired (snd (w_mem ex_sql_world)) (seconds 602)) (sql_abs (w_mem ex_sql_world))"
  using reap_sql [where w = ex_sql_world and E = mock_engine and now = "seconds 602", OF ex_sql_inv ex_sql_healthy] by (elim exE conjE)

section \<open>Skills\<close>

text \<open>C14: when a skill is installed into an environment, the caller's environment was running, and
  the archive handed to the engine has only entries that stay below the directory of that skill,
  no links, and a \<open>SKILL.md\<close> directly in it; that directory lies directly below the skills directory.\<close>

theorem install_confined:
  assumes "path_IsAbs (ss_skillsDir s)"
    and "InstallSkillToEnvironment S E s i u name archive w = (None, w')"
  shows "\<exists>p w1 t dest. SkillService_getRunningEnv S i u w = (Inr p, w1) \<and>
    eng_ExtractArchive E (env_ContainerID (deref p w1)) dest t (w_eng w1) = (None, w_eng w') \<and>
    path_elems dest = path_elems (ss_skillsDir s) @ [name] \<and>
    (\<forall>h \<in> set (fst (ss_tar_entries s t)). lands_below dest (path_elems (ss_skillsDir s) @ [name]) h) \<and>
    (\<exists>h \<in> set (fst (ss_tar_entries s t)).
       path_elems (path_Join [dest, hdr_Name h]) = path_elems (ss_skillsDir s) @ [name, ''SKILL.md''])"
  using assms(2)
proof (cases rule: InstallSkill_ok)
  case (1 p w1 t)
  let ?dest = "path_Join [ss_skillsDir s, name]"
  have n: "proper_elem name" "name \<noteq> []"
    using skill_name_proper(1) [OF 1(1)] by (simp_all add: proper_elem_def)
  have d: "path_elems ?dest = path_elems (ss_skillsDir s) @ [name]" "path_IsAbs ?dest"
    using path_Join_proper [OF assms(1) n(1)] path_Join_elems(2) [OF assms(1) n(2)] by simp_all
  note ok = decompress_valid [OF 1(3), unfolded validateSkillTar_ok]
  have "\<forall>h \<in> set (fst (ss_tar_entries s t)). lands_below ?dest (path_elems (ss_skillsDir s) @ [name]) h"
    using ok safe_lands [OF _ d(2,1)] by blast
  moreover obtain h where "h \<in> set (fst (ss_tar_entries s t))"
      "path_elems (path_Join [?dest, hdr_Name h]) = path_elems (ss_skillsDir s) @ [name, ''SKILL.md'']"
    using ok manifest_lands [OF _ d(2)] d(1) by (auto simp: skillManifest_def)
  ultimately show ?thesis using 1 d(1) by blast
qed

theorem install_confined_witness:
  "\<exists>w'. InstallSkillToEnvironment memory_store mock_engine example_skills ''env_a'' (ex_tenant ''alice'') ''pdf''
      \<lparr>rd_data = ''ztar'', rd_err = None\<rparr> ex_world = (None, w') \<and>
    (\<exists>t dest. path_elems dest = [''root'', ''.claude'', ''skills'', ''pdf''] \<and>
      (\<forall>h \<in> set (fst (ss_tar_entries example_skills t)). lands_below dest [''root'', ''.claude'', ''skills'', ''pdf''] h))"
proof -
  let ?a = "\<lparr>rd_data = ''ztar'', rd_err = None\<rparr>"
  have d: "decompressAndValidate example_skills ?a = Inr ''tar''"
    by (rule example_accepted)
  have e: "path_IsAbs (ss_skillsDir example_skills)" "path_elems (ss_skillsDir example_skills) = [''root'', ''.claude'', ''skills'']"
    by (simp_all add: example_skills_def path_IsAbs_def strings_HasPrefix_def path_elems_def clean_elems.simps)
  have i: "\<exists>w'. InstallSkillToEnvironment memory_store mock_engine example_skills ''env_a'' (ex_tenant ''alice'') ''pdf'' ?a ex_world = (None, w')"
    by (simp add: InstallSkillToEnvironment_def d validateSkillName_def is_alnum_def SkillService_getRunningEnv_def memory_store_def
        on_store_def ex_world_def ex_memory_def ex_heap_def ex_env_def on_engine_def mock_engine_def
        MockEngine_ExtractArchive_def run_mock_def ex_mock_def Let_def deref_def)
  then obtain w' where w: "InstallSkillToEnvironment memory_store mock_engine example_skills ''env_a'' (ex_tenant ''alice'') ''pdf'' ?a ex_world = (None, w')"
    by blast
  from install_confined [OF e(1) w] show ?thesis using w unfolding e(2) by auto
qed

section \<open>Containers and files\<close>

text \<open>C15: no request, whoever sends it and whatever it asks for, makes the service create a container
  on the Docker daemon that is not confined: a property of the daemon's state that survives every
  call of the Docker client, creating containers only when they are labelled as managed,
  unprivileged, without capabilities beyond binding low ports, with at most 256 processes, between
  128 MB and 8 GB of memory without swap and between a tenth of a CPU and four, survives the
  request.\<close>

theorem containers_confined:
  assumes "client_keeps P C" and "P (w_eng w)" and "api_engine d = docker_engine C F" and "api_store d = sql_store"
    and "sql_inv (w_mem w)" and "fresh_IDs (api_uuid d) (sql_abs (w_mem w))" and "uuid_ok (api_hashing d)"
    and "NewRouter d (New (api_hashing d) keys) r w = (out, w')"
  shows "P (w_eng w')"
  using sql_svc.router_engine [where P = P, OF _ assms(2,5,4,6-8)] docker_engine_keeps [OF assms(1)] assms(3) by simp

theorem containers_confined_witness:
  "\<exists>out w'. NewRouter (ex_docker_api sql_store) (New ex_hashing [''alice''])
      (ex_request ''POST'' ''/v1/environments/'' ''Bearer alice'') ex_docker_world = (out, w') \<and>
     (\<forall>(c, hc) \<in> set (dm_containers (w_eng w')). confined hc)"
proof -
  let ?P = "\<lambda>d. \<forall>(c, hc) \<in> set (dm_containers d). confined hc"
  obtain out w' where r: "NewRouter (ex_docker_api sql_store) (New ex_hashing [''alice''])
      (ex_request ''POST'' ''/v1/environments/'' ''Bearer alice'') ex_docker_world = (out, w')" by (meson surj_pair)
  have "?P (w_eng ex_docker_world)" "sql_inv (w_mem ex_docker_world)"
      "fresh_IDs (api_uuid (ex_docker_api sql_store)) (sql_abs (w_mem ex_docker_world))"
    by (simp_all add: ex_docker_world_def)
  with containers_confined [where P = ?P and d = "ex_docker_api sql_store" and keys = "[''alice'']" and out = out and w' = w',
      OF ex_client_keeps, of ex_docker_world ex_formats] r
  have "?P (w_eng w')" by simp
  with r show ?thesis by blast
qed

text \<open>C16: a file written through the API is read back through the API unchanged, also under another
  spelling of its path: with a Docker daemon that keeps the files it is given, a successful write by
  the owner of a running environment is followed by a successful read of exactly the bytes of the
  request body.\<close>

theorem file_roundtrip:
  assumes "keeps_files C F files" and "mem_inv (w_mem w)" and "a_envs (mem_abs (w_mem w)) i = Some e"
    and "env_UserID e = u" and "u \<noteq> []" and "env_Status e = StatusRunning"
    and "FileService_WriteFile memory_store (docker_engine C F) bound now i u raw body w = (None, w')"
    and "readAllMax body bound = Inr data" and "sanitizePath raw' = sanitizePath raw" and "raw' \<noteq> []"
    and "sanitizePath raw \<noteq> Inr ''/''"
  shows "\<exists>path w''. FileService_ReadFile memory_store (docker_engine C F) now' i u raw' w' =
    (Inr (path, \<lparr>rd_data = data, rd_err = None\<rparr>), w'')"
  using assms by (rule service_roundtrip)

theorem file_roundtrip_witness:
  "\<exists>w' path w''. FileService_WriteFile memory_store (docker_engine ex_client ex_formats) 104857600 0 ''env_a'' (ex_tenant ''alice'')
       ''/workspace/a.txt'' \<lparr>rd_data = ''hi'', rd_err = None\<rparr> ex_file_world = (None, w') \<and>
     FileService_ReadFile memory_store (docker_engine ex_client ex_formats) 0 ''env_a'' (ex_tenant ''alice'')
       ''workspace/./a.txt'' w' = (Inr (path, \<lparr>rd_data = ''hi'', rd_err = None\<rparr>), w'')"
proof -
  let ?b = "\<lparr>rd_data = ''hi'', rd_err = None\<rparr>"
  have b: "readAllMax ?b 104857600 = Inr ''hi''"
    using readAllMax_even [of 104857600 ?b "''hi''"] by (simp add: in_int64_def)
  obtain w' where r: "FileService_WriteFile memory_store (docker_engine ex_client ex_formats) 104857600 0 ''env_a'' (ex_tenant ''alice'')
       ''/workspace/a.txt'' ?b ex_file_world = (None, w')" using ex_write by blast
  from file_roundtrip [OF ex_keeps_files ex_file_world_ok ex_env_fields(1,4,2) r b, of "''workspace/./a.txt''" 0] ex_paths r
  show ?thesis by auto
qed

text \<open>C27: a file written with the SDK is read back with the SDK unchanged, across the whole system: the
  client's URL and query escaping, the authentication of the key and of the end user, the router, the
  file service, the tar archive and Docker's copy.  The daemon keeps the files it is given and the
  network works for the read; chi routes the path of the file endpoint as the route table says.\<close>

theorem sdk_file_roundtrip:
  assumes "uuid_ok (api_hashing d)" and "api_store d = memory_store" and "api_engine d = docker_engine C F"
    and "keeps_files C F files" and "mem_inv (w_mem w)" and "a_envs (mem_abs (w_mem w)) i = Some e"
    and "env_UserID e = user_of (api_hashing d) (cl_apiKey c) (cl_endUserID c)" and "env_Status e = StatusRunning"
    and "cl_apiKey c \<in> set keys" and "cl_apiKey c \<noteq> []" and "plain_id i"
    and "api_match d routes ''PUT'' (content_path i) = Some (Files_Write, i)"
    and "api_match d routes ''GET'' (content_path i) = Some (Files_Read, i)"
    and "\<And>m url. gl_NewRequest G m url = None" and "\<And>req. gl_before G req = None" and "\<And>req. gl_after G req = None"
    and "Client_WriteFile (loopback G d keys (cl_baseURL c)) J c i path content w = (Inr (), w')"
    and "sanitizePath path \<noteq> Inr ''/''"
  shows "fst (Client_ReadFile (loopback G d keys (cl_baseURL c)) J c i path w') = Inr content"
proof -
  let ?u = "user_of (api_hashing d) (cl_apiKey c) (cl_endUserID c)"
  have u: "?u \<noteq> []" using assms(1) by (simp add: user_of_def tenant_of_def deriveUserID_def uuid_ok_def)
  note w = sdk_write_served [OF assms(1,9,10,11,12,17), unfolded assms(2,3)]
  note r = service_write_reads [OF assms(5,6,7,8) w]
  obtain data where data: "readAllMax \<lparr>rd_data = content, rd_err = None\<rparr> (maxFileUploadBytes d) = Inr data" using r(2) by blast
  have "data = content"
    using upload_data [OF data] by simp
  with service_roundtrip [OF assms(4-7) u assms(8) w data refl r(1) assms(18), of "api_now d"] obtain p w'' where
    "FileService_ReadFile (api_store d) (api_engine d) (api_now d) i ?u path w' = (Inr (p, \<lparr>rd_data = content, rd_err = None\<rparr>), w'')"
    by (auto simp: assms(2,3))
  from sdk_read_served [OF assms(1,9,10,11,13,14,15,16) this] show ?thesis by simp
qed

theorem sdk_file_roundtrip_witness:
  "\<exists>w'. Client_WriteFile (loopback ex_glue ex_file_api [''alice''] (cl_baseURL ex_sdk)) ex_codecs ex_sdk ''env_a'' ''/workspace/a.txt'' ''hi''
      ex_file_world = (Inr (), w') \<and>
    fst (Client_ReadFile (loopback ex_glue ex_file_api [''alice''] (cl_baseURL ex_sdk)) ex_codecs ex_sdk ''env_a'' ''/workspace/a.txt'' w') = Inr ''hi''"
proof -
  have p: "plain_id ''env_a''" by (simp add: plain_id_def)
  obtain w' where w: "FileService_WriteFile memory_store (docker_engine ex_client ex_formats) 104857600 (api_now ex_file_api) ''env_a''
      (ex_tenant ''alice'') ''/workspace/a.txt'' \<lparr>rd_data = ''hi'', rd_err = None\<rparr> ex_file_world = (None, w')"
    using ex_write by blast
  have c: "Client_WriteFile (loopback ex_glue ex_file_api [''alice''] (cl_baseURL ex_sdk)) ex_codecs ex_sdk ''env_a'' ''/workspace/a.txt'' ''hi''
      ex_file_world = (Inr (), w')"
    by (rule sdk_write_ok) (simp_all add: p w)
  have "fst (Client_ReadFile (loopback ex_glue ex_file_api [''alice''] (cl_baseURL ex_sdk)) ex_codecs ex_sdk ''env_a'' ''/workspace/a.txt'' w') = Inr ''hi''"
    by (rule sdk_file_roundtrip [OF _ _ _ ex_keeps_files ex_file_world_ok _ _ _ _ p _ _ _ _ _ c])
      (simp_all add: ex_env_fields ex_paths)
  with c show ?thesis by blast
qed

text \<open>C18: uploads are bounded.  With a limit of at most 2 to the 43 megabytes (more would wrap), an upload
  that succeeds had a body of at most that many megabytes and gave the engine all of it; one that
  fails for another reason than the engine's writing left the engine alone, and a body that could be
  read and fits is never the reason.\<close>

theorem upload_limit:
  assumes "0 \<le> cfg_MaxFileUploadMB (api_cfg d)" and "cfg_MaxFileUploadMB (api_cfg d) < 2 ^ 43"
  shows "maxFileUploadBytes d = cfg_MaxFileUploadMB (api_cfg d) * 2 ^ 20 \<and>
    (case FileService_WriteFile S E (maxFileUploadBytes d) now i u raw body w of
       (None, w') \<Rightarrow> rd_err body = None \<and> int (length (rd_data body)) \<le> cfg_MaxFileUploadMB (api_cfg d) * 2 ^ 20 \<and>
         (\<exists>cid path. sanitizePath raw = Inr path \<and> eng_WriteFile E cid path (rd_data body) (w_eng w) = (None, w_eng w'))
     | (Some e, w') \<Rightarrow> (errors_Is e ErrWriteFile \<or> w_eng w' = w_eng w) \<and>
         (errors_Is e ErrReadRequestBody \<longrightarrow> rd_err body \<noteq> None \<or> int (length (rd_data body)) > cfg_MaxFileUploadMB (api_cfg d) * 2 ^ 20))"
    (is "?size \<and> ?outcome")
proof
  show size: ?size
    using assms by (simp add: maxFileUploadBytes_def shl64_def wrap64_id in_int64_def)
  have b: "in_int64 (maxFileUploadBytes d)" "even (maxFileUploadBytes d)" "0 \<le> maxFileUploadBytes d"
    using assms by (simp_all add: size in_int64_def)
  have rd: "readAllMax body (maxFileUploadBytes d) = Inr data \<longleftrightarrow> rd_data body = data \<and> rd_err body = None \<and>
      int (length (rd_data body)) \<le> cfg_MaxFileUploadMB (api_cfg d) * 2 ^ 20" for data
    using readAllMax_even [OF b(1,2), of body data] b(3) size by auto
  have g: "w_eng w1 = w_eng w" if "getRunningEnv S i u w = (q, w1)" for q w1
    using that by (rule running_eng)
  have ge: "\<not> errors_Is e ErrReadRequestBody" if "getRunningEnv S i u w = (Inl e, w1)" for e w1
    using that by (auto simp: getRunningEnv_def lookup_error_def split: prod.splits sum.splits if_splits)
  show ?outcome
  proof (cases "getRunningEnv S i u w")
    case (Pair q w1)
    show ?thesis
    proof (cases q)
      case (Inl e)
      with Pair g [OF Pair] ge show ?thesis by (simp add: FileService_WriteFile_def)
    next
      case (Inr p)
      show ?thesis
      proof (cases "readAllMax body (maxFileUploadBytes d)")
        case (Inl e)
        then have "rd_err body \<noteq> None \<or> int (length (rd_data body)) > cfg_MaxFileUploadMB (api_cfg d) * 2 ^ 20"
          using rd [of "rd_data body"] by auto
        with Inl Inr Pair g [OF Pair] show ?thesis
          by (auto simp: FileService_WriteFile_def split: sum.splits)
      next
        case (Inr data)
        with rd [of data] \<open>q = Inr p\<close> Pair g [OF Pair] show ?thesis
          by (auto simp: FileService_WriteFile_def on_engine_def split: sum.splits prod.splits option.splits)
      qed
    qed
  qed
qed

theorem upload_limit_witness:
  "case FileService_WriteFile memory_store (docker_engine ex_client ex_formats) (maxFileUploadBytes ex_file_api) 0 ''env_a''
       (ex_tenant ''alice'') ''/workspace/a.txt'' \<lparr>rd_data = ''hi'', rd_err = None\<rparr> ex_file_world of
     (r, w') \<Rightarrow> r = None \<and> (\<exists>cid. eng_WriteFile (docker_engine ex_client ex_formats) cid ''/workspace/a.txt'' ''hi'' (w_eng ex_file_world) = (None, w_eng w'))"
proof -
  have mb: "cfg_MaxFileUploadMB (api_cfg ex_file_api) = 100"
    by (simp add: ex_file_api_def ex_docker_api_def ex_cfg_def Load_def envOrDefaultInt_def)
  obtain w' where w: "FileService_WriteFile memory_store (docker_engine ex_client ex_formats) 104857600 0 ''env_a'' (ex_tenant ''alice'')
       ''/workspace/a.txt'' \<lparr>rd_data = ''hi'', rd_err = None\<rparr> ex_file_world = (None, w')" using ex_write by blast
  from upload_limit [where d = ex_file_api and S = memory_store and E = "docker_engine ex_client ex_formats" and now = 0
      and i = "''env_a''" and u = "ex_tenant ''alice''" and raw = "''/workspace/a.txt''"
      and body = "\<lparr>rd_data = ''hi'', rd_err = None\<rparr>" and w = ex_file_world] w mb
  show ?thesis by (simp add: ex_paths)
qed

text \<open>A command run with the SDK gives back what it printed and its exit code: whatever frames the
  container writes to its two streams, in whatever order, the client's result has the bytes of each
  stream in order and the exit code in decimal, provided every event fits into a line of the client's
  scanner.\<close>

theorem sdk_exec_result:
  assumes "uuid_ok (api_hashing d)" and "api_store d = memory_store" and "mem_inv (w_mem w)"
    and "a_envs (mem_abs (w_mem w)) i = Some e" and "env_UserID e = user_of (api_hashing d) (cl_apiKey c) (cl_endUserID c)"
    and "env_Status e = StatusRunning" and "cl_apiKey c \<in> set keys" and "cl_apiKey c \<noteq> []" and "plain_id i"
    and "api_match d routes ''POST'' (exec_path i) = Some (route.Exec, i)"
    and "\<And>m url. gl_NewRequest G m url = None" and "\<And>req. gl_before G req = None" and "\<And>req. gl_after G req = None"
    and "js_exec J req = Inr data" and "api_decode_exec d (MaxBytesReader \<lparr>rd_data = data, rd_err = None\<rparr> maxBodySize) = Inr (req', False)"
    and "er_Command req' \<noteq> []"
    and "eng_Exec (api_engine d) (env_ContainerID e) req' (w_eng w) =
      (Inr \<lparr>xr_reader = \<lparr>rd_data = concat (map frame fs), rd_err = None\<rparr>, xr_execID = Some x\<rparr>, eng1)"
    and "\<forall>f \<in> set fs. frame_ok f" and "eng_ExecExitCode (api_engine d) x eng1 = (Inr code, eng2)"
    and "\<forall>ev \<in> set (command_events fs code). event_codec J (gl_event G) ev \<and> length (gl_event G ev) < 65536"
  shows "\<exists>w'. Client_Exec (loopback G d keys (cl_baseURL c)) J c i req w =
    (Inr \<lparr>res_Stdout = concat (map snd (filter (\<lambda>f. fst f \<noteq> 2) fs)), res_Stderr = concat (map snd (filter (\<lambda>f. fst f = 2) fs)),
      res_ExitCode = show_int code\<rparr>, w') \<and> w_eng w' = eng2"
proof -
  have sc: "scoped (user_of (api_hashing d) (cl_apiKey c) (cl_endUserID c)) (env_UserID e)" using assms(5) by simp
  obtain p w1 session w2 w3 where
    s: "PrepareExec (api_store d) i (user_of (api_hashing d) (cl_apiKey c) (cl_endUserID c)) w = (Inr p, w1)"
      "StartExec (api_store d) (api_engine d) (api_now d) p req' w1 = (Inr session, w2)"
      "xs_Reader session = \<lparr>rd_data = concat (map frame fs), rd_err = None\<rparr>"
      "ExitCode (api_engine d) session w2 = ((code, True), w3)" and e: "w_eng w3 = eng2"
    using mem_svc.exec_service_ok [OF assms(3) TrueI assms(4) sc assms(6,16,17,19), of "api_now d"] unfolding assms(2) by blast
  show ?thesis
    using sdk_exec_served [OF assms(1,7-13) s(1) assms(14,15) s(2,3) assms(18) s(4) assms(20)] e by blast
qed

theorem sdk_exec_result_witness:
  "\<exists>w'. Client_Exec (loopback ex_glue ex_exec_api [''alice''] (cl_baseURL ex_sdk)) ex_codecs ex_sdk ''env_a'' ex_command ex_exec_world =
    (Inr \<lparr>res_Stdout = ''output'', res_Stderr = ''err'', res_ExitCode = ''7''\<rparr>, w')"
proof -
  have p: "plain_id ''env_a''" by (simp add: plain_id_def)
  have "\<exists>w'. Client_Exec (loopback ex_glue ex_exec_api [''alice''] (cl_baseURL ex_sdk)) ex_codecs ex_sdk ''env_a'' ex_command ex_exec_world =
    (Inr \<lparr>res_Stdout = concat (map snd (filter (\<lambda>f. fst f \<noteq> 2) ex_frames)), res_Stderr = concat (map snd (filter (\<lambda>f. fst f = 2) ex_frames)),
      res_ExitCode = show_int 7\<rparr>, w') \<and> w_eng w' = ex_exec_mock"
    by (rule sdk_exec_result [where e = "ex_env ''env_a'' ''alice'' ''ca''" and req' = ex_command and data = "[]"
          and x = "''x''" and ?eng1.0 = ex_exec_mock])
      (use p ex_file_world_ok ex_exec_events in \<open>simp_all add: ex_env_fields ex_exec_run ex_command_def ex_codecs_def ex_frames_def frame_ok_def\<close>)
  then show ?thesis by (auto simp: ex_frames_def show_seven)
qed

text \<open>C31: a terminal delivers, up to UTF-8: as long as the client stays and its input can be written, every
  piece of output the server read from the terminal reaches the client in a text frame of its own, in
  order, with its bytes repaired to UTF-8, and then the exit code the engine answers at that moment (-1
  if it does not), and then the connection ends.  The output the client puts together is the one that
  was printed exactly if every single piece is UTF-8: a character whose bytes are in two pieces is
  lost.\<close>

theorem terminal_delivers:
  assumes "on_store (sto_Get S i (UserIDFromContext r)) w = (Inr env, w1)" and "env_Status (deref env w1) = StatusRunning"
    and "on_engine (eng_ExecInteractive E (env_ContainerID (deref env w1)) (terminal_request r)) w1 = (Inr session, w2)"
    and "rq_Writes r = None" and "\<forall>d e. \<exists>k. fst (ses_Write session d e) = Inr k"
    and "\<forall>ev \<in> set pre. ev \<notin> {PtyEnd, ClientGone, Ping False}"
  shows "let st = ws_run S E None env session pre (ws_fresh S env now w2);
      code = exit_code (fst (eng_ExecExitCode E (ses_ExecID session) (w_eng (ws_world st))))
    in \<exists>frames. fst (Exec_WS.ExecWS S E now None (pre @ PtyEnd # post) i r w) =
        Response \<lparr>rs_Status = 101, rs_Header = [], rs_Body = Messages frames\<rparr> \<and>
      map read_frame frames = map (\<lambda>d. Inr (out_msg (to_valid d))) (pty_outputs pre) @ [Inr (exit_msg code)] \<and>
      (read_output frames = concat (pty_outputs pre) \<longleftrightarrow> (\<forall>d \<in> set (pty_outputs pre). utf8 d))"
proof -
  have "ws_alive (ws_fresh S env now w2)" by (simp add: ws_alive_def)
  note d = ws_run_delivers [OF this assms(5,6), of S E env post]
  show ?thesis
    unfolding ExecWS_session [OF assms(1-3)] assms(4) Let_def d fst_conv
    by (intro exI conjI) (rule refl, simp_all add: comp_def read_output_sent [unfolded comp_def] repaired_stream)
qed

text \<open>A character in two pieces of the output, and some input in between.\<close>

definition ex_input_text :: bytes where
  "ex_input_text = CHR ''{'' # json_quote ''type'' @ '':'' @ json_quote ''input'' @ '','' @ json_quote ''data'' @ '':'' @
     json_quote ''exit'' @ ''}''"

theorem terminal_delivers_witness:
  "\<exists>frames. fst (Exec_WS.ExecWS memory_store mock_engine 0 None
      [PtyOutput ''hi'', ClientMessage ex_input_text, PtyOutput [CHR 0xC3], PtyOutput [CHR 0xA9], PtyEnd, ClientGone] ''env_a''
      (authenticated (ex_api memory_store) (ex_tenant ''alice'') (ex_tenant ''alice'') (ex_request ''GET'' [] [])) ex_world) =
    Response \<lparr>rs_Status = 101, rs_Header = [], rs_Body = Messages frames\<rparr> \<and>
    map read_frame frames = [Inr (out_msg ''hi''), Inr (out_msg replacement), Inr (out_msg replacement), Inr (exit_msg 0)]"
proof -
  let ?r = "authenticated (ex_api memory_store) (ex_tenant ''alice'') (ex_tenant ''alice'') (ex_request ''GET'' [] [])"
  let ?ses = "mockInteractiveSession :: unit MockEngine InteractiveSession"
  let ?pre = "[PtyOutput ''hi'', ClientMessage ex_input_text, PtyOutput [CHR 0xC3], PtyOutput [CHR 0xA9]]"
  have g: "on_store (sto_Get memory_store ''env_a'' (UserIDFromContext ?r)) ex_world = (Inr 0, ex_world)"
    by (simp add: memory_store_def on_store_def ex_world_def ex_memory_def NewMemoryStore_def ex_heap_def ex_env_def)
  have s: "env_Status (deref 0 ex_world) = StatusRunning" by (simp add: deref_def ex_world_def ex_heap_def ex_env_def)
  have x: "on_engine (eng_ExecInteractive mock_engine c q) ex_world = (Inr mockInteractiveSession, ex_world)" for c q
    by (simp add: on_engine_def mock_engine_def MockEngine_ExecInteractive_def ex_world_def ex_mock_def)
  have w: "rq_Writes ?r = None" by (simp add: authenticated_def identified_def ex_request_def)
  have k: "\<forall>d e. \<exists>k. fst (ses_Write (mockInteractiveSession :: unit MockEngine InteractiveSession) d e) = Inr k"
    by (simp add: mockInteractiveSession_def)
  let ?st = "ws_run memory_store mock_engine None 0 mockInteractiveSession ?pre (ws_fresh memory_store 0 0 ex_world)"
  have step: "w_eng (ws_world (ws_step memory_store mock_engine None 0 ?ses ev st)) = w_eng (ws_world st)"
    if "ev \<in> set ?pre" for ev and st :: "(MemoryStore, unit MockEngine) ws_state"
    using that by (auto simp: ws_output_def ws_input_def wsSend_def on_ws_engine_def on_engine_def closeAll_def mockInteractiveSession_def
        split: sum.split)
  have run: "w_eng (ws_world (ws_run memory_store mock_engine None 0 ?ses evs st)) = w_eng (ws_world st)"
    if "set evs \<subseteq> set ?pre" for evs and st :: "(MemoryStore, unit MockEngine) ws_state"
    using that by (induction evs arbitrary: st) (simp_all only: ws_run_def fold.simps comp_def id_def set_simps insert_subset step)
  have "w_eng (ws_world ?st) = ex_mock"
    unfolding run [OF subset_refl] by (simp add: ex_world_def)
  then have c: "exit_code (fst (eng_ExecExitCode mock_engine (ses_ExecID ?ses) (w_eng (ws_world ?st)))) = 0"
    by (simp add: exit_code_def mock_engine_def MockEngine_ExecExitCode_def run_mock_def ex_mock_def)
  have o: "map (\<lambda>d. Inr (out_msg (to_valid d)) :: goerr + WSOutputMessage) (pty_outputs ?pre) @ [Inr (exit_msg 0)] =
      [Inr (out_msg ''hi''), Inr (out_msg replacement), Inr (out_msg replacement), Inr (exit_msg 0)]"
    by (simp add: ex_split_repaired)
  have p: "\<forall>ev \<in> set ?pre. ev \<notin> {PtyEnd, ClientGone, Ping False}" by simp
  from terminal_delivers [OF g s x w k p, of 0 "[ClientGone]", unfolded Let_def c o append.simps] show ?thesis by (elim exE conjE, intro exI conjI)
qed

text \<open>C25: the MCP server that a started service embeds keeps tenants apart.  A request without a
  configured key is answered 401 and changes nothing; whatever the tools and resources that are called
  for an authenticated one do, for whichever end users and however the network fails, the records of
  every user who is not of the presented key's tenant are untouched.  The transports are the MCP
  library's, of which only that they call tools and resources with the request's context is
  assumed.\<close>

theorem mcp_isolation:
  assumes "haas_main P = Inr sv" and "uuid_ok (pf_hashing P)" and "mem_inv (w_mem w)"
    and "serves_sessions (pf_hashing P) memory_store mem_abs (sv_mcp_keys sv) (sv_mcp sv) L"
    and "ServeStreamableHTTP (pf_hashing P) L (sv_mcp_addr sv) (sv_mcp_keys sv) r w = (out, w')"
  shows "case presented_key (pf_hashing P) (cfg_APIKeys (sv_cfg sv)) r of
      None \<Rightarrow> out = Response mcp_unauthorized \<and> w' = w
    | Some k \<Rightarrow> mem_inv (w_mem w') \<and>
        (\<forall>u. u \<notin> identities (pf_hashing P) k \<longrightarrow> theirs u (mem_abs (w_mem w')) = theirs u (mem_abs (w_mem w)))"
proof -
  note k = haas_main_keys [OF assms(1)]
  have keys: "sv_mcp_keys sv \<noteq> []" "srv_apiKeys (sv_mcp sv) = sv_mcp_keys sv" using k by simp_all
  from mem_svc.endpoint_keeps_others [OF assms(2,3) keys assms(4,5)] k(3) show ?thesis
    by (simp add: mem_svc.spares_def split: option.splits)
qed

theorem mcp_isolation_witness:
  "\<exists>sv. haas_main ex_platform = Inr sv \<and>
    (let w' = snd (ServeStreamableHTTP ex_hashing (ex_destroying (sv_mcp_keys sv) (sv_mcp sv)) (sv_mcp_addr sv) (sv_mcp_keys sv)
        (ex_mcp_request ''/'' ''Bearer alice'') ex_world)
     in theirs (ex_tenant ''bob'') (mem_abs (w_mem w')) = theirs (ex_tenant ''bob'') (mem_abs (w_mem ex_world)))"
proof -
  obtain sv where sv: "haas_main ex_platform = Inr sv" "cfg_APIKeys (sv_cfg sv) = [''alice'', ''bob'']" using ex_started by blast
  let ?r = "ex_mcp_request ''/'' ''Bearer alice''"
  have H: "pf_hashing ex_platform = ex_hashing" by (simp add: ex_platform_def)
  have p: "presented_key ex_hashing [''alice'', ''bob''] ?r = Some ''alice''"
    by (simp add: presented_key_def ex_mcp_request_def strings_HasPrefix_def ex_hashing_def numeral_eq_Suc)
  have b: "ex_tenant ''bob'' \<notin> identities ex_hashing ''alice''"
    by (auto simp: identities_def user_of_def tenant_of_def deriveUserID_def HashKey_def ex_hashing_def ex_tenant_def haasNamespace_def)
  show ?thesis
    using mcp_isolation [OF sv(1), of ex_world "ex_destroying (sv_mcp_keys sv) (sv_mcp sv)" ?r, OF _ _ _ prod.collapse [symmetric]]
      sv p b ex_serves by (intro exI [of _ sv]) (simp add: H Let_def)
qed

end
